(* ===== verification/Esp_Prelude.thy ===== *)
theory Esp_Prelude
  imports Main "HOL-Library.Word" "HOL-Library.Monad_Syntax"
begin

text \<open>
  Shared ground of the development: the model of the \<^verbatim>\<open>std::string\<close> operations the sources use (positions are \<open>nat option\<close>, with
  \<open>None\<close> for \<^verbatim>\<open>std::string::npos\<close>), the \<^verbatim>\<open>std::getline\<close> loop that several components use
  to split a string, and generic lemmas on lists that the component proofs share.
\<close>

section \<open>Strings as the sources use them\<close>

text \<open>\<^verbatim>\<open>s.find(c)\<close> and \<^verbatim>\<open>s.find_first_of(c)\<close>: the first position that holds the character.\<close>

fun str_find :: "char \<Rightarrow> string \<Rightarrow> nat option" where
  "str_find c [] = None"
| "str_find c (x # xs) = (if x = c then Some 0 else map_option Suc (str_find c xs))"

text \<open>\<^verbatim>\<open>s.find_last_of(c)\<close>: the last position that holds the character.\<close>

fun str_rfind :: "char \<Rightarrow> string \<Rightarrow> nat option" where
  "str_rfind c [] = None"
| "str_rfind c (x # xs) =
     (case str_rfind c xs of
        Some i \<Rightarrow> Some (Suc i)
      | None \<Rightarrow> if x = c then Some 0 else None)"

text \<open>The C string of \<^verbatim>\<open>s.c_str()\<close>, which ends at the first NUL.\<close>

definition c_string :: "string \<Rightarrow> string" where
  "c_string s = takeWhile (\<lambda>c. c \<noteq> CHR 0x00) s"

text \<open>\<^verbatim>\<open>s.substr(0, pos)\<close>, where \<^verbatim>\<open>npos\<close> takes the whole string.\<close>

definition substr_to :: "string \<Rightarrow> nat option \<Rightarrow> string" where
  "substr_to s pos = (case pos of None \<Rightarrow> s | Some i \<Rightarrow> take i s)"

text \<open>
  The loop \<^verbatim>\<open>while (std::getline(ss, item, delim)) elems.push_back(item);\<close>: the text before
  each delimiter is an element, and the text after the last delimiter is one only when it
  is not empty.
\<close>

function split_string :: "char \<Rightarrow> string \<Rightarrow> string list" where
  "split_string d s =
     (if s = [] then []
      else takeWhile (\<lambda>c. c \<noteq> d) s #
           split_string d (drop 1 (dropWhile (\<lambda>c. c \<noteq> d) s)))"
  by pat_completeness auto
termination
proof (relation "measure (\<lambda>(d, s). length s)", goal_cases)
  case (2 d s)
  have "length (dropWhile (\<lambda>c. c \<noteq> d) s) \<le> length s"
    by (rule length_dropWhile_le)
  then show ?case using 2 by (cases s) auto
qed simp

declare split_string.simps [simp del]

lemma split_string_Nil [simp]: "split_string d [] = []"
  by (simp add: split_string.simps)

lemma split_string_no_delim: "x \<in> set (split_string d s) \<Longrightarrow> d \<notin> set x"
proof (induction d s rule: split_string.induct)
  case (1 d s)
  show ?case
  proof (cases "s = []")
    case False
    with "1.prems" have "x = takeWhile (\<lambda>c. c \<noteq> d) s \<or>
        x \<in> set (split_string d (drop 1 (dropWhile (\<lambda>c. c \<noteq> d) s)))"
      by (simp add: split_string.simps [of d s])
    then show ?thesis
      using "1.IH" False by (auto dest: set_takeWhileD)
  qed (use "1.prems" in simp)
qed

text \<open>Splitting the joined elements gives them back, once the last one is not empty.\<close>

fun join_string :: "char \<Rightarrow> string list \<Rightarrow> string" where
  "join_string d [] = []"
| "join_string d [x] = x"
| "join_string d (x # y # ys) = x @ d # join_string d (y # ys)"

lemma split_join_string:
  "\<lbrakk>\<forall>x \<in> set xs. d \<notin> set x; xs \<noteq> []; last xs \<noteq> []\<rbrakk> \<Longrightarrow>
     split_string d (join_string d xs) = xs"
proof (induction d xs rule: join_string.induct)
  case (2 d x)
  then have "takeWhile (\<lambda>c. c \<noteq> d) x = x" "dropWhile (\<lambda>c. c \<noteq> d) x = []" "x \<noteq> []"
    by (auto intro!: takeWhile_eq_all_conv [THEN iffD2])
  then show ?case by (simp add: split_string.simps [of d x] del: dropWhile_eq_Nil_conv)
next
  case (3 d x y ys)
  then have x: "\<forall>c \<in> set x. c \<noteq> d" by auto
  then have "takeWhile (\<lambda>c. c \<noteq> d) (x @ d # join_string d (y # ys)) = x"
    "dropWhile (\<lambda>c. c \<noteq> d) (x @ d # join_string d (y # ys)) = d # join_string d (y # ys)"
    by (simp_all add: takeWhile_append2 dropWhile_append2)
  with 3 show ?case
    by (simp add: split_string.simps [of d "x @ d # join_string d (y # ys)"])
qed simp

section \<open>Characters and numbers\<close>

text \<open>\<^verbatim>\<open>isspace\<close> and \<^verbatim>\<open>isdigit\<close> in the C locale, and the value of a string of digits.\<close>

definition is_space :: "char \<Rightarrow> bool" where
  "is_space c \<longleftrightarrow> (let x = of_char c :: nat in x = 32 \<or> (9 \<le> x \<and> x \<le> 13))"

definition is_digit :: "char \<Rightarrow> bool" where
  "is_digit c \<longleftrightarrow> (let x = of_char c :: nat in 48 \<le> x \<and> x \<le> 57)"

definition digits_value :: "string \<Rightarrow> int" where
  "digits_value ds = foldl (\<lambda>n c. 10 * n + (of_char c - 48)) 0 ds"

lemma digits_value_nonneg: "\<forall>d \<in> set ds. is_digit d \<Longrightarrow> 0 \<le> digits_value ds"
proof -
  have "\<lbrakk>0 \<le> n; \<forall>d \<in> set ds. is_digit d\<rbrakk> \<Longrightarrow> 0 \<le> foldl (\<lambda>n c. 10 * n + (of_char c - 48)) n ds" for n :: int
  proof (induction ds arbitrary: n)
    case (Cons c ds)
    have "(48::nat) \<le> of_char c" using Cons.prems by (simp add: is_digit_def Let_def)
    then have "(48::int) \<le> of_char c" by (metis of_nat_le_iff of_nat_numeral of_nat_of_char)
    then show ?case using Cons by simp
  qed simp
  then show "\<forall>d \<in> set ds. is_digit d \<Longrightarrow> 0 \<le> digits_value ds" by (simp add: digits_value_def)
qed

section \<open>Printing numbers\<close>

text \<open>\<^verbatim>\<open>std::to_string\<close> and \<^verbatim>\<open>ostream << int\<close>: decimal digits, with a minus sign.\<close>

definition digit_char :: "nat \<Rightarrow> char" where
  "digit_char d = char_of (48 + d)"

fun show_nat :: "nat \<Rightarrow> string" where
  "show_nat n = (if n < 10 then [digit_char n] else show_nat (n div 10) @ [digit_char (n mod 10)])"

declare show_nat.simps [simp del]

definition show_int :: "int \<Rightarrow> string" where
  "show_int i = (if i < 0 then CHR ''-'' # show_nat (nat (- i)) else show_nat (nat i))"

lemma digit_char: "d < 10 \<Longrightarrow> is_digit (digit_char d) \<and> of_char (digit_char d) = (48 + int d)"
proof -
  assume "d < 10"
  moreover have "list_all (\<lambda>d. is_digit (digit_char d) \<and> of_char (digit_char d) = (48 + int d)) [0..<10]"
    by code_simp
  ultimately show ?thesis by (auto simp: list_all_iff)
qed

lemma digits_value_snoc: "digits_value (ds @ [d]) = 10 * digits_value ds + (of_char d - 48)"
  by (simp add: digits_value_def)

lemma show_nat_digits: "show_nat n \<noteq> [] \<and> (\<forall>c \<in> set (show_nat n). is_digit c) \<and> digits_value (show_nat n) = int n"
proof (induction n rule: show_nat.induct)
  case (1 n)
  show ?case
  proof (cases "n < 10")
    case True
    then show ?thesis
      using digit_char [of n] by (subst (1 2 3) show_nat.simps) (simp add: digits_value_def)
  next
    case False
    then have "int n = 10 * int (n div 10) + int (n mod 10)" by (metis div_mult_mod_eq mult.commute of_nat_add of_nat_mult of_nat_numeral)
    then show ?thesis
      using 1 [OF False] False digit_char [of "n mod 10"]
      by (subst (1 2 3) show_nat.simps) (auto simp: digits_value_snoc)
  qed
qed

lemma split_string_Cons:
  "d \<notin> set x \<Longrightarrow> split_string d (x @ d # s) = x # split_string d s"
proof -
  assume "d \<notin> set x"
  then have "takeWhile (\<lambda>c. c \<noteq> d) (x @ d # s) = x" "dropWhile (\<lambda>c. c \<noteq> d) (x @ d # s) = d # s"
    by (induction x) auto
  then show ?thesis by (subst split_string.simps) simp
qed

lemma str_find_append: "c \<notin> set x \<Longrightarrow> str_find c (x @ c # s) = Some (length x)"
  by (induction x) auto

section \<open>Lists\<close>

lemma str_find_Some: "str_find c s = Some i \<Longrightarrow> i < length s \<and> s ! i = c \<and> c \<notin> set (take i s)"
  by (induction s arbitrary: i) (auto split: if_splits)

lemma str_find_None: "str_find c s = None \<longleftrightarrow> c \<notin> set s"
  by (induction s) auto

lemma str_rfind_None: "str_rfind c s = None \<longleftrightarrow> c \<notin> set s"
  by (induction s) (auto split: option.splits)

lemma str_rfind_Some:
  "str_rfind c s = Some i \<Longrightarrow> i < length s \<and> s ! i = c \<and> c \<notin> set (drop (Suc i) s)"
  by (induction s arbitrary: i) (auto split: option.splits if_splits simp: str_rfind_None)

end
