(* ===== verification/Http_Grammar.thy ===== *)
theory Http_Grammar
  imports Http_Template
begin

text \<open>
  Correctness of the HTTP template parser.  The grammar of the header comment of
  \<^verbatim>\<open>http_template.cc\<close> is the datatype \<open>template\<close> with its printer \<open>print_template\<close> and its
  well-formedness; \<open>template_meaning\<close> gives the segments, verb and variables a template
  stands for.  The lemmas first describe each parser method on the text that remains
  (\<open>remaining\<close>), up to the one character of lookahead that \<open>rewind\<close> forgets; the relation
  \<open>reads\<close> says that a call read a text and had an effect on the parser's lists.  From it
  follow soundness (\<open>parse_sound\<close>), completeness (\<open>ParseTemplate_complete\<close>) and that the fuel
  is enough (\<open>fuel_ok\<close>).
\<close>

section \<open>The text that remains\<close>

definition parser_inv :: "parser \<Rightarrow> bool" where
  "parser_inv p \<longleftrightarrow> p_tb p \<le> p_te p \<and> p_te p \<le> Suc (p_tb p) \<and> p_te p \<le> length (p_input p)"

definition remaining :: "parser \<Rightarrow> string" where
  "remaining p = drop (p_tb p) (p_input p)"

definition rewind :: "parser \<Rightarrow> parser" where
  "rewind p = p\<lparr>p_te := p_tb p\<rparr>"

definition peek :: "parser \<Rightarrow> parser" where
  "peek p = (if remaining p = [] then p else p\<lparr>p_te := Suc (p_tb p)\<rparr>)"

definition advance :: "nat \<Rightarrow> parser \<Rightarrow> parser" where
  "advance k p = p\<lparr>p_tb := p_tb p + k, p_te := p_tb p + k\<rparr>"

lemma remaining_simps [simp]:
  "remaining (rewind p) = remaining p"
  "remaining (peek p) = remaining p"
  "remaining (advance k p) = drop k (remaining p)"
  "remaining (push_segment s p) = remaining p"
  "remaining (update_current f p) = remaining p"
  by (simp_all add: remaining_def rewind_def peek_def advance_def push_segment_def
      update_current_def add.commute)

lemma rewind_simps [simp]:
  "rewind (rewind p) = rewind p" "rewind (peek p) = rewind p" "rewind (advance k p) = advance k p"
  "advance k (rewind p) = advance k p" "advance k (peek p) = advance k p"
  "advance k (advance j p) = advance (j + k) p"
  by (simp_all add: rewind_def peek_def advance_def add.assoc)

lemma advance_0: "advance 0 p = rewind p"
  by (simp add: advance_def rewind_def)

lemma parser_inv_simps [simp]:
  "parser_inv p \<Longrightarrow> parser_inv (rewind p)"
  "parser_inv p \<Longrightarrow> parser_inv (peek p)"
  "parser_inv p \<Longrightarrow> k \<le> length (remaining p) \<Longrightarrow> parser_inv (advance k p)"
  "parser_inv (push_segment s p) = parser_inv p"
  "parser_inv (update_current f p) = parser_inv p"
  by (auto simp: parser_inv_def rewind_def peek_def advance_def push_segment_def
      update_current_def remaining_def)

lemma remaining_Nil: "parser_inv p \<Longrightarrow> remaining p = [] \<longleftrightarrow> p_tb p = length (p_input p)"
  by (auto simp: remaining_def parser_inv_def)

lemma rewind_remaining_Nil: "parser_inv p \<Longrightarrow> remaining p = [] \<Longrightarrow> rewind p = p"
  by (auto simp: remaining_Nil rewind_def parser_inv_def)

lemma peek_rewind [simp]: "parser_inv p \<Longrightarrow> peek (rewind p) = peek p"
  using rewind_remaining_Nil [of p] by (cases "remaining p = []") (auto simp: peek_def rewind_def remaining_def)

lemma remaining_Cons_less: "remaining p = x # xs \<Longrightarrow> p_tb p < length (p_input p) \<and> p_input p ! p_tb p = x"
  by (metis drop_eq_Nil hd_drop_conv_nth list.distinct(1) list.sel(1) not_less remaining_def)

lemma current_char_peek [simp]: "remaining p = x # xs \<Longrightarrow> current_char (peek p) = x"
  using remaining_Cons_less [of p x xs] by (simp add: peek_def current_char_def)

lemma EnsureCurrent_eq:
  "parser_inv p \<Longrightarrow> EnsureCurrent p = (remaining p \<noteq> [], peek p)"
proof (cases "remaining p")
  case Nil
  assume "parser_inv p"
  with Nil show ?thesis
    by (auto simp: EnsureCurrent_def NextChar_def peek_def remaining_Nil) (auto simp: parser_inv_def remaining_def)
next
  case (Cons x xs)
  assume "parser_inv p"
  then have "p_te p = p_tb p \<or> p_te p = Suc (p_tb p)" by (auto simp: parser_inv_def)
  then show ?thesis
    using remaining_Cons_less [OF Cons] Cons by (auto simp: EnsureCurrent_def NextChar_def peek_def)
qed

lemma Consume_via_Ensure:
  "Consume c p = (let (ok, p1) = EnsureCurrent p in
     if \<not> ok then (False, p1) else if current_char p1 \<noteq> c then (False, p1)
     else (True, p1\<lparr>p_tb := Suc (p_tb p1)\<rparr>))"
  by (auto simp: Consume_def EnsureCurrent_def Let_def)

lemma Consume_eq:
  "parser_inv p \<Longrightarrow> Consume c p =
     (case remaining p of
        [] \<Rightarrow> (False, p)
      | x # xs \<Rightarrow> if x = c then (True, advance 1 p) else (False, peek p))"
  by (auto simp: Consume_via_Ensure EnsureCurrent_eq split: list.splits)
     (auto simp: peek_def advance_def)

lemma NextChar_rewind:
  "parser_inv p \<Longrightarrow> NextChar (rewind p) = (remaining p \<noteq> [], peek (rewind p))"
proof -
  assume "parser_inv p"
  moreover have "EnsureCurrent (rewind p) = NextChar (rewind p)"
    by (simp add: EnsureCurrent_def rewind_def)
  ultimately show ?thesis using EnsureCurrent_eq [of "rewind p"] by simp
qed

text \<open>How far the two scanning loops read, and what they leave.\<close>

definition ident_char :: "char \<Rightarrow> bool" where
  "ident_char c \<longleftrightarrow> c \<noteq> CHR ''.'' \<and> c \<noteq> CHR ''}'' \<and> c \<noteq> CHR ''=''"

definition literal_char :: "char \<Rightarrow> bool" where
  "literal_char c \<longleftrightarrow> c \<noteq> CHR ''/'' \<and> c \<noteq> CHR '':'' \<and> c \<noteq> CHR ''}''"

lemma advance_Suc_0 [simp]: "remaining p = x # xs \<Longrightarrow> parser_inv p \<Longrightarrow> parser_inv (advance (Suc 0) p)"
  by simp

lemma ParseIdentifier_loop_eq:
  "\<lbrakk>parser_inv p; w = takeWhile ident_char (remaining p)\<rbrakk> \<Longrightarrow>
   ParseIdentifier_loop idf r (rewind p) =
     (if r \<or> w \<noteq> [] then AddFieldIdentifier (idf @ w) (peek (advance (length w) p)) else Failed)"
proof (induction "length (remaining p)" arbitrary: p idf r w)
  case 0
  then show ?case
    by (simp add: ParseIdentifier_loop.simps [of idf r "rewind p"] NextChar_rewind advance_0)
next
  case (Suc n)
  from Suc.hyps(2) obtain x xs where r: "remaining p = x # xs" by (cases "remaining p") auto
  show ?case
  proof (cases "ident_char x")
    case True
    have inv: "parser_inv (advance 1 p)" using Suc.prems r by simp
    have IH: "ParseIdentifier_loop (idf @ [x]) True (advance 1 p) =
        AddFieldIdentifier (idf @ w) (peek (advance (length w) p))"
      using Suc.hyps(1) [of "advance 1 p" "takeWhile ident_char xs" "idf @ [x]" True] Suc.hyps(2) Suc.prems inv r True
      by simp
    show ?thesis
      using IH Suc.prems r True
      by (simp add: ParseIdentifier_loop.simps [of idf r "rewind p"] NextChar_rewind Consume_eq ident_char_def)
  next
    case False
    then show ?thesis
      using Suc.prems r
      by (auto simp: ParseIdentifier_loop.simps [of idf r "rewind p"] NextChar_rewind ident_char_def advance_0)
  qed
qed

lemma ParseLiteral_loop_eq:
  "\<lbrakk>parser_inv p; remaining p \<noteq> []; w = takeWhile literal_char (remaining p)\<rbrakk> \<Longrightarrow>
   ParseLiteral_loop lit r (peek p) =
     (if r \<or> w \<noteq> [] then Some (lit @ w, peek (advance (length w) p)) else None)"
proof (induction "length (remaining p)" arbitrary: p lit r w)
  case (Suc n)
  from Suc.hyps(2) obtain x xs where r: "remaining p = x # xs" by (cases "remaining p") auto
  show ?case
  proof (cases "literal_char x")
    case True
    have inv: "parser_inv (advance 1 p)" using Suc.prems r by simp
    have n: "NextChar (advance 1 p) = (xs \<noteq> [], peek (advance 1 p))"
      using NextChar_rewind [OF inv] r by simp
    show ?thesis
    proof (cases "xs = []")
      case True
      then show ?thesis
        using Suc.prems r n inv \<open>literal_char x\<close>
        by (simp add: ParseLiteral_loop.simps [of lit r "peek p"] Consume_eq literal_char_def Let_def)
    next
      case False
      have "ParseLiteral_loop (lit @ [x]) True (peek (advance 1 p)) =
          Some (lit @ w, peek (advance (length w) p))"
        using Suc.hyps(1) [of "advance 1 p" "takeWhile literal_char xs" "lit @ [x]" True]
          Suc.hyps(2) Suc.prems inv r \<open>literal_char x\<close> False by simp
      then show ?thesis
        using Suc.prems r n False \<open>literal_char x\<close>
        by (simp add: ParseLiteral_loop.simps [of lit r "peek p"] Consume_eq literal_char_def Let_def)
    qed
  next
    case False
    then show ?thesis
      using Suc.prems r
      by (auto simp: ParseLiteral_loop.simps [of lit r "peek p"] literal_char_def advance_0 Let_def)
  qed
qed simp

lemma ParseLiteral_eq:
  "\<lbrakk>parser_inv p; w = takeWhile literal_char (remaining p)\<rbrakk> \<Longrightarrow>
   ParseLiteral lit p = (if w \<noteq> [] then Some (lit @ w, peek (advance (length w) p)) else None)"
  by (cases "remaining p") (simp_all add: ParseLiteral_def EnsureCurrent_eq ParseLiteral_loop_eq)

section \<open>The grammar\<close>

datatype simple_seg = Any | Rest | Lit string

datatype segment = Seg simple_seg | Var "string list" "simple_seg list option"

datatype template = Template "segment list" string

fun simple_text :: "simple_seg \<Rightarrow> string" where
  "simple_text Any = ''*''"
| "simple_text Rest = ''**''"
| "simple_text (Lit s) = s"

definition slashed :: "('a \<Rightarrow> string) \<Rightarrow> 'a list \<Rightarrow> string" where
  "slashed f ss = concat (map (\<lambda>s. CHR ''/'' # f s) ss)"

definition dotted :: "string list \<Rightarrow> string" where
  "dotted fp = concat (map (\<lambda>i. CHR ''.'' # i) fp)"

fun print_segment :: "segment \<Rightarrow> string" where
  "print_segment (Seg s) = simple_text s"
| "print_segment (Var fp None) = CHR ''{'' # tl (dotted fp) @ ''}''"
| "print_segment (Var fp (Some ss)) =
     CHR ''{'' # tl (dotted fp) @ CHR ''='' # tl (slashed simple_text ss) @ ''}''"

fun print_template :: "template \<Rightarrow> string" where
  "print_template (Template ss v) =
     slashed print_segment ss @ (if v = [] then [] else CHR '':'' # v)"

definition wf_ident :: "string \<Rightarrow> bool" where
  "wf_ident i \<longleftrightarrow> i \<noteq> [] \<and> (\<forall>c \<in> set i. ident_char c)"

fun wf_simple :: "simple_seg \<Rightarrow> bool" where
  "wf_simple (Lit s) \<longleftrightarrow> s \<noteq> [] \<and> hd s \<noteq> CHR ''*'' \<and> hd s \<noteq> CHR ''{'' \<and> (\<forall>c \<in> set s. literal_char c)"
| "wf_simple _ \<longleftrightarrow> True"

fun inner_segs :: "simple_seg list option \<Rightarrow> simple_seg list" where
  "inner_segs None = [Any]"
| "inner_segs (Some ss) = ss"

fun wf_segment :: "segment \<Rightarrow> bool" where
  "wf_segment (Seg s) \<longleftrightarrow> wf_simple s"
| "wf_segment (Var fp o') \<longleftrightarrow> fp \<noteq> [] \<and> (\<forall>i \<in> set fp. wf_ident i) \<and>
     inner_segs o' \<noteq> [] \<and> (\<forall>s \<in> set (inner_segs o'). wf_simple s)"

fun wf_template :: "template \<Rightarrow> bool" where
  "wf_template (Template ss v) \<longleftrightarrow>
     ss \<noteq> [] \<and> (\<forall>s \<in> set ss. wf_segment s) \<and> (\<forall>c \<in> set v. literal_char c)"

text \<open>The effect of a segment on the parser's lists.\<close>

definition apply_simple :: "simple_seg \<Rightarrow> parser \<Rightarrow> parser" where
  "apply_simple s p =
     (if s = Rest \<and> p_in_variable p
      then update_current (\<lambda>v. v\<lparr>has_wildcard_path := True\<rparr>) (push_segment (simple_text s) p)
      else push_segment (simple_text s) p)"

definition open_var :: "parser \<Rightarrow> parser" where
  "open_var p = p\<lparr>p_variables := p_variables p @
     [\<lparr>start_segment = int (length (p_segments p)), end_segment = 0, field_path = [],
       has_wildcard_path = False\<rparr>], p_in_variable := True\<rparr>"

definition add_fields :: "string list \<Rightarrow> parser \<Rightarrow> parser" where
  "add_fields fp = update_current (\<lambda>v. v\<lparr>field_path := field_path v @ fp\<rparr>)"

definition close_var :: "parser \<Rightarrow> parser" where
  "close_var p = (update_current (\<lambda>v. v\<lparr>end_segment := int (length (p_segments p))\<rparr>) p)
     \<lparr>p_in_variable := False\<rparr>"

fun apply_segment :: "segment \<Rightarrow> parser \<Rightarrow> parser" where
  "apply_segment (Seg s) p = apply_simple s p"
| "apply_segment (Var fp o') p =
     close_var (fold apply_simple (inner_segs o') (add_fields fp (open_var p)))"

lemmas effect_defs = apply_simple_def open_var_def add_fields_def close_var_def push_segment_def
  update_current_def

lemma apply_simple_advance [simp]: "apply_simple s (advance k p) = advance k (apply_simple s p)"
  by (simp add: effect_defs advance_def)

lemma fold_apply_simple_advance [simp]:
  "fold apply_simple ss (advance k p) = advance k (fold apply_simple ss p)"
  by (induction ss arbitrary: p) auto

lemma effect_advance [simp]:
  "open_var (advance k p) = advance k (open_var p)"
  "add_fields fp (advance k p) = advance k (add_fields fp p)"
  "close_var (advance k p) = advance k (close_var p)"
  "push_segment x (advance k p) = advance k (push_segment x p)"
  by (simp_all add: effect_defs advance_def)

lemma apply_segment_advance [simp]: "apply_segment s (advance k p) = advance k (apply_segment s p)"
  by (cases s) simp_all

lemma fold_apply_segment_advance [simp]:
  "fold apply_segment ss (advance k p) = advance k (fold apply_segment ss p)"
  by (induction ss arbitrary: p) auto

lemma effect_rewind [simp]:
  "apply_segment s (rewind p) = rewind (apply_segment s p)"
  "apply_simple t (rewind p) = rewind (apply_simple t p)"
  "fold apply_simple ts (rewind p) = rewind (fold apply_simple ts p)"
  "fold apply_segment ss (rewind p) = rewind (fold apply_segment ss p)"
  "open_var (rewind p) = rewind (open_var p)"
  "add_fields fp (rewind p) = rewind (add_fields fp p)"
  "close_var (rewind p) = rewind (close_var p)"
  "push_segment x (rewind p) = rewind (push_segment x p)"
  by (simp_all flip: advance_0)

definition vars_ok :: "parser \<Rightarrow> bool" where
  "vars_ok p \<longleftrightarrow> (p_in_variable p \<longrightarrow> p_variables p \<noteq> [])"

lemma vars_ok_simps [simp]:
  "vars_ok (rewind p) = vars_ok p" "vars_ok (peek p) = vars_ok p" "vars_ok (advance k p) = vars_ok p"
  "vars_ok (push_segment x p) = vars_ok p"
  "vars_ok p \<Longrightarrow> vars_ok (apply_simple s p)"
  "vars_ok (open_var p)" "vars_ok (close_var p)" "vars_ok p \<Longrightarrow> vars_ok (add_fields fp p)"
  by (auto simp: vars_ok_def effect_defs rewind_def peek_def advance_def)

lemma in_variable_simps [simp]:
  "p_in_variable (rewind p) = p_in_variable p" "p_in_variable (peek p) = p_in_variable p"
  "p_in_variable (advance k p) = p_in_variable p"
  "p_in_variable (push_segment x p) = p_in_variable p"
  "p_in_variable (apply_simple s p) = p_in_variable p"
  "p_in_variable (open_var p)" "\<not> p_in_variable (close_var p)"
  "p_in_variable (add_fields fp p) = p_in_variable p"
  by (auto simp: effect_defs rewind_def peek_def advance_def)

lemma remaining_effect [simp]:
  "remaining (apply_simple s p) = remaining p" "remaining (open_var p) = remaining p"
  "remaining (close_var p) = remaining p" "remaining (add_fields fp p) = remaining p"
  "parser_inv (apply_simple s p) = parser_inv p" "parser_inv (open_var p) = parser_inv p"
  "parser_inv (close_var p) = parser_inv p" "parser_inv (add_fields fp p) = parser_inv p"
  by (simp_all add: effect_defs remaining_def parser_inv_def)

text \<open>A result \<open>q\<close> of reading the text \<open>w\<close> from \<open>p\<close> with the list effect \<open>f\<close>, up to lookahead.\<close>

definition reads :: "parser \<Rightarrow> string \<Rightarrow> (parser \<Rightarrow> parser) \<Rightarrow> parser \<Rightarrow> bool" where
  "reads p w f q \<longleftrightarrow> parser_inv q \<and> remaining p = w @ remaining q \<and> rewind q = advance (length w) (f p)"

definition lists_only :: "(parser \<Rightarrow> parser) \<Rightarrow> bool" where
  "lists_only f \<longleftrightarrow> (\<forall>k p. f (advance k p) = advance k (f p))"

lemma lists_only_intros [simp, intro]:
  "lists_only (apply_segment s)" "lists_only (apply_simple t)" "lists_only (fold apply_segment ss)"
  "lists_only (fold apply_simple ts)" "lists_only open_var" "lists_only (add_fields fp)"
  "lists_only close_var" "lists_only (push_segment x)" "lists_only id"
  by (auto simp: lists_only_def)

lemma lists_only_comp [simp, intro]: "lists_only f \<Longrightarrow> lists_only g \<Longrightarrow> lists_only (g \<circ> f)"
  by (auto simp: lists_only_def)

lemma reads_trans:
  assumes "reads p w f q" "reads q v g r" "lists_only g"
  shows "reads p (w @ v) (g \<circ> f) r"
proof -
  have "rewind r = advance (length v) (rewind (g q))" using assms(2) by (simp add: reads_def)
  also have "rewind (g q) = g (rewind q)" using assms(3) by (simp add: lists_only_def flip: advance_0)
  also have "rewind q = advance (length w) (f p)" using assms(1) by (simp add: reads_def)
  finally show ?thesis using assms by (simp add: reads_def lists_only_def)
qed

lemma reads_effect:
  "\<lbrakk>reads p w f q; lists_only g; parser_inv (g q) = parser_inv q; remaining (g q) = remaining q\<rbrakk>
    \<Longrightarrow> reads p w (g \<circ> f) (g q)"
proof (goal_cases)
  case 1
  have "rewind (g q) = g (rewind q)" using 1 by (simp add: lists_only_def flip: advance_0)
  with 1 show ?case by (simp add: reads_def lists_only_def)
qed

lemma reads_peek: "reads p w f q \<Longrightarrow> reads p w f (peek q)"
  by (simp add: reads_def)

lemma reads_rewind: "reads (rewind p) w f q \<Longrightarrow> lists_only f \<Longrightarrow> reads p w f q"
  by (simp add: reads_def lists_only_def flip: advance_0)

lemma reads_cong: "reads p w f q \<Longrightarrow> f p = g p \<Longrightarrow> reads p w g q"
  by (simp add: reads_def)

lemma Consume_reads:
  "\<lbrakk>Consume c p = (True, q); parser_inv p\<rbrakk> \<Longrightarrow> reads p [c] id q \<and> q = advance 1 p"
  by (auto simp: Consume_eq reads_def split: list.splits if_splits)

lemma Consume_False_reads:
  "\<lbrakk>Consume c p = (False, q); parser_inv p\<rbrakk> \<Longrightarrow> reads p [] id q \<and>
     (remaining p = [] \<or> hd (remaining p) \<noteq> c)"
  by (auto simp: Consume_eq reads_def advance_0 split: list.splits if_splits)

lemma reads_frame:
  assumes "reads p w f q"
  shows "vars_ok q = vars_ok (f p)" "p_in_variable q = p_in_variable (f p)"
    "p_variables q = p_variables (f p)" "p_segments q = p_segments (f p)" "p_verb q = p_verb (f p)"
proof -
  have n: "rewind q = advance (length w) (f p)" using assms by (simp add: reads_def)
  have "vars_ok (rewind q) = vars_ok (f p)" "p_in_variable (rewind q) = p_in_variable (f p)"
    by (simp_all add: n del: vars_ok_simps(1) in_variable_simps(1))
  then have "vars_ok q = vars_ok (f p)" "p_in_variable q = p_in_variable (f p)" by simp_all
  moreover have "p_variables (rewind q) = p_variables (f p)" "p_segments (rewind q) = p_segments (f p)"
    "p_verb (rewind q) = p_verb (f p)"
    by (simp_all add: n advance_def)
  ultimately show "vars_ok q = vars_ok (f p)" "p_in_variable q = p_in_variable (f p)"
    "p_variables q = p_variables (f p)" "p_segments q = p_segments (f p)" "p_verb q = p_verb (f p)"
    by (simp_all add: rewind_def)
qed

lemma reads_inv: "reads p w f q \<Longrightarrow> parser_inv q"
  by (simp add: reads_def)

lemma add_fields_simps:
  "vars_ok p \<Longrightarrow> p_in_variable p \<Longrightarrow> add_fields [] p = p"
  "add_fields fp (add_fields fp' p) = add_fields (fp' @ fp) p"
  by (simp_all add: effect_defs vars_ok_def)

lemma dotted_simps [simp]: "dotted [] = []" "dotted (i # is) = CHR ''.'' # i @ dotted is"
  by (simp_all add: dotted_def)

lemma slashed_simps [simp]: "slashed f [] = []" "slashed f (s # ss) = CHR ''/'' # f s @ slashed f ss"
  by (simp_all add: slashed_def)

lemma AddFieldIdentifier_eq:
  "\<lbrakk>p_in_variable p; vars_ok p\<rbrakk> \<Longrightarrow> AddFieldIdentifier i p = Parsed (add_fields [i] p)"
  by (simp add: AddFieldIdentifier_def add_fields_def vars_ok_def)

lemma takeWhile_split: "takeWhile P xs @ drop (length (takeWhile P xs)) xs = xs"
  by (metis append_eq_conv_conj takeWhile_dropWhile_id)

lemma length_takeWhile_le': "length (takeWhile P xs) \<le> length xs"
  by (rule length_takeWhile_le)

lemma ParseIdentifier_advance:
  assumes "parser_inv p" "p_in_variable p" "vars_ok p" "w = takeWhile ident_char (remaining p)"
  shows "ParseIdentifier (rewind p) =
     (if w = [] then Failed else Parsed (add_fields [w] (peek (advance (length w) p))))"
  using ParseIdentifier_loop_eq [OF assms(1,4), of "[]" False] assms
  by (simp add: ParseIdentifier_def AddFieldIdentifier_eq)

lemma ParseIdentifier_reads:
  assumes "parser_inv p" "p_in_variable p" "vars_ok p" "ParseIdentifier (rewind p) = Parsed q"
  shows "\<exists>w. wf_ident w \<and> reads p w (add_fields [w]) q \<and>
    (remaining q = [] \<or> \<not> ident_char (hd (remaining q)))"
proof -
  let ?w = "takeWhile ident_char (remaining p)"
  have w: "?w \<noteq> []" and q: "q = add_fields [?w] (peek (advance (length ?w) p))"
    using ParseIdentifier_advance [OF assms(1-3) refl] assms(4) by (auto split: if_splits)
  have "reads p ?w id (peek (advance (length ?w) p))"
    using assms(1) by (simp add: reads_def takeWhile_split length_takeWhile_le)
  from reads_effect [OF this, of "add_fields [?w]"] have "reads p ?w (add_fields [?w]) q"
    by (simp add: q)
  moreover have "wf_ident ?w" using w by (auto simp: wf_ident_def dest: set_takeWhileD)
  moreover have "remaining q = dropWhile ident_char (remaining p)"
    by (simp add: q dropWhile_eq_drop)
  then have "remaining q = [] \<or> \<not> ident_char (hd (remaining q))"
    using hd_dropWhile [of ident_char "remaining p"] by auto
  ultimately show ?thesis by blast
qed

lemma ParseFieldPath_loop_reads:
  "\<lbrakk>ParseFieldPath_loop p = Parsed q; parser_inv p; p_in_variable p; vars_ok p\<rbrakk> \<Longrightarrow>
   \<exists>fp. (\<forall>i \<in> set fp. wf_ident i) \<and> reads p (dotted fp) (add_fields fp) q"
proof (induction p rule: ParseFieldPath_loop.induct)
  case (1 p)
  obtain b p1 where c: "Consume (CHR ''.'') p = (b, p1)" by fastforce
  show ?case
  proof (cases b)
    case False
    then have "reads p [] id p1" "q = p1"
      using c "1.prems" Consume_False_reads [of _ p p1] by (simp_all add: ParseFieldPath_loop.simps [of p])
    then have "reads p (dotted []) (add_fields []) q"
      using "1.prems" by (auto intro: reads_cong simp: add_fields_simps)
    then show ?thesis by (intro exI [of _ "[]"]) simp
  next
    case True
    then have r1: "reads p [CHR ''.''] id p1 \<and> p1 = advance 1 p"
      using c "1.prems"(2) Consume_reads [of _ p p1] by simp
    have p1: "parser_inv p1" "p_in_variable p1" "vars_ok p1" "rewind p1 = p1"
      using r1 reads_inv [of p _ id p1] "1.prems"(3,4) by auto
    obtain p2 where i: "ParseIdentifier p1 = Parsed p2" and l: "ParseFieldPath_loop p2 = Parsed q"
      using "1.prems"(1) c True by (cases "ParseIdentifier p1") (auto simp: ParseFieldPath_loop.simps [of p])
    obtain w where w: "wf_ident w" "reads p1 w (add_fields [w]) p2"
      using ParseIdentifier_reads [of p1 p2] p1 i by auto
    have p2: "parser_inv p2" "p_in_variable p2" "vars_ok p2"
      using w(2) p1 reads_frame [OF w(2)] by (auto simp: reads_def)
    obtain fp where fp: "\<forall>i \<in> set fp. wf_ident i" "reads p2 (dotted fp) (add_fields fp) q"
      using "1.IH" [of b p1 p2] c True i l p2 by auto
    have "reads p ([CHR ''.''] @ w @ dotted fp) ((add_fields fp \<circ> add_fields [w]) \<circ> id) q"
      using reads_trans [OF conjunct1 [OF r1] reads_trans [OF w(2) fp(2)]] by simp
    then have "reads p (dotted (w # fp)) (add_fields (w # fp)) q"
      by (auto elim!: reads_cong simp: add_fields_simps)
    then show ?thesis using w fp by (intro exI [of _ "w # fp"]) simp
  qed
qed

lemma ParseFieldPath_reads:
  assumes "ParseFieldPath (rewind p) = Parsed q" "parser_inv p" "p_in_variable p" "vars_ok p"
  shows "\<exists>fp. fp \<noteq> [] \<and> (\<forall>i \<in> set fp. wf_ident i) \<and> reads p (tl (dotted fp)) (add_fields fp) q"
proof -
  obtain p2 where i: "ParseIdentifier (rewind p) = Parsed p2" and l: "ParseFieldPath_loop p2 = Parsed q"
    using assms(1) by (cases "ParseIdentifier (rewind p)") (auto simp: ParseFieldPath_def)
  obtain w where w: "wf_ident w" "reads p w (add_fields [w]) p2"
    using ParseIdentifier_reads [OF assms(2-4) i] by auto
  have p2: "parser_inv p2" "p_in_variable p2" "vars_ok p2"
    using w(2) assms reads_frame [OF w(2)] by (auto simp: reads_def)
  obtain fp where fp: "\<forall>i \<in> set fp. wf_ident i" "reads p2 (dotted fp) (add_fields fp) q"
    using ParseFieldPath_loop_reads [OF l p2] by auto
  have "reads p (w @ dotted fp) (add_fields fp \<circ> add_fields [w]) q"
    using reads_trans [OF w(2) fp(2)] by simp
  then have "reads p (tl (dotted (w # fp))) (add_fields (w # fp)) q"
    by (auto elim!: reads_cong simp: add_fields_simps)
  then show ?thesis using w fp by (intro exI [of _ "w # fp"]) simp
qed

definition seg_ok :: "parser \<Rightarrow> segment \<Rightarrow> bool" where
  "seg_ok p s \<longleftrightarrow> wf_segment s \<and> (p_in_variable p \<longrightarrow> (\<exists>t. s = Seg t))"

lemma in_variable_fold [simp]:
  "p_in_variable (fold apply_simple ts p) = p_in_variable p"
  by (induction ts arbitrary: p) auto

lemma vars_ok_fold [simp]: "vars_ok p \<Longrightarrow> vars_ok (fold apply_simple ts p)"
  by (induction ts arbitrary: p) auto

lemma apply_segment_frame:
  "seg_ok p s \<Longrightarrow> p_in_variable (apply_segment s p) = p_in_variable p"
  "seg_ok p s \<Longrightarrow> vars_ok p \<Longrightarrow> vars_ok (apply_segment s p)"
  by (cases s; auto simp: seg_ok_def)+

lemma apply_segment_Seg [simp]: "apply_segment (Seg s) = apply_simple s"
  by (rule ext) simp

lemma fold_map_Seg [simp]: "fold apply_segment (map Seg ts) = fold apply_simple ts"
  by (induction ts) (auto simp: fun_eq_iff)

lemma slashed_map_Seg [simp]: "slashed print_segment (map Seg ts) = slashed simple_text ts"
  by (induction ts) auto

lemma seg_ok_in_variable:
  "\<lbrakk>p_in_variable p; \<forall>s \<in> set ss. seg_ok p s\<rbrakk> \<Longrightarrow> \<exists>ts. ss = map Seg ts \<and> (\<forall>t \<in> set ts. wf_simple t)"
proof (induction ss)
  case (Cons s ss)
  then obtain ts where "ss = map Seg ts" "\<forall>t \<in> set ts. wf_simple t" by auto
  moreover obtain t where "s = Seg t" "wf_simple t" using Cons.prems by (auto simp: seg_ok_def)
  ultimately show ?case by (intro exI [of _ "t # ts"]) simp
qed simp

lemma parser_inv_advance_effect [simp]:
  "parser_inv (advance k (apply_simple s p)) = parser_inv (advance k p)"
  "parser_inv (advance k (push_segment x p)) = parser_inv (advance k p)"
  "parser_inv (advance k (open_var p)) = parser_inv (advance k p)"
  "parser_inv (advance k (close_var p)) = parser_inv (advance k p)"
  by (simp_all add: effect_defs advance_def parser_inv_def)

lemma reads_advance:
  "\<lbrakk>parser_inv p; remaining p = w @ r\<rbrakk> \<Longrightarrow> reads p w id (advance (length w) p)"
  by (simp add: reads_def)

lemma ParseLiteral_peek: "parser_inv p \<Longrightarrow> ParseLiteral lit (peek p) = ParseLiteral lit p"
  using ParseLiteral_eq [OF _ refl, of p] ParseLiteral_eq [OF _ refl, of "peek p"] by simp

lemma ParseLiteralSegment_reads:
  assumes "ParseLiteralSegment p = Parsed q" "parser_inv p"
    "remaining p \<noteq> []" "hd (remaining p) \<noteq> CHR ''*''" "hd (remaining p) \<noteq> CHR ''{''"
  shows "\<exists>s. seg_ok p s \<and> reads p (print_segment s) (apply_segment s) q"
proof -
  let ?w = "takeWhile literal_char (remaining p)"
  have w: "?w \<noteq> []" and q: "q = push_segment ?w (peek (advance (length ?w) p))"
    using assms(1) ParseLiteral_eq [OF assms(2) refl, of "[]"]
    by (auto simp: ParseLiteralSegment_def push_segment_def split: if_splits)
  have "hd ?w = hd (remaining p)" using assms(3) w by (cases "remaining p") (auto split: if_splits)
  then have "wf_simple (Lit ?w)" using assms w by (auto dest: set_takeWhileD)
  moreover have "reads p ?w (push_segment ?w \<circ> id) q"
    unfolding q using reads_advance [OF assms(2) takeWhile_split [symmetric], of literal_char]
    by (intro reads_effect reads_peek) simp_all
  ultimately show ?thesis
    by (intro exI [of _ "Seg (Lit ?w)"])
      (auto simp: seg_ok_def apply_simple_def elim!: reads_cong)
qed

lemma Mark_eq:
  "\<lbrakk>p_in_variable p; vars_ok p\<rbrakk> \<Longrightarrow>
     MarkVariableHasWildCardPath (push_segment ''**'' p) = Parsed (apply_simple Rest p)"
  by (simp add: MarkVariableHasWildCardPath_def apply_simple_def vars_ok_def push_segment_def)

lemma ParseStar_reads:
  assumes "parser_inv p" "vars_ok p" "remaining p = CHR ''*'' # xs"
    "ParseSegment (Suc n) p = Parsed q"
  shows "\<exists>s. seg_ok p s \<and> reads p (print_segment s) (apply_segment s) q"
proof (cases xs)
  case (Cons y ys)
  show ?thesis
  proof (cases "y = CHR ''*''")
    case True
    have "reads p ''**'' id (advance 2 p)"
      using reads_advance [of p "''**''" ys] assms(1,3) Cons True by (simp add: numeral_2_eq_2)
    then have "reads p ''**'' (apply_simple Rest \<circ> id) (apply_simple Rest (advance 2 p))"
      by (rule reads_effect) simp_all
    moreover have "q = apply_simple Rest (advance 2 p)"
    proof -
      have "Consume (CHR ''*'') (peek p) = (True, advance 1 p)"
        "Consume (CHR ''*'') (advance 1 p) = (True, advance 2 p)"
        using assms(1,3) Cons True by (simp_all add: Consume_eq numeral_2_eq_2)
      then show ?thesis
        using assms Mark_eq [of "advance 2 p"]
        by (auto simp: EnsureCurrent_eq Let_def apply_simple_def split: if_splits
            simp del: apply_simple_advance effect_advance)
    qed
    ultimately show ?thesis
      by (intro exI [of _ "Seg Rest"]) (auto simp: seg_ok_def)
  next
    case False
    have "reads p ''*'' id (advance 1 p)"
      using reads_advance [of p "''*''" xs] assms by simp
    then have "reads p ''*'' (push_segment ''*'' \<circ> id) (push_segment ''*'' (peek (advance 1 p)))"
      by (intro reads_effect reads_peek) simp_all
    then show ?thesis
      using assms Cons False
      by (intro exI [of _ "Seg Any"])
         (auto simp: EnsureCurrent_eq Consume_eq seg_ok_def apply_simple_def elim!: reads_cong)
  qed
next
  case Nil
  have "reads p ''*'' id (advance 1 p)"
    using reads_advance [of p "''*''" xs] assms by simp
  then have "reads p ''*'' (push_segment ''*'' \<circ> id) (push_segment ''*'' (advance 1 p))"
    by (intro reads_effect) simp_all
  then show ?thesis
    using assms Nil
    by (intro exI [of _ "Seg Any"])
       (auto simp: EnsureCurrent_eq Consume_eq seg_ok_def apply_simple_def elim!: reads_cong)
qed

definition segments_sound :: "nat \<Rightarrow> bool" where
  "segments_sound n \<longleftrightarrow> (\<forall>p q. ParseSegments n p = Parsed q \<longrightarrow> parser_inv p \<longrightarrow> vars_ok p \<longrightarrow>
     (\<exists>ss. ss \<noteq> [] \<and> (\<forall>s \<in> set ss. seg_ok p s) \<and>
        reads p (tl (slashed print_segment ss)) (fold apply_segment ss) q))"

definition loop_sound :: "nat \<Rightarrow> bool" where
  "loop_sound n \<longleftrightarrow> (\<forall>p q. ParseSegments_loop n p = Parsed q \<longrightarrow> parser_inv p \<longrightarrow> vars_ok p \<longrightarrow>
     (\<exists>ss. (\<forall>s \<in> set ss. seg_ok p s) \<and> reads p (slashed print_segment ss) (fold apply_segment ss) q))"

definition segment_sound :: "nat \<Rightarrow> bool" where
  "segment_sound n \<longleftrightarrow> (\<forall>p q. ParseSegment n p = Parsed q \<longrightarrow> parser_inv p \<longrightarrow> vars_ok p \<longrightarrow>
     (\<exists>s. seg_ok p s \<and> reads p (print_segment s) (apply_segment s) q))"

definition variable_sound :: "nat \<Rightarrow> bool" where
  "variable_sound n \<longleftrightarrow> (\<forall>p q. ParseVariable n p = Parsed q \<longrightarrow> parser_inv p \<longrightarrow> vars_ok p \<longrightarrow>
     (\<exists>s. seg_ok p s \<and> reads p (print_segment s) (apply_segment s) q))"

lemma and_then_Parsed: "and_then r f = Parsed q \<longleftrightarrow> (\<exists>p. r = Parsed p \<and> f p = Parsed q)"
  by (cases r) auto

lemma seg_then_loop_reads:
  assumes "segment_sound n" "loop_sound n" "parser_inv p" "vars_ok p"
    "and_then (ParseSegment n p) (ParseSegments_loop n) = Parsed q"
  shows "\<exists>ss. ss \<noteq> [] \<and> (\<forall>s \<in> set ss. seg_ok p s) \<and>
    reads p (tl (slashed print_segment ss)) (fold apply_segment ss) q"
proof -
  obtain p1 where p1: "ParseSegment n p = Parsed p1" "ParseSegments_loop n p1 = Parsed q"
    using assms(5) by (auto simp: and_then_Parsed)
  obtain s where s: "seg_ok p s" "reads p (print_segment s) (apply_segment s) p1"
    using assms(1,3,4) p1(1) by (auto simp: segment_sound_def)
  have f: "p_in_variable p1 = p_in_variable p" "vars_ok p1"
    using reads_frame [OF s(2)] apply_segment_frame [OF s(1)] assms(4) by auto
  obtain ss where ss: "\<forall>s \<in> set ss. seg_ok p1 s"
      "reads p1 (slashed print_segment ss) (fold apply_segment ss) q"
    using assms(2) p1(2) f(2) reads_inv [OF s(2)] unfolding loop_sound_def by blast
  have "reads p (tl (slashed print_segment (s # ss))) (fold apply_segment (s # ss)) q"
    using reads_trans [OF s(2) ss(2)] by simp
  then show ?thesis using s(1) ss(1) f(1) by (intro exI [of _ "s # ss"]) (auto simp: seg_ok_def)
qed

lemma segments_sound_Suc: "segment_sound n \<Longrightarrow> loop_sound n \<Longrightarrow> segments_sound (Suc n)"
  using seg_then_loop_reads by (simp add: segments_sound_def)

lemma loop_sound_Suc:
  assumes "segment_sound n" "loop_sound n"
  shows "loop_sound (Suc n)"
  unfolding loop_sound_def
proof (intro allI impI)
  fix p q
  assume l: "ParseSegments_loop (Suc n) p = Parsed q" and p: "parser_inv p" "vars_ok p"
  obtain b p1 where c: "Consume (CHR ''/'') p = (b, p1)" by fastforce
  show "\<exists>ss. (\<forall>s \<in> set ss. seg_ok p s) \<and> reads p (slashed print_segment ss) (fold apply_segment ss) q"
  proof (cases b)
    case False
    then have "reads p [] id q"
      using c l p Consume_False_reads [of _ p p1] by simp
    then show ?thesis by (intro exI [of _ "[]"]) (simp add: fold_Nil id_def)
  next
    case True
    then have r: "reads p ''/'' id p1" "p1 = advance 1 p"
      using Consume_reads [of _ p p1] c p by auto
    then obtain ss where "ss \<noteq> []" "\<forall>s \<in> set ss. seg_ok p1 s"
        "reads p1 (tl (slashed print_segment ss)) (fold apply_segment ss) q"
      using seg_then_loop_reads [OF assms, of p1 q] l c True p reads_inv [OF r(1)] by auto
    moreover have "''/'' @ tl (slashed print_segment ss) = slashed print_segment ss"
      using \<open>ss \<noteq> []\<close> by (cases ss) auto
    ultimately have "reads p (slashed print_segment ss) (fold apply_segment ss \<circ> id) q"
      using reads_trans [OF r(1), of "tl (slashed print_segment ss)" "fold apply_segment ss" q]
      by simp
    then show ?thesis
      using \<open>\<forall>s \<in> set ss. seg_ok p1 s\<close> r(2) by (intro exI [of _ ss]) (auto simp: seg_ok_def)
  qed
qed

lemma segment_sound_Suc:
  assumes "variable_sound n"
  shows "segment_sound (Suc n)"
  unfolding segment_sound_def
proof (intro allI impI)
  fix p q
  assume s: "ParseSegment (Suc n) p = Parsed q" and p: "parser_inv p" "vars_ok p"
  then obtain x xs where r: "remaining p = x # xs"
    by (cases "remaining p") (auto simp: EnsureCurrent_eq)
  consider "x = CHR ''*''" | "x = CHR ''{''" | "x \<noteq> CHR ''*''" "x \<noteq> CHR ''{''" by blast
  then show "\<exists>s. seg_ok p s \<and> reads p (print_segment s) (apply_segment s) q"
  proof cases
    case 1
    then show ?thesis using ParseStar_reads [OF p _ s] r by simp
  next
    case 2
    then have "ParseVariable n (peek p) = Parsed q" using s p r by (simp add: EnsureCurrent_eq)
    then obtain s' where s': "seg_ok (peek p) s'" "reads (peek p) (print_segment s') (apply_segment s') q"
      using assms p parser_inv_simps(2) vars_ok_simps(2) unfolding variable_sound_def by blast
    have "apply_segment s' (rewind (peek p)) = apply_segment s' (rewind p)" by simp
    then have "rewind (apply_segment s' (peek p)) = rewind (apply_segment s' p)"
      by (simp only: effect_rewind)
    then have "advance k (apply_segment s' (peek p)) = advance k (apply_segment s' p)" for k
      by (metis rewind_simps(4))
    with s' show ?thesis by (intro exI [of _ s']) (simp add: reads_def seg_ok_def)
  next
    case 3
    then have "ParseLiteralSegment (peek p) = Parsed q" using s p r by (simp add: EnsureCurrent_eq)
    then have "ParseLiteralSegment p = Parsed q"
      using ParseLiteral_peek [OF p(1)] by (simp add: ParseLiteralSegment_def)
    then show ?thesis using ParseLiteralSegment_reads [of p q] 3 r p by simp
  qed
qed

lemma case_flag_Parsed:
  "(case r of (True, p) \<Rightarrow> f p | (False, p') \<Rightarrow> Failed) = Parsed q \<longleftrightarrow>
     (\<exists>p. r = (True, p) \<and> f p = Parsed q)"
  by (cases r) (auto split: bool.splits)

lemma EndVariable_Parsed: "EndVariable p = Parsed q \<Longrightarrow> q = close_var p"
  by (auto simp: EndVariable_def close_var_def Let_def split: if_splits)

lemma tl_slashed_Seg: "tl (slashed print_segment (map Seg ts)) = tl (slashed simple_text ts)"
  by simp

lemma ParseVariable_inner_reads:
  assumes "segments_sound n" "parser_inv p" "p_in_variable p" "vars_ok p"
    "(case Consume (CHR ''='') p of
        (True, p4) \<Rightarrow> ParseSegments n p4
      | (False, p4) \<Rightarrow> Parsed (push_segment ''*'' p4)) = Parsed q"
  shows "\<exists>o' w. inner_segs o' \<noteq> [] \<and> (\<forall>s \<in> set (inner_segs o'). wf_simple s) \<and>
     print_segment (Var fp o') = CHR ''{'' # tl (dotted fp) @ w @ ''}'' \<and>
     reads p w (fold apply_simple (inner_segs o')) q"
proof -
  obtain b p1 where c: "Consume (CHR ''='') p = (b, p1)" by fastforce
  show ?thesis
  proof (cases b)
    case True
    then have r: "reads p ''='' id p1" "p1 = advance 1 p" using Consume_reads [of _ p p1] c assms(2) by auto
    have "ParseSegments n p1 = Parsed q" "parser_inv p1" "vars_ok p1"
      using assms(4,5) c True r(2) reads_inv [OF r(1)] by auto
    then obtain ss where ss: "ss \<noteq> []" "\<forall>s \<in> set ss. seg_ok p1 s"
        "reads p1 (tl (slashed print_segment ss)) (fold apply_segment ss) q"
      using assms(1) unfolding segments_sound_def by blast
    then obtain ts where ts: "ss = map Seg ts" "\<forall>t \<in> set ts. wf_simple t"
      using seg_ok_in_variable [of p1 ss] assms(3) r(2) by auto
    have "reads p (''='' @ tl (slashed simple_text ts)) (fold apply_simple ts \<circ> id) q"
      using reads_trans [OF r(1), of "tl (slashed simple_text ts)" "fold apply_simple ts" q] ss ts by simp
    then show ?thesis using ts ss(1)
      by (intro exI [of _ "Some ts"] exI [of _ "''='' @ tl (slashed simple_text ts)"]) simp
  next
    case False
    then have "reads p [] id p1" using Consume_False_reads [of _ p p1] c assms(2) by auto
    then have "reads p [] (push_segment ''*'' \<circ> id) (push_segment ''*'' p1)"
      by (rule reads_effect) simp_all
    moreover have "q = push_segment ''*'' p1" using assms(5) c False by simp
    ultimately have "reads p [] (fold apply_simple (inner_segs None)) q"
      by (auto elim!: reads_cong simp: apply_simple_def)
    then show ?thesis by (intro exI [of _ None] exI [of _ "[]"]) simp
  qed
qed

lemma variable_sound_Suc:
  assumes "segments_sound n"
  shows "variable_sound (Suc n)"
  unfolding variable_sound_def
proof (intro allI impI)
  fix p q
  assume v: "ParseVariable (Suc n) p = Parsed q" and p: "parser_inv p" "vars_ok p"
  obtain p1 where c: "Consume (CHR ''{'') p = (True, p1)"
    using v by (cases "Consume (CHR ''{'') p"; cases "fst (Consume (CHR ''{'') p)") auto
  then have r1: "reads p ''{'' id p1" "p1 = advance 1 p" using Consume_reads [of _ p p1] p by auto
  from v c obtain p2 p3 p5 p6 where 2: "StartVariable p1 = Parsed p2" and 3: "ParseFieldPath p2 = Parsed p3"
    and 5: "(case Consume (CHR ''='') p3 of
        (True, p4) \<Rightarrow> ParseSegments n p4
      | (False, p4) \<Rightarrow> Parsed (push_segment ''*'' p4)) = Parsed p5"
    and 6: "EndVariable p5 = Parsed p6" and 7: "Consume (CHR ''}'') p6 = (True, q)"
    by (auto simp: and_then_Parsed case_flag_Parsed)
  have nv: "\<not> p_in_variable p" and p2: "p2 = open_var p1"
    using 2 r1(2) by (auto simp: StartVariable_def open_var_def split: if_splits)
  have r2: "reads p ''{'' open_var p2"
    using reads_effect [OF r1(1), of open_var] p2 by simp
  have p2': "rewind p2 = p2" "p_in_variable p2" "vars_ok p2" "parser_inv p2"
    using p2 r1(2) reads_inv [OF r2] by auto
  obtain fp where fp: "fp \<noteq> []" "\<forall>i \<in> set fp. wf_ident i" and
      r3: "reads p2 (tl (dotted fp)) (add_fields fp) p3"
    using ParseFieldPath_reads [of p2 p3] 3 p2' by auto
  have p3: "p_in_variable p3" "vars_ok p3" "parser_inv p3"
    using reads_frame [OF r3] p2' reads_inv [OF r3] by auto
  obtain o' w where o': "inner_segs o' \<noteq> []" "\<forall>s \<in> set (inner_segs o'). wf_simple s"
     "print_segment (Var fp o') = CHR ''{'' # tl (dotted fp) @ w @ ''}''"
     and r5: "reads p3 w (fold apply_simple (inner_segs o')) p5"
    using ParseVariable_inner_reads [OF assms p3(3,1,2) 5] by blast
  have r6: "reads p3 w (close_var \<circ> fold apply_simple (inner_segs o')) p6"
    using reads_effect [OF r5, of close_var] EndVariable_Parsed [OF 6] by simp
  have r7: "reads p6 ''}'' id q"
    using Consume_reads [OF 7 reads_inv [OF r6]] by (rule conjunct1)
  have "reads p (''{'' @ tl (dotted fp) @ w @ ''}'')
      (((id \<circ> (close_var \<circ> fold apply_simple (inner_segs o'))) \<circ> add_fields fp) \<circ> open_var) q"
    using reads_trans [OF r2 reads_trans [OF r3 reads_trans [OF r6 r7]]] by simp
  then have "reads p (print_segment (Var fp o')) (apply_segment (Var fp o')) q"
    using o'(3) by (auto elim!: reads_cong)
  moreover have "seg_ok p (Var fp o')" using nv fp o' by (simp add: seg_ok_def)
  ultimately show "\<exists>s. seg_ok p s \<and> reads p (print_segment s) (apply_segment s) q" by blast
qed

lemma parse_sound:
  "segments_sound n \<and> loop_sound n \<and> segment_sound n \<and> variable_sound n"
proof (induction n)
  case 0
  then show ?case
    by (simp add: segments_sound_def loop_sound_def segment_sound_def variable_sound_def)
next
  case (Suc n)
  then show ?case
    by (simp add: segments_sound_Suc loop_sound_Suc segment_sound_Suc variable_sound_Suc)
qed

definition set_verb :: "string \<Rightarrow> parser \<Rightarrow> parser" where
  "set_verb v p = p\<lparr>p_verb := v\<rparr>"

lemma set_verb_simps [simp]:
  "lists_only (set_verb v)" "parser_inv (set_verb v p) = parser_inv p"
  "remaining (set_verb v p) = remaining p"
  by (simp_all add: lists_only_def set_verb_def advance_def parser_inv_def remaining_def)

lemma Parser_simps [simp]:
  "parser_inv (Parser s)" "remaining (Parser s) = s" "vars_ok (Parser s)"
  "\<not> p_in_variable (Parser s)" "rewind (Parser s) = Parser s" "p_verb (Parser s) = []"
  "p_variables (Parser s) = []" "p_segments (Parser s) = []"
  by (simp_all add: Parser_def parser_inv_def remaining_def vars_ok_def rewind_def)

lemma p_verb_effect [simp]:
  "p_verb (advance k p) = p_verb p" "p_verb (peek p) = p_verb p" "p_verb (apply_simple s p) = p_verb p"
  by (simp_all add: advance_def peek_def effect_defs)

lemma p_verb_fold [simp]: "p_verb (fold apply_simple ts p) = p_verb p"
  by (induction ts arbitrary: p) auto

lemma p_verb_apply_segment [simp]: "p_verb (apply_segment s p) = p_verb p"
  by (cases s) (auto simp: close_var_def add_fields_def open_var_def update_current_def)

lemma p_verb_fold_segment [simp]: "p_verb (fold apply_segment ss p) = p_verb p"
  by (induction ss arbitrary: p) auto

lemma ParseVerb_reads:
  assumes "ParseVerb p = Parsed q" "parser_inv p" "p_verb p = []"
  shows "\<exists>v. v \<noteq> [] \<and> (\<forall>c \<in> set v. literal_char c) \<and> reads p (CHR '':'' # v) (set_verb v) q"
proof -
  obtain p1 where c: "Consume (CHR '':'') p = (True, p1)"
    using assms(1) by (auto simp: ParseVerb_def split: prod.splits bool.splits)
  then have r1: "reads p '':'' id p1" "p1 = advance 1 p" using Consume_reads [of _ p p1] assms(2) by auto
  let ?v = "takeWhile literal_char (remaining p1)"
  have v: "?v \<noteq> []" and q: "q = set_verb ?v (peek (advance (length ?v) p1))"
    using assms(1,3) c ParseLiteral_eq [OF reads_inv [OF r1(1)] refl, of "[]"] r1(2)
    by (auto simp: ParseVerb_def set_verb_def split: if_splits)
  have "reads p1 ?v (set_verb ?v \<circ> id) q"
    unfolding q using reads_advance [OF reads_inv [OF r1(1)] takeWhile_split [symmetric], of literal_char]
    by (intro reads_effect reads_peek) simp_all
  from reads_trans [OF r1(1) this] have "reads p (CHR '':'' # ?v) (set_verb ?v) q" by simp
  with v show ?thesis by (auto dest: set_takeWhileD)
qed

lemma ParseTemplate_reads:
  assumes "ParseTemplate n (Parser s) = Parsed q"
  shows "\<exists>ss v. wf_template (Template ss v) \<and>
    reads (Parser s) (print_template (Template ss v)) (set_verb v \<circ> fold apply_segment ss) q"
proof -
  let ?p = "Parser s"
  obtain p1 p2 where c: "Consume (CHR ''/'') ?p = (True, p1)" and 2: "ParseSegments n p1 = Parsed p2"
    and 3: "(case EnsureCurrent p2 of (False, p3) \<Rightarrow> Parsed p3
         | (True, p3) \<Rightarrow> if current_char p3 = CHR '':'' then ParseVerb p3 else Parsed p3) = Parsed q"
    using assms by (auto simp: ParseTemplate_def and_then_Parsed case_flag_Parsed)
  then have r1: "reads ?p ''/'' id p1" "p1 = advance 1 ?p" using Consume_reads [of _ ?p p1] by auto
  obtain ss where ss: "ss \<noteq> []" "\<forall>s \<in> set ss. seg_ok p1 s"
      "reads p1 (tl (slashed print_segment ss)) (fold apply_segment ss) p2"
    using parse_sound [of n] 2 reads_inv [OF r1(1)] r1(2) unfolding segments_sound_def
    by (metis Parser_simps(3) vars_ok_simps(3))
  have "''/'' @ tl (slashed print_segment ss) = slashed print_segment ss"
    using ss(1) by (cases ss) auto
  then have r2: "reads ?p (slashed print_segment ss) (fold apply_segment ss) p2"
    using reads_trans [OF r1(1) ss(3)] by simp
  have wf: "\<forall>s \<in> set ss. wf_segment s" using ss(2) by (auto simp: seg_ok_def)
  have p2: "parser_inv p2" "p_verb p2 = []" using reads_inv [OF r2] reads_frame [OF r2] by auto
  show ?thesis
  proof (cases "remaining p2 \<noteq> [] \<and> hd (remaining p2) = CHR '':''")
    case True
    then obtain xs where "remaining p2 = CHR '':'' # xs" by (cases "remaining p2") auto
    then have "ParseVerb (peek p2) = Parsed q" using 3 p2 by (simp add: EnsureCurrent_eq)
    then obtain v where v: "v \<noteq> []" "\<forall>c \<in> set v. literal_char c"
        "reads (peek p2) (CHR '':'' # v) (set_verb v) q"
      using ParseVerb_reads [of "peek p2" q] p2 by auto
    have "reads ?p (slashed print_segment ss @ CHR '':'' # v) (set_verb v \<circ> fold apply_segment ss) q"
      by (rule reads_trans [OF reads_peek [OF r2] v(3)]) simp
    then show ?thesis using v ss(1) wf by (intro exI [of _ ss] exI [of _ v]) simp
  next
    case False
    then have "q = peek p2" using 3 p2 by (cases "remaining p2") (auto simp: EnsureCurrent_eq)
    then have "reads ?p (slashed print_segment ss) (fold apply_segment ss) q"
      using reads_peek [OF r2] by simp
    moreover have "set_verb [] (fold apply_segment ss ?p) = fold apply_segment ss ?p"
    proof -
      have "p_verb (fold apply_segment ss ?p) = []" by simp
      then show ?thesis by (simp add: set_verb_def)
    qed
    ultimately have "reads ?p (slashed print_segment ss) (set_verb [] \<circ> fold apply_segment ss) q"
      by (auto elim!: reads_cong)
    then show ?thesis using ss(1) wf by (intro exI [of _ ss] exI [of _ "[]"]) simp
  qed
qed

lemma takeWhile_stop:
  "\<lbrakk>\<forall>c \<in> set w. P c; r = [] \<or> \<not> P (hd r)\<rbrakk> \<Longrightarrow> takeWhile P (w @ r) = w"
  by (cases r) (auto simp: takeWhile_append2 takeWhile_append)

lemma fold_apply_simple_lists:
  "\<lbrakk>p_in_variable p; p_variables p = vs @ [v]\<rbrakk> \<Longrightarrow>
     p_segments (fold apply_simple ts p) = p_segments p @ map simple_text ts \<and>
     p_variables (fold apply_simple ts p) =
       vs @ [v\<lparr>has_wildcard_path := has_wildcard_path v \<or> Rest \<in> set ts\<rparr>]"
proof (induction ts arbitrary: p v)
  case (Cons t ts)
  have "p_in_variable (apply_simple t p)" "p_segments (apply_simple t p) = p_segments p @ [simple_text t]"
    "p_variables (apply_simple t p) = vs @ [v\<lparr>has_wildcard_path := has_wildcard_path v \<or> t = Rest\<rparr>]"
    using Cons.prems by (auto simp: apply_simple_def push_segment_def update_current_def)
  from Cons.IH [OF this(1,3)] this(2) show ?case by (simp add: disj_assoc eq_commute [of Rest])
qed simp

definition seg_stop :: "string \<Rightarrow> bool" where
  "seg_stop r \<longleftrightarrow> r = [] \<or> \<not> literal_char (hd r)"

lemma ParseIdentifier_complete:
  assumes "wf_ident i" "parser_inv p" "p_in_variable p" "vars_ok p" "remaining p = i @ r"
    "r = [] \<or> \<not> ident_char (hd r)"
  shows "\<exists>q. ParseIdentifier (rewind p) = Parsed q \<and> reads p i (add_fields [i]) q"
proof -
  have w: "takeWhile ident_char (remaining p) = i"
    unfolding assms(5) using assms by (intro takeWhile_stop) (auto simp: wf_ident_def)
  let ?q = "add_fields [i] (peek (advance (length i) p))"
  have "ParseIdentifier (rewind p) = Parsed ?q"
    using ParseIdentifier_advance [OF assms(2-4) w [symmetric]] assms by (auto simp: wf_ident_def)
  moreover have "reads p i (add_fields [i] \<circ> id) ?q"
    by (intro reads_effect reads_peek reads_advance [OF assms(2,5)]) simp_all
  ultimately show ?thesis by auto
qed

lemma dotted_stop:
  "r \<noteq> [] \<Longrightarrow> \<not> ident_char (hd r) \<Longrightarrow> \<not> ident_char (hd (dotted fp @ r))"
  by (cases fp) (auto simp: ident_char_def)

lemma ParseFieldPath_loop_complete:
  "\<lbrakk>\<forall>i \<in> set fp. wf_ident i; parser_inv p; p_in_variable p; vars_ok p; remaining p = dotted fp @ r;
    r \<noteq> []; hd r = CHR ''}'' \<or> hd r = CHR ''=''\<rbrakk> \<Longrightarrow>
   \<exists>q. ParseFieldPath_loop p = Parsed q \<and> reads p (dotted fp) (add_fields fp) q"
proof (induction fp arbitrary: p)
  case Nil
  then obtain x xs where "r = x # xs" "x \<noteq> CHR ''.''" by (cases r) auto
  then have "ParseFieldPath_loop p = Parsed (peek p)"
    using Nil.prems by (simp add: ParseFieldPath_loop.simps [of p] Consume_eq)
  moreover have "reads p [] id (peek p)"
    using Nil.prems by (simp add: reads_def advance_0)
  ultimately show ?case
    using Nil.prems by (auto elim!: reads_cong simp: add_fields_simps)
next
  case (Cons i fp)
  let ?p = "advance 1 p"
  have c: "Consume (CHR ''.'') p = (True, ?p)" using Cons.prems by (simp add: Consume_eq)
  note r1 = Consume_reads [OF c Cons.prems(2), THEN conjunct1]
  obtain q1 where q1: "ParseIdentifier ?p = Parsed q1" "reads ?p i (add_fields [i]) q1"
    using ParseIdentifier_complete [of i ?p "dotted fp @ r"] Cons.prems reads_inv [OF r1]
      dotted_stop [of r fp] by (auto simp: ident_char_def)
  have "remaining ?p = i @ remaining q1" using q1(2) by (simp add: reads_def)
  then have "remaining q1 = dotted fp @ r" using Cons.prems(5) by simp
  then obtain q where q: "ParseFieldPath_loop q1 = Parsed q" "reads q1 (dotted fp) (add_fields fp) q"
    using Cons.IH [of q1] Cons.prems reads_inv [OF q1(2)] reads_frame [OF q1(2)] by auto
  have "reads p (''.'' @ i @ dotted fp) ((add_fields fp \<circ> add_fields [i]) \<circ> id) q"
    using reads_trans [OF r1 reads_trans [OF q1(2) q(2)]] by simp
  then have "reads p (dotted (i # fp)) (add_fields (i # fp)) q"
    by (auto elim!: reads_cong simp: add_fields_simps)
  then show ?case using c q1(1) q(1) by (auto simp: ParseFieldPath_loop.simps [of p])
qed

lemma ParseFieldPath_complete:
  assumes "fp \<noteq> []" "\<forall>i \<in> set fp. wf_ident i" "parser_inv p" "p_in_variable p" "vars_ok p"
    "remaining p = tl (dotted fp) @ r" "r \<noteq> []" "hd r = CHR ''}'' \<or> hd r = CHR ''=''"
  shows "\<exists>q. ParseFieldPath (rewind p) = Parsed q \<and> reads p (tl (dotted fp)) (add_fields fp) q"
proof -
  obtain i fp' where fp: "fp = i # fp'" using assms(1) by (cases fp) auto
  obtain q1 where q1: "ParseIdentifier (rewind p) = Parsed q1" "reads p i (add_fields [i]) q1"
    using ParseIdentifier_complete [of i p "dotted fp' @ r"] assms fp dotted_stop [of r fp']
    by (auto simp: ident_char_def)
  have "remaining q1 = dotted fp' @ r" using q1(2) assms(6) fp by (simp add: reads_def)
  then obtain q where q: "ParseFieldPath_loop q1 = Parsed q" "reads q1 (dotted fp') (add_fields fp') q"
    using ParseFieldPath_loop_complete [of fp' q1 r] assms fp reads_inv [OF q1(2)] reads_frame [OF q1(2)]
    by auto
  have "reads p (i @ dotted fp') (add_fields fp' \<circ> add_fields [i]) q"
    using reads_trans [OF q1(2) q(2)] by simp
  then have "reads p (tl (dotted fp)) (add_fields fp) q"
    by (auto elim!: reads_cong simp: add_fields_simps fp)
  then show ?thesis using q1 q by (auto simp: ParseFieldPath_def)
qed

definition seg_complete :: "segment \<Rightarrow> bool" where
  "seg_complete s \<longleftrightarrow> (\<forall>n p r. parser_inv p \<longrightarrow> vars_ok p \<longrightarrow> seg_ok p s \<longrightarrow>
     remaining p = print_segment s @ r \<longrightarrow> seg_stop r \<longrightarrow> 3 * length (remaining p) + 1 < n \<longrightarrow>
     (\<exists>q. ParseSegment n p = Parsed q \<and> reads p (print_segment s) (apply_segment s) q))"

lemma Seg_complete: "seg_complete (Seg t)"
  unfolding seg_complete_def
proof (intro allI impI)
  fix n p r
  assume p: "parser_inv p" "vars_ok p" and ok: "seg_ok p (Seg t)" and r: "remaining p = print_segment (Seg t) @ r"
    and stop: "seg_stop r" and n: "3 * length (remaining p) + 1 < n"
  obtain m where m: "n = Suc m" using n by (cases n) auto
  show "\<exists>q. ParseSegment n p = Parsed q \<and> reads p (print_segment (Seg t)) (apply_segment (Seg t)) q"
  proof (cases t)
    case Rest
    then have c: "Consume (CHR ''*'') (peek p) = (True, advance 1 p)"
        "Consume (CHR ''*'') (advance 1 p) = (True, advance 2 p)"
      using p r by (simp_all add: Consume_eq numeral_2_eq_2)
    have "ParseSegment n p = Parsed (apply_simple Rest (advance 2 p))"
      using c p r Rest m Mark_eq [of "advance 2 p"]
      by (simp add: EnsureCurrent_eq Let_def apply_simple_def
          del: apply_simple_advance effect_advance)
    moreover have "reads p ''**'' (apply_simple Rest \<circ> id) (apply_simple Rest (advance 2 p))"
      using reads_advance [of p "''**''" r] p r Rest
      by (intro reads_effect) (simp_all add: numeral_2_eq_2)
    ultimately show ?thesis using Rest by auto
  next
    case Any
    have "ParseSegment n p = Parsed (push_segment ''*'' (peek (advance 1 p)))"
    proof (cases r)
      case Nil
      then show ?thesis using p r Any m
        by (simp add: EnsureCurrent_eq Consume_eq peek_def [of "advance (Suc 0) p"])
    next
      case (Cons y ys)
      then show ?thesis using p r Any m stop
        by (auto simp: EnsureCurrent_eq Consume_eq seg_stop_def literal_char_def)
    qed
    moreover have "reads p ''*'' (push_segment ''*'' \<circ> id) (push_segment ''*'' (peek (advance 1 p)))"
      using reads_advance [of p "''*''" r] p r Any by (intro reads_effect reads_peek) simp_all
    then have "reads p ''*'' (apply_simple Any) (push_segment ''*'' (peek (advance 1 p)))"
      by (auto elim!: reads_cong simp: apply_simple_def)
    ultimately show ?thesis using Any by auto
  next
    case (Lit w)
    have w: "w \<noteq> []" "hd w \<noteq> CHR ''*''" "hd w \<noteq> CHR ''{''" "\<forall>c \<in> set w. literal_char c"
      using ok Lit by (auto simp: seg_ok_def)
    have tw: "takeWhile literal_char (remaining p) = w"
    proof -
      have "takeWhile literal_char (w @ r) = w"
        by (rule takeWhile_stop) (use w(4) stop in \<open>auto simp: seg_stop_def\<close>)
      then show ?thesis using r Lit by simp
    qed
    obtain x xs where "w = x # xs" using w(1) by (cases w) auto
    then have "ParseSegment n p = Parsed (push_segment w (peek (advance (length w) p)))"
      using p r Lit w m ParseLiteral_peek [OF p(1)] ParseLiteral_eq [OF p(1) tw [symmetric], of "[]"]
      by (auto simp: EnsureCurrent_eq ParseLiteralSegment_def push_segment_def)
    moreover have "reads p w (push_segment w \<circ> id) (push_segment w (peek (advance (length w) p)))"
      using reads_advance [of p w r] p r Lit by (intro reads_effect reads_peek) simp_all
    then have "reads p w (apply_simple (Lit w)) (push_segment w (peek (advance (length w) p)))"
      by (auto elim!: reads_cong simp: apply_simple_def)
    ultimately show ?thesis using Lit by auto
  qed
qed

definition list_stop :: "string \<Rightarrow> bool" where
  "list_stop r \<longleftrightarrow> r = [] \<or> hd r = CHR '':'' \<or> hd r = CHR ''}''"

lemma slashed_seg_stop: "list_stop r \<Longrightarrow> seg_stop (slashed f ss @ r)"
  by (cases ss) (auto simp: list_stop_def seg_stop_def literal_char_def)

lemma print_segment_nonempty: "wf_segment s \<Longrightarrow> print_segment s \<noteq> []"
  by (cases s rule: print_segment.cases) (auto elim: wf_simple.elims)

lemma seg_ok_cong: "p_in_variable q = p_in_variable p \<Longrightarrow> seg_ok q s = seg_ok p s"
  by (simp add: seg_ok_def)

lemma ParseSegments_loop_complete:
  "\<lbrakk>\<forall>s \<in> set ss. seg_complete s \<and> seg_ok p s; parser_inv p; vars_ok p;
    remaining p = slashed print_segment ss @ r; list_stop r; 3 * length (remaining p) < n\<rbrakk> \<Longrightarrow>
   \<exists>q. ParseSegments_loop n p = Parsed q \<and>
     reads p (slashed print_segment ss) (fold apply_segment ss) q"
proof (induction ss arbitrary: p n)
  case Nil
  then obtain m where m: "n = Suc m" by (cases n) auto
  then have "ParseSegments_loop n p = Parsed (peek p)"
    using Nil.prems by (cases r) (auto simp: Consume_eq list_stop_def peek_def)
  moreover have "reads p [] id (peek p)" using Nil.prems by (simp add: reads_def advance_0)
  ultimately show ?case by (auto simp: id_def)
next
  case (Cons s ss)
  then obtain m where m: "n = Suc m" by (cases n) auto
  let ?p = "advance 1 p"
  have c: "Consume (CHR ''/'') p = (True, ?p)" using Cons.prems by (simp add: Consume_eq)
  note r1 = Consume_reads [OF c Cons.prems(2), THEN conjunct1]
  have ok: "seg_ok ?p s" using Cons.prems(1) seg_ok_cong [of ?p p s] by simp
  have rem: "remaining ?p = print_segment s @ slashed print_segment ss @ r" using Cons.prems(4) by simp
  have len: "length (remaining p) = Suc (length (remaining ?p))" using Cons.prems(4) by simp
  have stop: "seg_stop (slashed print_segment ss @ r)" using Cons.prems(5) by (rule slashed_seg_stop)
  have fuel: "3 * length (remaining ?p) + 1 < m" using Cons.prems(6) len m by linarith
  obtain q1 where q1: "ParseSegment m ?p = Parsed q1" "reads ?p (print_segment s) (apply_segment s) q1"
    using Cons.prems(1,3) reads_inv [OF r1] ok rem stop fuel unfolding seg_complete_def
    by (metis list.set_intros(1) vars_ok_simps(3))
  have f: "p_in_variable q1 = p_in_variable p" "vars_ok q1"
    using reads_frame [OF q1(2)] apply_segment_frame [OF ok] Cons.prems(3) by auto
  have rem1: "remaining q1 = slashed print_segment ss @ r"
    using q1(2) rem by (simp add: reads_def)
  have len1: "length (remaining q1) \<le> length (remaining ?p)" using rem rem1 by simp
  obtain q where q: "ParseSegments_loop m q1 = Parsed q"
      "reads q1 (slashed print_segment ss) (fold apply_segment ss) q"
  proof -
    have "\<forall>s \<in> set ss. seg_complete s \<and> seg_ok q1 s"
      using Cons.prems(1) seg_ok_cong [OF f(1)] by simp
    then show ?thesis
      using Cons.IH [of q1 m] reads_inv [OF q1(2)] f(2) rem1 Cons.prems(5) fuel len1 that by auto
  qed
  have "reads p (''/'' @ print_segment s @ slashed print_segment ss)
      ((fold apply_segment ss \<circ> apply_segment s) \<circ> id) q"
    using reads_trans [OF r1 reads_trans [OF q1(2) q(2)]] by simp
  then show ?case using c q1(1) q(1) m by (auto simp: comp_def)
qed

lemma ParseSegments_complete:
  assumes "ss \<noteq> []" "\<forall>s \<in> set ss. seg_complete s \<and> seg_ok p s" "parser_inv p" "vars_ok p"
    "remaining p = tl (slashed print_segment ss) @ r" "list_stop r" "3 * length (remaining p) + 2 < n"
  shows "\<exists>q. ParseSegments n p = Parsed q \<and>
     reads p (tl (slashed print_segment ss)) (fold apply_segment ss) q"
proof -
  obtain s ss' where ss: "ss = s # ss'" using assms(1) by (cases ss) auto
  obtain m where m: "n = Suc m" using assms(7) by (cases n) auto
  have rem: "remaining p = print_segment s @ slashed print_segment ss' @ r" using assms(5) ss by simp
  have stop: "seg_stop (slashed print_segment ss' @ r)" using assms(6) by (rule slashed_seg_stop)
  obtain q1 where q1: "ParseSegment m p = Parsed q1" "reads p (print_segment s) (apply_segment s) q1"
  proof -
    have "seg_complete s" "seg_ok p s" using assms(2) ss by auto
    moreover have "3 * length (remaining p) + 1 < m" using assms(7) m by simp
    ultimately show ?thesis using assms(3,4) rem stop that unfolding seg_complete_def by blast
  qed
  have ok: "seg_ok p s" using assms(2) ss by simp
  have f: "p_in_variable q1 = p_in_variable p" "vars_ok q1"
    using reads_frame [OF q1(2)] apply_segment_frame [OF ok] assms(4) by auto
  have rem1: "remaining q1 = slashed print_segment ss' @ r" using q1(2) rem by (simp add: reads_def)
  have "3 * length (remaining q1) < m" using rem rem1 assms(7) m by simp
  moreover have "\<forall>s \<in> set ss'. seg_complete s \<and> seg_ok q1 s" using assms(2) ss seg_ok_cong [OF f(1)] by simp
  ultimately obtain q where q: "ParseSegments_loop m q1 = Parsed q"
      "reads q1 (slashed print_segment ss') (fold apply_segment ss') q"
    using ParseSegments_loop_complete [of ss' q1 r m] reads_inv [OF q1(2)] f(2) rem1 assms(6) by auto
  have "reads p (print_segment s @ slashed print_segment ss')
      (fold apply_segment ss' \<circ> apply_segment s) q"
    using reads_trans [OF q1(2) q(2)] by simp
  then show ?thesis using q1(1) q(1) m ss by (auto simp: comp_def)
qed

lemma EndVariable_complete:
  assumes "p_in_variable p" "p_variables p = vs @ [v]" "field_path v \<noteq> []"
    "start_segment v < int (length (p_segments p))"
  shows "EndVariable p = Parsed (close_var p)"
  using assms by (auto simp: EndVariable_def close_var_def update_current_def ValidateVariable_def Let_def)

lemma inner_complete:
  assumes "inner_segs o' \<noteq> []" "\<forall>t \<in> set (inner_segs o'). wf_simple t" "parser_inv p"
    "p_in_variable p" "vars_ok p" "print_segment (Var fp o') = CHR ''{'' # tl (dotted fp) @ w @ ''}''"
    "remaining p = w @ CHR ''}'' # r" "3 * length (remaining p) < n"
  shows "\<exists>q. (case Consume (CHR ''='') p of
        (True, p4) \<Rightarrow> ParseSegments n p4
      | (False, p4) \<Rightarrow> Parsed (push_segment ''*'' p4)) = Parsed q \<and>
     reads p w (fold apply_simple (inner_segs o')) q"
proof (cases o')
  case None
  then have w: "w = []" using assms(6) by simp
  have "Consume (CHR ''='') p = (False, peek p)" using assms(3,7) w by (simp add: Consume_eq)
  moreover have "reads p [] (push_segment ''*'' \<circ> id) (push_segment ''*'' (peek p))"
    using assms(3) by (intro reads_effect reads_peek) (simp_all add: reads_def advance_0)
  then have "reads p w (fold apply_simple (inner_segs o')) (push_segment ''*'' (peek p))"
    by (auto elim!: reads_cong simp: apply_simple_def None w)
  ultimately show ?thesis by auto
next
  case (Some ts)
  then have w: "w = CHR ''='' # tl (slashed simple_text ts)" using assms(6) by simp
  let ?p = "advance 1 p"
  have c: "Consume (CHR ''='') p = (True, ?p)" using assms(3,7) w by (simp add: Consume_eq)
  note r1 = Consume_reads [OF c assms(3), THEN conjunct1]
  have "remaining ?p = tl (slashed print_segment (map Seg ts)) @ CHR ''}'' # r" using assms(7) w by simp
  moreover have "\<forall>s \<in> set (map Seg ts). seg_complete s \<and> seg_ok ?p s"
    using assms(2) Some Seg_complete by (auto simp: seg_ok_def)
  moreover have "3 * length (remaining ?p) + 2 < n" using assms(7,8) w by simp
  ultimately obtain q where q: "ParseSegments n ?p = Parsed q"
     "reads ?p (tl (slashed print_segment (map Seg ts))) (fold apply_segment (map Seg ts)) q"
    using ParseSegments_complete [of "map Seg ts" ?p "CHR ''}'' # r" n] assms(1,5) Some reads_inv [OF r1]
    by (auto simp: list_stop_def)
  have "reads p (''='' @ tl (slashed simple_text ts)) (fold apply_simple ts \<circ> id) q"
    using reads_trans [OF r1, of "tl (slashed simple_text ts)" "fold apply_simple ts" q] q(2) by simp
  then show ?thesis using c q(1) w Some by auto
qed


lemma Var_complete: "seg_complete (Var fp o')"
  unfolding seg_complete_def
proof (intro allI impI)
  fix n p r
  assume p: "parser_inv p" "vars_ok p" and ok: "seg_ok p (Var fp o')"
    and r: "remaining p = print_segment (Var fp o') @ r" and n: "3 * length (remaining p) + 1 < n"
  obtain m k where m: "n = Suc m" "m = Suc k" using n by (cases n; cases "n - 1") auto
  have nv: "\<not> p_in_variable p" and wf: "fp \<noteq> []" "\<forall>i \<in> set fp. wf_ident i" "inner_segs o' \<noteq> []"
      "\<forall>t \<in> set (inner_segs o'). wf_simple t" using ok by (auto simp: seg_ok_def)
  obtain w where w: "print_segment (Var fp o') = CHR ''{'' # tl (dotted fp) @ w @ ''}''"
      "w = [] \<or> hd w = CHR ''=''"
    by (cases o') auto
  have r': "remaining p = CHR ''{'' # tl (dotted fp) @ w @ CHR ''}'' # r" using r w by simp
  let ?p1 = "advance 1 p" and ?p2 = "open_var (advance 1 p)"
  have c: "Consume (CHR ''{'') (peek p) = (True, ?p1)" using p r' by (simp add: Consume_eq)
  have r1: "reads p ''{'' id ?p1" using reads_advance [OF p(1), of "''{''"] r' by simp
  have r2: "reads p ''{'' (open_var \<circ> id) ?p2" by (rule reads_effect [OF r1]) simp_all
  have 2: "StartVariable ?p1 = Parsed ?p2" using nv by (simp add: StartVariable_def open_var_def)
  have rem2: "remaining ?p2 = tl (dotted fp) @ w @ CHR ''}'' # r" using r' by simp
  obtain p3 where p3: "ParseFieldPath ?p2 = Parsed p3" "reads ?p2 (tl (dotted fp)) (add_fields fp) p3"
    using ParseFieldPath_complete [OF wf(1,2) reads_inv [OF r2] _ _ rem2] w(2)
    by (cases w) auto
  have f3: "p_in_variable p3" "vars_ok p3" "parser_inv p3"
    using reads_frame [OF p3(2)] reads_inv [OF p3(2)] by auto
  have rem3: "remaining p3 = w @ CHR ''}'' # r" using p3(2) rem2 by (simp add: reads_def)
  have "3 * length (remaining p3) < k" using n m rem3 r' by simp
  then obtain p5 where p5: "(case Consume (CHR ''='') p3 of
        (True, p4) \<Rightarrow> ParseSegments k p4
      | (False, p4) \<Rightarrow> Parsed (push_segment ''*'' p4)) = Parsed p5"
     "reads p3 w (fold apply_simple (inner_segs o')) p5"
    using inner_complete [OF wf(3,4) f3(3,1,2) w(1) rem3] by blast
  let ?v = "\<lparr>start_segment = int (length (p_segments p)), end_segment = 0, field_path = fp,
       has_wildcard_path = False\<rparr>"
  have v3: "p_variables p3 = p_variables p @ [?v]" "p_segments p3 = p_segments p"
    using reads_frame [OF p3(2)] by (simp_all add: add_fields_def update_current_def open_var_def advance_def)
  note l5 = fold_apply_simple_lists [OF f3(1) v3(1), of "inner_segs o'"]
  have 6: "EndVariable p5 = Parsed (close_var p5)"
    using reads_frame [OF p5(2)] l5 v3(2) f3(1) wf(1,3) by (intro EndVariable_complete) auto
  have r6: "reads p3 w (close_var \<circ> fold apply_simple (inner_segs o')) (close_var p5)"
    by (rule reads_effect [OF p5(2)]) simp_all
  have rem6: "remaining (close_var p5) = ''}'' @ r" using r6 rem3 by (simp add: reads_def)
  have 7: "Consume (CHR ''}'') (close_var p5) = (True, advance 1 (close_var p5))"
    using rem6 reads_inv [OF r6] by (simp add: Consume_eq)
  note r7 = Consume_reads [OF 7 reads_inv [OF r6], THEN conjunct1]
  have "ParseVariable m (peek p) = Parsed (advance 1 (close_var p5))"
    using m c 2 p3(1) p5(1) 6 7 by (simp del: effect_advance)
  moreover have "ParseSegment n p = ParseVariable m (peek p)"
    using m p r' by (simp add: EnsureCurrent_eq)
  moreover have "reads p (''{'' @ tl (dotted fp) @ w @ ''}'')
      (((id \<circ> (close_var \<circ> fold apply_simple (inner_segs o'))) \<circ> add_fields fp) \<circ> (open_var \<circ> id))
      (advance 1 (close_var p5))"
    using reads_trans [OF r2 reads_trans [OF p3(2) reads_trans [OF r6 r7]]] by simp
  then have "reads p (print_segment (Var fp o')) (apply_segment (Var fp o')) (advance 1 (close_var p5))"
    using w(1) by (auto elim!: reads_cong)
  ultimately show "\<exists>q. ParseSegment n p = Parsed q \<and>
      reads p (print_segment (Var fp o')) (apply_segment (Var fp o')) q" by auto
qed

lemma all_complete: "seg_complete s"
  using Seg_complete Var_complete by (cases s) auto

lemma ParseTemplate_complete:
  assumes "wf_template (Template ss v)" "s = print_template (Template ss v)" "3 * length s + 2 < n"
  shows "\<exists>q. ParseTemplate n (Parser s) = Parsed q \<and>
    reads (Parser s) s (set_verb v \<circ> fold apply_segment ss) q"
proof -
  let ?p = "Parser s" and ?r = "if v = [] then [] else CHR '':'' # v"
  have wf: "ss \<noteq> []" "\<forall>s \<in> set ss. wf_segment s" "\<forall>c \<in> set v. literal_char c" using assms(1) by auto
  have s: "s = CHR ''/'' # tl (slashed print_segment ss) @ ?r" using assms(2) wf(1) by (cases ss) auto
  have c: "Consume (CHR ''/'') ?p = (True, advance 1 ?p)" using s by (simp add: Consume_eq)
  note r1 = Consume_reads [OF c Parser_simps(1), THEN conjunct1]
  have rem: "remaining (advance 1 ?p) = tl (slashed print_segment ss) @ ?r" using s by (simp add: advance_def remaining_def Parser_def)
  have "\<forall>s \<in> set ss. seg_complete s \<and> seg_ok (advance 1 ?p) s"
    using wf(2) all_complete by (simp add: seg_ok_def)
  moreover have "list_stop ?r" by (simp add: list_stop_def)
  moreover have "3 * length (remaining (advance 1 ?p)) + 2 < n"
    using assms(3) by simp
  ultimately obtain p2 where p2: "ParseSegments n (advance 1 ?p) = Parsed p2"
      "reads (advance 1 ?p) (tl (slashed print_segment ss)) (fold apply_segment ss) p2"
    using ParseSegments_complete [OF wf(1) _ reads_inv [OF r1] _ rem] by auto
  have "''/'' @ tl (slashed print_segment ss) = slashed print_segment ss" using wf(1) by (cases ss) auto
  then have r2: "reads ?p (slashed print_segment ss) (fold apply_segment ss) p2"
    using reads_trans [OF r1 p2(2)] by simp
  have f2: "p_verb p2 = []" "parser_inv p2" using reads_frame [OF r2] reads_inv [OF r2] by auto
  have rem2: "remaining p2 = ?r" using p2(2) rem by (simp add: reads_def)
  show ?thesis
  proof (cases "v = []")
    case True
    have "set_verb [] (fold apply_segment ss ?p) = fold apply_segment ss ?p"
    proof -
      have "p_verb (fold apply_segment ss ?p) = []" by simp
      then show ?thesis by (simp add: set_verb_def)
    qed
    then have "reads ?p s (set_verb v \<circ> fold apply_segment ss) p2"
      using r2 assms(2) True by (auto elim!: reads_cong)
    moreover have "ParseTemplate n ?p = Parsed p2"
      using c p2(1) rem2 True f2 by (simp add: ParseTemplate_def EnsureCurrent_eq peek_def)
    ultimately show ?thesis by auto
  next
    case False
    let ?p3 = "advance 1 p2" and ?q = "set_verb v (peek (advance (length v) (advance 1 p2)))"
    have cv: "Consume (CHR '':'') (peek p2) = (True, ?p3)" using rem2 False f2 by (simp add: Consume_eq)
    have tw: "takeWhile literal_char (remaining ?p3) = v" using rem2 False wf(3) by simp
    have inv3: "parser_inv ?p3" using f2 rem2 False by simp
    have "ParseVerb (peek p2) = Parsed ?q"
      using cv f2 ParseLiteral_eq [OF inv3 tw [symmetric], of "[]"] False
      by (simp add: ParseVerb_def set_verb_def)
    then have "ParseTemplate n ?p = Parsed ?q"
      using c p2(1) rem2 False f2 by (simp add: ParseTemplate_def EnsureCurrent_eq)
    moreover have "reads ?p s (set_verb v \<circ> fold apply_segment ss) ?q"
    proof -
      have "reads p2 (CHR '':'' # v) id (advance (length (CHR '':'' # v)) p2)"
        using rem2 False by (intro reads_advance [OF f2(2), of _ "[]"]) simp
      then have "reads p2 (CHR '':'' # v) (set_verb v \<circ> id) ?q"
        by (intro reads_effect reads_peek) simp_all
      from reads_trans [OF r2 this] show ?thesis using assms(2) False by simp
    qed
    ultimately show ?thesis by auto
  qed
qed

lemma and_then_fuel: "and_then r f = OutOfFuel \<longleftrightarrow> r = OutOfFuel \<or> (\<exists>p. r = Parsed p \<and> f p = OutOfFuel)"
  by (cases r) auto

lemma case_flag_fuel:
  "(case r of (True, p) \<Rightarrow> f p | (False, p') \<Rightarrow> g p') = OutOfFuel \<longleftrightarrow>
     (\<exists>p. r = (True, p) \<and> f p = OutOfFuel) \<or> (\<exists>p. r = (False, p) \<and> g p = OutOfFuel)"
  by (cases r) (auto split: bool.splits)

lemma leaf_fuel:
  "AddFieldIdentifier i p \<noteq> OutOfFuel" "StartVariable p \<noteq> OutOfFuel" "EndVariable p \<noteq> OutOfFuel"
  "MarkVariableHasWildCardPath p \<noteq> OutOfFuel" "ParseLiteralSegment p \<noteq> OutOfFuel" "ParseVerb p \<noteq> OutOfFuel"
  by (auto simp: AddFieldIdentifier_def StartVariable_def EndVariable_def Let_def ParseVerb_def
      MarkVariableHasWildCardPath_def ParseLiteralSegment_def split: option.splits prod.splits bool.splits if_splits)

lemma ParseIdentifier_loop_fuel: "ParseIdentifier_loop idf r p \<noteq> OutOfFuel"
proof (induction idf r p rule: ParseIdentifier_loop.induct)
  case (1 idf r p)
  obtain b p1 where n: "NextChar p = (b, p1)" by fastforce
  show ?case
    using "1.IH" [of b p1 "current_char p1"] n leaf_fuel(1)
    by (auto simp: ParseIdentifier_loop.simps [of idf r p] Let_def split: bool.splits)
qed

lemma ParseFieldPath_loop_fuel: "ParseFieldPath_loop p \<noteq> OutOfFuel"
proof (induction p rule: ParseFieldPath_loop.induct)
  case (1 p)
  obtain b p1 where c: "Consume (CHR ''.'') p = (b, p1)" by fastforce
  show ?case
    using "1.IH" [of b p1] c ParseIdentifier_loop_fuel
    by (auto simp: ParseFieldPath_loop.simps [of p] and_then_fuel ParseIdentifier_def split: bool.splits)
qed

lemma ParseFieldPath_fuel: "ParseFieldPath p \<noteq> OutOfFuel"
  using ParseFieldPath_loop_fuel ParseIdentifier_loop_fuel
  by (auto simp: ParseFieldPath_def and_then_fuel ParseIdentifier_def)

lemma Consume_length:
  "\<lbrakk>parser_inv p; vars_ok p; Consume c p = (True, q)\<rbrakk> \<Longrightarrow>
     length (remaining q) < length (remaining p) \<and> parser_inv q \<and> vars_ok q \<and> p_in_variable q = p_in_variable p"
proof (goal_cases)
  case 1
  note r = Consume_reads [OF 1(3,1), THEN conjunct1]
  from r have "remaining p = c # remaining q" "parser_inv q" by (simp_all add: reads_def)
  then show ?case using reads_frame [OF r] 1(2) by simp
qed

lemma ParseSegment_length:
  "\<lbrakk>parser_inv p; vars_ok p; ParseSegment n p = Parsed q\<rbrakk> \<Longrightarrow>
     length (remaining q) \<le> length (remaining p) \<and> parser_inv q \<and> vars_ok q"
proof (goal_cases)
  case 1
  then obtain s where s: "seg_ok p s" "reads p (print_segment s) (apply_segment s) q"
    using parse_sound [of n] unfolding segment_sound_def by blast
  then show ?case
    using reads_frame [OF s(2)] apply_segment_frame [OF s(1)] 1 by (auto simp: reads_def)
qed

definition fuel_ok :: "nat \<Rightarrow> bool" where
  "fuel_ok n \<longleftrightarrow> (\<forall>p. parser_inv p \<longrightarrow> vars_ok p \<longrightarrow>
     (3 * length (remaining p) + 2 < n \<longrightarrow> ParseSegments n p \<noteq> OutOfFuel) \<and>
     (3 * length (remaining p) < n \<longrightarrow> ParseSegments_loop n p \<noteq> OutOfFuel) \<and>
     (3 * length (remaining p) + 1 < n \<longrightarrow> ParseSegment n p \<noteq> OutOfFuel) \<and>
     (3 * length (remaining p) < n \<longrightarrow> ParseVariable n p \<noteq> OutOfFuel))"

lemma seg_then_loop_fuel:
  assumes "fuel_ok n" "parser_inv p" "vars_ok p" "3 * length (remaining p) + 1 < n"
  shows "and_then (ParseSegment n p) (ParseSegments_loop n) \<noteq> OutOfFuel"
proof -
  have "ParseSegments_loop n p1 \<noteq> OutOfFuel" if "ParseSegment n p = Parsed p1" for p1
    using ParseSegment_length [OF assms(2,3) that] assms(1,4) by (auto simp: fuel_ok_def)
  moreover have "ParseSegment n p \<noteq> OutOfFuel" using assms by (auto simp: fuel_ok_def)
  ultimately show ?thesis by (auto simp: and_then_fuel)
qed

lemma ParseVariable_fuel:
  assumes "fuel_ok n" "parser_inv p" "vars_ok p" "3 * length (remaining p) < Suc n"
  shows "ParseVariable (Suc n) p \<noteq> OutOfFuel"
proof
  assume "ParseVariable (Suc n) p = OutOfFuel"
  then obtain p1 p2 p3 p4 where c: "Consume (CHR ''{'') p = (True, p1)" and 2: "StartVariable p1 = Parsed p2"
    and 3: "ParseFieldPath p2 = Parsed p3" and 4: "Consume (CHR ''='') p3 = (True, p4)"
    and oof: "ParseSegments n p4 = OutOfFuel"
    using leaf_fuel ParseFieldPath_fuel
    by (auto simp: and_then_fuel case_flag_fuel)
  note l1 = Consume_length [OF assms(2,3) c]
  have p2: "p2 = open_var p1" using 2 by (auto simp: StartVariable_def open_var_def split: if_splits)
  have "rewind p2 = p2" using Consume_reads [OF c assms(2)] p2 by auto
  then obtain fp where r3: "reads p2 (tl (dotted fp)) (add_fields fp) p3"
    using ParseFieldPath_reads [of p2 p3] 3 p2 l1 by auto
  have l3: "length (remaining p3) \<le> length (remaining p2)" "parser_inv p3" "vars_ok p3"
    using r3 reads_frame [OF r3] p2 by (auto simp: reads_def)
  from Consume_length [OF l3(2,3) 4] l3(1) l1 p2 assms(4)
  have "3 * length (remaining p4) + 2 < n" "parser_inv p4" "vars_ok p4" by auto
  with oof assms(1) show False by (auto simp: fuel_ok_def)
qed

lemma ParseSegment_fuel:
  assumes "fuel_ok n" "parser_inv p" "vars_ok p" "3 * length (remaining p) + 1 < Suc n"
  shows "ParseSegment (Suc n) p \<noteq> OutOfFuel"
proof (cases "remaining p")
  case Nil
  then show ?thesis using assms by (simp add: EnsureCurrent_eq)
next
  case (Cons x xs)
  have "ParseVariable n (peek p) \<noteq> OutOfFuel" using assms by (auto simp: fuel_ok_def)
  then show ?thesis
    using Cons assms(2) leaf_fuel by (auto simp: EnsureCurrent_eq Let_def split: prod.splits bool.splits)
qed

lemma ParseSegments_loop_fuel:
  assumes "fuel_ok n" "parser_inv p" "vars_ok p" "3 * length (remaining p) < Suc n"
  shows "ParseSegments_loop (Suc n) p \<noteq> OutOfFuel"
proof -
  obtain b p1 where c: "Consume (CHR ''/'') p = (b, p1)" by fastforce
  show ?thesis
  proof (cases b)
    case True
    with Consume_length [OF assms(2,3)] c
    have "parser_inv p1" "vars_ok p1" "3 * length (remaining p1) + 1 < n" using assms(4) by force+
    then show ?thesis using seg_then_loop_fuel [OF assms(1), of p1] c True by simp
  qed (simp add: c)
qed

lemma fuel_ok: "fuel_ok n"
proof (induction n)
  case 0
  then show ?case by (simp add: fuel_ok_def)
next
  case (Suc n)
  have "ParseSegments (Suc n) p \<noteq> OutOfFuel"
    if "parser_inv p" "vars_ok p" "3 * length (remaining p) + 2 < Suc n" for p
    using seg_then_loop_fuel [OF Suc that(1,2)] that(3) by simp
  moreover have "ParseSegments_loop (Suc n) p \<noteq> OutOfFuel"
    if "parser_inv p" "vars_ok p" "3 * length (remaining p) < Suc n" for p
    by (rule ParseSegments_loop_fuel [OF Suc that])
  moreover have "ParseSegment (Suc n) p \<noteq> OutOfFuel"
    if "parser_inv p" "vars_ok p" "3 * length (remaining p) + 1 < Suc n" for p
    by (rule ParseSegment_fuel [OF Suc that])
  moreover have "ParseVariable (Suc n) p \<noteq> OutOfFuel"
    if "parser_inv p" "vars_ok p" "3 * length (remaining p) < Suc n" for p
    by (rule ParseVariable_fuel [OF Suc that])
  ultimately show ?case unfolding fuel_ok_def by blast
qed

lemma ParseTemplate_never_out_of_fuel: "ParseTemplate (parser_fuel s) (Parser s) \<noteq> OutOfFuel"
proof
  assume "ParseTemplate (parser_fuel s) (Parser s) = OutOfFuel"
  then obtain p1 where c: "Consume (CHR ''/'') (Parser s) = (True, p1)"
      and o: "ParseSegments (parser_fuel s) p1 = OutOfFuel"
    using leaf_fuel(6)
    by (auto simp: ParseTemplate_def and_then_fuel case_flag_fuel split: if_splits)
  have "length (remaining p1) < length s" "parser_inv p1" "vars_ok p1"
    using Consume_length [OF Parser_simps(1,3) c] by auto
  then show False using fuel_ok [of "parser_fuel s"] o by (auto simp: fuel_ok_def parser_fuel_def)
qed

section \<open>The meaning of a template\<close>

fun segment_parts :: "segment \<Rightarrow> string list" where
  "segment_parts (Seg t) = [simple_text t]"
| "segment_parts (Var fp o') = map simple_text (inner_segs o')"

definition template_parts :: "segment list \<Rightarrow> string list" where
  "template_parts ss = concat (map segment_parts ss)"

text \<open>
  A variable covers the parts from its start up to its end; one that holds \<^verbatim>\<open>**\<close> keeps its
  end relative to the end of the path, where \<open>tot\<close> counts the parts and the verb.
\<close>

fun variables_from :: "int \<Rightarrow> int \<Rightarrow> segment list \<Rightarrow> http_variable list" where
  "variables_from tot k [] = []"
| "variables_from tot k (Seg t # ss) = variables_from tot (k + 1) ss"
| "variables_from tot k (Var fp o' # ss) =
     (let e = k + int (length (inner_segs o')) in
      \<lparr>start_segment = k,
       end_segment = (if Rest \<in> set (inner_segs o') then e - tot - 1 else e),
       field_path = fp, has_wildcard_path = Rest \<in> set (inner_segs o')\<rparr> # variables_from tot e ss)"

fun template_meaning :: "template \<Rightarrow> http_template" where
  "template_meaning (Template ss v) =
     \<lparr>ht_segments = template_parts ss, ht_verb = v,
      ht_variables = variables_from
        (int (length (template_parts ss)) + (if v = [] then 0 else 1)) 0 ss\<rparr>"

definition post_variable :: "int \<Rightarrow> http_variable \<Rightarrow> http_variable" where
  "post_variable tot v =
     (if has_wildcard_path v then v\<lparr>end_segment := end_segment v - tot - 1\<rparr> else v)"

lemma apply_Var_lists:
  assumes "\<not> p_in_variable p"
  shows "p_segments (apply_segment (Var fp o') p) = p_segments p @ map simple_text (inner_segs o') \<and>
    p_variables (apply_segment (Var fp o') p) = p_variables p @
      [\<lparr>start_segment = int (length (p_segments p)),
        end_segment = int (length (p_segments p)) + int (length (inner_segs o')),
        field_path = fp, has_wildcard_path = Rest \<in> set (inner_segs o')\<rparr>]"
proof -
  let ?q = "add_fields fp (open_var p)"
  have v: "p_in_variable ?q" "p_variables ?q = p_variables p @
      [\<lparr>start_segment = int (length (p_segments p)), end_segment = 0, field_path = fp,
        has_wildcard_path = False\<rparr>]" "p_segments ?q = p_segments p"
    by (simp_all add: add_fields_def update_current_def open_var_def)
  from fold_apply_simple_lists [OF v(1,2), of "inner_segs o'"] v(3) show ?thesis
    by (simp add: close_var_def update_current_def)
qed

lemma fold_apply_segment_lists:
  "\<lbrakk>\<not> p_in_variable p; \<forall>s \<in> set ss. wf_segment s\<rbrakk> \<Longrightarrow>
    p_segments (fold apply_segment ss p) = p_segments p @ template_parts ss \<and>
    map (post_variable tot) (p_variables (fold apply_segment ss p)) =
      map (post_variable tot) (p_variables p) @
      variables_from tot (int (length (p_segments p))) ss"
proof (induction ss arbitrary: p)
  case (Cons s ss)
  have nv: "\<not> p_in_variable (apply_segment s p)"
    using apply_segment_frame(1) [of p s] Cons.prems by (auto simp: seg_ok_def)
  show ?case
  proof (cases s)
    case (Seg t)
    then show ?thesis
      using Cons.IH [OF nv] Cons.prems
      by (simp add: apply_simple_def push_segment_def template_parts_def add.commute)
  next
    case (Var fp o')
    note l = apply_Var_lists [OF Cons.prems(1), of fp o']
    show ?thesis
      using Cons.IH [OF nv] Cons.prems l unfolding Var
      by (simp add: template_parts_def post_variable_def Let_def del: apply_segment.simps)
  qed
qed (simp add: template_parts_def)

lemma PostProcessVariables_eq:
  "p_variables (PostProcessVariables p) =
     map (post_variable (int (length (p_segments p)) + (if p_verb p = [] then 0 else 1))) (p_variables p)"
  by (simp add: PostProcessVariables_def post_variable_def Let_def)

lemma reads_template_meaning:
  assumes "wf_template (Template ss v)" "reads (Parser s) w (set_verb v \<circ> fold apply_segment ss) q"
  shows "\<lparr>ht_segments = p_segments q, ht_verb = p_verb q,
    ht_variables = p_variables (PostProcessVariables q)\<rparr> = template_meaning (Template ss v)"
proof -
  have f: "p_segments q = p_segments (fold apply_segment ss (Parser s))" "p_verb q = v"
      "p_variables q = p_variables (fold apply_segment ss (Parser s))"
    using reads_frame [OF assms(2)] by (simp_all add: set_verb_def)
  have "p_segments q = template_parts ss"
    using fold_apply_segment_lists [of "Parser s" ss] assms(1) f by simp
  then show ?thesis
    using fold_apply_segment_lists [of "Parser s" ss
        "int (length (template_parts ss)) + (if v = [] then 0 else 1)"] assms(1) f
    by (simp add: PostProcessVariables_eq)
qed

lemma consumed_reads: "parser_inv q \<Longrightarrow> ConsumedAllInput q \<longleftrightarrow> remaining q = []"
  by (auto simp: ConsumedAllInput_def remaining_def)

lemma run_Parser_Parsed:
  "run_Parser s = Parsed p \<longleftrightarrow> (\<exists>q. ParseTemplate (parser_fuel s) (Parser s) = Parsed q \<and>
     ConsumedAllInput q \<and> p = PostProcessVariables q)"
  by (auto simp: run_Parser_def and_then_Parsed split: if_splits)

lemma Post_fields [simp]:
  "p_segments (PostProcessVariables q) = p_segments q" "p_verb (PostProcessVariables q) = p_verb q"
  by (simp_all add: PostProcessVariables_def)

lemma HttpTemplate_Parse_iff:
  "HttpTemplate_Parse s = Some ht \<longleftrightarrow>
    (\<exists>t. wf_template t \<and> print_template t = s \<and> template_meaning t = ht \<and> ValidateParts (ht_segments ht))"
proof
  assume "HttpTemplate_Parse s = Some ht"
  then obtain q where q: "ParseTemplate (parser_fuel s) (Parser s) = Parsed q" "ConsumedAllInput q"
     "ValidateParts (p_segments q)"
     "ht = \<lparr>ht_segments = p_segments q, ht_verb = p_verb q, ht_variables = p_variables (PostProcessVariables q)\<rparr>"
    by (auto simp: HttpTemplate_Parse_def run_Parser_Parsed split: parse_result.splits if_splits)
  obtain ss v where t: "wf_template (Template ss v)"
      "reads (Parser s) (print_template (Template ss v)) (set_verb v \<circ> fold apply_segment ss) q"
    using ParseTemplate_reads [OF q(1)] by blast
  have "s = print_template (Template ss v) @ remaining q" using t(2) by (simp add: reads_def)
  moreover have "remaining q = []" using consumed_reads [OF reads_inv [OF t(2)]] q(2) by simp
  ultimately have "print_template (Template ss v) = s" by simp
  moreover have "template_meaning (Template ss v) = ht" using reads_template_meaning [OF t] q(4) by simp
  moreover have "ValidateParts (ht_segments ht)" using q(3,4) by simp
  ultimately show "\<exists>t. wf_template t \<and> print_template t = s \<and> template_meaning t = ht \<and> ValidateParts (ht_segments ht)"
    using t(1) by blast
next
  assume "\<exists>t. wf_template t \<and> print_template t = s \<and> template_meaning t = ht \<and> ValidateParts (ht_segments ht)"
  then obtain ss v where t: "wf_template (Template ss v)" "print_template (Template ss v) = s"
     "template_meaning (Template ss v) = ht" "ValidateParts (ht_segments ht)"
    by (metis template.exhaust)
  have "3 * length s + 2 < parser_fuel s" by (simp add: parser_fuel_def)
  then obtain q where q: "ParseTemplate (parser_fuel s) (Parser s) = Parsed q"
      "reads (Parser s) s (set_verb v \<circ> fold apply_segment ss) q"
    using ParseTemplate_complete [OF t(1) t(2) [symmetric]] by blast
  have "remaining q = []" using q(2) by (simp add: reads_def)
  then have "run_Parser s = Parsed (PostProcessVariables q)"
    using consumed_reads [OF reads_inv [OF q(2)]] q(1) by (auto simp: run_Parser_Parsed)
  then show "HttpTemplate_Parse s = Some ht"
    using reads_template_meaning [OF t(1) q(2)] t(3,4)
    by (auto simp: HttpTemplate_Parse_def)
qed

text \<open>
  C3: \<^verbatim>\<open>HttpTemplate::Parse\<close> accepts exactly the texts the grammar prints whose parts pass
  \<^verbatim>\<open>ValidateParts\<close>, and returns the segments, the verb and the variables (their ranges, with
  the end of a \<^verbatim>\<open>**\<close> variable counted from the end of the path) of the printed template.
\<close>

theorem HttpTemplate_Parse_correct:
  "HttpTemplate_Parse s = Some ht \<longleftrightarrow>
    (\<exists>t. wf_template t \<and> print_template t = s \<and> template_meaning t = ht \<and> ValidateParts (ht_segments ht))"
  by (rule HttpTemplate_Parse_iff)

text \<open>
  C29: the parse of any text ends: the mutually recursive methods never run out of the fuel
  \<^verbatim>\<open>Parse\<close> starts them with.
\<close>

theorem Parse_never_out_of_fuel: "run_Parser s \<noteq> OutOfFuel"
  using ParseTemplate_never_out_of_fuel [of s]
  by (auto simp: run_Parser_def and_then_fuel split: if_splits)

end
