(* ===== verification/Path_Matcher_Node.thy ===== *)
theory Path_Matcher_Node
  imports Http_Template "HOL-Library.AList"
begin

text \<open>
  The trie of \<^verbatim>\<open>src/api_manager/path_matcher_node.cc\<close>.  A \<^verbatim>\<open>PathMatcherNode\<close> keeps its two
  maps as association lists (the code never depends on their order), the \<^verbatim>\<open>void*\<close> data
  pointer is an option, and the in-out parameter \<^verbatim>\<open>result\<close> of the lookup is passed and
  returned.  The locale \<open>route_store\<close> is the contract between the trie and the path
  matcher: what an insertion changes of the table of entries.  \<open>LookupPath_spec\<close> shows
  that the search of the trie is a search of the table of entries that knows nothing of
  nodes, and \<open>spec_lookup_iff\<close> that this search succeeds exactly when some registered
  template matches the request (\<open>path_matches\<close>).
\<close>

section \<open>The trie\<close>

record 'd lookup_result =
  lr_data :: "'d option"
  is_multiple :: bool

definition PathMatcherLookupResult :: "'d lookup_result" where
  "PathMatcherLookupResult = \<lparr>lr_data = None, is_multiple = False\<rparr>"

datatype 'd path_matcher_node =
  PathMatcherNode
    (result_map: "(string \<times> 'd lookup_result) list")
    (children: "(string \<times> 'd path_matcher_node) list")
    (wildcard: bool)

definition new_PathMatcherNode :: "'d path_matcher_node" where
  "new_PathMatcherNode = PathMatcherNode [] [] False"

definition HttpMethod_WILD_CARD :: string where "HttpMethod_WILD_CARD = ''*''"

definition set_wildcard :: "bool \<Rightarrow> 'd path_matcher_node \<Rightarrow> 'd path_matcher_node" where
  "set_wildcard w n = PathMatcherNode (result_map n) (children n) w"

definition Find2KeysOrNull :: "(string \<times> 'v) list \<Rightarrow> string \<Rightarrow> string \<Rightarrow> 'v option" where
  "Find2KeysOrNull collection key1 key2 =
     (case map_of collection key1 of
        None \<Rightarrow> (case map_of collection key2 of None \<Rightarrow> None | Some v \<Rightarrow> Some v)
      | Some v \<Rightarrow> Some v)"

text \<open>\<^verbatim>\<open>InsertOrReturnExisting\<close>: the existing value if there is one, else \<open>None\<close> and the map extended.\<close>

definition InsertOrReturnExisting ::
    "(string \<times> 'v) list \<Rightarrow> string \<Rightarrow> 'v \<Rightarrow> 'v option \<times> (string \<times> 'v) list" where
  "InsertOrReturnExisting collection key data =
     (case map_of collection key of
        None \<Rightarrow> (None, AList.update key data collection)
      | Some v \<Rightarrow> (Some v, collection))"

definition LookupOrInsertNew ::
    "(string \<times> 'd path_matcher_node) list \<Rightarrow> string \<Rightarrow>
     'd path_matcher_node \<times> (string \<times> 'd path_matcher_node) list" where
  "LookupOrInsertNew collection key =
     (case map_of collection key of
        None \<Rightarrow> (new_PathMatcherNode, AList.update key new_PathMatcherNode collection)
      | Some n \<Rightarrow> (n, collection))"

definition GetResultForHttpMethod ::
    "string \<Rightarrow> 'd lookup_result \<Rightarrow> 'd path_matcher_node \<Rightarrow> bool \<times> 'd lookup_result" where
  "GetResultForHttpMethod key result n =
     (case Find2KeysOrNull (result_map n) key HttpMethod_WILD_CARD of
        Some found \<Rightarrow> (True, found)
      | None \<Rightarrow> (False, result))"

text \<open>
  \<^verbatim>\<open>LookupPath(current, end, ...)\<close> takes the parts from \<open>current\<close> on; \<^verbatim>\<open>LookupPathFromChild\<close>
  takes those after \<open>current\<close>, which is all it uses of them.
\<close>

function LookupPath ::
    "string list \<Rightarrow> string \<Rightarrow> 'd lookup_result \<Rightarrow> 'd path_matcher_node \<Rightarrow> 'd lookup_result"
and LookupPathFromChild ::
    "string \<Rightarrow> string list \<Rightarrow> string \<Rightarrow> 'd lookup_result \<Rightarrow> 'd path_matcher_node \<Rightarrow>
     bool \<times> 'd lookup_result" where
  "LookupPath [] http_method result n =
     (case GetResultForHttpMethod http_method result n of
        (True, result1) \<Rightarrow> result1
      | (False, result1) \<Rightarrow>
          (case map_of (children n) kWildCardPathKey of
             Some child \<Rightarrow> snd (GetResultForHttpMethod http_method result1 child)
           | None \<Rightarrow> result1))"
| "LookupPath (current # rest) http_method result n =
     (let (found, result1) = LookupPathFromChild current rest http_method result n
      in if found then result1
         else if wildcard n then LookupPath rest http_method result1 n
         else
           let (found2, result2) = LookupPathFromChild kSingleParameterKey rest http_method result1 n
           in if found2 then result2
              else
                let (found3, result3) = LookupPathFromChild kWildCardPathPartKey rest http_method result2 n
                in if found3 then result3
                   else snd (LookupPathFromChild kWildCardPathKey rest http_method result3 n))"
| "LookupPathFromChild child_key rest http_method result n =
     (case map_of (children n) child_key of
        Some child \<Rightarrow>
          let result1 = LookupPath rest http_method result child
          in (lr_data result1 \<noteq> None, result1)
      | None \<Rightarrow> (False, result))"
  by pat_completeness auto
termination
  by (relation "measure (\<lambda>x. case x of Inl (ps, _) \<Rightarrow> 2 * length ps | Inr (_, ps, _) \<Rightarrow> Suc (2 * length ps))")
     auto

fun InsertTemplate ::
    "string list \<Rightarrow> string \<Rightarrow> 'd \<Rightarrow> bool \<Rightarrow> 'd path_matcher_node \<Rightarrow> bool \<times> 'd path_matcher_node" where
  "InsertTemplate [] http_method method_data mark_duplicates n =
     (case InsertOrReturnExisting (result_map n) http_method
             \<lparr>lr_data = Some method_data, is_multiple = False\<rparr> of
        (Some existing, m) \<Rightarrow>
          (False, if mark_duplicates
                  then PathMatcherNode (AList.update http_method (existing\<lparr>is_multiple := True\<rparr>) m)
                         (children n) (wildcard n)
                  else n)
      | (None, m) \<Rightarrow> (True, PathMatcherNode m (children n) (wildcard n)))"
| "InsertTemplate (current # rest) http_method method_data mark_duplicates n =
     (let (child, cs) = LookupOrInsertNew (children n) current;
          child1 = (if current = kWildCardPathKey then set_wildcard True child else child);
          (inserted, child2) = InsertTemplate rest http_method method_data mark_duplicates child1
      in (inserted, PathMatcherNode (result_map n) (AList.update current child2 cs) (wildcard n)))"

definition InsertPath ::
    "string list \<Rightarrow> string \<Rightarrow> 'd \<Rightarrow> bool \<Rightarrow> 'd path_matcher_node \<Rightarrow> bool \<times> 'd path_matcher_node" where
  "InsertPath node_path_info http_method method_data mark_duplicates n =
     InsertTemplate node_path_info http_method method_data mark_duplicates n"

text \<open>\<^verbatim>\<open>Clone\<close>: a deep copy, child by child.\<close>

primrec Clone :: "'d path_matcher_node \<Rightarrow> 'd path_matcher_node" where
  "Clone (PathMatcherNode rm cs w) = PathMatcherNode rm (map (map_prod id Clone) cs) w"

section \<open>The contract of the trie as a table of entries\<close>

locale route_store =
  fixes empty_store :: 's
    and insert_route :: "string list \<Rightarrow> string \<Rightarrow> 'd \<Rightarrow> bool \<Rightarrow> 's \<Rightarrow> bool \<times> 's"
    and entry :: "'s \<Rightarrow> string list \<Rightarrow> string \<Rightarrow> 'd lookup_result option"
  assumes entry_empty: "entry empty_store path m = None"
    and insert_flag: "fst (insert_route path m d mark s) \<longleftrightarrow> entry s path m = None"
    and entry_insert: "entry (snd (insert_route path m d mark s)) path' m' =
      (if path' = path \<and> m' = m
       then (case entry s path m of
               None \<Rightarrow> Some \<lparr>lr_data = Some d, is_multiple = False\<rparr>
             | Some e \<Rightarrow> Some (if mark then e\<lparr>is_multiple := True\<rparr> else e))
       else entry s path' m')"
begin

text \<open>A sequence of registrations, as the builder makes them (duplicates marked).\<close>

fun insert_all :: "(string list \<times> string \<times> 'd) list \<Rightarrow> 's \<Rightarrow> 's" where
  "insert_all [] s = s"
| "insert_all ((path, m, d) # rs) s = insert_all rs (snd (insert_route path m d True s))"

definition entry_data :: "'s \<Rightarrow> string list \<Rightarrow> string \<Rightarrow> 'd option" where
  "entry_data s path m = Option.bind (entry s path m) lr_data"

definition filled :: "'s \<Rightarrow> bool" where
  "filled s \<longleftrightarrow> (\<forall>path m e. entry s path m = Some e \<longrightarrow> lr_data e \<noteq> None)"

lemma filled_empty: "filled empty_store"
  by (simp add: filled_def entry_empty)

lemma filled_insert: "filled s \<Longrightarrow> filled (snd (insert_route path m d mark s))"
  by (auto simp: filled_def entry_insert split: option.splits if_splits)

lemma filled_insert_all: "filled s \<Longrightarrow> filled (insert_all rs s)"
  by (induction rs s rule: insert_all.induct) (auto intro: filled_insert)

lemma entry_data_insert:
  "filled s \<Longrightarrow> entry_data (snd (insert_route path m d mark s)) path' m' =
     (if path' = path \<and> m' = m \<and> entry_data s path m = None then Some d else entry_data s path' m')"
  by (auto simp: entry_data_def filled_def entry_insert split: option.splits)

text \<open>The first registration of a path and method wins; later ones do not change the data.\<close>

lemma entry_data_insert_all:
  "filled s \<Longrightarrow> entry_data (insert_all rs s) path m =
     (case entry_data s path m of
        Some d \<Rightarrow> Some d
      | None \<Rightarrow> map_of (map (\<lambda>(p, m, d). ((p, m), d)) rs) (path, m))"
proof (induction rs s rule: insert_all.induct)
  case (2 p m' d rs s)
  then show ?case
    by (auto simp: filled_insert entry_data_insert split: option.splits)
qed (simp split: option.splits)

end

text \<open>The entries of a trie: the result map of the node the path leads to.\<close>

fun node_at :: "string list \<Rightarrow> 'd path_matcher_node \<Rightarrow> 'd path_matcher_node option" where
  "node_at [] n = Some n"
| "node_at (s # path) n = Option.bind (map_of (children n) s) (node_at path)"

definition node_entry :: "'d path_matcher_node \<Rightarrow> string list \<Rightarrow> string \<Rightarrow> 'd lookup_result option" where
  "node_entry n path m = Option.bind (node_at path n) (\<lambda>n'. map_of (result_map n') m)"

lemma node_entry_Cons:
  "node_entry n (s # path) m = Option.bind (map_of (children n) s) (\<lambda>c. node_entry c path m)"
  by (cases "map_of (children n) s") (simp_all add: node_entry_def)

lemma node_entry_Nil: "node_entry n [] m = map_of (result_map n) m"
  by (simp add: node_entry_def)

lemma node_entry_new [simp]: "node_entry new_PathMatcherNode path m = None"
  by (cases path) (simp_all add: node_entry_Nil node_entry_Cons new_PathMatcherNode_def)

lemma node_entry_set_wildcard [simp]: "node_entry (set_wildcard w n) path m = node_entry n path m"
  by (cases path) (simp_all add: node_entry_Nil node_entry_Cons set_wildcard_def)

lemma InsertTemplate_entries:
  "fst (InsertTemplate path m d mark n) = (node_entry n path m = None) \<and>
   node_entry (snd (InsertTemplate path m d mark n)) path' m' =
     (if path' = path \<and> m' = m
      then (case node_entry n path m of
              None \<Rightarrow> Some \<lparr>lr_data = Some d, is_multiple = False\<rparr>
            | Some e \<Rightarrow> Some (if mark then e\<lparr>is_multiple := True\<rparr> else e))
      else node_entry n path' m')"
proof (induction path arbitrary: n path' m')
  case Nil
  show ?case
    by (cases path')
       (auto simp: node_entry_Nil node_entry_Cons InsertOrReturnExisting_def update_conv' split: option.splits)
next
  case (Cons s path)
  let ?c = "fst (LookupOrInsertNew (children n) s)"
  let ?c1 = "if s = kWildCardPathKey then set_wildcard True ?c else ?c"
  have ent: "node_entry ?c1 p m'' = node_entry n (s # p) m''" for p m''
    by (auto simp: LookupOrInsertNew_def node_entry_Cons split: option.splits)
  have maps: "map_of (snd (LookupOrInsertNew (children n) s)) x = map_of (children n) x" if "x \<noteq> s" for x
    using that by (auto simp: LookupOrInsertNew_def update_conv' split: option.splits)
  have ins: "InsertTemplate (s # path) m d mark n =
     (fst (InsertTemplate path m d mark ?c1),
      PathMatcherNode (result_map n)
        (AList.update s (snd (InsertTemplate path m d mark ?c1)) (snd (LookupOrInsertNew (children n) s)))
        (wildcard n))"
    by (simp add: Let_def split: prod.splits)
  show ?case
    using Cons.IH [of ?c1] maps
    by (cases path') (auto simp: ins ent node_entry_Nil node_entry_Cons update_conv' simp del: InsertTemplate.simps
        split: option.splits)
qed

interpretation trie: route_store new_PathMatcherNode InsertTemplate node_entry
  by unfold_locales (simp_all add: InsertTemplate_entries)

section \<open>The wildcard flags\<close>

text \<open>A node is a wildcard node exactly when the key that leads to it is \<^verbatim>\<open>**\<close>.\<close>

definition wild_ok :: "'d path_matcher_node \<Rightarrow> bool" where
  "wild_ok n \<longleftrightarrow> (\<forall>path s n'. node_at (path @ [s]) n = Some n' \<longrightarrow> wildcard n' = (s = kWildCardPathKey))"

lemma wild_ok_children:
  "wild_ok n \<longleftrightarrow> (\<forall>s c. map_of (children n) s = Some c \<longrightarrow> wildcard c = (s = kWildCardPathKey) \<and> wild_ok c)"
proof
  assume w: "wild_ok n"
  show "\<forall>s c. map_of (children n) s = Some c \<longrightarrow> wildcard c = (s = kWildCardPathKey) \<and> wild_ok c"
  proof (intro allI impI conjI)
    fix s c assume c: "map_of (children n) s = Some c"
    then have "node_at ([] @ [s]) n = Some c" by simp
    with w show "wildcard c = (s = kWildCardPathKey)" unfolding wild_ok_def by blast
    have "node_at ((s # path) @ [t]) n = node_at (path @ [t]) c" for path t using c by simp
    with w show "wild_ok c" unfolding wild_ok_def by metis
  qed
next
  assume c: "\<forall>s c. map_of (children n) s = Some c \<longrightarrow> wildcard c = (s = kWildCardPathKey) \<and> wild_ok c"
  show "wild_ok n"
    unfolding wild_ok_def
  proof (intro allI impI)
    fix path s n' assume n': "node_at (path @ [s]) n = Some n'"
    show "wildcard n' = (s = kWildCardPathKey)"
    proof (cases path)
      case Nil
      then show ?thesis using n' c by (auto simp: Option.bind_eq_Some_conv)
    next
      case (Cons t path')
      then obtain d where "map_of (children n) t = Some d" "node_at (path' @ [s]) d = Some n'"
        using n' by (auto simp: Option.bind_eq_Some_conv)
      then show ?thesis using c unfolding wild_ok_def by blast
    qed
  qed
qed

lemma wild_ok_new: "wild_ok new_PathMatcherNode"
  by (subst wild_ok_children) (simp add: new_PathMatcherNode_def)

lemma wild_ok_set_wildcard: "wild_ok (set_wildcard w n) = wild_ok n"
  by (subst (1 2) wild_ok_children) (simp add: set_wildcard_def)

lemma wildcard_InsertTemplate [simp]: "wildcard (snd (InsertTemplate path m d mark n)) = wildcard n"
  by (cases path) (auto simp: Let_def split: prod.splits option.splits)

lemma wild_ok_InsertTemplate: "wild_ok n \<Longrightarrow> wild_ok (snd (InsertTemplate path m d mark n))"
proof (induction path arbitrary: n)
  case Nil
  then show ?case
    by (subst wild_ok_children) (auto simp: wild_ok_children [of n] split: option.splits prod.splits)
next
  case (Cons s path)
  let ?c = "fst (LookupOrInsertNew (children n) s)"
  let ?c1 = "if s = kWildCardPathKey then set_wildcard True ?c else ?c"
  have sub: "wild_ok ?c" "wildcard ?c \<longrightarrow> s = kWildCardPathKey"
    using Cons.prems wild_ok_new
    by (auto simp: LookupOrInsertNew_def wild_ok_children [of n] new_PathMatcherNode_def split: option.splits)
  have c1: "wild_ok ?c1" "wildcard ?c1 = (s = kWildCardPathKey)"
    using sub by (auto simp: set_wildcard_def wild_ok_set_wildcard [unfolded set_wildcard_def])
  have maps: "map_of (snd (LookupOrInsertNew (children n) s)) x = map_of (children n) x" if "x \<noteq> s" for x
    using that by (auto simp: LookupOrInsertNew_def update_conv' split: option.splits)
  have "snd (InsertTemplate (s # path) m d mark n) = PathMatcherNode (result_map n)
        (AList.update s (snd (InsertTemplate path m d mark ?c1)) (snd (LookupOrInsertNew (children n) s)))
        (wildcard n)"
    by (simp add: Let_def split: prod.splits)
  then show ?case
    using Cons.IH [OF c1(1)] c1(2) Cons.prems maps
    by (subst wild_ok_children) (auto simp: update_conv' wild_ok_children [of n] simp del: InsertTemplate.simps)
qed

section \<open>The search, without nodes\<close>

definition or_else :: "'a option \<Rightarrow> 'a option \<Rightarrow> 'a option" where
  "or_else x y = (case x of Some v \<Rightarrow> Some v | None \<Rightarrow> y)"

lemma or_else_simps [simp]: "or_else None y = y" "or_else (Some v) y = Some v" "or_else x None = x"
  by (simp_all add: or_else_def split: option.splits)

lemma or_else_eq_None: "or_else x y = None \<longleftrightarrow> x = None \<and> y = None"
  by (cases x) auto

definition method_result :: "(string \<Rightarrow> 'r option) \<Rightarrow> string \<Rightarrow> 'r option" where
  "method_result e m = or_else (e m) (e HttpMethod_WILD_CARD)"

fun spec_lookup ::
    "(string list \<Rightarrow> string \<Rightarrow> 'r option) \<Rightarrow> bool \<Rightarrow> string list \<Rightarrow> string \<Rightarrow> 'r option" where
  "spec_lookup E w [] m = or_else (method_result (E []) m) (method_result (E [kWildCardPathKey]) m)"
| "spec_lookup E w (p # ps) m =
     or_else (spec_lookup (\<lambda>q. E (p # q)) (p = kWildCardPathKey) ps m)
       (if w then spec_lookup E True ps m
        else or_else (spec_lookup (\<lambda>q. E (kSingleParameterKey # q)) False ps m)
            (or_else (spec_lookup (\<lambda>q. E (kWildCardPathPartKey # q)) False ps m)
                     (spec_lookup (\<lambda>q. E (kWildCardPathKey # q)) True ps m)))"

fun path_matches :: "bool \<Rightarrow> string list \<Rightarrow> string list \<Rightarrow> bool" where
  "path_matches w path [] = (path = [] \<or> path = [kWildCardPathKey])"
| "path_matches w path (p # ps) =
     ((case path of
         [] \<Rightarrow> False
       | s # path' \<Rightarrow>
           (s = p \<or> \<not> w \<and> (s = kSingleParameterKey \<or> s = kWildCardPathPartKey \<or> s = kWildCardPathKey)) \<and>
           path_matches (s = kWildCardPathKey) path' ps)
      \<or> w \<and> path_matches True path ps)"

lemma keys_distinct [simp]:
  "kSingleParameterKey \<noteq> kWildCardPathKey" "kWildCardPathPartKey \<noteq> kWildCardPathKey"
  "kSingleParameterKey \<noteq> kWildCardPathPartKey"
  "kWildCardPathKey \<noteq> kSingleParameterKey" "kWildCardPathKey \<noteq> kWildCardPathPartKey"
  "kWildCardPathPartKey \<noteq> kSingleParameterKey"
  by (simp_all add: kSingleParameterKey_def kWildCardPathKey_def kWildCardPathPartKey_def)

lemma spec_lookup_Some:
  "spec_lookup E w ps m = Some r \<Longrightarrow> \<exists>path. path_matches w path ps \<and> method_result (E path) m = Some r"
proof (induction E w ps m arbitrary: r rule: spec_lookup.induct)
  case (1 E w m)
  then show ?case by (auto simp: or_else_def split: option.splits)
next
  case (2 E w p ps m)
  from "2.prems" consider
      "spec_lookup (\<lambda>q. E (p # q)) (p = kWildCardPathKey) ps m = Some r"
    | "w" "spec_lookup E True ps m = Some r"
    | "\<not> w" "spec_lookup (\<lambda>q. E (kSingleParameterKey # q)) False ps m = Some r"
    | "\<not> w" "spec_lookup (\<lambda>q. E (kWildCardPathPartKey # q)) False ps m = Some r"
    | "\<not> w" "spec_lookup (\<lambda>q. E (kWildCardPathKey # q)) True ps m = Some r"
    by (auto simp: or_else_def split: option.splits if_splits)
  then show ?case
  proof cases
    case 1
    from "2.IH"(1) [OF 1] obtain path where
      "path_matches (p = kWildCardPathKey) path ps" "method_result (E (p # path)) m = Some r" by auto
    then show ?thesis by (intro exI [of _ "p # path"]) simp
  next
    case 2
    from "2.IH"(2) [OF 2] show ?thesis using 2(1) by auto
  next
    case 3
    from "2.IH"(3) [OF 3] obtain path where
      "path_matches False path ps" "method_result (E (kSingleParameterKey # path)) m = Some r" by auto
    then show ?thesis using 3(1) by (intro exI [of _ "kSingleParameterKey # path"]) simp
  next
    case 4
    from "2.IH"(4) [OF 4] obtain path where
      "path_matches False path ps" "method_result (E (kWildCardPathPartKey # path)) m = Some r" by auto
    then show ?thesis using 4(1) by (intro exI [of _ "kWildCardPathPartKey # path"]) simp
  next
    case 5
    from "2.IH"(5) [OF 5] obtain path where
      "path_matches True path ps" "method_result (E (kWildCardPathKey # path)) m = Some r" by auto
    then show ?thesis using 5(1) by (intro exI [of _ "kWildCardPathKey # path"]) simp
  qed
qed

lemma spec_lookup_None:
  "\<lbrakk>spec_lookup E w ps m = None; path_matches w path ps\<rbrakk> \<Longrightarrow> method_result (E path) m = None"
proof (induction E w ps m arbitrary: path rule: spec_lookup.induct)
  case (1 E w m)
  then show ?case by (auto simp: or_else_eq_None)
next
  case (2 E w p ps m)
  show ?case
  proof (cases "w \<and> path_matches True path ps")
    case True
    then show ?thesis using "2.IH"(2) [of path] "2.prems"(1) by (auto simp: or_else_eq_None)
  next
    case False
    then obtain s path' where path: "path = s # path'" "path_matches (s = kWildCardPathKey) path' ps"
       "s = p \<or> \<not> w \<and> (s = kSingleParameterKey \<or> s = kWildCardPathPartKey \<or> s = kWildCardPathKey)"
      using "2.prems"(2) by (auto split: list.splits)
    then show ?thesis using "2.IH"(1,3,4,5) [of path'] "2.prems"(1)
      by (auto simp: or_else_eq_None split: if_splits)
  qed
qed

lemma spec_lookup_iff:
  "spec_lookup E w ps m \<noteq> None \<longleftrightarrow> (\<exists>path. path_matches w path ps \<and> method_result (E path) m \<noteq> None)"
  using spec_lookup_Some [of E w ps m] spec_lookup_None [of E w ps m] by fastforce

lemma spec_lookup_empty [simp]: "spec_lookup (\<lambda>q m'. None) w ps m = None"
  using spec_lookup_iff [of "\<lambda>q m'. None" w ps m] by (auto simp: method_result_def)

section \<open>The search of the trie\<close>

lemma GetResultForHttpMethod_eq:
  "GetResultForHttpMethod m r n = (case method_result (node_entry n []) m of
     Some found \<Rightarrow> (True, found) | None \<Rightarrow> (False, r))"
  by (auto simp: GetResultForHttpMethod_def Find2KeysOrNull_def method_result_def node_entry_Nil
      or_else_def split: option.splits)

definition node_filled :: "'d path_matcher_node \<Rightarrow> bool" where
  "node_filled n \<longleftrightarrow> (\<forall>path m e. node_entry n path m = Some e \<longrightarrow> lr_data e \<noteq> None)"

lemma node_filled_child: "node_filled n \<Longrightarrow> map_of (children n) s = Some c \<Longrightarrow> node_filled c"
  unfolding node_filled_def by (metis bind.bind_lunit node_entry_Cons)

lemma node_filled_method_result:
  "node_filled n \<Longrightarrow> method_result (node_entry n path) m = Some r \<Longrightarrow> lr_data r \<noteq> None"
  by (auto simp: node_filled_def method_result_def or_else_def split: option.splits)

lemma child_entries:
  "(\<lambda>q. node_entry n (s # q)) = (case map_of (children n) s of None \<Rightarrow> (\<lambda>q m. None) | Some c \<Rightarrow> node_entry c)"
  by (auto simp: fun_eq_iff node_entry_Cons split: option.splits)

declare LookupPathFromChild.simps [simp del]

lemma LookupPath_refines:
  "\<lbrakk>wild_ok n; node_filled n; lr_data r = None\<rbrakk> \<Longrightarrow>
     LookupPath ps m r n = (case spec_lookup (node_entry n) (wildcard n) ps m of Some x \<Rightarrow> x | None \<Rightarrow> r)"
proof (induction ps arbitrary: n)
  case Nil
  then show ?case
    by (auto simp: GetResultForHttpMethod_eq or_else_def child_entries method_result_def
        node_entry_Cons split: option.splits)
next
  case (Cons p ps)
  have child: "LookupPathFromChild s ps m r n =
      (case spec_lookup (\<lambda>q. node_entry n (s # q)) (s = kWildCardPathKey) ps m of
         Some x \<Rightarrow> (True, x) | None \<Rightarrow> (False, r))" for s
  proof (cases "map_of (children n) s")
    case None
    then show ?thesis by (simp add: child_entries LookupPathFromChild.simps)
  next
    case (Some c)
    then have c: "wild_ok c" "wildcard c = (s = kWildCardPathKey)" "node_filled c"
      using Cons.prems wild_ok_children [of n] node_filled_child by auto
    then have "lr_data x \<noteq> None" if "spec_lookup (node_entry c) w ps m = Some x" for x w
      using spec_lookup_Some [OF that] node_filled_method_result by blast
    then show ?thesis
      using Cons.IH [OF c(1,3) Cons.prems(3)] c(2) Some Cons.prems(3)
      by (auto simp: child_entries Let_def LookupPathFromChild.simps split: option.splits)
  qed
  show ?case
    using Cons.IH [OF Cons.prems]
    by (simp add: child Let_def or_else_def split: option.splits)
qed


lemma method_result_map: "method_result (\<lambda>m. map_option f (e m)) m = map_option f (method_result e m)"
  by (auto simp: method_result_def or_else_def split: option.splits)

lemma map_option_or_else: "or_else (map_option f x) (map_option f y) = map_option f (or_else x y)"
  by (cases x) auto

lemma spec_lookup_map:
  "spec_lookup (\<lambda>q m. map_option f (E q m)) w ps m = map_option f (spec_lookup E w ps m)"
proof (induction E w ps m rule: spec_lookup.induct)
  case (2 E w p ps m)
  then show ?case by (cases w) (simp_all add: map_option_or_else)
qed (simp add: method_result_map map_option_or_else)

text \<open>The routes of a sequence of registrations, in their order.\<close>

fun insert_routes ::
    "(string list \<times> string \<times> 'd) list \<Rightarrow> 'd path_matcher_node \<Rightarrow> 'd path_matcher_node" where
  "insert_routes [] n = n"
| "insert_routes ((path, m, d) # rs) n = insert_routes rs (snd (InsertPath path m d True n))"

definition route_table :: "(string list \<times> string \<times> 'd) list \<Rightarrow> string list \<Rightarrow> string \<Rightarrow> 'd option" where
  "route_table rs path m = map_of (map (\<lambda>(p, m, d). ((p, m), d)) rs) (path, m)"

lemma insert_routes_eq: "insert_routes rs n = trie.insert_all rs n"
  by (induction rs n rule: insert_routes.induct) (simp_all add: InsertPath_def)

lemma insert_routes_wild_ok: "wild_ok n \<Longrightarrow> wild_ok (insert_routes rs n)"
  by (induction rs n rule: insert_routes.induct) (simp_all add: InsertPath_def wild_ok_InsertTemplate)

lemma insert_routes_wildcard: "wildcard (insert_routes rs n) = wildcard n"
  by (induction rs n rule: insert_routes.induct) (simp_all add: InsertPath_def)

lemma insert_routes_filled: "node_filled (insert_routes rs new_PathMatcherNode)"
  using trie.filled_insert_all [OF trie.filled_empty, of rs]
  by (simp add: insert_routes_eq node_filled_def trie.filled_def)

lemma entry_data_map:
  "node_filled n \<Longrightarrow> map_option (the \<circ> lr_data) (node_entry n path m) = trie.entry_data n path m"
  by (cases "node_entry n path m") (auto simp: node_filled_def trie.entry_data_def)

lemma insert_routes_data:
  "map_option (the \<circ> lr_data) (node_entry (insert_routes rs new_PathMatcherNode) path m) = route_table rs path m"
proof -
  have "trie.entry_data (insert_routes rs new_PathMatcherNode) path m = route_table rs path m"
    using trie.entry_data_insert_all [OF trie.filled_empty, of rs path m]
    by (simp add: insert_routes_eq route_table_def trie.entry_data_def trie.entry_empty)
  then show ?thesis using entry_data_map [OF insert_routes_filled, of rs path m] by simp
qed

lemma LookupPath_spec:
  "lr_data (LookupPath parts http_method PathMatcherLookupResult (insert_routes rs new_PathMatcherNode)) =
     spec_lookup (route_table rs) False parts http_method"
proof -
  let ?n = "insert_routes rs new_PathMatcherNode"
  let ?s = "spec_lookup (node_entry ?n) False parts http_method"
  have w: "wildcard ?n = False" by (simp add: insert_routes_wildcard new_PathMatcherNode_def)
  have "LookupPath parts http_method PathMatcherLookupResult ?n =
      (case ?s of Some x \<Rightarrow> x | None \<Rightarrow> PathMatcherLookupResult)"
    using LookupPath_refines [OF insert_routes_wild_ok [OF wild_ok_new] insert_routes_filled,
        of PathMatcherLookupResult parts http_method rs] w
    by (simp add: PathMatcherLookupResult_def)
  moreover have "lr_data x \<noteq> None" if "?s = Some x" for x
    using spec_lookup_Some [OF that] node_filled_method_result [OF insert_routes_filled] by blast
  moreover have "spec_lookup (route_table rs) False parts http_method = map_option (the \<circ> lr_data) ?s"
    by (simp only: spec_lookup_map [symmetric] insert_routes_data)
  ultimately show ?thesis
    by (cases ?s) (auto simp: PathMatcherLookupResult_def)
qed

text \<open>
  C9: searching the trie built by any sequence of registrations gives the same data as
  the search of the plain table of registrations, in which the first registration of a
  path and method counts: literal key first, then (on a wildcard node) the next part, or
  else the single-parameter, \<^verbatim>\<open>*\<close> and \<^verbatim>\<open>**\<close> keys in this order.
\<close>

theorem LookupPath_searches_registrations:
  "lr_data (LookupPath parts http_method PathMatcherLookupResult (insert_routes rs new_PathMatcherNode)) =
     spec_lookup (route_table rs) False parts http_method"
  by (rule LookupPath_spec)

lemma route_table_not_None: "route_table rs path m \<noteq> None \<longleftrightarrow> (\<exists>d. (path, m, d) \<in> set rs)"
  unfolding route_table_def map_of_eq_None_iff by force

lemma method_result_route_table:
  "method_result (route_table rs path) hm \<noteq> None \<longleftrightarrow>
     (\<exists>m d. (path, m, d) \<in> set rs \<and> (m = hm \<or> m = HttpMethod_WILD_CARD))"
  using route_table_not_None [of rs path] by (auto simp: method_result_def or_else_eq_None)

text \<open>
  the search finds data exactly when some registered template matches the parts of
  the request, for the request's method or for the wildcard method.
\<close>

theorem LookupPath_complete:
  "lr_data (LookupPath parts http_method PathMatcherLookupResult (insert_routes rs new_PathMatcherNode)) \<noteq> None
   \<longleftrightarrow> (\<exists>path m d. (path, m, d) \<in> set rs \<and> (m = http_method \<or> m = HttpMethod_WILD_CARD) \<and>
          path_matches False path parts)"
  unfolding LookupPath_spec spec_lookup_iff using method_result_route_table [of rs] by blast

section \<open>What it means for a template to match\<close>

definition seg_matches :: "string \<Rightarrow> string \<Rightarrow> bool" where
  "seg_matches s p \<longleftrightarrow> s = p \<or> s = kSingleParameterKey \<or> s = kWildCardPathPartKey"

definition constant_key :: "string \<Rightarrow> bool" where
  "constant_key s \<longleftrightarrow> s \<noteq> kSingleParameterKey \<and> s \<noteq> kWildCardPathPartKey \<and> s \<noteq> kWildCardPathKey"

lemma path_matches_plain:
  "kWildCardPathKey \<notin> set path \<Longrightarrow> path_matches False path parts \<longleftrightarrow> list_all2 seg_matches path parts"
proof (induction parts arbitrary: path)
  case Nil
  then show ?case by auto
next
  case (Cons p ps)
  then show ?case by (cases path) (auto simp: seg_matches_def)
qed

lemma path_matches_constants:
  "\<forall>s \<in> set post. constant_key s \<Longrightarrow> path_matches False post parts \<longleftrightarrow> parts = post"
proof (induction parts arbitrary: post)
  case Nil
  then show ?case by (auto simp: constant_key_def)
next
  case (Cons p ps)
  then show ?case by (cases post) (auto simp: constant_key_def)
qed

lemma path_matches_after_wildcard:
  "\<forall>s \<in> set post. constant_key s \<Longrightarrow> path_matches True post parts \<longleftrightarrow> (\<exists>mid. parts = mid @ post)"
proof (induction parts)
  case Nil
  then show ?case by (auto simp: constant_key_def)
next
  case (Cons p ps)
  have hd: "(case post of [] \<Rightarrow> False | s # path' \<Rightarrow>
      (s = p \<or> \<not> True \<and> (s = kSingleParameterKey \<or> s = kWildCardPathPartKey \<or> s = kWildCardPathKey)) \<and>
      path_matches (s = kWildCardPathKey) path' ps) \<longleftrightarrow> p # ps = post"
    using Cons.prems path_matches_constants [of _ ps]
    by (cases post) (auto simp: constant_key_def)
  have "(\<exists>mid. p # ps = mid @ post) \<longleftrightarrow> p # ps = post \<or> (\<exists>mid. ps = mid @ post)"
    by (metis append_Cons append_Nil append_eq_Cons_conv)
  then show ?case using Cons hd by simp
qed

text \<open>
  a template with one \<^verbatim>\<open>**\<close>, constants after it and no other \<^verbatim>\<open>**\<close> matches a request exactly
  when the request is a match of the parts before it, any parts, and the constants; the
  middle may be empty only when \<^verbatim>\<open>**\<close> ends the template.
\<close>

theorem path_matches_wildcard_template:
  assumes "kWildCardPathKey \<notin> set pre" "\<forall>s \<in> set post. constant_key s"
  shows "path_matches False (pre @ kWildCardPathKey # post) parts \<longleftrightarrow>
    (\<exists>a mid. parts = a @ mid @ post \<and> list_all2 seg_matches pre a \<and> (mid = [] \<longrightarrow> post = []))"
  using assms(1)
proof (induction pre arbitrary: parts)
  case Nil
  show ?case
  proof (cases parts)
    case Nil
    then show ?thesis by auto
  next
    case (Cons p ps)
    have "(\<exists>mid. p # ps = mid @ post \<and> (mid = [] \<longrightarrow> post = [])) \<longleftrightarrow> (\<exists>mid. ps = mid @ post)"
      by (metis append_Cons append_Nil append_eq_Cons_conv list.distinct(1) self_append_conv)
    then show ?thesis
      using path_matches_after_wildcard [OF assms(2), of ps] by (simp add: Cons)
  qed
next
  case (Cons s pre)
  show ?case
  proof (cases parts)
    case Nil
    then show ?thesis by (cases pre) auto
  next
    case (Cons p ps)
    have "path_matches False ((s # pre) @ kWildCardPathKey # post) parts \<longleftrightarrow>
        seg_matches s p \<and> path_matches False (pre @ kWildCardPathKey # post) ps"
      using Cons.prems by (auto simp: Cons seg_matches_def)
    also have "\<dots> \<longleftrightarrow> (\<exists>a mid. parts = a @ mid @ post \<and> list_all2 seg_matches (s # pre) a \<and> (mid = [] \<longrightarrow> post = []))"
    proof -
      have "(\<exists>a. p # ps = a @ mid @ post \<and> list_all2 seg_matches (s # pre) a)
        \<longleftrightarrow> seg_matches s p \<and> (\<exists>a. ps = a @ mid @ post \<and> list_all2 seg_matches pre a)" for mid
        by (auto simp: list_all2_Cons1)
      moreover have "path_matches False (pre @ kWildCardPathKey # post) ps \<longleftrightarrow>
        (\<exists>a mid. ps = a @ mid @ post \<and> list_all2 seg_matches pre a \<and> (mid = [] \<longrightarrow> post = []))"
        using Cons.IH [of ps] Cons.prems by simp
      ultimately show ?thesis unfolding Cons by blast
    qed
    finally show ?thesis .
  qed
qed

theorem path_matches_wildcard_template_witness:
  "path_matches False ([''a''] @ kWildCardPathKey # [''z'']) [''a'', ''b'', ''c'', ''z''] \<longleftrightarrow>
    (\<exists>a mid. [''a'', ''b'', ''c'', ''z''] = a @ mid @ [''z''] \<and> list_all2 seg_matches [''a''] a \<and>
       (mid = [] \<longrightarrow> [''z''] = []))"
  by (rule path_matches_wildcard_template) (simp_all add: constant_key_def kWildCardPathKey_def
      kSingleParameterKey_def kWildCardPathPartKey_def)

lemma spec_lookup_exact: "method_result (E parts) m = Some r \<Longrightarrow> spec_lookup E w parts m = Some r"
  by (induction E w parts m rule: spec_lookup.induct) simp_all

text \<open>
  a template registered with exactly the parts and the method of the request is the
  one found, whatever parameter or wildcard templates match too.
\<close>

theorem LookupPath_exact_first:
  assumes "route_table rs parts http_method = Some d"
  shows "lr_data (LookupPath parts http_method PathMatcherLookupResult
    (insert_routes rs new_PathMatcherNode)) = Some d"
  unfolding LookupPath_spec
  by (rule spec_lookup_exact) (simp add: method_result_def assms)

theorem LookupPath_exact_first_witness:
  "lr_data (LookupPath [''a'', ''b''] ''GET'' PathMatcherLookupResult
    (insert_routes [([''a'', ''*''], ''GET'', 1::nat), ([''**''], ''GET'', 2), ([''a'', ''b''], ''GET'', 3)]
      new_PathMatcherNode)) = Some 3"
  by (rule LookupPath_exact_first) (simp add: route_table_def)

text \<open>
  an insertion reports whether the path and method were new; it adds its data then, and
  otherwise only marks the existing entry as registered more than once; no other entry
  of the trie changes.
\<close>

theorem InsertPath_contract:
  "fst (InsertPath path m d True n) = (node_entry n path m = None) \<and>
   node_entry (snd (InsertPath path m d True n)) path' m' =
     (if path' = path \<and> m' = m
      then (case node_entry n path m of
              None \<Rightarrow> Some \<lparr>lr_data = Some d, is_multiple = False\<rparr>
            | Some e \<Rightarrow> Some (e\<lparr>is_multiple := True\<rparr>))
      else node_entry n path' m')"
  using trie.insert_flag [of path m d True n] trie.entry_insert [of path m d True n path' m']
  by (cases "node_entry n path m") (simp_all add: InsertPath_def)

end
