(* ===== verification/Esp_Status.thy ===== *)
theory Esp_Status
  imports Esp_Prelude
begin

text \<open>
  \<^verbatim>\<open>utils::Status\<close> of \<^verbatim>\<open>include/api_manager/utils/status.h\<close> and
  \<^verbatim>\<open>src/api_manager/utils/status.cc\<close>: one integer code for three spaces (negative: nginx
  control codes, 0 to 99: the canonical codes of \<^verbatim>\<open>google.rpc.Code\<close>, 100 and up: HTTP),
  the message and the cause.  The switch statements are tables.  The numbers of the
  canonical codes are those published with \<^verbatim>\<open>google.rpc.Code\<close>.  Printing a message as
  JSON is protobuf's, a parameter of \<open>ToJson\<close>.
\<close>

section \<open>Canonical codes\<close>

abbreviation (input) "OK_CODE \<equiv> (0::int)"
abbreviation (input) "CANCELLED \<equiv> (1::int)"
abbreviation (input) "UNKNOWN \<equiv> (2::int)"
abbreviation (input) "INVALID_ARGUMENT \<equiv> (3::int)"
abbreviation (input) "DEADLINE_EXCEEDED \<equiv> (4::int)"
abbreviation (input) "NOT_FOUND \<equiv> (5::int)"
abbreviation (input) "ALREADY_EXISTS \<equiv> (6::int)"
abbreviation (input) "PERMISSION_DENIED \<equiv> (7::int)"
abbreviation (input) "RESOURCE_EXHAUSTED \<equiv> (8::int)"
abbreviation (input) "FAILED_PRECONDITION \<equiv> (9::int)"
abbreviation (input) "ABORTED \<equiv> (10::int)"
abbreviation (input) "OUT_OF_RANGE \<equiv> (11::int)"
abbreviation (input) "UNIMPLEMENTED \<equiv> (12::int)"
abbreviation (input) "INTERNAL_CODE \<equiv> (13::int)"
abbreviation (input) "UNAVAILABLE \<equiv> (14::int)"
abbreviation (input) "DATA_LOSS \<equiv> (15::int)"
abbreviation (input) "UNAUTHENTICATED \<equiv> (16::int)"

section \<open>The class\<close>

datatype error_cause = INTERNAL | APPLICATION | AUTH | SERVICE_CONTROL

record status =
  code :: int
  message :: string
  cause :: error_cause

text \<open>The constructor turns the HTTP success code into the canonical one.\<close>

definition Status3 :: "int \<Rightarrow> string \<Rightarrow> error_cause \<Rightarrow> status" where
  "Status3 c msg ec = \<lparr>code = (if c = 200 then OK_CODE else c), message = msg, cause = ec\<rparr>"

definition Status :: "int \<Rightarrow> string \<Rightarrow> status" where
  "Status c msg = Status3 c msg INTERNAL"

definition Status_OK :: status where "Status_OK = Status3 OK_CODE [] INTERNAL"
definition Status_DONE :: status where "Status_DONE = Status (-4) []"

definition ok :: "status \<Rightarrow> bool" where
  "ok s \<longleftrightarrow> code s = OK_CODE \<or> code s = 200"

definition Status_equal :: "status \<Rightarrow> status \<Rightarrow> bool" where
  "Status_equal s x \<longleftrightarrow> \<not> (code s \<noteq> code x \<or> message s \<noteq> message x \<or> cause s \<noteq> cause x)"

definition ngx_names :: "(int \<times> string) list" where
  "ngx_names = [(-1, ''ERROR''), (-2, ''AGAIN''), (-3, ''BUSY''), (-4, ''DONE''),
     (-5, ''DECLINED''), (-6, ''ABORT'')]"

definition canonical_names :: "(int \<times> string) list" where
  "canonical_names = [(OK_CODE, ''OK''), (CANCELLED, ''CANCELLED''), (UNKNOWN, ''UNKNOWN''),
     (INVALID_ARGUMENT, ''INVALID_ARGUMENT''), (DEADLINE_EXCEEDED, ''DEADLINE_EXCEEDED''),
     (NOT_FOUND, ''NOT_FOUND''), (ALREADY_EXISTS, ''ALREADY_EXISTS''),
     (PERMISSION_DENIED, ''PERMISSION_DENIED''), (UNAUTHENTICATED, ''UNAUTHENTICATED''),
     (RESOURCE_EXHAUSTED, ''RESOURCE_EXHAUSTED''), (FAILED_PRECONDITION, ''FAILED_PRECONDITION''),
     (ABORTED, ''ABORTED''), (OUT_OF_RANGE, ''OUT_OF_RANGE''), (UNIMPLEMENTED, ''UNIMPLEMENTED''),
     (INTERNAL_CODE, ''INTERNAL''), (UNAVAILABLE, ''UNAVAILABLE''), (DATA_LOSS, ''DATA_LOSS'')]"

definition http_names :: "(int \<times> string) list" where
  "http_names = [(100, ''CONTINUE''), (200, ''OK''), (201, ''CREATED''), (202, ''ACCEPTED''),
     (204, ''NO_CONTENT''), (301, ''MOVED_PERMANENTLY''), (302, ''FOUND''), (303, ''SEE_OTHER''),
     (304, ''NOT_MODIFIED''), (305, ''USE_PROXY''), (307, ''TEMPORARY_REDIRECT''),
     (308, ''PERMANENT_REDIRECT''), (400, ''BAD_REQUEST''), (401, ''UNAUTHORIZED''),
     (402, ''PAYMENT_REQUIRED''), (403, ''FORBIDDEN''), (404, ''NOT_FOUND''),
     (405, ''METHOD_NOT_ALLOWED''), (406, ''NOT_ACCEPTABLE''), (408, ''REQUEST_TIMEOUT''),
     (409, ''CONFLICT''), (410, ''GONE''), (411, ''LENGTH_REQUIRED''),
     (412, ''PRECONDITION_FAILED''), (413, ''PAYLOAD_TOO_LARGE''), (414, ''REQUEST_URI_TOO_LONG''),
     (415, ''UNSUPPORTED_MEDIA_TYPE''), (416, ''RANGE_NOT_SATISFIABLE''),
     (417, ''EXPECTATION_FAILED''), (418, ''IM_A_TEAPOT''), (419, ''AUTHENTICATION_TIMEOUT''),
     (428, ''PRECONDITION_REQUIRED''), (429, ''TOO_MANY_REQUESTS''),
     (431, ''REQUEST_HEADERS_TOO_LARGE''), (444, ''NO_RESPONSE''), (499, ''CLIENT_CLOSED_REQUEST''),
     (500, ''INTERNAL_SERVER_ERROR''), (501, ''NOT_IMPLEMENTED''), (502, ''BAD_GATEWAY''),
     (503, ''SERVICE_UNAVAILABLE''), (504, ''GATEWAY_TIMEOUT'')]"

definition CodeToString :: "int \<Rightarrow> string" where
  "CodeToString c =
     (if c < 0 then
        (case map_of ngx_names c of Some s \<Rightarrow> s | None \<Rightarrow> ''UNKNOWN('' @ show_int c @ '')'')
      else if c < 100 then
        (case map_of canonical_names c of Some s \<Rightarrow> s | None \<Rightarrow> ''UNKNOWN('' @ show_int c @ '')'')
      else
        (case map_of http_names c of
           Some s \<Rightarrow> s
         | None \<Rightarrow>
             (if c \<ge> 200 \<and> c < 300 then ''OK(''
              else if c \<ge> 400 \<and> c < 500 then ''INVALID_REQUEST(''
              else if c \<ge> 500 \<and> c < 600 then ''SERVER_ERROR(''
              else ''UNKNOWN('') @ show_int c @ '')''))"

fun ErrorCauseToString :: "error_cause \<Rightarrow> string" where
  "ErrorCauseToString INTERNAL = ''internal''"
| "ErrorCauseToString APPLICATION = ''application''"
| "ErrorCauseToString AUTH = ''auth''"
| "ErrorCauseToString SERVICE_CONTROL = ''service_control''"

definition ngx_http_codes :: "(int \<times> int) list" where
  "ngx_http_codes = [(-1, 500), (-2, 100), (-3, 429), (-4, 202), (-5, 404), (-6, 400)]"

definition canonical_http_codes :: "(int \<times> int) list" where
  "canonical_http_codes = [(OK_CODE, 200), (CANCELLED, 499), (UNKNOWN, 500), (INVALID_ARGUMENT, 400),
     (DEADLINE_EXCEEDED, 504), (NOT_FOUND, 404), (ALREADY_EXISTS, 409), (PERMISSION_DENIED, 403),
     (RESOURCE_EXHAUSTED, 429), (FAILED_PRECONDITION, 400), (ABORTED, 409), (OUT_OF_RANGE, 400),
     (UNIMPLEMENTED, 501), (INTERNAL_CODE, 500), (UNAVAILABLE, 503), (DATA_LOSS, 500),
     (UNAUTHENTICATED, 401)]"

definition HttpCode :: "status \<Rightarrow> int" where
  "HttpCode s =
     (if code s \<ge> 100 then code s
      else if code s < 0 then (case map_of ngx_http_codes (code s) of Some c \<Rightarrow> c | None \<Rightarrow> 500)
      else (case map_of canonical_http_codes (code s) of Some c \<Rightarrow> c | None \<Rightarrow> 500))"

definition ngx_canonical_codes :: "(int \<times> int) list" where
  "ngx_canonical_codes = [(-1, INTERNAL_CODE), (-2, CANCELLED), (-3, PERMISSION_DENIED),
     (-4, ALREADY_EXISTS), (-5, NOT_FOUND), (-6, ABORTED)]"

definition http_canonical_codes :: "(int \<times> int) list" where
  "http_canonical_codes = [(400, INVALID_ARGUMENT), (403, PERMISSION_DENIED), (404, NOT_FOUND),
     (409, ABORTED), (416, OUT_OF_RANGE), (429, RESOURCE_EXHAUSTED), (499, CANCELLED),
     (504, DEADLINE_EXCEEDED), (501, UNIMPLEMENTED), (503, UNAVAILABLE), (401, UNAUTHENTICATED)]"

definition CanonicalCode :: "status \<Rightarrow> int" where
  "CanonicalCode s =
     (if code s < 0 then (case map_of ngx_canonical_codes (code s) of Some c \<Rightarrow> c | None \<Rightarrow> UNKNOWN)
      else if code s < 100 then code s
      else case map_of http_canonical_codes (code s) of
             Some c \<Rightarrow> c
           | None \<Rightarrow>
               if code s \<ge> 200 \<and> code s < 300 then OK_CODE
               else if code s \<ge> 400 \<and> code s < 500 then FAILED_PRECONDITION
               else if code s \<ge> 500 \<and> code s < 600 then INTERNAL_CODE
               else UNKNOWN)"

text \<open>A \<^verbatim>\<open>protobuf::util::Status\<close> is its error code and message.\<close>

record proto_status =
  error_code :: int
  error_message :: string

definition FromProto :: "proto_status \<Rightarrow> status" where
  "FromProto ps = (if error_code ps = OK_CODE then Status_OK else Status (error_code ps) (error_message ps))"

definition ToProto :: "status \<Rightarrow> proto_status" where
  "ToProto s = \<lparr>error_code = CanonicalCode s, error_message = message s\<rparr>"

text \<open>A \<^verbatim>\<open>google::rpc::Status\<close>; its details hold one \<^verbatim>\<open>DebugInfo\<close> with the cause.\<close>

record rpc_status =
  rpc_code :: int
  rpc_message :: string
  rpc_details :: "string list"

definition ToCanonicalProto :: "status \<Rightarrow> rpc_status" where
  "ToCanonicalProto s = \<lparr>rpc_code = CanonicalCode s, rpc_message = message s,
     rpc_details = [ErrorCauseToString (cause s)]\<rparr>"

definition ToJson :: "(rpc_status \<Rightarrow> status \<times> string) \<Rightarrow> status \<Rightarrow> string" where
  "ToJson ProtoToJson s =
     (let (st, result) = ProtoToJson (ToCanonicalProto s)
      in if \<not> ok st then
           let (st2, result2) = ProtoToJson (ToCanonicalProto st)
           in if \<not> ok st2 then ''Unable to generate error response: '' @ message st2 else result2
         else result)"

definition ToString :: "status \<Rightarrow> string" where
  "ToString s =
     (if code s = OK_CODE then ''OK''
      else if message s = [] then CodeToString (code s)
      else CodeToString (code s) @ '': '' @ message s)"

lemmas status_tables = ngx_http_codes_def canonical_http_codes_def ngx_canonical_codes_def
  http_canonical_codes_def

lemmas status_defs = Status_def Status3_def ok_def Status_OK_def

lemma ok_Status3 [simp]: "ok (Status3 c msg ec) \<longleftrightarrow> c = 0 \<or> c = 200"
  by (simp add: status_defs)

lemma ok_Status [simp]: "ok (Status c msg) \<longleftrightarrow> c = 0 \<or> c = 200"
  by (simp add: status_defs)

lemma ok_Status_OK [simp]: "ok Status_OK"
  by (simp add: status_defs)

section \<open>Properties\<close>

lemma map_of_list_all: "list_all (\<lambda>(k, v). P k v) t \<Longrightarrow> map_of t k = Some v \<Longrightarrow> P k v"
  by (auto simp: list_all_iff dest: map_of_SomeD)

lemma ngx_http_not_200: "map_of ngx_http_codes c = Some h \<Longrightarrow> h \<noteq> 200"
  by (rule map_of_list_all [where t = ngx_http_codes]) code_simp

lemma canonical_http_200: "map_of canonical_http_codes c = Some h \<Longrightarrow> h = 200 \<longleftrightarrow> c = 0"
  by (rule map_of_list_all [where t = canonical_http_codes]) code_simp

lemma canonical_http_0: "map_of canonical_http_codes 0 = Some 200"
  by (simp add: canonical_http_codes_def)

text \<open>
  the HTTP code of a status is 200 exactly when the status is not an error.
\<close>

theorem HttpCode_200_iff_ok: "HttpCode (Status3 c msg ec) = 200 \<longleftrightarrow> ok (Status3 c msg ec)"
proof -
  let ?c = "if c = 200 then 0 else c"
  have code: "code (Status3 c msg ec) = ?c" by (simp add: Status3_def)
  have "HttpCode (Status3 c msg ec) = 200 \<longleftrightarrow> ?c = 0"
    unfolding HttpCode_def code using canonical_http_0
    by (auto dest: ngx_http_not_200 canonical_http_200 split: option.splits)
  then show ?thesis by auto
qed

text \<open>The canonical code of an HTTP code has an HTTP code of the same class.\<close>

lemma http_canonical_class:
  "map_of http_canonical_codes c = Some k \<Longrightarrow>
     0 \<le> k \<and> k < 100 \<and> map_of canonical_http_codes k \<noteq> None \<and>
     the (map_of canonical_http_codes k) div 100 = c div 100"
  by (rule map_of_list_all [where t = http_canonical_codes]) code_simp

lemma HttpCode_canonical:
  "\<lbrakk>0 \<le> k; k < 100; map_of canonical_http_codes k = Some h\<rbrakk> \<Longrightarrow> HttpCode (Status k msg) = h"
  by (simp add: HttpCode_def status_defs)

lemma HttpCode_class_codes:
  "HttpCode (Status 0 msg) = 200" "HttpCode (Status 9 msg) = 400" "HttpCode (Status 13 msg) = 500"
  by (simp_all add: HttpCode_def status_defs canonical_http_codes_def)

text \<open>
  mapping a canonical or HTTP status to its canonical code keeps the class of the HTTP
  code for the classes 2xx, 4xx and 5xx, so an error never becomes a success and a client
  error never becomes a server error.
\<close>

theorem CanonicalCode_keeps_http_class:
  assumes "0 \<le> c" and "HttpCode (Status c msg) div 100 \<in> {2, 4, 5}"
  shows "HttpCode (Status (CanonicalCode (Status c msg)) msg') div 100 = HttpCode (Status c msg) div 100"
proof (cases "c < 100 \<or> c = 200")
  case True
  then have "code (Status c msg) < 100" "0 \<le> code (Status c msg)" "code (Status c msg) \<noteq> 200"
    using assms(1) by (auto simp: status_defs)
  then show ?thesis by (simp add: HttpCode_def CanonicalCode_def status_defs)
next
  case False
  then have code: "code (Status c msg) = c" by (simp add: status_defs)
  with False have h: "HttpCode (Status c msg) = c" by (simp add: HttpCode_def)
  show ?thesis
  proof (cases "map_of http_canonical_codes c")
    case None
    have "CanonicalCode (Status c msg) = (if c div 100 = 2 then 0 else if c div 100 = 4 then 9 else 13)"
      using False assms(2) unfolding CanonicalCode_def code h None by auto
    then show ?thesis using assms(2) unfolding h by (auto simp: HttpCode_class_codes)
  next
    case (Some k)
    have "CanonicalCode (Status c msg) = k"
      using False assms(1) unfolding CanonicalCode_def code Some by simp
    then show ?thesis
      using http_canonical_class [OF Some] HttpCode_canonical [of k _ msg'] h by auto
  qed
qed

theorem CanonicalCode_keeps_http_class_witness:
  "HttpCode (Status (CanonicalCode (Status 416 ''m'')) ''n'') div 100 = HttpCode (Status 416 ''m'') div 100"
  by (rule CanonicalCode_keeps_http_class) (simp_all add: HttpCode_def status_defs)

end
