(* ===== verification/Path_Matcher.thy ===== *)
theory Path_Matcher
  imports Http_Grammar Path_Matcher_Node Esp_Status
begin

text \<open>
  The path matcher of \<^verbatim>\<open>src/api_manager/path_matcher.h\<close>: \<^verbatim>\<open>PathMatcherBuilder\<close> registers HTTP
  templates in the trie, \<^verbatim>\<open>PathMatcher::Lookup\<close> splits a request path, searches the trie
  and extracts the variable bindings from the path and the query.  The class is a C++
  template over the method type: its two operations \<^verbatim>\<open>keep_binding_escaped\<close> and
  \<^verbatim>\<open>system_query_parameter_names\<close> are arguments of \<open>Lookup\<close>.  Reading \<^verbatim>\<open>parts[i]\<close> past the
  end is the value \<open>None\<close>; the properties at the end show that it never happens.
\<close>

section \<open>Unescaping\<close>

definition IsReservedChar :: "char \<Rightarrow> bool" where
  "IsReservedChar c \<longleftrightarrow> c \<in> set ''!#$&()*+,/:;=?@[]'' \<or> c = CHR 0x27"

definition ascii_isxdigit :: "char \<Rightarrow> bool" where
  "ascii_isxdigit c \<longleftrightarrow>
     (let x = of_char c :: nat in
      (97 \<le> x \<and> x \<le> 102) \<or> (65 \<le> x \<and> x \<le> 70) \<or> (48 \<le> x \<and> x \<le> 57))"

definition hex_digit_to_int :: "char \<Rightarrow> nat" where
  "hex_digit_to_int c = (let x = of_char c :: nat; x = (if x > 57 then x + 9 else x) in x mod 16)"

definition GetEscapedChar :: "string \<Rightarrow> nat \<Rightarrow> bool \<Rightarrow> char option" where
  "GetEscapedChar src i unescape_reserved_chars =
     (if i + 2 < length src \<and> src ! i = CHR ''%'' then
        if ascii_isxdigit (src ! (i + 1)) \<and> ascii_isxdigit (src ! (i + 2)) then
          let c = char_of (hex_digit_to_int (src ! (i + 1)) * 16 + hex_digit_to_int (src ! (i + 2)))
          in if \<not> unescape_reserved_chars \<and> IsReservedChar c then None else Some c
        else None
      else None)"

text \<open>The second loop of \<^verbatim>\<open>UrlUnescapeString\<close>, from index \<open>i\<close>; what it returns is what it writes.\<close>

function unescape_from :: "string \<Rightarrow> bool \<Rightarrow> nat \<Rightarrow> string" where
  "unescape_from part r i =
     (if i < length part then
        (case GetEscapedChar part i r of
           Some ch \<Rightarrow> ch # unescape_from part r (i + 3)
         | None \<Rightarrow> part ! i # unescape_from part r (i + 1))
      else [])"
  by pat_completeness auto
termination
  by (relation "measure (\<lambda>(part, r, i). length part - i)") auto

declare unescape_from.simps [simp del]

definition UrlUnescapeString :: "string \<Rightarrow> bool \<Rightarrow> string" where
  "UrlUnescapeString part unescape_reserved_chars =
     (let needs_unescaping =
            list_ex (\<lambda>i. GetEscapedChar part i unescape_reserved_chars \<noteq> None) [0..<length part]
      in if \<not> needs_unescaping then part else unescape_from part unescape_reserved_chars 0)"

section \<open>Bindings\<close>

record variable_binding =
  vb_field_path :: "string list"
  vb_value :: string

text \<open>The loop over the segments \<open>i\<close> up to \<open>end_segment\<close>; \<open>None\<close> is a read past the end of \<open>parts\<close>.\<close>

function join_parts :: "string list \<Rightarrow> (string \<Rightarrow> string) \<Rightarrow> nat \<Rightarrow> nat \<Rightarrow> string option" where
  "join_parts parts f i end_seg =
     (if i < end_seg then
        if i < length parts then
          (case join_parts parts f (i + 1) end_seg of
             None \<Rightarrow> None
           | Some rest \<Rightarrow> Some (f (parts ! i) @ (if i < end_seg - 1 then ''/'' else []) @ rest))
        else None
      else Some [])"
  by pat_completeness auto
termination
  by (relation "measure (\<lambda>(parts, f, i, e). e - i)") auto

declare join_parts.simps [simp del]

text \<open>
  \<^verbatim>\<open>parts.size() + var.end_segment + 1\<close> is computed in \<^verbatim>\<open>size_t\<close>; the sum is the wrapped one of
  the mathematical sum, and where that is not negative it is the sum itself.
\<close>

definition absolute_end :: "http_variable \<Rightarrow> string list \<Rightarrow> nat" where
  "absolute_end var parts =
     (if end_segment var \<ge> 0 then nat (end_segment var)
      else nat ((int (length parts) + end_segment var + 1) mod 2 ^ 64))"

definition bind_variable :: "string list \<Rightarrow> bool \<Rightarrow> http_variable \<Rightarrow> variable_binding option" where
  "bind_variable parts keep_binding_escaped var =
     (let end_seg = absolute_end var parts;
          is_multipart = nat ((int end_seg - start_segment var) mod 2 ^ 64) > 1 \<or> end_segment var < 0;
          f = (if keep_binding_escaped then (\<lambda>p. p) else (\<lambda>p. UrlUnescapeString p (\<not> is_multipart)))
      in map_option (\<lambda>v. \<lparr>vb_field_path = field_path var, vb_value = v\<rparr>)
           (join_parts parts f (nat (start_segment var)) end_seg))"

fun ExtractBindingsFromPath ::
    "http_variable list \<Rightarrow> string list \<Rightarrow> bool \<Rightarrow> variable_binding list option" where
  "ExtractBindingsFromPath [] parts keep_binding_escaped = Some []"
| "ExtractBindingsFromPath (var # vars) parts keep_binding_escaped =
     (case bind_variable parts keep_binding_escaped var of
        None \<Rightarrow> None
      | Some b \<Rightarrow> map_option ((#) b) (ExtractBindingsFromPath vars parts keep_binding_escaped))"

definition query_binding :: "string set \<Rightarrow> bool \<Rightarrow> string \<Rightarrow> variable_binding list" where
  "query_binding system_params keep_binding_escaped param =
     (case str_find (CHR ''='') param of
        None \<Rightarrow> []
      | Some pos \<Rightarrow>
          if pos \<noteq> 0 then
            let name = take pos param
            in if name \<notin> system_params
               then [\<lparr>vb_field_path = split_string (CHR ''.'') name,
                      vb_value = (if keep_binding_escaped then drop (pos + 1) param
                                  else UrlUnescapeString (drop (pos + 1) param) True)\<rparr>]
               else []
          else [])"

definition ExtractBindingsFromQueryParameters ::
    "string \<Rightarrow> string set \<Rightarrow> bool \<Rightarrow> variable_binding list" where
  "ExtractBindingsFromQueryParameters query_params system_params keep_binding_escaped =
     concat (map (query_binding system_params keep_binding_escaped) (split_string (CHR ''&'') query_params))"

section \<open>Splitting the request\<close>

text \<open>\<^verbatim>\<open>while (!result.empty() && result.back().empty()) result.pop_back();\<close>\<close>

definition drop_trailing_empty :: "string list \<Rightarrow> string list" where
  "drop_trailing_empty xs = rev (dropWhile (\<lambda>x. x = []) (rev xs))"

definition ExtractRequestParts :: "string \<Rightarrow> string set \<Rightarrow> string list" where
  "ExtractRequestParts path0 custom_verbs =
     (let path = substr_to path0 (str_find (CHR ''?'') path0);
          path1 =
            (case (str_rfind (CHR '':'') path, str_rfind (CHR ''/'') path) of
               (Some last_colon_pos, Some last_slash_pos) \<Rightarrow>
                 if last_colon_pos > last_slash_pos \<and> drop (last_colon_pos + 1) path \<in> custom_verbs
                 then path[last_colon_pos := CHR ''/'']
                 else path
             | _ \<Rightarrow> path)
      in drop_trailing_empty (if length path1 > 0 then split_string (CHR ''/'') (drop 1 path1) else []))"

definition TransformHttpTemplate :: "http_template \<Rightarrow> string list" where
  "TransformHttpTemplate ht = ht_segments ht @ (if ht_verb ht \<noteq> [] then [ht_verb ht] else [])"

section \<open>The builder and the matcher\<close>

record 'm method_data =
  md_method :: 'm
  md_variables :: "http_variable list"
  md_body_field_path :: string

record 'm path_matcher =
  pm_root :: "'m method_data path_matcher_node"
  pm_custom_verbs :: "string set"
  pm_methods :: "'m method_data list"

definition PathMatcherBuilder :: "'m path_matcher" where
  "PathMatcherBuilder = \<lparr>pm_root = new_PathMatcherNode, pm_custom_verbs = {}, pm_methods = []\<rparr>"

definition Register ::
    "string \<Rightarrow> string \<Rightarrow> string \<Rightarrow> 'm \<Rightarrow> 'm path_matcher \<Rightarrow> status \<times> 'm path_matcher" where
  "Register http_method http_template body_field_path method b =
     (case HttpTemplate_Parse http_template of
        None \<Rightarrow> (Status INVALID_ARGUMENT (''Invalid HTTP template: '' @ http_template), b)
      | Some ht \<Rightarrow>
          let path_info = TransformHttpTemplate ht
          in if length path_info = 0
             then (Status INVALID_ARGUMENT (''Invalid HTTP template: '' @ http_template), b)
             else
               let md = \<lparr>md_method = method, md_variables = ht_variables ht,
                         md_body_field_path = body_field_path\<rparr>;
                   (inserted, root) = InsertPath path_info http_method md True (pm_root b)
               in if \<not> inserted
                  then (Status ALREADY_EXISTS
                          (''Duplicated HTTP template: '' @ http_method @ '' '' @ http_template),
                        b\<lparr>pm_root := root\<rparr>)
                  else (Status_OK,
                        b\<lparr>pm_root := root,
                          pm_methods := pm_methods b @ [md],
                          pm_custom_verbs := (if ht_verb ht \<noteq> [] then insert (ht_verb ht) (pm_custom_verbs b)
                                              else pm_custom_verbs b)\<rparr>))"

definition LookupInPathMatcherNode ::
    "'d path_matcher_node \<Rightarrow> string list \<Rightarrow> string \<Rightarrow> 'd lookup_result" where
  "LookupInPathMatcherNode root parts http_method = LookupPath parts http_method PathMatcherLookupResult root"

record 'm match_result =
  mr_method :: 'm
  mr_bindings :: "variable_binding list"
  mr_body_field_path :: string

text \<open>
  \<^verbatim>\<open>Lookup\<close> with bindings.  \<open>Inl ()\<close> is the read past the end of the parts, \<open>Inr None\<close> the
  null pointer.
\<close>

definition Lookup_bindings ::
    "('m \<Rightarrow> bool) \<Rightarrow> ('m \<Rightarrow> string set) \<Rightarrow> 'm path_matcher \<Rightarrow> string \<Rightarrow> string \<Rightarrow> string \<Rightarrow>
     unit + 'm match_result option" where
  "Lookup_bindings keep_binding_escaped system_query_parameter_names pm http_method path query_params =
     (let parts = ExtractRequestParts path (pm_custom_verbs pm)
      in case lr_data (LookupInPathMatcherNode (pm_root pm) parts http_method) of
           None \<Rightarrow> Inr None
         | Some md \<Rightarrow>
             let keep = keep_binding_escaped (md_method md)
             in case ExtractBindingsFromPath (md_variables md) parts keep of
                  None \<Rightarrow> Inl ()
                | Some bs \<Rightarrow>
                    Inr (Some \<lparr>mr_method = md_method md,
                      mr_bindings = bs @ ExtractBindingsFromQueryParameters query_params
                        (system_query_parameter_names (md_method md)) keep,
                      mr_body_field_path = md_body_field_path md\<rparr>))"

definition Lookup :: "'m path_matcher \<Rightarrow> string \<Rightarrow> string \<Rightarrow> 'm option" where
  "Lookup pm http_method path =
     (let parts = ExtractRequestParts path (pm_custom_verbs pm)
      in case lr_data (LookupInPathMatcherNode (pm_root pm) parts http_method) of
           None \<Rightarrow> None
         | Some md \<Rightarrow> Some (md_method md))"

section \<open>Unescaping\<close>

lemma unescape_step:
  "length part \<le> i \<Longrightarrow> unescape_from part r i = []"
  "\<lbrakk>i < length part; GetEscapedChar part i r = Some ch\<rbrakk> \<Longrightarrow>
     unescape_from part r i = ch # unescape_from part r (i + 3)"
  "\<lbrakk>i < length part; GetEscapedChar part i r = None\<rbrakk> \<Longrightarrow>
     unescape_from part r i = part ! i # unescape_from part r (i + 1)"
  by (subst unescape_from.simps; simp)+

lemma unescape_from_none:
  "\<lbrakk>\<forall>j. i \<le> j \<longrightarrow> j < length part \<longrightarrow> GetEscapedChar part j r = None\<rbrakk> \<Longrightarrow> unescape_from part r i = drop i part"
proof (induction part r i rule: unescape_from.induct)
  case (1 part r i)
  then show ?case
    by (cases "i < length part") (simp_all add: unescape_step Cons_nth_drop_Suc)
qed

lemma UrlUnescapeString_eq: "UrlUnescapeString part r = unescape_from part r 0"
  using unescape_from_none [of 0 part r] by (auto simp: UrlUnescapeString_def Let_def list_ex_iff)

text \<open>Percent encoding as RFC 3986 defines it: every character as a percent sign and two hex digits.\<close>

definition hex_digit :: "nat \<Rightarrow> char" where
  "hex_digit d = ''0123456789ABCDEF'' ! d"

definition percent_encode_char :: "char \<Rightarrow> string" where
  "percent_encode_char c = [CHR ''%'', hex_digit (of_char c div 16), hex_digit (of_char c mod 16)]"

definition percent_encode :: "(char \<Rightarrow> bool) \<Rightarrow> string \<Rightarrow> string" where
  "percent_encode keep s = concat (map (\<lambda>c. if keep c then [c] else percent_encode_char c) s)"

lemma hex_digit_ok:
  assumes "d < 16"
  shows "ascii_isxdigit (hex_digit d) \<and> hex_digit_to_int (hex_digit d) = d"
proof -
  have "list_all (\<lambda>d. ascii_isxdigit (hex_digit d) \<and> hex_digit_to_int (hex_digit d) = d) [0..<16]"
    by code_simp
  then show ?thesis using assms by (simp add: list_all_iff)
qed

lemma of_char_less: "(of_char c :: nat) < 256"
  by (rule nat_of_char_less_256)

lemma GetEscapedChar_encoded:
  "GetEscapedChar (pre @ percent_encode_char c @ post) (length pre) r =
     (if \<not> r \<and> IsReservedChar c then None else Some c)"
proof -
  have d: "(of_char c :: nat) div 16 < 16" "(of_char c :: nat) mod 16 < 16"
    using of_char_less [of c] by (simp_all add: less_mult_imp_div_less)
  have "(of_char c :: nat) div 16 * 16 + of_char c mod 16 = of_char c" by simp
  then have "char_of ((of_char c :: nat) div 16 * 16 + of_char c mod 16) = c"
    by (simp only: char_of_char)
  then show ?thesis
    using hex_digit_ok [OF d(1)] hex_digit_ok [OF d(2)]
    by (simp add: GetEscapedChar_def percent_encode_char_def nth_append Let_def)
qed

lemma GetEscapedChar_plain:
  "c \<noteq> CHR ''%'' \<Longrightarrow> GetEscapedChar (pre @ c # post) (length pre) r = None"
  by (simp add: GetEscapedChar_def)

lemma unescape_from_encoded:
  assumes "\<forall>c \<in> set s. keep c \<longrightarrow> c \<noteq> CHR ''%''" "\<forall>c \<in> set s. \<not> keep c \<longrightarrow> r \<or> \<not> IsReservedChar c"
  shows "unescape_from (pre @ percent_encode keep s) r (length pre) = s"
  using assms
proof (induction s arbitrary: pre)
  case Nil
  then show ?case by (simp add: percent_encode_def unescape_from.simps [of pre])
next
  case (Cons c s)
  let ?w = "if keep c then [c] else percent_encode_char c"
  have e: "percent_encode keep (c # s) = ?w @ percent_encode keep s" by (simp add: percent_encode_def)
  have IH: "unescape_from ((pre @ ?w) @ percent_encode keep s) r (length (pre @ ?w)) = s"
    by (rule Cons.IH) (use Cons.prems in auto)
  show ?case
  proof (cases "keep c")
    case True
    then show ?thesis
      using IH Cons.prems GetEscapedChar_plain [of c pre "percent_encode keep s" r]
      by (simp add: e unescape_step)
  next
    case False
    then have "GetEscapedChar (pre @ percent_encode_char c @ percent_encode keep s) (length pre) r = Some c"
      using GetEscapedChar_encoded [of pre c "percent_encode keep s" r] Cons.prems by auto
    moreover have "length (percent_encode_char c) = 3" by (simp add: percent_encode_char_def)
    ultimately show ?thesis
      using IH False by (simp add: e unescape_step)
  qed
qed

text \<open>
  unescaping undoes percent encoding: whatever characters other than the percent sign
  an encoder leaves as they are, the decoded text is the original one, for the mode that
  decodes reserved characters and, when no reserved character was encoded, for the other.
\<close>

theorem UrlUnescapeString_percent_encode:
  assumes "\<forall>c \<in> set s. keep c \<longrightarrow> c \<noteq> CHR ''%''"
    and "\<forall>c \<in> set s. \<not> keep c \<longrightarrow> r \<or> \<not> IsReservedChar c"
  shows "UrlUnescapeString (percent_encode keep s) r = s"
  using unescape_from_encoded [OF assms, of "[]"] by (simp add: UrlUnescapeString_eq)

theorem UrlUnescapeString_percent_encode_witness:
  "UrlUnescapeString (percent_encode (\<lambda>c. c = CHR ''/'') ''a/b %'') False = ''a/b %''"
  by (rule UrlUnescapeString_percent_encode) (simp_all add: IsReservedChar_def)

text \<open>
  C26: with reserved characters kept, a percent-encoded slash is not decoded, so a decoded
  multi-segment value has no new segment separators.
\<close>

theorem UrlUnescapeString_no_new_reserved:
  assumes "c \<in> set (UrlUnescapeString part False)" and "IsReservedChar c"
  shows "c \<in> set part"
proof -
  have "\<lbrakk>\<not> r; c \<in> set (unescape_from part r i)\<rbrakk> \<Longrightarrow> c \<in> set part" for r i
  proof (induction part r i rule: unescape_from.induct)
    case (1 part r i)
    show ?case
    proof (cases "i < length part")
      case True
      show ?thesis
      proof (cases "GetEscapedChar part i r")
        case None
        then show ?thesis
          using "1.IH"(1) [OF True None] "1.prems" True by (auto simp: unescape_step)
      next
        case (Some ch)
        then have "\<not> IsReservedChar ch"
          using "1.prems"(1) by (auto simp: GetEscapedChar_def Let_def split: if_splits)
        then show ?thesis
          using "1.IH"(2) [OF True Some] "1.prems" True Some assms(2) by (auto simp: unescape_step)
      qed
    qed (use "1.prems" in \<open>simp add: unescape_step\<close>)
  qed
  from this [of False 0] assms(1) show ?thesis by (simp add: UrlUnescapeString_eq)
qed

theorem UrlUnescapeString_no_new_reserved_witness:
  "CHR ''/'' \<in> set (UrlUnescapeString ''a%2Fb/c'' False) \<and> CHR ''/'' \<in> set ''a%2Fb/c''"
proof -
  have h: "CHR ''/'' \<in> set (UrlUnescapeString ''a%2Fb/c'' False)" by code_simp
  show ?thesis using h UrlUnescapeString_no_new_reserved [OF h] by (simp add: IsReservedChar_def)
qed

section \<open>Splitting the request\<close>

lemma drop_trailing_empty_last: "drop_trailing_empty xs = [] \<or> last (drop_trailing_empty xs) \<noteq> []"
proof -
  let ?d = "dropWhile (\<lambda>x. x = []) (rev xs)"
  have "?d = [] \<or> hd ?d \<noteq> []" using hd_dropWhile [of "\<lambda>x. x = []" "rev xs"] by auto
  then show ?thesis by (cases ?d) (auto simp: drop_trailing_empty_def)
qed

lemma drop_trailing_empty_id: "xs = [] \<or> last xs \<noteq> [] \<Longrightarrow> drop_trailing_empty xs = xs"
  by (cases xs rule: rev_cases) (auto simp: drop_trailing_empty_def)

lemma set_drop_trailing_empty: "set (drop_trailing_empty xs) \<subseteq> set xs"
  by (auto simp: drop_trailing_empty_def dest: set_dropWhileD)

lemma length_drop_trailing_empty: "length (drop_trailing_empty xs) \<le> length xs"
  using length_dropWhile_le [of "\<lambda>x. x = []" "rev xs"] by (simp add: drop_trailing_empty_def)

lemma set_list_update: "set (xs[i := y]) \<subseteq> insert y (set xs)"
  by (rule set_update_subset_insert)

lemma length_split_string: "length (split_string d s) \<le> length s"
proof (induction d s rule: split_string.induct)
  case (1 d s)
  show ?case
  proof (cases s)
    case (Cons x xs)
    have "length (drop 1 (dropWhile (\<lambda>c. c \<noteq> d) s)) < length s"
      using Cons length_dropWhile_le [of "\<lambda>c. c \<noteq> d" s]
      by (cases "dropWhile (\<lambda>c. c \<noteq> d) s") auto
    moreover have "length (split_string d s) = Suc (length (split_string d (drop 1 (dropWhile (\<lambda>c. c \<noteq> d) s))))"
      using Cons by (subst split_string.simps) simp
    ultimately show ?thesis using 1 Cons by simp
  qed simp
qed

lemma split_string_chars: "x \<in> set (split_string d s) \<Longrightarrow> set x \<subseteq> set s"
proof (induction d s rule: split_string.induct)
  case (1 d s)
  show ?case
  proof (cases "s = []")
    case False
    let ?t = "drop 1 (dropWhile (\<lambda>c. c \<noteq> d) s)"
    have t: "set ?t \<subseteq> set s" by (meson order_trans set_drop_subset set_dropWhileD subsetI)
    from False "1.prems" consider "x = takeWhile (\<lambda>c. c \<noteq> d) s" | "x \<in> set (split_string d ?t)"
      by (auto simp: split_string.simps [of d s])
    then show ?thesis
    proof cases
      case 1 then show ?thesis by (auto dest: set_takeWhileD)
    next
      case 2 then show ?thesis using "1.IH" [OF False] t by simp
    qed
  qed (use "1.prems" in simp)
qed

definition request_path :: "string \<Rightarrow> string set \<Rightarrow> string" where
  "request_path path custom_verbs =
     (case (str_rfind (CHR '':'') path, str_rfind (CHR ''/'') path) of
        (Some last_colon_pos, Some last_slash_pos) \<Rightarrow>
          if last_colon_pos > last_slash_pos \<and> drop (last_colon_pos + 1) path \<in> custom_verbs
          then path[last_colon_pos := CHR ''/'']
          else path
      | _ \<Rightarrow> path)"

lemma ExtractRequestParts_eq:
  "ExtractRequestParts path vs =
     (let p = request_path (substr_to path (str_find (CHR ''?'') path)) vs
      in drop_trailing_empty (if length p > 0 then split_string (CHR ''/'') (drop 1 p) else []))"
  by (simp add: ExtractRequestParts_def request_path_def Let_def)

lemma ExtractRequestParts_length: "length (ExtractRequestParts path vs) \<le> length path"
proof -
  have "length (substr_to path q) \<le> length path" for q
    by (simp add: substr_to_def split: option.splits)
  moreover have "length (drop_trailing_empty (if length p1 > 0 then split_string d (drop 1 p1) else [])) \<le> length p1" for p1 d
    using length_drop_trailing_empty [of "split_string d (drop 1 p1)"] length_split_string [of d "drop 1 p1"]
    by (auto simp: drop_trailing_empty_def)
  moreover have "length (request_path path vs) \<le> length path" for path
    by (simp add: request_path_def split: option.splits)
  ultimately show ?thesis unfolding ExtractRequestParts_eq by (meson order_trans)
qed

section \<open>The table of registrations\<close>

text \<open>A registration: method, template, body field path and the method object.\<close>

type_synonym 'm registration = "string \<times> string \<times> string \<times> 'm"

fun register_all :: "'m registration list \<Rightarrow> 'm path_matcher \<Rightarrow> 'm path_matcher" where
  "register_all [] b = b"
| "register_all ((hm, t, body, meth) # rs) b = register_all rs (snd (Register hm t body meth b))"

fun registration_route :: "'m registration \<Rightarrow> (string list \<times> string \<times> 'm method_data) list" where
  "registration_route (hm, t, body, meth) =
     (case HttpTemplate_Parse t of
        None \<Rightarrow> []
      | Some ht \<Rightarrow> [(TransformHttpTemplate ht, hm,
                     \<lparr>md_method = meth, md_variables = ht_variables ht, md_body_field_path = body\<rparr>)])"

definition registered_routes :: "'m registration list \<Rightarrow> (string list \<times> string \<times> 'm method_data) list" where
  "registered_routes rs = concat (map registration_route rs)"

lemma template_parts_nonempty: "wf_template (Template ss v) \<Longrightarrow> template_parts ss \<noteq> []"
proof -
  assume "wf_template (Template ss v)"
  then obtain s ss' where "ss = s # ss'" "wf_segment s" by (cases ss) auto
  then show ?thesis by (cases s) (auto simp: template_parts_def)
qed

lemma parsed_segments_nonempty: "HttpTemplate_Parse t = Some ht \<Longrightarrow> ht_segments ht \<noteq> []"
proof -
  assume "HttpTemplate_Parse t = Some ht"
  then obtain u where u: "wf_template u" "template_meaning u = ht"
    by (auto simp: HttpTemplate_Parse_iff)
  then show ?thesis using template_parts_nonempty by (cases u) auto
qed

lemma Transform_nonempty: "HttpTemplate_Parse t = Some ht \<Longrightarrow> TransformHttpTemplate ht \<noteq> []"
  using parsed_segments_nonempty by (auto simp: TransformHttpTemplate_def)

lemma Register_root:
  "pm_root (snd (Register hm t body meth b)) = insert_routes (registration_route (hm, t, body, meth)) (pm_root b)"
  by (auto simp: Register_def Let_def Transform_nonempty split: option.splits prod.splits)

lemma insert_routes_append: "insert_routes (xs @ ys) n = insert_routes ys (insert_routes xs n)"
  by (induction xs n rule: insert_routes.induct) simp_all

lemma register_all_root:
  "pm_root (register_all rs b) = insert_routes (registered_routes rs) (pm_root b)"
  by (induction rs b rule: register_all.induct)
     (simp_all add: registered_routes_def Register_root insert_routes_append del: registration_route.simps)

lemma registered_root:
  "lr_data (LookupInPathMatcherNode (pm_root (register_all rs PathMatcherBuilder)) parts hm) =
     spec_lookup (route_table (registered_routes rs)) False parts hm"
  by (simp add: register_all_root LookupInPathMatcherNode_def PathMatcherBuilder_def LookupPath_spec)

text \<open>
  C24: a registration succeeds exactly when its template parses and its path and method
  are new; it fails with INVALID_ARGUMENT when the template does not parse and with
  ALREADY_EXISTS when the path and method are taken, and a failed registration adds no
  method and no custom verb and changes no data of the trie.
\<close>

theorem Register_outcomes:
  "let r = Register hm t body meth b in case HttpTemplate_Parse t of
      None \<Rightarrow> code (fst r) = INVALID_ARGUMENT \<and> snd r = b
    | Some ht \<Rightarrow>
        (if node_entry (pm_root b) (TransformHttpTemplate ht) hm = None
         then fst r = Status_OK \<and>
           pm_methods (snd r) = pm_methods b @
             [\<lparr>md_method = meth, md_variables = ht_variables ht, md_body_field_path = body\<rparr>] \<and>
           pm_custom_verbs (snd r) = pm_custom_verbs b \<union> (if ht_verb ht = [] then {} else {ht_verb ht}) \<and>
           map_option lr_data (node_entry (pm_root (snd r)) (TransformHttpTemplate ht) hm) =
             Some (Some \<lparr>md_method = meth, md_variables = ht_variables ht, md_body_field_path = body\<rparr>)
         else code (fst r) = ALREADY_EXISTS \<and>
           pm_methods (snd r) = pm_methods b \<and> pm_custom_verbs (snd r) = pm_custom_verbs b \<and>
           (\<forall>path m. map_option lr_data (node_entry (pm_root (snd r)) path m) =
                      map_option lr_data (node_entry (pm_root b) path m)))"
proof (cases "HttpTemplate_Parse t")
  case None
  then show ?thesis by (simp add: Let_def Register_def Status_def Status3_def)
next
  case (Some ht)
  let ?p = "TransformHttpTemplate ht"
  let ?md = "\<lparr>md_method = meth, md_variables = ht_variables ht, md_body_field_path = body\<rparr>"
  obtain ins root where ip: "InsertPath ?p hm ?md True (pm_root b) = (ins, root)" by fastforce
  have flag: "ins \<longleftrightarrow> node_entry (pm_root b) ?p hm = None"
    using trie.insert_flag [of ?p hm ?md True "pm_root b"] ip by (simp add: InsertPath_def)
  have ent: "node_entry root path m = (if path = ?p \<and> m = hm
       then (case node_entry (pm_root b) ?p hm of
               None \<Rightarrow> Some \<lparr>lr_data = Some ?md, is_multiple = False\<rparr>
             | Some e \<Rightarrow> Some (if True then e\<lparr>is_multiple := True\<rparr> else e))
       else node_entry (pm_root b) path m)" for path m
    using trie.entry_insert [of ?p hm ?md True "pm_root b" path m] ip by (simp add: InsertPath_def)
  have ne: "?p \<noteq> []" using Transform_nonempty [OF Some] .
  show ?thesis
  proof (cases "node_entry (pm_root b) ?p hm")
    case None
    then show ?thesis using Some ip flag ne ent [of ?p hm] by (simp add: Let_def Register_def)
  next
    case (Some e)
    then show ?thesis
      using \<open>HttpTemplate_Parse t = Some ht\<close> ip flag ne ent
      by (simp add: Let_def Register_def Status_def Status3_def)
  qed
qed

text \<open>
  C10: \<^verbatim>\<open>PathMatcher::Lookup\<close> on a matcher built by any sequence of registrations returns the
  method of the template that the search of the table of valid registrations finds, and
  it returns one exactly when a registered template matches the parts of the request for
  its method or for the wildcard method.
\<close>

theorem Lookup_of_registrations:
  "let pm = register_all rs PathMatcherBuilder; parts = ExtractRequestParts path (pm_custom_verbs pm) in
     Lookup pm hm path =
       map_option md_method (spec_lookup (route_table (registered_routes rs)) False parts hm) \<and>
     (Lookup pm hm path \<noteq> None \<longleftrightarrow>
       (\<exists>m t body meth ht. (m, t, body, meth) \<in> set rs \<and> HttpTemplate_Parse t = Some ht \<and>
          (m = hm \<or> m = HttpMethod_WILD_CARD) \<and> path_matches False (TransformHttpTemplate ht) parts))"
proof -
  let ?pm = "register_all rs PathMatcherBuilder"
  let ?parts = "ExtractRequestParts path (pm_custom_verbs ?pm)"
  have eq: "Lookup ?pm hm path =
       map_option md_method (spec_lookup (route_table (registered_routes rs)) False ?parts hm)"
    by (simp add: Lookup_def Let_def registered_root split: option.splits)
  have "Lookup ?pm hm path \<noteq> None \<longleftrightarrow>
      (\<exists>p. path_matches False p ?parts \<and> method_result (route_table (registered_routes rs) p) hm \<noteq> None)"
    unfolding eq by (simp add: spec_lookup_iff del: not_None_eq)
  also have "\<dots> \<longleftrightarrow> (\<exists>p m d. (p, m, d) \<in> set (registered_routes rs) \<and> (m = hm \<or> m = HttpMethod_WILD_CARD) \<and>
      path_matches False p ?parts)"
    using method_result_route_table [of "registered_routes rs"] by blast
  also have "\<dots> \<longleftrightarrow> (\<exists>m t body meth ht. (m, t, body, meth) \<in> set rs \<and> HttpTemplate_Parse t = Some ht \<and>
          (m = hm \<or> m = HttpMethod_WILD_CARD) \<and> path_matches False (TransformHttpTemplate ht) ?parts)"
    by (force simp: registered_routes_def split: option.splits)
  finally show ?thesis using eq by (simp add: Let_def)
qed

section \<open>Bindings\<close>

lemma join_string_Cons: "join_string d (x # xs) = x @ (if xs = [] then [] else d # join_string d xs)"
  by (cases xs) auto

lemma join_parts_eq:
  "e \<le> length parts \<Longrightarrow> join_parts parts f i e =
     Some (join_string (CHR ''/'') (map f (take (e - i) (drop i parts))))"
proof (induction parts f i e rule: join_parts.induct)
  case (1 parts f i e)
  show ?case
  proof (cases "i < e")
    case True
    then have "take (e - i) (drop i parts) = parts ! i # take (e - (i + 1)) (drop (i + 1) parts)"
      using "1.prems" by (metis Suc_diff_Suc Suc_eq_plus1 Cons_nth_drop_Suc less_le_trans take_Suc_Cons)
    moreover have "take (e - (i + 1)) (drop (i + 1) parts) = [] \<longleftrightarrow> \<not> i < e - 1"
      using True "1.prems" by auto
    ultimately show ?thesis
      using 1 True by (subst join_parts.simps) (simp add: join_string_Cons)
  qed (subst join_parts.simps, simp)
qed

lemma path_matches_length:
  "path_matches w path parts \<Longrightarrow>
     length path \<le> length parts \<or> length path = Suc (length parts) \<and> last path = kWildCardPathKey"
proof (induction w path parts rule: path_matches.induct)
  case (2 w path p ps)
  show ?case
  proof (cases "w \<and> path_matches True path ps")
    case True
    then show ?thesis using "2.IH"(2) by auto
  next
    case False
    then obtain s path' where "path = s # path'" "path_matches (s = kWildCardPathKey) path' ps"
      using "2.prems" by (auto split: list.splits)
    then show ?thesis using "2.IH"(1) by auto
  qed
qed auto

lemma simple_text_wild: "wf_simple t \<Longrightarrow> simple_text t = kWildCardPathKey \<longleftrightarrow> t = Rest"
  by (cases t) (auto simp: kWildCardPathKey_def)

lemma variables_from_range:
  "\<lbrakk>v \<in> set (variables_from tot k ss); \<forall>s \<in> set ss. wf_segment s\<rbrakk> \<Longrightarrow>
   \<exists>e. k \<le> start_segment v \<and> start_segment v < e \<and> e \<le> k + int (length (template_parts ss)) \<and>
     end_segment v = (if has_wildcard_path v then e - tot - 1 else e) \<and>
     (\<not> has_wildcard_path v \<longrightarrow> e = k + int (length (template_parts ss)) \<longrightarrow>
        last (template_parts ss) \<noteq> kWildCardPathKey)"
proof (induction tot k ss rule: variables_from.induct)
  case (2 tot k t ss)
  then obtain e where e: "k + 1 \<le> start_segment v" "start_segment v < e"
      "e \<le> k + 1 + int (length (template_parts ss))"
      "end_segment v = (if has_wildcard_path v then e - tot - 1 else e)"
      "\<not> has_wildcard_path v \<longrightarrow> e = k + 1 + int (length (template_parts ss)) \<longrightarrow>
         last (template_parts ss) \<noteq> kWildCardPathKey"
    by auto
  have "template_parts (Seg t # ss) = simple_text t # template_parts ss" by (simp add: template_parts_def)
  moreover have "template_parts ss \<noteq> []" using e by auto
  ultimately show ?case using e by (intro exI [of _ e]) simp
next
  case (3 tot k fp o' ss)
  let ?n = "int (length (inner_segs o'))"
  have tp: "template_parts (Var fp o' # ss) = map simple_text (inner_segs o') @ template_parts ss"
    by (simp add: template_parts_def)
  have wf: "inner_segs o' \<noteq> []" "\<forall>t \<in> set (inner_segs o'). wf_simple t" using "3.prems"(2) by auto
  show ?case
  proof (cases "v \<in> set (variables_from tot (k + ?n) ss)")
    case True
    then obtain e where e: "k + ?n \<le> start_segment v" "start_segment v < e"
        "e \<le> k + ?n + int (length (template_parts ss))"
        "end_segment v = (if has_wildcard_path v then e - tot - 1 else e)"
        "\<not> has_wildcard_path v \<longrightarrow> e = k + ?n + int (length (template_parts ss)) \<longrightarrow>
           last (template_parts ss) \<noteq> kWildCardPathKey"
      using "3.IH" [OF refl] "3.prems" by auto
    moreover have "template_parts ss \<noteq> []" using e by auto
    ultimately show ?thesis unfolding tp by (intro exI [of _ e]) simp
  next
    case False
    then have v: "v = \<lparr>start_segment = k,
       end_segment = (if Rest \<in> set (inner_segs o') then k + ?n - tot - 1 else k + ?n),
       field_path = fp, has_wildcard_path = Rest \<in> set (inner_segs o')\<rparr>"
      using "3.prems"(1) by (simp add: Let_def)
    have "last (map simple_text (inner_segs o')) \<noteq> kWildCardPathKey" if "Rest \<notin> set (inner_segs o')"
    proof -
      have l: "last (inner_segs o') \<in> set (inner_segs o')" using wf(1) by simp
      then have "last (inner_segs o') \<noteq> Rest" using that by metis
      then show ?thesis using simple_text_wild wf l by (simp add: last_map)
    qed
    then show ?thesis unfolding tp using wf(1) by (intro exI [of _ "k + ?n"]) (auto simp: v)
  qed
qed simp

lemma bind_variable_in_range:
  assumes "0 \<le> start_segment var" "absolute_end var parts \<le> length parts"
  shows "bind_variable parts keep var \<noteq> None"
  using assms by (simp add: bind_variable_def Let_def join_parts_eq)

lemma ExtractBindingsFromPath_Some:
  "\<forall>var \<in> set vars. bind_variable parts keep var \<noteq> None \<Longrightarrow> ExtractBindingsFromPath vars parts keep \<noteq> None"
  by (induction vars) auto

lemma parsed_variables_in_range:
  assumes "HttpTemplate_Parse t = Some ht" "path_matches False (TransformHttpTemplate ht) parts"
    "length parts < 2 ^ 64" "var \<in> set (ht_variables ht)"
  shows "bind_variable parts keep var \<noteq> None"
proof -
  obtain ss v where u: "wf_template (Template ss v)" "template_meaning (Template ss v) = ht"
    using assms(1) by (metis HttpTemplate_Parse_iff template.exhaust)
  let ?n = "length parts" and ?vl = "if v = [] then 0 else 1 :: int"
  let ?tot = "int (length (template_parts ss)) + ?vl"
  have ht: "ht_segments ht = template_parts ss" "ht_verb ht = v" "ht_variables ht = variables_from ?tot 0 ss"
    using u(2) by auto
  obtain e where e: "0 \<le> start_segment var" "start_segment var < e" "e \<le> int (length (template_parts ss))"
      "end_segment var = (if has_wildcard_path var then e - ?tot - 1 else e)"
      "\<not> has_wildcard_path var \<longrightarrow> e = int (length (template_parts ss)) \<longrightarrow>
         last (template_parts ss) \<noteq> kWildCardPathKey"
    using variables_from_range [of var ?tot 0 ss] assms(4) u(1) ht by auto
  have L: "int (length (TransformHttpTemplate ht)) = ?tot" by (simp add: TransformHttpTemplate_def ht)
  have last: "v = [] \<Longrightarrow> last (TransformHttpTemplate ht) = last (template_parts ss)"
    by (simp add: TransformHttpTemplate_def ht)
  have m: "?tot \<le> int ?n \<or> ?tot = int ?n + 1 \<and> last (TransformHttpTemplate ht) = kWildCardPathKey"
    using path_matches_length [OF assms(2)] L by auto
  have "absolute_end var parts \<le> ?n"
  proof (cases "has_wildcard_path var")
    case True
    have neg: "end_segment var < 0" using e True by auto
    have "int ?n + end_segment var + 1 = int ?n + e - ?tot" using e(4) True by simp
    moreover have "0 \<le> int ?n + e - ?tot" using m e by auto
    moreover have "int ?n + e - ?tot \<le> int ?n" using e by auto
    ultimately show ?thesis using neg assms(3) by (simp add: absolute_end_def)
  next
    case False
    then show ?thesis using e m last by (auto simp: absolute_end_def split: if_splits)
  qed
  then show ?thesis using bind_variable_in_range e(1) by blast
qed

text \<open>What a matcher finds comes from one of its registrations.\<close>

lemma found_registration:
  assumes "lr_data (LookupInPathMatcherNode (pm_root (register_all rs PathMatcherBuilder)) parts hm) = Some md"
  obtains m t body ht where "(m, t, body, md_method md) \<in> set rs" "HttpTemplate_Parse t = Some ht"
    "path_matches False (TransformHttpTemplate ht) parts" "md_variables md = ht_variables ht"
proof -
  obtain p where p: "path_matches False p parts"
      "method_result (route_table (registered_routes rs) p) hm = Some md"
    using spec_lookup_Some [OF assms [unfolded registered_root]] by blast
  then obtain m where "route_table (registered_routes rs) p m = Some md"
    by (auto simp: method_result_def or_else_def split: option.splits)
  then have "(p, m, md) \<in> set (registered_routes rs)"
    unfolding route_table_def by (force dest: map_of_SomeD)
  then have "\<exists>m t body ht. (m, t, body, md_method md) \<in> set rs \<and> HttpTemplate_Parse t = Some ht \<and>
      p = TransformHttpTemplate ht \<and> md_variables md = ht_variables ht"
    by (force simp: registered_routes_def split: option.splits)
  then show thesis using p(1) that by blast
qed

lemma found_bindings:
  assumes "length path < 2 ^ 64"
    "lr_data (LookupInPathMatcherNode (pm_root (register_all rs PathMatcherBuilder))
       (ExtractRequestParts path vs) hm) = Some md"
  shows "ExtractBindingsFromPath (md_variables md) (ExtractRequestParts path vs) keep \<noteq> None"
proof -
  have len: "length (ExtractRequestParts path vs) < 2 ^ 64"
    using ExtractRequestParts_length assms(1) by (rule le_less_trans)
  obtain m t body ht where "(m, t, body, md_method md) \<in> set rs" "HttpTemplate_Parse t = Some ht"
      "path_matches False (TransformHttpTemplate ht) (ExtractRequestParts path vs)" "md_variables md = ht_variables ht"
    using assms(2) by (rule found_registration)
  then show ?thesis
    using parsed_variables_in_range [OF _ _ len] by (intro ExtractBindingsFromPath_Some) auto
qed

text \<open>
  C25: \<^verbatim>\<open>Lookup\<close> never reads past the parts of the request: for every matcher built by
  registrations, every request and every variable of the template found, the segment
  range of the variable, also one counted from the end, lies inside the parts.
\<close>

theorem Lookup_bindings_in_range:
  assumes "length path < 2 ^ 64"
  shows "Lookup_bindings keep sys (register_all rs PathMatcherBuilder) hm path query \<noteq> Inl ()"
proof -
  let ?pm = "register_all rs PathMatcherBuilder"
  let ?parts = "ExtractRequestParts path (pm_custom_verbs ?pm)"
  show ?thesis
    using found_bindings [OF assms]
    by (cases "lr_data (LookupInPathMatcherNode (pm_root ?pm) ?parts hm)")
       (auto simp: Lookup_bindings_def Let_def split: option.splits)
qed

theorem Lookup_bindings_in_range_witness:
  "Lookup_bindings (\<lambda>_. False) (\<lambda>_. {}) (register_all [(''GET'', ''/a/{x=**}'', '''', 1::nat)] PathMatcherBuilder)
     ''GET'' ''/a'' '''' \<noteq> Inl ()"
  by (rule Lookup_bindings_in_range) simp

lemma variables_from_append:
  "variables_from tot k (ss @ ss') =
     variables_from tot k ss @ variables_from tot (k + int (length (template_parts ss))) ss'"
  by (induction tot k ss rule: variables_from.induct) (simp_all add: template_parts_def Let_def add.assoc)

definition variable_count :: "segment list \<Rightarrow> nat" where
  "variable_count ss = length (variables_from 0 0 ss)"

lemma length_variables_from: "length (variables_from tot k ss) = variable_count ss"
proof -
  have "length (variables_from tot k ss) = length (variables_from tot' k' ss)" for tot' k'
    by (induction tot k ss arbitrary: k' rule: variables_from.induct) (simp_all add: Let_def)
  then show ?thesis by (simp add: variable_count_def)
qed

lemma nth_template_variable:
  "ht_variables (template_meaning (Template (ss1 @ Var fp o' # ss2) v)) ! variable_count ss1 =
     (let k = int (length (template_parts ss1)); e = k + int (length (inner_segs o'));
          tot = e + int (length (template_parts ss2)) + (if v = [] then 0 else 1)
      in \<lparr>start_segment = k, end_segment = (if Rest \<in> set (inner_segs o') then e - tot - 1 else e),
          field_path = fp, has_wildcard_path = Rest \<in> set (inner_segs o')\<rparr>)"
proof -
  have "template_parts (ss1 @ Var fp o' # ss2) =
      template_parts ss1 @ map simple_text (inner_segs o') @ template_parts ss2"
    by (simp add: template_parts_def)
  then show ?thesis
    by (simp add: variables_from_append nth_append length_variables_from Let_def)
qed

text \<open>
  a variable is bound to the parts its sub-template covers: when the request splits
  into the parts before the variable, those of the variable and those after it (the verb
  included), and the number of parts of the variable is that of its sub-template unless
  it holds \<^verbatim>\<open>**\<close>, its value is the variable's own parts joined by slashes, each decoded, with
  reserved characters decoded only for a single segment without \<^verbatim>\<open>**\<close>.
\<close>

theorem variable_bound_to_its_parts:
  assumes "length a = length (template_parts ss1)"
    and "length c = length (template_parts ss2) + (if v = [] then 0 else 1)"
    and "Rest \<notin> set (inner_segs o') \<longrightarrow> length b = length (inner_segs o')"
    and "length (a @ b @ c) < 2 ^ 64"
  shows "bind_variable (a @ b @ c) keep
      (ht_variables (template_meaning (Template (ss1 @ Var fp o' # ss2) v)) ! variable_count ss1) =
    Some \<lparr>vb_field_path = fp,
      vb_value = join_string (CHR ''/'')
        (map (\<lambda>p. if keep then p
                  else UrlUnescapeString p (\<not> (length b > 1 \<or> Rest \<in> set (inner_segs o')))) b)\<rparr>"
proof -
  let ?var = "ht_variables (template_meaning (Template (ss1 @ Var fp o' # ss2) v)) ! variable_count ss1"
  have var: "start_segment ?var = int (length a)" "field_path ?var = fp"
      "end_segment ?var = (if Rest \<in> set (inner_segs o') then - int (length c) - 1
         else int (length a) + int (length b))"
    using assms(1-3) by (auto simp: nth_template_variable Let_def simp del: template_meaning.simps)
  have "int (length (a @ b @ c)) + (- int (length c) - 1) + 1 = int (length a + length b)" by simp
  moreover have "int (length a + length b) mod 2 ^ 64 = int (length a + length b)"
    using assms(4) by simp
  ultimately have e: "absolute_end ?var (a @ b @ c) = length a + length b"
    unfolding absolute_end_def var(3) by (simp del: of_nat_add) (simp add: nat_add_distrib)
  have m: "nat ((int (length a + length b) - int (length a)) mod 2 ^ 64) = length b"
    using assms(4) by simp
  have neg: "end_segment ?var < 0 \<longleftrightarrow> Rest \<in> set (inner_segs o')" unfolding var(3) by simp
  show ?thesis
    unfolding bind_variable_def Let_def e neg var(1,2) m by (simp add: join_parts_eq)
qed

theorem variable_bound_to_its_parts_witness:
  "bind_variable ([''a''] @ [''b'', ''c''] @ [''d'', ''v'']) True
      (ht_variables (template_meaning
        (Template ([Seg (Lit ''a'')] @ Var [''x''] (Some [Rest]) # [Seg (Lit ''d'')]) ''v'')) !
         variable_count [Seg (Lit ''a'')]) =
    Some \<lparr>vb_field_path = [''x''], vb_value = join_string (CHR ''/'')
      (map (\<lambda>p. if True then p
                else UrlUnescapeString p (\<not> (length [''b'', ''c''] > 1 \<or> Rest \<in> set (inner_segs (Some [Rest])))))
        [''b'', ''c''])\<rparr>"
  by (rule variable_bound_to_its_parts) (simp_all add: template_parts_def)

text \<open>
  a variable that follows a \<^verbatim>\<open>**\<close> keeps its start and end counted from the start of the
  path, though the \<^verbatim>\<open>**\<close> before it may cover any number of parts: the template
  \<^verbatim>\<open>/**/{x=a}\<close> matches the request \<^verbatim>\<open>/b/c/a\<close> and binds the field to the part \<^verbatim>\<open>c\<close>, which the
  variable's own sub-template does not match.
\<close>

theorem variable_after_wildcard_misbound:
  "Lookup_bindings (\<lambda>_. False) (\<lambda>_. {})
     (register_all [(''GET'', ''/**/{x=a}'', '''', 1::nat)] PathMatcherBuilder) ''GET'' ''/b/c/a'' '''' =
   Inr (Some \<lparr>mr_method = 1, mr_bindings = [\<lparr>vb_field_path = [''x''], vb_value = ''c''\<rparr>],
     mr_body_field_path = ''''\<rparr>)"
  by code_simp

section \<open>Requests that spell a template\<close>

lemma str_rfind_append:
  "str_rfind c (xs @ ys) = (case str_rfind c ys of Some i \<Rightarrow> Some (length xs + i) | None \<Rightarrow> str_rfind c xs)"
  by (induction xs) (auto split: option.splits)

lemma slashed_join: "xs \<noteq> [] \<Longrightarrow> slashed (\<lambda>x. x) xs = CHR ''/'' # join_string (CHR ''/'') xs"
  by (induction xs rule: induct_list012) (auto simp: join_string_Cons)

lemma split_slashed:
  "\<lbrakk>xs \<noteq> []; \<forall>x \<in> set xs. CHR ''/'' \<notin> set x \<and> x \<noteq> []\<rbrakk> \<Longrightarrow>
     drop_trailing_empty (if length (slashed (\<lambda>x. x) xs) > 0
       then split_string (CHR ''/'') (drop 1 (slashed (\<lambda>x. x) xs)) else []) = xs"
  by (simp add: slashed_join split_join_string drop_trailing_empty_id)

lemma set_slashed: "c \<in> set (slashed (\<lambda>x. x) xs) \<Longrightarrow> c = CHR ''/'' \<or> (\<exists>x \<in> set xs. c \<in> set x)"
  by (induction xs) auto

lemma request_path_no_verb:
  "\<forall>x \<in> set xs. CHR '':'' \<notin> set x \<Longrightarrow> request_path (slashed (\<lambda>x. x) xs) vs = slashed (\<lambda>x. x) xs"
proof -
  assume "\<forall>x \<in> set xs. CHR '':'' \<notin> set x"
  then have "CHR '':'' \<notin> set (slashed (\<lambda>x. x) xs)" by (auto dest: set_slashed)
  then have "str_rfind (CHR '':'') (slashed (\<lambda>x. x) xs) = None" by (simp add: str_rfind_None)
  then show ?thesis by (simp add: request_path_def)
qed

lemma request_path_verb:
  assumes "xs \<noteq> []" "v \<in> vs" "CHR '':'' \<notin> set v" "CHR ''/'' \<notin> set v"
  shows "request_path (slashed (\<lambda>x. x) xs @ CHR '':'' # v) vs = slashed (\<lambda>x. x) (xs @ [v])"
proof -
  let ?s = "slashed (\<lambda>x. x) xs"
  have "CHR ''/'' \<in> set ?s" using assms(1) by (cases xs) auto
  then obtain i where i: "str_rfind (CHR ''/'') ?s = Some i"
    by (cases "str_rfind (CHR ''/'') ?s") (auto simp: str_rfind_None)
  then have "i < length ?s" using str_rfind_Some by blast
  moreover have "str_rfind (CHR ''/'') v = None" "str_rfind (CHR '':'') v = None"
    using assms(3,4) by (simp_all add: str_rfind_None)
  moreover have "?s @ CHR ''/'' # v = slashed (\<lambda>x. x) (xs @ [v])" by (simp add: slashed_def)
  ultimately show ?thesis using i assms(2) by (simp add: request_path_def str_rfind_append)
qed

lemma substr_no_query: "CHR ''?'' \<notin> set s \<Longrightarrow> substr_to s (str_find (CHR ''?'') s) = s"
  using str_find_None [of "CHR ''?''" s] by (simp add: substr_to_def)

lemma ExtractRequestParts_literal:
  assumes "xs \<noteq> []" "\<forall>x \<in> set xs. x \<noteq> [] \<and> (\<forall>c \<in> set x. literal_char c \<and> c \<noteq> CHR ''?'')"
    "v = [] \<or> v \<in> vs" "\<forall>c \<in> set v. literal_char c \<and> c \<noteq> CHR ''?''"
  shows "ExtractRequestParts (slashed (\<lambda>x. x) xs @ (if v = [] then [] else CHR '':'' # v)) vs =
    xs @ (if v = [] then [] else [v])"
proof -
  let ?t = "slashed (\<lambda>x. x) xs @ (if v = [] then [] else CHR '':'' # v)"
  let ?ys = "xs @ (if v = [] then [] else [v])"
  have v: "CHR ''/'' \<notin> set v" "CHR '':'' \<notin> set v" "CHR ''?'' \<notin> set v" 
    using assms(4) by (auto simp: literal_char_def)
  have x: "\<forall>x \<in> set xs. x \<noteq> [] \<and> CHR ''/'' \<notin> set x \<and> CHR '':'' \<notin> set x \<and> CHR ''?'' \<notin> set x"
    using assms(2) by (auto simp: literal_char_def)
  have q: "CHR ''?'' \<notin> set ?t" using x v by (auto dest!: set_slashed)
  have rp: "request_path ?t vs = slashed (\<lambda>x. x) ?ys"
    using request_path_no_verb [of xs vs] request_path_verb [OF assms(1), of v vs] assms(3) x v by auto
  have "\<forall>x \<in> set ?ys. CHR ''/'' \<notin> set x \<and> x \<noteq> []" "?ys \<noteq> []" using x v assms(1) by auto
  then show ?thesis
    unfolding ExtractRequestParts_eq substr_no_query [OF q] Let_def rp by (intro split_slashed)
qed

lemma Register_status:
  assumes "HttpTemplate_Parse t = Some ht" "fst (Register hm t body meth b) = Status_OK"
  shows "node_entry (pm_root b) (TransformHttpTemplate ht) hm = None"
    "ht_verb ht = [] \<or> ht_verb ht \<in> pm_custom_verbs (snd (Register hm t body meth b))"
proof -
  let ?md = "\<lparr>md_method = meth, md_variables = ht_variables ht, md_body_field_path = body\<rparr>"
  obtain ins root where ip: "InsertPath (TransformHttpTemplate ht) hm ?md True (pm_root b) = (ins, root)"
    by fastforce
  have flag: "ins \<longleftrightarrow> node_entry (pm_root b) (TransformHttpTemplate ht) hm = None"
    using trie.insert_flag [of "TransformHttpTemplate ht" hm ?md True "pm_root b"] ip by (simp add: InsertPath_def)
  have ins: ins
    using assms ip Transform_nonempty [OF assms(1)]
    by (auto simp: Register_def Let_def Status_def Status3_def Status_OK_def split: if_splits)
  then show "node_entry (pm_root b) (TransformHttpTemplate ht) hm = None" using flag by simp
  show "ht_verb ht = [] \<or> ht_verb ht \<in> pm_custom_verbs (snd (Register hm t body meth b))"
    using ins assms(1) ip Transform_nonempty [OF assms(1)] by (simp add: Register_def Let_def)
qed

lemma Register_keeps_verbs: "pm_custom_verbs b \<subseteq> pm_custom_verbs (snd (Register hm t body meth b))"
  by (auto simp: Register_def Let_def split: option.splits prod.splits)

lemma register_all_keeps_verbs: "pm_custom_verbs b \<subseteq> pm_custom_verbs (register_all rs b)"
proof (induction rs b rule: register_all.induct)
  case (2 hm t body meth rs b)
  then show ?case using Register_keeps_verbs [of b hm t body meth] by simp
qed simp

lemma register_all_append: "register_all (rs @ rs') b = register_all rs' (register_all rs b)"
  by (induction rs b rule: register_all.induct) simp_all

lemma literal_template_parses:
  assumes "ls \<noteq> []" "\<forall>l \<in> set ls. wf_simple (Lit l)" "\<forall>c \<in> set v. literal_char c"
    and t: "t = Template (map (Seg \<circ> Lit) ls) v"
  shows "HttpTemplate_Parse (print_template t) = Some (template_meaning t)"
    "ht_segments (template_meaning t) = ls" "ht_verb (template_meaning t) = v"
    "print_template t = slashed (\<lambda>x. x) ls @ (if v = [] then [] else CHR '':'' # v)"
proof -
  have tp: "template_parts (map (Seg \<circ> Lit) ls) = ls" by (induction ls) (auto simp: template_parts_def)
  then show "ht_segments (template_meaning t) = ls" "ht_verb (template_meaning t) = v" by (simp_all add: t)
  have "slashed print_segment (map (Seg \<circ> Lit) ls) = slashed (\<lambda>x. x) ls" by (induction ls) auto
  then show "print_template t = slashed (\<lambda>x. x) ls @ (if v = [] then [] else CHR '':'' # v)" by (simp add: t)
  have no: "l \<noteq> kWildCardPathKey" if "l \<in> set ls" for l
    using assms(2) that by (auto simp: kWildCardPathKey_def)
  have "ValidateParts ls"
    unfolding ValidateParts_def using no by (induction ls) auto
  then have "ValidateParts (ht_segments (template_meaning t))" using tp by (simp add: t)
  moreover have "wf_template t" using assms by (auto simp: t)
  ultimately show "HttpTemplate_Parse (print_template t) = Some (template_meaning t)"
    unfolding HttpTemplate_Parse_iff by blast
qed


text \<open>
  a template of literal segments, with or without a custom verb, whose registration
  succeeds is found by the request that spells it, whatever was registered before and
  is registered after it.
\<close>

theorem Lookup_finds_literal_template:
  assumes "ls \<noteq> []" and "\<forall>l \<in> set ls. wf_simple (Lit l)" and "\<forall>c \<in> set v. literal_char c"
    and "t = print_template (Template (map (Seg \<circ> Lit) ls) v)" and "CHR ''?'' \<notin> set t"
    and "fst (Register hm t body meth (register_all rs PathMatcherBuilder)) = Status_OK"
  shows "Lookup (register_all (rs @ (hm, t, body, meth) # rs') PathMatcherBuilder) hm t = Some meth"
proof -
  let ?rs = "rs @ (hm, t, body, meth) # rs'" and ?b = "register_all rs PathMatcherBuilder"
  let ?ht = "template_meaning (Template (map (Seg \<circ> Lit) ls) v)"
  let ?p = "TransformHttpTemplate ?ht"
  let ?md = "\<lparr>md_method = meth, md_variables = ht_variables ?ht, md_body_field_path = body\<rparr>"
  note lt = literal_template_parses [OF assms(1-3) refl]
  have parse: "HttpTemplate_Parse t = Some ?ht" using lt(1) assms(4) by simp
  note st = Register_status [OF parse assms(6)]
  have verb: "v = [] \<or> v \<in> pm_custom_verbs (register_all ?rs PathMatcherBuilder)"
    using st(2) register_all_keeps_verbs [of "snd (Register hm t body meth ?b)" rs']
    unfolding lt(3) register_all_append register_all.simps by blast
  have q: "\<forall>x \<in> set ls. CHR ''?'' \<notin> set x" "CHR ''?'' \<notin> set v"
    using assms(5) unfolding assms(4) lt(4) by (auto simp: slashed_def split: if_splits)
  have parts: "ExtractRequestParts t (pm_custom_verbs (register_all ?rs PathMatcherBuilder)) = ?p"
  proof -
    have "\<forall>x \<in> set ls. x \<noteq> [] \<and> (\<forall>c \<in> set x. literal_char c \<and> c \<noteq> CHR ''?'')" using assms(2) q(1) by auto
    moreover have "\<forall>c \<in> set v. literal_char c \<and> c \<noteq> CHR ''?''" using assms(3) q(2) by auto
    ultimately show ?thesis
      using ExtractRequestParts_literal [OF assms(1) _ verb]
      unfolding assms(4) lt(4) TransformHttpTemplate_def lt(2,3) by simp
  qed
  have "map_option (the \<circ> lr_data) (node_entry (pm_root ?b) ?p hm) = None" using st(1) by simp
  then have "route_table (registered_routes rs) ?p hm = None"
    by (simp only: register_all_root PathMatcherBuilder_def path_matcher.simps insert_routes_data)
  then have "route_table (registered_routes ?rs) ?p hm = Some ?md"
    using parse by (simp add: registered_routes_def route_table_def map_add_def del: template_meaning.simps split: option.splits)
  then have "spec_lookup (route_table (registered_routes ?rs)) False ?p hm = Some ?md"
    by (intro spec_lookup_exact) (simp add: method_result_def del: template_meaning.simps)
  then show ?thesis by (simp add: Lookup_def Let_def parts registered_root del: template_meaning.simps)
qed

theorem Lookup_finds_literal_template_witness:
  "Lookup (register_all ([(''GET'', ''/a/*'', '''', 7)] @ (''GET'', ''/a/b:go'', '''', 1) # [(''*'', ''/**'', '''', 9::nat)])
     PathMatcherBuilder) ''GET'' ''/a/b:go'' = Some 1"
proof (rule Lookup_finds_literal_template [where ls = "[''a'', ''b'']" and v = "''go''"])
  show "fst (Register ''GET'' ''/a/b:go'' '''' 1 (register_all [(''GET'', ''/a/*'', '''', 7::nat)] PathMatcherBuilder)) = Status_OK"
    by code_simp
qed (simp_all add: literal_char_def)

end
