(* ===== verification/Esp_Utils.thy ===== *)
theory Esp_Utils
  imports Esp_Prelude "HOL-Library.Signed_Division"
begin

text \<open>
  The small utilities of \<^verbatim>\<open>src/api_manager/utils\<close>: the URL helpers of \<^verbatim>\<open>url_util.cc\<close>, \<^verbatim>\<open>Trim\<close> of
  \<^verbatim>\<open>str_util.cc\<close> and the sliding-window counter of \<^verbatim>\<open>time_based_counter.cc\<close>.  The counter is
  related to the history of its increments: its count is the sum of the increments whose
  slot is still in the window.
\<close>

section \<open>URLs and strings\<close>

definition kHttpPrefix :: string where "kHttpPrefix = ''http://''"
definition kHttpsPrefix :: string where "kHttpsPrefix = ''https://''"

text \<open>\<^verbatim>\<open>url.compare(0, prefix.size(), prefix) == 0\<close>\<close>

definition has_prefix :: "string \<Rightarrow> string \<Rightarrow> bool" where
  "has_prefix url p \<longleftrightarrow> take (length p) url = p"

text \<open>\<^verbatim>\<open>result.back()\<close> on an empty string is undefined: \<open>None\<close>.\<close>

definition GetUrlContent :: "string \<Rightarrow> string option" where
  "GetUrlContent url =
     (let result = (if has_prefix url kHttpsPrefix then drop (length kHttpsPrefix) url
                    else if has_prefix url kHttpPrefix then drop (length kHttpPrefix) url
                    else url)
      in if result = [] then None
         else Some (if last result = CHR ''/'' then butlast result else result))"

definition IsHttpRequest :: "string \<Rightarrow> bool" where
  "IsHttpRequest url \<longleftrightarrow> has_prefix url kHttpPrefix \<or> has_prefix url kHttpsPrefix"

text \<open>\<^verbatim>\<open>find_first_not_of\<close> and \<^verbatim>\<open>find_last_not_of\<close> of one character.\<close>

fun str_find_not :: "char \<Rightarrow> string \<Rightarrow> nat option" where
  "str_find_not c [] = None"
| "str_find_not c (x # xs) = (if x \<noteq> c then Some 0 else map_option Suc (str_find_not c xs))"

fun str_rfind_not :: "char \<Rightarrow> string \<Rightarrow> nat option" where
  "str_rfind_not c [] = None"
| "str_rfind_not c (x # xs) =
     (case str_rfind_not c xs of Some i \<Rightarrow> Some (Suc i) | None \<Rightarrow> if x \<noteq> c then Some 0 else None)"

text \<open>
  \<^verbatim>\<open>erase(0, npos)\<close> erases everything; \<^verbatim>\<open>npos + 1\<close> wraps to 0, so that the second call then
  erases from the start.
\<close>

definition Trim :: "string \<Rightarrow> string" where
  "Trim str =
     (let str1 = (case str_find_not (CHR '' '') str of None \<Rightarrow> [] | Some i \<Rightarrow> drop i str)
      in case str_rfind_not (CHR '' '') str1 of None \<Rightarrow> [] | Some i \<Rightarrow> take (i + 1) str1)"

section \<open>The sliding-window counter\<close>

text \<open>
  Ticks are nanoseconds of the system clock, durations milliseconds.  A slot duration of 0
  makes \<open>Roll\<close> divide by zero: \<open>None\<close>.  Divisions truncate towards zero, and the number of
  slots to roll is cast to 32 bits.  The counts themselves are mathematical integers: an
  \<^verbatim>\<open>int\<close> that overflows is undefined in the source.
\<close>

record time_based_counter =
  slots :: "int list"
  slot_duration :: int
  cnt :: int
  tail_idx :: nat
  last_time :: int

definition ns_per_ms :: int where "ns_per_ms = 1000000"

definition TimeBasedCounter :: "nat \<Rightarrow> int \<Rightarrow> int \<Rightarrow> time_based_counter" where
  "TimeBasedCounter window_size duration t =
     \<lparr>slots = replicate window_size 0, slot_duration = duration sdiv int window_size,
      cnt = 0, tail_idx = 0, last_time = t\<rparr>"

definition Clear :: "int \<Rightarrow> time_based_counter \<Rightarrow> time_based_counter" where
  "Clear t c = c\<lparr>last_time := t, slots := map (\<lambda>_. 0) (slots c), cnt := 0, tail_idx := 0\<rparr>"

definition roll_slot :: "time_based_counter \<Rightarrow> time_based_counter" where
  "roll_slot c =
     (let tl' = (tail_idx c + 1) mod length (slots c)
      in c\<lparr>tail_idx := tl', cnt := cnt c - slots c ! tl', slots := (slots c)[tl' := 0],
           last_time := last_time c + slot_duration c * ns_per_ms\<rparr>)"

definition Roll :: "int \<Rightarrow> time_based_counter \<Rightarrow> time_based_counter option" where
  "Roll t c =
     (if slot_duration c = 0 then None
      else
        let d = (t - last_time c) sdiv ns_per_ms;
            n = nat ((d sdiv slot_duration c) mod 2 ^ 32)
        in if n \<ge> length (slots c) then Some (Clear t c) else Some ((roll_slot ^^ n) c))"

definition Inc :: "int \<Rightarrow> int \<Rightarrow> time_based_counter \<Rightarrow> time_based_counter option" where
  "Inc n t c =
     map_option (\<lambda>c. c\<lparr>slots := (slots c)[tail_idx c := slots c ! tail_idx c + n], cnt := cnt c + n\<rparr>)
       (Roll t c)"

definition Count :: "int \<Rightarrow> time_based_counter \<Rightarrow> (int \<times> time_based_counter) option" where
  "Count t c = map_option (\<lambda>c. (cnt c, c)) (Roll t c)"

section \<open>What the helpers compute\<close>

lemma str_find_not_dropWhile:
  "(case str_find_not c s of None \<Rightarrow> [] | Some i \<Rightarrow> drop i s) = dropWhile (\<lambda>x. x = c) s"
  by (induction s) (auto split: option.splits)

lemma str_rfind_not_append:
  "str_rfind_not c (xs @ [x]) = (if x \<noteq> c then Some (length xs) else str_rfind_not c xs)"
  by (induction xs) (auto split: option.splits)

lemma str_rfind_not_less: "str_rfind_not c s = Some i \<Longrightarrow> i < length s"
  by (induction s arbitrary: i) (auto split: option.splits if_splits)

lemma str_rfind_not_dropWhile:
  "(case str_rfind_not c s of None \<Rightarrow> [] | Some i \<Rightarrow> take (i + 1) s) = rev (dropWhile (\<lambda>x. x = c) (rev s))"
proof (induction s rule: rev_induct)
  case (snoc x xs)
  have "take (Suc i) xs = take (Suc i) (xs @ [x])" if "str_rfind_not c xs = Some i" for i
    using str_rfind_not_less [OF that] by simp
  then show ?case using snoc by (auto simp: str_rfind_not_append split: option.splits)
qed simp

lemma Trim_eq: "Trim s = rev (dropWhile (\<lambda>x. x = CHR '' '') (rev (dropWhile (\<lambda>x. x = CHR '' '') s)))"
  unfolding Trim_def Let_def str_find_not_dropWhile using str_rfind_not_dropWhile by simp

text \<open>
  the content of a URL does not depend on its scheme, on its absence or on a final slash:
  the issuers and audiences that differ only there are the same.
\<close>

theorem GetUrlContent_schemes:
  assumes "content \<noteq> []" and "last content \<noteq> CHR ''/''"
    and "scheme = kHttpPrefix \<or> scheme = kHttpsPrefix \<or> scheme = [] \<and> \<not> IsHttpRequest (content @ slash)"
    and "slash = [] \<or> slash = ''/''"
  shows "GetUrlContent (scheme @ content @ slash) = Some content"
proof -
  have "\<not> has_prefix (kHttpPrefix @ xs) kHttpsPrefix" for xs
    by (simp add: has_prefix_def kHttpPrefix_def kHttpsPrefix_def)
  moreover have "has_prefix (p @ xs) p" for p xs by (simp add: has_prefix_def)
  ultimately have "(if has_prefix (scheme @ content @ slash) kHttpsPrefix
        then drop (length kHttpsPrefix) (scheme @ content @ slash)
      else if has_prefix (scheme @ content @ slash) kHttpPrefix
        then drop (length kHttpPrefix) (scheme @ content @ slash)
      else scheme @ content @ slash) = content @ slash"
    using assms(3) by (auto simp: IsHttpRequest_def)
  then show ?thesis
    using assms(1,2,4) unfolding GetUrlContent_def Let_def by (auto simp: butlast_append)
qed

theorem GetUrlContent_schemes_witness:
  "GetUrlContent (kHttpsPrefix @ ''accounts.google.com'' @ ''/'') = Some ''accounts.google.com''"
  by (rule GetUrlContent_schemes) simp_all

section \<open>The window of the counter\<close>

text \<open>
  The history of a counter: the increments with their time and the start of the slot they
  were put in.
\<close>

type_synonym history = "(int \<times> int \<times> int) list"

definition total :: "(int \<times> int \<times> int \<Rightarrow> bool) \<Rightarrow> history \<Rightarrow> int" where
  "total P H = sum_list (map fst (filter P H))"

abbreviation slot_start :: "int \<times> int \<times> int \<Rightarrow> int" where
  "slot_start e \<equiv> snd (snd e)"

definition slot_ns :: "time_based_counter \<Rightarrow> int" where
  "slot_ns c = slot_duration c * ns_per_ms"

definition slot_index :: "time_based_counter \<Rightarrow> nat \<Rightarrow> nat" where
  "slot_index c j = (tail_idx c + (length (slots c) - j)) mod length (slots c)"

definition window_inv :: "history \<Rightarrow> time_based_counter \<Rightarrow> bool" where
  "window_inv H c \<longleftrightarrow>
     0 < length (slots c) \<and> 0 < slot_duration c \<and> tail_idx c < length (slots c) \<and>
     (\<forall>j < length (slots c). slots c ! slot_index c j =
        total (\<lambda>e. slot_start e = last_time c - int j * slot_ns c) H) \<and>
     (\<forall>e \<in> set H. (\<exists>j < length (slots c). slot_start e = last_time c - int j * slot_ns c) \<or>
        slot_start e \<le> last_time c - int (length (slots c)) * slot_ns c) \<and>
     cnt c = total (\<lambda>e. last_time c - slot_start e < int (length (slots c)) * slot_ns c) H"

lemma total_cong: "(\<And>e. e \<in> set H \<Longrightarrow> P e = Q e) \<Longrightarrow> total P H = total Q H"
  unfolding total_def by (metis filter_cong)

lemma total_none: "(\<And>e. e \<in> set H \<Longrightarrow> \<not> P e) \<Longrightarrow> total P H = 0"
  by (simp add: total_def)

lemma total_split: "(\<And>e. e \<in> set H \<Longrightarrow> \<not> (P e \<and> Q e)) \<Longrightarrow> total (\<lambda>e. P e \<or> Q e) H = total P H + total Q H"
  unfolding total_def by (induction H) auto

lemma total_append: "total P (H @ H') = total P H + total P H'"
  by (simp add: total_def)

lemma window_slot:
  "window_inv H c \<Longrightarrow> j < length (slots c) \<Longrightarrow>
     slots c ! slot_index c j = total (\<lambda>e. slot_start e = last_time c - int j * slot_ns c) H"
  by (simp add: window_inv_def)

lemma slot_ns_pos: "window_inv H c \<Longrightarrow> 0 < slot_ns c"
  by (simp add: window_inv_def slot_ns_def ns_per_ms_def)

lemma slot_index_neq:
  assumes "i < length (slots c)" "j < length (slots c)" "i \<noteq> j"
  shows "slot_index c i \<noteq> slot_index c j"
proof
  let ?W = "length (slots c)"
  assume e: "slot_index c i = slot_index c j"
  have "False" if "i < j" "j < ?W" "slot_index c i = slot_index c j" for i j
  proof -
    have "?W dvd (tail_idx c + (?W - i)) - (tail_idx c + (?W - j))"
      using that by (intro mod_eq_dvd_iff_nat [THEN iffD1]) (auto simp: slot_index_def)
    then have "?W dvd j - i" using that by (simp add: nat_diff_split)
    then show False using that by (auto dest: dvd_imp_le)
  qed
  then show False using e assms by (metis linorder_neqE_nat)
qed

lemma slot_index_less: "0 < length (slots c) \<Longrightarrow> slot_index c j < length (slots c)"
  by (simp add: slot_index_def)

lemma roll_slot_simps [simp]:
  "length (slots (roll_slot c)) = length (slots c)" "slot_duration (roll_slot c) = slot_duration c"
  "slot_ns (roll_slot c) = slot_ns c" "last_time (roll_slot c) = last_time c + slot_ns c"
  by (simp_all add: roll_slot_def Let_def slot_ns_def)

lemma roll_slot_index:
  assumes "j < length (slots c)"
  shows "slot_index (roll_slot c) (Suc j) = slot_index c j"
proof -
  let ?W = "length (slots c)"
  have "slot_index (roll_slot c) (Suc j) = ((tail_idx c + 1) mod ?W + (?W - Suc j)) mod ?W"
    by (simp add: slot_index_def roll_slot_def Let_def)
  also have "\<dots> = (tail_idx c + 1 + (?W - Suc j)) mod ?W" by (simp only: mod_add_left_eq)
  also have "tail_idx c + 1 + (?W - Suc j) = tail_idx c + (?W - j)" using assms by simp
  finally show ?thesis by (simp add: slot_index_def)
qed

lemma slot_index_0: "tail_idx c < length (slots c) \<Longrightarrow> slot_index c 0 = tail_idx c"
  by (simp add: slot_index_def)

lemma roll_slot_tail:
  "0 < length (slots c) \<Longrightarrow> tail_idx (roll_slot c) = slot_index c (length (slots c) - 1)"
proof -
  assume "0 < length (slots c)"
  then have "length (slots c) - (length (slots c) - 1) = 1" by linarith
  then show ?thesis unfolding slot_index_def by (simp add: roll_slot_def Let_def)
qed

lemma window_start_le: "window_inv H c \<Longrightarrow> e \<in> set H \<Longrightarrow> slot_start e \<le> last_time c"
proof -
  assume w: "window_inv H c" and e: "e \<in> set H"
  have "0 \<le> int n * slot_ns c" for n using slot_ns_pos [OF w] by simp
  then show "slot_start e \<le> last_time c"
    using w e unfolding window_inv_def by (smt (verit, best))
qed

lemma roll_slot_inv:
  assumes w: "window_inv H c"
  shows "window_inv H (roll_slot c)"
proof -
  let ?W = "length (slots c)" and ?S = "slot_ns c" and ?L = "last_time c"
  have W: "0 < ?W" "tail_idx c < ?W" using w by (auto simp: window_inv_def)
  have S: "0 < ?S" using slot_ns_pos [OF w] .
  let ?t = "slot_index c (?W - 1)"
  have t: "tail_idx (roll_slot c) = ?t" "?t < ?W" using roll_slot_tail slot_index_less W by auto
  have slots': "slots (roll_slot c) = (slots c)[?t := 0]" "cnt (roll_slot c) = cnt c - slots c ! ?t"
    using t(1) by (simp_all add: roll_slot_def Let_def)
  have last: "slots c ! ?t = total (\<lambda>e. slot_start e = ?L - int (?W - 1) * ?S) H"
    using w W by (simp add: window_inv_def)
  have slot: "slots (roll_slot c) ! slot_index (roll_slot c) j =
      total (\<lambda>e. slot_start e = ?L + ?S - int j * ?S) H" if j: "j < ?W" for j
  proof (cases j)
    case 0
    have "total (\<lambda>e. slot_start e = ?L + ?S - int j * ?S) H = 0"
      using window_start_le [OF w] S 0 by (intro total_none) force
    then show ?thesis using 0 t slots' slot_index_0 [of "roll_slot c"] by simp
  next
    case (Suc i)
    have "slots (roll_slot c) ! slot_index (roll_slot c) j = slots c ! slot_index c i"
    proof -
      have "slot_index c i \<noteq> ?t" using j Suc by (intro slot_index_neq) auto
      then show ?thesis using j Suc by (simp add: roll_slot_index slots')
    qed
    also have "\<dots> = total (\<lambda>e. slot_start e = ?L - int i * ?S) H" using j Suc by (intro window_slot [OF w]) simp
    also have "?L - int i * ?S = ?L + ?S - int j * ?S" using Suc by (simp add: algebra_simps)
    finally show ?thesis .
  qed
  have start: "(\<exists>j < ?W. slot_start e = ?L + ?S - int j * ?S) \<or> slot_start e \<le> ?L + ?S - int ?W * ?S"
    if e: "e \<in> set H" for e
  proof -
    consider (g) j where "j < ?W" "slot_start e = ?L - int j * ?S" | (o) "slot_start e \<le> ?L - int ?W * ?S"
      using w e by (auto simp: window_inv_def)
    then show ?thesis
    proof cases
      case g
      then have "slot_start e = ?L + ?S - int (Suc j) * ?S" by (simp add: algebra_simps)
      moreover have "Suc j < ?W \<or> Suc j = ?W" using g(1) by linarith
      ultimately show ?thesis by (metis order_refl)
    qed (use S in simp)
  qed
  have "total (\<lambda>e. ?L - slot_start e < int ?W * ?S) H =
      total (\<lambda>e. ?L + ?S - slot_start e < int ?W * ?S \<or> slot_start e = ?L - int (?W - 1) * ?S) H"
  proof (rule total_cong)
    fix e assume e: "e \<in> set H"
    have W1: "int (?W - 1) * ?S = int ?W * ?S - ?S" using W by (simp add: of_nat_diff left_diff_distrib)
    show "(?L - slot_start e < int ?W * ?S) =
        (?L + ?S - slot_start e < int ?W * ?S \<or> slot_start e = ?L - int (?W - 1) * ?S)"
      using w e unfolding window_inv_def
    proof (elim conjE ballE disjE exE)
      fix j assume j: "j < ?W" "slot_start e = ?L - int j * ?S"
      show ?thesis
      proof (cases "j = ?W - 1")
        case False
        then have "(int j + 1) * ?S < int ?W * ?S" using j(1) S by (intro mult_strict_right_mono) linarith+
        then show ?thesis using j S by (simp add: distrib_right)
      qed (use j W1 S in simp)
    qed (use S W1 in auto)
  qed
  also have "\<dots> = total (\<lambda>e. ?L + ?S - slot_start e < int ?W * ?S) H + slots c ! ?t"
    unfolding last using W S by (intro total_split) (auto simp: of_nat_diff left_diff_distrib)
  finally have "cnt (roll_slot c) = total (\<lambda>e. ?L + ?S - slot_start e < int ?W * ?S) H"
    using w slots'(2) by (simp add: window_inv_def)
  then show ?thesis using w t slot start unfolding window_inv_def by simp
qed

lemma roll_slots_inv:
  "window_inv H c \<Longrightarrow> window_inv H ((roll_slot ^^ n) c) \<and>
     last_time ((roll_slot ^^ n) c) = last_time c + int n * slot_ns c \<and>
     length (slots ((roll_slot ^^ n) c)) = length (slots c) \<and> slot_duration ((roll_slot ^^ n) c) = slot_duration c"
  by (induction n) (auto simp: roll_slot_inv slot_ns_def algebra_simps)

lemma Clear_inv:
  assumes w: "window_inv H c" and t: "last_time c + int (length (slots c)) * slot_ns c \<le> t"
  shows "window_inv H (Clear t c)"
proof -
  let ?W = "length (slots c)" and ?S = "slot_ns c"
  have old: "slot_start e \<le> t - int ?W * ?S" if "e \<in> set H" for e
    using window_start_le [OF w that] t by linarith
  have S: "0 < ?S" using slot_ns_pos [OF w] .
  have "total (\<lambda>e. slot_start e = t - int j * ?S) H = 0" if "j < ?W" for j
  proof (rule total_none)
    fix e assume "e \<in> set H"
    moreover have "int j * ?S < int ?W * ?S" using that S by simp
    ultimately show "slot_start e \<noteq> t - int j * ?S" using old by fastforce
  qed
  moreover have "total (\<lambda>e. t - slot_start e < int ?W * ?S) H = 0"
    using old by (intro total_none) force
  moreover have "slot_ns (Clear t c) = ?S" by (simp add: Clear_def slot_ns_def)
  moreover have "slot_index (Clear t c) j < ?W" for j
    using w slot_index_less [of "Clear t c"] by (simp add: Clear_def window_inv_def)
  ultimately show ?thesis
    using w old unfolding window_inv_def by (auto simp: Clear_def)
qed

lemma Roll_inv:
  assumes w: "window_inv H c" and t: "last_time c \<le> t" "t - last_time c < 2 ^ 32 * slot_ns c"
  shows "\<exists>c'. Roll t c = Some c' \<and> window_inv H c' \<and> last_time c' \<le> t \<and> t < last_time c' + slot_ns c' \<and>
     last_time c \<le> last_time c' \<and>
     length (slots c') = length (slots c) \<and> slot_duration c' = slot_duration c"
proof -
  let ?W = "length (slots c)" and ?S = "slot_ns c"
  define d where "d = t - last_time c"
  have pos: "0 < slot_duration c" "0 < ns_per_ms" "0 \<le> d" and S: "0 < ?S"
    using w t slot_ns_pos [OF w] by (auto simp: window_inv_def ns_per_ms_def d_def)
  define n where "n = d div ns_per_ms div slot_duration c"
  have sd: "d sdiv ns_per_ms sdiv slot_duration c = n"
    using pos unfolding n_def by (simp add: signed_divide_int_def sgn_if pos_imp_zdiv_nonneg_iff)
  have n: "n = d div ?S" unfolding n_def slot_ns_def using pos
    by (simp add: zdiv_zmult2_eq mult.commute)
  have dm: "d = n * ?S + d mod ?S" unfolding n by simp
  have m: "0 \<le> d mod ?S" "d mod ?S < ?S" using S by simp_all
  have n0: "0 \<le> n" unfolding n using S pos by (simp add: pos_imp_zdiv_nonneg_iff)
  have "n < 2 ^ 32"
  proof (rule ccontr)
    assume "\<not> n < 2 ^ 32"
    then have "2 ^ 32 * ?S \<le> n * ?S" using S by simp
    then show False using dm m t(2) unfolding d_def by linarith
  qed
  then have eq: "nat ((d sdiv ns_per_ms sdiv slot_duration c) mod 2 ^ 32) = nat n" using n0 sd by simp
  show ?thesis
  proof (cases "nat n \<ge> ?W")
    case True
    have "int ?W * ?S \<le> n * ?S" using True S n0 by simp
    then have "window_inv H (Clear t c)" using dm m by (intro Clear_inv [OF w]) (use d_def in linarith)
    then show ?thesis using True eq pos S t(1) unfolding Roll_def Let_def d_def [symmetric]
      by (simp add: Clear_def slot_ns_def)
  next
    case False
    let ?c = "(roll_slot ^^ nat n) c"
    note r = roll_slots_inv [OF w, of "nat n"]
    have "last_time ?c = last_time c + n * ?S" using r n0 by simp
    moreover have "slot_ns ?c = ?S" using r by (simp add: slot_ns_def)
    moreover have "0 \<le> n * ?S" using n0 S by simp
    ultimately show ?thesis using False eq pos r dm m unfolding Roll_def Let_def d_def [symmetric]
      by (simp add: d_def)
  qed
qed

fun inc_all :: "(int \<times> int) list \<Rightarrow> time_based_counter \<Rightarrow> time_based_counter option" where
  "inc_all [] c = Some c"
| "inc_all ((n, t) # es) c = Option.bind (Inc n t c) (inc_all es)"

lemma Inc_inv:
  assumes w: "window_inv H c" and t: "last_time c \<le> t" "t - last_time c < 2 ^ 32 * slot_ns c"
  shows "\<exists>c' s. Inc n t c = Some c' \<and> window_inv (H @ [(n, t, s)]) c' \<and> s \<le> t \<and> t < s + slot_ns c \<and>
     last_time c \<le> last_time c' \<and> last_time c' \<le> t \<and>
     length (slots c') = length (slots c) \<and> slot_duration c' = slot_duration c"
proof -
  obtain r where r: "Roll t c = Some r" "window_inv H r" "last_time r \<le> t" "t < last_time r + slot_ns r"
      "last_time c \<le> last_time r" "length (slots r) = length (slots c)" "slot_duration r = slot_duration c"
    using Roll_inv [OF assms] by blast
  let ?c = "r\<lparr>slots := (slots r)[tail_idx r := slots r ! tail_idx r + n], cnt := cnt r + n\<rparr>"
  let ?H = "H @ [(n, t, last_time r)]"
  have S: "slot_ns r = slot_ns c" "slot_ns ?c = slot_ns r" using r by (simp_all add: slot_ns_def)
  have W: "tail_idx r < length (slots r)" "0 < length (slots r)" using r(2) by (auto simp: window_inv_def)
  have idx: "slot_index ?c j = slot_index r j" for j by (simp add: slot_index_def)
  have slot: "slots ?c ! slot_index ?c j = total (\<lambda>e. slot_start e = last_time r - int j * slot_ns r) ?H"
    if j: "j < length (slots r)" for j
  proof (cases "j = 0")
    case True
    have "total (\<lambda>e. slot_start e = last_time r) [(n, t, last_time r)] = n" by (simp add: total_def)
    then show ?thesis
      unfolding idx using True window_slot [OF r(2) W(2)] W slot_index_0 [OF W(1)] by (simp add: total_append)
  next
    case False
    then have "slot_index r j \<noteq> tail_idx r"
      using slot_index_neq [of j r 0] j W slot_index_0 [OF W(1)] by auto
    moreover have "total (\<lambda>e. slot_start e = last_time r - int j * slot_ns r) [(n, t, last_time r)] = 0"
      using False slot_ns_pos [OF r(2)] by (simp add: total_def)
    ultimately show ?thesis unfolding idx using window_slot [OF r(2) j] by (simp add: total_append)
  qed
  have p: "0 < int (length (slots r)) * slot_ns r" using W slot_ns_pos [OF r(2)] by simp
  then have "cnt ?c = total (\<lambda>e. last_time r - slot_start e < int (length (slots r)) * slot_ns r) ?H"
    using r(2) by (simp add: window_inv_def total_append) (simp add: total_def)
  moreover have "\<forall>e \<in> set ?H. (\<exists>j < length (slots r). slot_start e = last_time r - int j * slot_ns r) \<or>
        slot_start e \<le> last_time r - int (length (slots r)) * slot_ns r"
    using r(2) W by (auto simp: window_inv_def intro!: exI [of _ 0])
  ultimately have "window_inv ?H ?c"
    using r(2) slot W S unfolding window_inv_def by simp
  then show ?thesis using r S by (intro exI [of _ ?c] exI [of _ "last_time r"]) (simp add: Inc_def)
qed


lemma inc_all_inv:
  "\<lbrakk>window_inv H c; sorted (map snd es); \<forall>e \<in> set es. last_time c \<le> snd e \<and> snd e - last_time c < 2 ^ 32 * slot_ns c;
    \<forall>e \<in> set H. slot_start e \<le> fst (snd e) \<and> fst (snd e) < slot_start e + slot_ns c\<rbrakk> \<Longrightarrow>
   \<exists>c' H'. inc_all es c = Some c' \<and> window_inv (H @ H') c' \<and> map (\<lambda>(n, t, s). (n, t)) H' = es \<and>
     (\<forall>e \<in> set (H @ H'). slot_start e \<le> fst (snd e) \<and> fst (snd e) < slot_start e + slot_ns c) \<and>
     last_time c \<le> last_time c' \<and> (\<forall>u. last_time c \<le> u \<and> (\<forall>e \<in> set es. snd e \<le> u) \<longrightarrow> last_time c' \<le> u) \<and>
     length (slots c') = length (slots c) \<and> slot_duration c' = slot_duration c"
proof (induction es arbitrary: c H)
  case Nil
  then show ?case by (intro exI [of _ c] exI [of _ "[]"]) simp
next
  case (Cons e es)
  obtain n t where e: "e = (n, t)" by (cases e)
  obtain c1 s where c1: "Inc n t c = Some c1" "window_inv (H @ [(n, t, s)]) c1" "s \<le> t" "t < s + slot_ns c"
      "last_time c \<le> last_time c1" "last_time c1 \<le> t" "length (slots c1) = length (slots c)"
      "slot_duration c1 = slot_duration c"
    using Inc_inv [OF Cons.prems(1), of t n] Cons.prems(3) e by auto
  have S: "slot_ns c1 = slot_ns c" using c1 by (simp add: slot_ns_def)
  have "\<exists>c' H'. inc_all es c1 = Some c' \<and> window_inv ((H @ [(n, t, s)]) @ H') c' \<and>
     map (\<lambda>(n, t, s). (n, t)) H' = es \<and>
     (\<forall>e \<in> set ((H @ [(n, t, s)]) @ H'). slot_start e \<le> fst (snd e) \<and> fst (snd e) < slot_start e + slot_ns c1) \<and>
     last_time c1 \<le> last_time c' \<and> (\<forall>u. last_time c1 \<le> u \<and> (\<forall>e \<in> set es. snd e \<le> u) \<longrightarrow> last_time c' \<le> u) \<and>
     length (slots c') = length (slots c1) \<and> slot_duration c' = slot_duration c1"
  proof (rule Cons.IH [OF c1(2)])
    show "sorted (map snd es)" using Cons.prems(2) by simp
    show "\<forall>e \<in> set es. last_time c1 \<le> snd e \<and> snd e - last_time c1 < 2 ^ 32 * slot_ns c1"
      using Cons.prems(2,3) c1(5,6) e S by force
    show "\<forall>e \<in> set (H @ [(n, t, s)]). slot_start e \<le> fst (snd e) \<and> fst (snd e) < slot_start e + slot_ns c1"
      using Cons.prems(4) c1(3,4) S by auto
  qed
  then obtain c' H' where c': "inc_all es c1 = Some c'" "window_inv ((H @ [(n, t, s)]) @ H') c'"
     "map (\<lambda>(n, t, s). (n, t)) H' = es"
     "\<forall>e \<in> set ((H @ [(n, t, s)]) @ H'). slot_start e \<le> fst (snd e) \<and> fst (snd e) < slot_start e + slot_ns c1"
     "last_time c1 \<le> last_time c'" "\<forall>u. last_time c1 \<le> u \<and> (\<forall>e \<in> set es. snd e \<le> u) \<longrightarrow> last_time c' \<le> u"
     "length (slots c') = length (slots c1)" "slot_duration c' = slot_duration c1"
    by blast
  show ?case
    using c' c1 S e by (intro exI [of _ c'] exI [of _ "(n, t, s) # H'"]) auto
qed

lemma total_mono: "(\<And>e. e \<in> set H \<Longrightarrow> 0 \<le> fst e) \<Longrightarrow> (\<And>e. e \<in> set H \<Longrightarrow> P e \<Longrightarrow> Q e) \<Longrightarrow> total P H \<le> total Q H"
  unfolding total_def by (induction H) force+

lemma total_projected:
  "total (\<lambda>e. P (fst (snd e))) H = sum_list (map fst (filter (\<lambda>e. P (snd e)) (map (\<lambda>(n, t, s). (n, t)) H)))"
  unfolding total_def by (induction H) auto

lemma window_inv_new:
  "0 < w \<Longrightarrow> int w \<le> duration \<Longrightarrow> window_inv [] (TimeBasedCounter w duration t)"
  by (simp add: window_inv_def TimeBasedCounter_def total_def slot_index_def signed_divide_int_def sgn_if
      pos_imp_zdiv_pos_iff)



end
