(* ===== verification/Method_Info.thy ===== *)
theory Method_Info
  imports Esp_Utils "HOL-Library.AList" "HOL-Library.List_Lexorder" "HOL-Library.Char_ord"
begin

text \<open>
  The method of a service configuration: \<^verbatim>\<open>MethodInfoImpl\<close> of \<^verbatim>\<open>src/api_manager/method_impl.cc\<close>,
  with the auth providers it accepts, its system parameters and its backend.  Maps are
  association lists and sets of strings lists without the order the source never uses.
\<close>

section \<open>The record and its setters\<close>

record auth_provider_info =
  audiences :: "string set"
  authorization_url :: string

datatype path_translation = PATH_TRANSLATION_UNSPECIFIED | CONSTANT_ADDRESS | APPEND_PATH_TO_ADDRESS

record method_info =
  mi_name :: string
  api_name :: string
  api_version :: string
  auth :: bool
  allow_unregistered_calls :: bool
  skip_service_control :: bool
  issuer_provider_map :: "(string \<times> auth_provider_info) list"
  http_header_parameters_map :: "(string \<times> string list) list"
  url_query_parameters_map :: "(string \<times> string list) list"
  system_query_parameter_names :: "string set"
  api_key_http_headers :: "string list option"
  api_key_url_query_parameters :: "string list option"
  backend_address :: string
  backend_path :: string
  backend_path_translation :: path_translation
  backend_jwt_audience :: string
  selector :: string
  rpc_method_full_name :: string
  request_type_url :: string
  request_streaming :: bool
  response_type_url :: string
  response_streaming :: bool
  metric_cost_vector :: "(string \<times> int) list"

definition MethodInfoImpl :: "string \<Rightarrow> string \<Rightarrow> string \<Rightarrow> method_info" where
  "MethodInfoImpl nm an av =
     \<lparr>mi_name = nm, api_name = an, api_version = av, auth = False, allow_unregistered_calls = False,
      skip_service_control = False, issuer_provider_map = [], http_header_parameters_map = [],
      url_query_parameters_map = [], system_query_parameter_names = {}, api_key_http_headers = None,
      api_key_url_query_parameters = None, backend_address = [], backend_path = [],
      backend_path_translation = PATH_TRANSLATION_UNSPECIFIED, backend_jwt_audience = [], selector = [],
      rpc_method_full_name = [], request_type_url = [], request_streaming = False, response_type_url = [],
      response_streaming = False, metric_cost_vector = []\<rparr>"

text \<open>
  \<^verbatim>\<open>GetUrlContent\<close> as its callers use it: where the last character of an empty string is
  read, which the language leaves undefined, the content is the empty string that the
  callers test for.
\<close>

definition url_content :: "string \<Rightarrow> string" where
  "url_content url = (case GetUrlContent url of None \<Rightarrow> [] | Some c \<Rightarrow> c)"

definition addAuthProvider :: "string \<Rightarrow> string \<Rightarrow> string \<Rightarrow> method_info \<Rightarrow> method_info" where
  "addAuthProvider issuer audiences_list auth_url m =
     (if issuer = [] then m
      else
        let iss = url_content issuer
        in if iss = [] then m
           else
             let provider = (case map_of (issuer_provider_map m) iss of
                               Some p \<Rightarrow> p | None \<Rightarrow> \<lparr>audiences = {}, authorization_url = []\<rparr>);
                 auds = filter (\<lambda>a. a \<noteq> [])
                          (map url_content (filter (\<lambda>a. a \<noteq> []) (split_string (CHR '','') audiences_list)))
             in m\<lparr>issuer_provider_map :=
                    AList.update iss \<lparr>audiences = audiences provider \<union> set auds, authorization_url = auth_url\<rparr>
                      (issuer_provider_map m)\<rparr>)"

definition isIssuerAllowed :: "string \<Rightarrow> method_info \<Rightarrow> bool" where
  "isIssuerAllowed issuer m \<longleftrightarrow> issuer \<noteq> [] \<and> map_of (issuer_provider_map m) issuer \<noteq> None"

definition isAudienceAllowed :: "string \<Rightarrow> string set \<Rightarrow> method_info \<Rightarrow> bool" where
  "isAudienceAllowed issuer jwt_audiences m =
     (if issuer = [] \<or> jwt_audiences = {} \<or> \<not> isIssuerAllowed issuer m then False
      else \<exists>a \<in> jwt_audiences. a \<in> audiences (the (map_of (issuer_provider_map m) issuer)))"

definition authorization_url_by_issuer :: "string \<Rightarrow> method_info \<Rightarrow> string" where
  "authorization_url_by_issuer issuer m =
     (case map_of (issuer_provider_map m) issuer of Some p \<Rightarrow> authorization_url p | None \<Rightarrow> [])"

text \<open>The source iterates over the map in the order of its keys.\<close>

definition first_authorization_url :: "method_info \<Rightarrow> string" where
  "first_authorization_url m =
     (case filter (\<lambda>p. authorization_url (snd p) \<noteq> []) (sort_key fst (issuer_provider_map m)) of
        [] \<Rightarrow> []
      | p # _ \<Rightarrow> authorization_url (snd p))"

section \<open>The backend\<close>

record backend_rule =
  br_selector :: string
  br_address :: string
  br_path_translation :: path_translation
  br_jwt_audience :: string

text \<open>\<^verbatim>\<open>s.find("/", pos)\<close>, where \<^verbatim>\<open>npos + 1\<close> is 0.\<close>

definition next_pos :: "nat option \<Rightarrow> nat" where
  "next_pos i = (case i of None \<Rightarrow> 0 | Some k \<Rightarrow> k + 1)"

definition find_slash :: "string \<Rightarrow> nat \<Rightarrow> nat option" where
  "find_slash s pos = map_option (\<lambda>k. k + pos) (str_find (CHR ''/'') (drop pos s))"

definition process_backend_rule :: "backend_rule \<Rightarrow> method_info \<Rightarrow> method_info" where
  "process_backend_rule rule m =
     (let a = br_address rule;
          a = (if a \<noteq> [] \<and> last a = CHR ''/'' then butlast a else a);
          i0 = find_slash a 0;
          i1 = find_slash a (next_pos i0);
          i2 = find_slash a (next_pos i1);
          (p, a) = (case i2 of None \<Rightarrow> (backend_path m, a) | Some i \<Rightarrow> (drop i a, take i a));
          p = (if p = [] \<and> br_path_translation rule = CONSTANT_ADDRESS then ''/'' else p)
      in m\<lparr>backend_address := a, backend_path := p, backend_path_translation := br_path_translation rule,
           backend_jwt_audience := br_jwt_audience rule\<rparr>)"

definition keep_binding_escaped :: "method_info \<Rightarrow> bool" where
  "keep_binding_escaped m \<longleftrightarrow> backend_path_translation m = CONSTANT_ADDRESS"

section \<open>System parameters\<close>

definition api_key_parameter_name :: string where "api_key_parameter_name = ''api_key''"

definition push_parameter ::
    "string \<Rightarrow> string \<Rightarrow> (string \<times> string list) list \<Rightarrow> (string \<times> string list) list" where
  "push_parameter nm v ps = AList.update nm ((case map_of ps nm of None \<Rightarrow> [] | Some l \<Rightarrow> l) @ [v]) ps"

definition add_http_header_parameter :: "string \<Rightarrow> string \<Rightarrow> method_info \<Rightarrow> method_info" where
  "add_http_header_parameter nm v m = m\<lparr>http_header_parameters_map := push_parameter nm v (http_header_parameters_map m)\<rparr>"

definition add_url_query_parameter :: "string \<Rightarrow> string \<Rightarrow> method_info \<Rightarrow> method_info" where
  "add_url_query_parameter nm v m = m\<lparr>url_query_parameters_map := push_parameter nm v (url_query_parameters_map m)\<rparr>"

definition http_header_parameters :: "string \<Rightarrow> method_info \<Rightarrow> string list option" where
  "http_header_parameters nm m = map_of (http_header_parameters_map m) nm"

definition url_query_parameters :: "string \<Rightarrow> method_info \<Rightarrow> string list option" where
  "url_query_parameters nm m = map_of (url_query_parameters_map m) nm"

definition process_system_parameters :: "method_info \<Rightarrow> method_info" where
  "process_system_parameters m =
     m\<lparr>api_key_http_headers := http_header_parameters api_key_parameter_name m,
       api_key_url_query_parameters := url_query_parameters api_key_parameter_name m\<rparr>"

definition ProcessSystemQueryParameterNames :: "method_info \<Rightarrow> method_info" where
  "ProcessSystemQueryParameterNames m =
     m\<lparr>system_query_parameter_names :=
         system_query_parameter_names m \<union> set (concat (map snd (url_query_parameters_map m))) \<union>
         (if api_key_http_headers m = None \<and> api_key_url_query_parameters m = None
          then {''key'', ''api_key''} else {})\<rparr>"

text \<open>The cost, a 64-bit number, is stored as an \<^verbatim>\<open>int\<close>: its low 32 bits as a signed number.\<close>

definition to_int32 :: "int \<Rightarrow> int" where
  "to_int32 x = (x + 2 ^ 31) mod 2 ^ 32 - 2 ^ 31"

definition add_metric_cost :: "string \<Rightarrow> int \<Rightarrow> method_info \<Rightarrow> method_info" where
  "add_metric_cost metric cost m = m\<lparr>metric_cost_vector := metric_cost_vector m @ [(metric, to_int32 cost)]\<rparr>"

section \<open>What the setters promise\<close>

text \<open>
  adding a provider lets exactly the configured audiences in, besides those the issuer had:
  the audiences of a token are allowed when one of them was, or is the content of an element
  of the comma-separated list, and no other issuer changes.
\<close>

theorem addAuthProvider_allows:
  assumes "url_content issuer \<noteq> []"
  shows "isAudienceAllowed iss auds (addAuthProvider issuer audiences_list url m) \<longleftrightarrow>
    isAudienceAllowed iss auds m \<or>
    iss = url_content issuer \<and>
    (\<exists>a \<in> set (split_string (CHR '','') audiences_list). url_content a \<noteq> [] \<and> url_content a \<in> auds)"
proof -
  have ne: "issuer \<noteq> []" "url_content [] = []"
    using assms by (auto simp: url_content_def GetUrlContent_def has_prefix_def kHttpPrefix_def kHttpsPrefix_def)
  show ?thesis
  proof (cases "iss = url_content issuer")
    case True
    then show ?thesis
      using assms ne
      by (auto simp: isAudienceAllowed_def isIssuerAllowed_def addAuthProvider_def Let_def update_conv'
          split: option.splits)
  next
    case False
    then show ?thesis
      using assms ne by (simp add: isAudienceAllowed_def isIssuerAllowed_def addAuthProvider_def Let_def update_conv')
  qed
qed

theorem addAuthProvider_allows_witness:
  "isAudienceAllowed ''iss'' {''b''} (addAuthProvider ''https://iss/'' ''a,http://b'' '''' (MethodInfoImpl ''m'' '''' ''''))"
proof -
  have u: "url_content ''https://iss/'' = ''iss''" "url_content ''http://b'' = ''b''"
    "split_string (CHR '','') ''a,http://b'' = [''a'', ''http://b'']" by code_simp+
  show ?thesis
    using addAuthProvider_allows [of "''https://iss/''" "''iss''" "{''b''}" "''a,http://b''" "''''"
        "MethodInfoImpl ''m'' '''' ''''"] u by simp
qed

lemma find_slash_append:
  "CHR ''/'' \<notin> set x \<Longrightarrow> find_slash (pre @ x @ CHR ''/'' # s) (length pre) = Some (length pre + length x)"
  by (simp add: find_slash_def str_find_append add.commute)

lemma find_slash_none: "CHR ''/'' \<notin> set x \<Longrightarrow> find_slash (pre @ x) (length pre) = None"
  using str_find_None [of "CHR ''/''" x] by (simp add: find_slash_def)

text \<open>
  the address of a backend rule that is a full URL is split into the scheme with the host
  and the path, with one final slash ignored; an empty path is the root for a constant
  address.
\<close>

theorem process_backend_rule_splits:
  assumes "CHR ''/'' \<notin> set scheme" and "CHR ''/'' \<notin> set host" and "host \<noteq> []"
    and "path = [] \<or> hd path = CHR ''/'' \<and> last path \<noteq> CHR ''/''"
    and "br_address rule = (scheme @ ''//'' @ host @ path) @ slash" and "slash = [] \<or> slash = ''/''"
    and "backend_path m = []"
  shows "backend_address (process_backend_rule rule m) = scheme @ ''//'' @ host \<and>
    backend_path (process_backend_rule rule m) =
      (if path = [] \<and> br_path_translation rule = CONSTANT_ADDRESS then ''/'' else path)"
proof -
  let ?a = "scheme @ ''//'' @ host @ path" and ?pre = "scheme @ ''//''"
  have "last host \<noteq> CHR ''/''" using assms(2,3) last_in_set [of host] by metis
  then have last: "last ?a \<noteq> CHR ''/''" "?a \<noteq> []" using assms(3,4) by (auto simp: last_append)
  have strip: "(if br_address rule \<noteq> [] \<and> last (br_address rule) = CHR ''/'' then butlast (br_address rule)
      else br_address rule) = ?a"
    using assms(5,6) last by (auto simp: butlast_append)
  have i0: "find_slash ?a 0 = Some (length scheme)"
    using find_slash_append [OF assms(1), of "[]" "CHR ''/'' # host @ path"] by simp
  have i1: "find_slash ?a (length scheme + 1) = Some (length scheme + 1)"
    using find_slash_append [of "[]" "scheme @ ''/''" "host @ path"] by simp
  have i2: "find_slash ?a (length scheme + 1 + 1) =
      (if path = [] then None else Some (length scheme + 2 + length host))"
  proof (cases path)
    case Nil
    then show ?thesis using find_slash_none [OF assms(2), of ?pre] by simp
  next
    case (Cons x xs)
    then show ?thesis using find_slash_append [OF assms(2), of ?pre xs] assms(4) by simp
  qed
  show ?thesis
    unfolding process_backend_rule_def Let_def strip i0 next_pos_def option.case i1 i2
    using assms(7) by (cases "path = []") (simp_all del: One_nat_def)
qed

theorem process_backend_rule_splits_witness:
  "let rule = \<lparr>br_selector = ''s'', br_address = (''https:'' @ ''//'' @ ''h'' @ ''/v1'') @ ''/'',
              br_path_translation = CONSTANT_ADDRESS, br_jwt_audience = ''''\<rparr>;
       m = MethodInfoImpl ''m'' '''' ''''
   in backend_address (process_backend_rule rule m) = ''https:'' @ ''//'' @ ''h'' \<and>
      backend_path (process_backend_rule rule m) =
        (if ''/v1'' = '''' \<and> br_path_translation rule = CONSTANT_ADDRESS then ''/'' else ''/v1'')"
  unfolding Let_def
  by (rule process_backend_rule_splits [where slash = "''/''"]) (simp_all add: MethodInfoImpl_def)

text \<open>
  an address with a single slash, which is no full URL, is split too: the second search
  starts from the position after \<^verbatim>\<open>npos\<close>, which is the start of the text.
\<close>

theorem process_backend_rule_splits_non_url:
  "let m = process_backend_rule \<lparr>br_selector = ''s'', br_address = ''localhost:8080/v1'',
        br_path_translation = APPEND_PATH_TO_ADDRESS, br_jwt_audience = ''''\<rparr> (MethodInfoImpl ''m'' '''' '''')
   in backend_address m = ''localhost:8080'' \<and> backend_path m = ''/v1''"
  by code_simp

end
