(* ===== verification/Esp_Env.thy ===== *)
theory Esp_Env
  imports Esp_Status "HOL-Library.AList"
begin

text \<open>
  What the API manager asks of its environment (\<^verbatim>\<open>include/api_manager/env_interface.h\<close>): log
  messages, timers and HTTP requests, as values that the models return in the order the
  source makes the calls.  An HTTP request is the record of \<^verbatim>\<open>include/api_manager/http_request.h\<close>
  with its setters.
\<close>

record http_request =
  req_method :: string
  req_url :: string
  req_body :: string
  req_headers :: "(string \<times> string) list"
  req_requires_response_headers :: bool
  req_timeout_ms :: int
  req_max_retries :: int

definition new_HTTPRequest :: http_request where
  "new_HTTPRequest = \<lparr>req_method = [], req_url = [], req_body = [], req_headers = [],
     req_requires_response_headers = False, req_timeout_ms = 0, req_max_retries = 0\<rparr>"

definition set_method :: "string \<Rightarrow> http_request \<Rightarrow> http_request" where
  "set_method v r = r\<lparr>req_method := v\<rparr>"

definition set_url :: "string \<Rightarrow> http_request \<Rightarrow> http_request" where
  "set_url v r = r\<lparr>req_url := v\<rparr>"

definition set_body :: "string \<Rightarrow> http_request \<Rightarrow> http_request" where
  "set_body v r = r\<lparr>req_body := v\<rparr>"

text \<open>\<^verbatim>\<open>headers_[name] = value\<close>\<close>

definition set_header :: "string \<Rightarrow> string \<Rightarrow> http_request \<Rightarrow> http_request" where
  "set_header name v r = r\<lparr>req_headers := AList.update name v (req_headers r)\<rparr>"

definition set_auth_token :: "string \<Rightarrow> http_request \<Rightarrow> http_request" where
  "set_auth_token v r = (if v \<noteq> [] then set_header ''Authorization'' (''Bearer '' @ v) r else r)"

definition set_timeout_ms :: "int \<Rightarrow> http_request \<Rightarrow> http_request" where
  "set_timeout_ms v r = r\<lparr>req_timeout_ms := v\<rparr>"

definition set_max_retries :: "int \<Rightarrow> http_request \<Rightarrow> http_request" where
  "set_max_retries v r = r\<lparr>req_max_retries := v\<rparr>"

lemmas http_request_setters = set_method_def set_url_def set_body_def set_header_def set_auth_token_def
  set_timeout_ms_def set_max_retries_def new_HTTPRequest_def

text \<open>
  The last two are calls on the trace of a request: a span is created with a name, and a message
  is written to the current span.
\<close>

datatype env_effect =
  LogDebug string | LogInfo string | LogWarning string | LogError string |
  StartPeriodicTimer int | StopTimer | RunHTTPRequest http_request |
  StartSpan string | TraceMessage string

end
