(* ===== verification/Esp_Config.thy ===== *)
theory Esp_Config
  imports Path_Matcher Method_Info Esp_Env
begin

text \<open>
  The service configuration (\<^verbatim>\<open>src/api_manager/config.cc\<close>): the methods of a service, built from
  its APIs and HTTP rules and completed by the authentication, usage, system parameter,
  backend and quota rules, with the path matcher that finds them and the table of key URIs.

  The protocol buffer messages of the service configuration are records with the fields
  the source reads; parsing them from text is the argument \<open>parse_service\<close>, printing one the
  arguments \<open>debug_string\<close> and \<open>print_service\<close>.  A pointer to a method is its selector, the key
  of the map that owns it.  Messages logged are returned in their order.
\<close>

section \<open>The service message\<close>

datatype http_pattern = PGet string | PPut string | PPost string | PDelete string | PPatch string
  | PCustom string string | PNone

record http_binding =
  hb_pattern :: http_pattern
  hb_body :: string

record http_rule =
  hr_selector :: string
  hr_binding :: http_binding
  hr_additional_bindings :: "http_binding list"

record api_method =
  am_name :: string
  am_request_type_url :: string
  am_request_streaming :: bool
  am_response_type_url :: string
  am_response_streaming :: bool

record api =
  a_name :: string
  a_version :: string
  a_methods :: "api_method list"

record auth_provider =
  ap_id :: string
  ap_issuer :: string
  ap_jwks_uri :: string
  ap_audiences :: string
  ap_authorization_url :: string

record auth_requirement =
  rq_provider_id :: string
  rq_audiences :: string

record auth_rule =
  ar_selector :: string
  ar_requirements :: "auth_requirement list"

record usage_rule =
  ur_selector :: string
  ur_allow_unregistered_calls :: bool
  ur_skip_service_control :: bool

record system_parameter =
  sp_name :: string
  sp_http_header :: string
  sp_url_query_parameter :: string

record system_parameter_rule =
  spr_selector :: string
  spr_parameters :: "system_parameter list"

record metric_rule =
  mr_selector :: string
  mr_metric_costs :: "(string \<times> int) list"

record service =
  s_name :: string
  s_apis :: "api list"
  s_http_rules :: "http_rule list"
  s_endpoints :: "(string \<times> bool) list"
  s_providers :: "auth_provider list"
  s_auth_rules :: "auth_rule list"
  s_usage_rules :: "usage_rule list"
  s_system_parameters :: "system_parameter_rule list"
  s_backend_rules :: "backend_rule list"
  s_metric_rules :: "metric_rule list"
  s_types :: "(string \<times> string) list list"

record config =
  cfg_service :: service
  cfg_path_matcher :: "string path_matcher option"
  method_map :: "(string \<times> method_info) list"
  issuer_jwks_uri_map :: "(string \<times> string \<times> bool) list"
  snake_path_to_json_map :: "(string \<times> string) list"

definition new_Config :: "service \<Rightarrow> config" where
  "new_Config s = \<lparr>cfg_service = s, cfg_path_matcher = None, method_map = [], issuer_jwks_uri_map = [],
     snake_path_to_json_map = []\<rparr>"

section \<open>Methods\<close>

definition method_selector :: "string \<Rightarrow> string \<Rightarrow> string" where
  "method_selector name an = (if an = [] then name else an @ ''.'' @ name)"

definition method_path :: "string \<Rightarrow> string \<Rightarrow> string" where
  "method_path name an = (if an = [] then name else ''/'' @ an @ ''/'' @ name)"

text \<open>The result is the pointer to the method, its selector.\<close>

definition GetOrCreateMethodInfoImpl :: "string \<Rightarrow> string \<Rightarrow> string \<Rightarrow> config \<Rightarrow> string \<times> config" where
  "GetOrCreateMethodInfoImpl name an av c =
     (let sel = method_selector name an;
          path = method_path name an
      in case map_of (method_map c) sel of
           Some _ \<Rightarrow> (sel, c)
         | None \<Rightarrow>
             (sel, c\<lparr>method_map := AList.update sel
                ((MethodInfoImpl name an av)\<lparr>selector := sel, rpc_method_full_name := path\<rparr>) (method_map c)\<rparr>))"

definition update_method :: "string \<Rightarrow> (method_info \<Rightarrow> method_info) \<Rightarrow> config \<Rightarrow> config" where
  "update_method sel f c =
     (case map_of (method_map c) sel of
        None \<Rightarrow> c
      | Some m \<Rightarrow> c\<lparr>method_map := AList.update sel (f m) (method_map c)\<rparr>)"

text \<open>The state of loading: the configuration, the builder of the path matcher and the log.\<close>

record loading =
  l_config :: config
  l_pmb :: "string path_matcher"
  l_log :: "env_effect list"

definition add_log :: "env_effect \<Rightarrow> loading \<Rightarrow> loading" where
  "add_log e l = l\<lparr>l_log := l_log l @ [e]\<rparr>"

section \<open>RPC methods\<close>

definition load_rpc_method :: "api \<Rightarrow> api_method \<Rightarrow> loading \<Rightarrow> loading" where
  "load_rpc_method a am l =
     (let (sel, c) = GetOrCreateMethodInfoImpl (am_name am) (a_name a) (a_version a) (l_config l);
          c = update_method sel (\<lambda>m. m\<lparr>request_type_url := am_request_type_url am,
                request_streaming := am_request_streaming am, response_type_url := am_response_type_url am,
                response_streaming := am_response_streaming am\<rparr>) c;
          (st, pmb) = Register ''POST'' (rpc_method_full_name (the (map_of (method_map c) sel))) [] sel (l_pmb l);
          l = l\<lparr>l_config := c, l_pmb := pmb\<rparr>
      in if \<not> ok st then add_log (LogError (message st)) l else l)"

definition LoadRpcMethods :: "loading \<Rightarrow> loading" where
  "LoadRpcMethods l =
     fold (\<lambda>a l. if a_name a = [] then l else fold (load_rpc_method a) (a_methods a) l)
       (s_apis (cfg_service (l_config l))) l"

section \<open>HTTP rules\<close>

fun pattern_method :: "http_pattern \<Rightarrow> (string \<times> string) option" where
  "pattern_method (PGet u) = Some (''GET'', u)"
| "pattern_method (PPut u) = Some (''PUT'', u)"
| "pattern_method (PPost u) = Some (''POST'', u)"
| "pattern_method (PDelete u) = Some (''DELETE'', u)"
| "pattern_method (PPatch u) = Some (''PATCH'', u)"
| "pattern_method (PCustom kind u) = Some (kind, u)"
| "pattern_method PNone = None"

text \<open>The result is the flag, the state and the set of URLs.\<close>

definition RegisterHttpRule ::
    "string \<Rightarrow> http_binding \<Rightarrow> string set \<times> loading \<Rightarrow> bool \<times> string set \<times> loading" where
  "RegisterHttpRule mi rule ul =
     (let (all_urls, l) = ul in
      case pattern_method (hb_pattern rule) of
        None \<Rightarrow> (False, all_urls, add_log (LogError ''Invalid HTTP binding encountered.'') l)
      | Some (http_method, url) \<Rightarrow>
          if url = [] then (False, all_urls, add_log (LogError ''Invalid HTTP binding encountered.'') l)
          else
            let (st, pmb) = Register http_method url (hb_body rule) mi (l_pmb l);
                l = l\<lparr>l_pmb := pmb\<rparr>
            in if \<not> ok st then (False, all_urls, add_log (LogError (message st)) l)
               else (True, if http_method \<noteq> ''OPTIONS'' then insert url all_urls else all_urls, l))"

definition load_additional ::
    "(http_binding \<Rightarrow> string) \<Rightarrow> string \<Rightarrow> http_binding \<Rightarrow> string set \<times> loading \<Rightarrow> string set \<times> loading" where
  "load_additional debug_string mi rule ul =
     (let (ok, urls, l) = RegisterHttpRule mi rule ul
      in if ok then (urls, l)
         else (urls, add_log (LogError (''Failed to add additional_binding rule: '' @ debug_string rule)) l))"

definition load_http_rule ::
    "(http_binding \<Rightarrow> string) \<Rightarrow> http_rule \<Rightarrow> string set \<times> loading \<Rightarrow> string set \<times> loading" where
  "load_http_rule debug_string rule ul =
     (let (urls, l) = ul;
          (mi, c) = GetOrCreateMethodInfoImpl (hr_selector rule) [] [] (l_config l);
          (ok, urls, l) = RegisterHttpRule mi (hr_binding rule) (urls, l\<lparr>l_config := c\<rparr>)
      in if \<not> ok then (urls, add_log (LogError (''Failed to add http rule: '' @ debug_string (hr_binding rule))) l)
         else fold (load_additional debug_string mi) (hr_additional_bindings rule) (urls, l))"

text \<open>
  The loop that looks for a free selector; its fuel is the number of methods, of which it can
  meet each once.
\<close>

fun cors_selector_from :: "nat \<Rightarrow> nat \<Rightarrow> string \<Rightarrow> (string \<times> method_info) list \<Rightarrow> string" where
  "cors_selector_from 0 n sel ms = sel"
| "cors_selector_from (Suc fuel) n sel ms =
     (if map_of ms sel \<noteq> None
      then cors_selector_from fuel (n + 1) (''CORS'' @ ''.'' @ show_nat (n + 1)) ms
      else sel)"

definition cors_selector :: "(string \<times> method_info) list \<Rightarrow> string" where
  "cors_selector ms = cors_selector_from (length ms + 1) 0 ''CORS'' ms"

definition register_options :: "string \<Rightarrow> string \<Rightarrow> loading \<Rightarrow> loading" where
  "register_options mi url l =
     (let (st, pmb) = Register ''OPTIONS'' url [] mi (l_pmb l);
          l = l\<lparr>l_pmb := pmb\<rparr>
      in if \<not> ok st then add_log (LogWarning (''Failed to add http options template: '' @ message st)) l else l)"

definition AddOptionsMethodForAllUrls :: "string set \<Rightarrow> loading \<Rightarrow> loading" where
  "AddOptionsMethodForAllUrls all_urls l =
     (let (mi, c) = GetOrCreateMethodInfoImpl (cors_selector (method_map (l_config l))) [] [] (l_config l);
          c = update_method mi (\<lambda>m. m\<lparr>auth := False, allow_unregistered_calls := True\<rparr>) c
      in fold (register_options mi) (sorted_list_of_set all_urls) (l\<lparr>l_config := c\<rparr>))"

definition LoadHttpMethods :: "(http_binding \<Rightarrow> string) \<Rightarrow> loading \<Rightarrow> loading" where
  "LoadHttpMethods debug_string l =
     (let s = cfg_service (l_config l);
          (all_urls, l) = fold (load_http_rule debug_string) (s_http_rules s) ({}, l)
      in if list_ex (\<lambda>(name, allow_cors). name = s_name s \<and> allow_cors) (s_endpoints s)
         then AddOptionsMethodForAllUrls all_urls (add_log (LogInfo ''CORS is allowed.'') l)
         else l)"

section \<open>Authentication\<close>

definition SetJwksUri :: "string \<Rightarrow> string \<Rightarrow> bool \<Rightarrow> config \<Rightarrow> config" where
  "SetJwksUri issuer jwks_uri openid_valid c =
     (let iss = url_content issuer
      in if iss \<noteq> []
         then c\<lparr>issuer_jwks_uri_map := AList.update iss (jwks_uri, openid_valid) (issuer_jwks_uri_map c)\<rparr>
         else c)"

definition openid_config_path :: string where "openid_config_path = ''.well-known/openid-configuration''"

definition GetJwksUri :: "string \<Rightarrow> config \<Rightarrow> bool \<times> string" where
  "GetJwksUri issuer c =
     (case map_of (issuer_jwks_uri_map c) (url_content issuer) of
        None \<Rightarrow> (False, [])
      | Some (jwks_uri, openid_valid) \<Rightarrow>
          if jwks_uri \<noteq> [] then (False, jwks_uri)
          else if openid_valid then
            let url = (if \<not> has_prefix issuer kHttpsPrefix \<and> \<not> has_prefix issuer kHttpPrefix
                       then kHttpsPrefix @ issuer else issuer);
                url = (if last url \<noteq> CHR ''/'' then url @ ''/'' else url)
            in (True, url @ openid_config_path)
          else (False, []))"

text \<open>The loop over the providers also builds the map from ids to providers.\<close>

definition load_provider ::
    "auth_provider \<Rightarrow> (string \<times> auth_provider) list \<times> loading \<Rightarrow> (string \<times> auth_provider) list \<times> loading" where
  "load_provider p ml =
     (let (providers, l) = ml
      in if ap_id p = [] then (providers, add_log (LogError ''Missing id field in AuthProvider.'') l)
         else if ap_issuer p = []
         then (providers, add_log (LogError (''Missing issuer field for provider: '' @ ap_id p)) l)
         else (AList.update (ap_id p) p providers,
               l\<lparr>l_config := SetJwksUri (ap_issuer p) (ap_jwks_uri p) (ap_jwks_uri p = []) (l_config l)\<rparr>))"

definition load_requirement ::
    "(string \<times> auth_provider) list \<Rightarrow> string \<Rightarrow> auth_requirement \<Rightarrow> loading \<Rightarrow> loading" where
  "load_requirement providers sel rq l =
     (if rq_provider_id rq = []
      then add_log (LogError (''Missing provider_id field in requirements for: '' @ sel)) l
      else
        case map_of providers (rq_provider_id rq) of
          None \<Rightarrow> add_log (LogError (''Undefined provider_id: '' @ rq_provider_id rq)) l
        | Some p \<Rightarrow>
            let auds = (if ap_audiences p = [] then rq_audiences rq else ap_audiences p)
            in l\<lparr>l_config := update_method sel
                   (addAuthProvider (ap_issuer p) auds (ap_authorization_url p)) (l_config l)\<rparr>)"

definition load_auth_rule :: "(string \<times> auth_provider) list \<Rightarrow> auth_rule \<Rightarrow> loading \<Rightarrow> loading" where
  "load_auth_rule providers rule l =
     (case map_of (method_map (l_config l)) (ar_selector rule) of
        None \<Rightarrow> add_log (LogError (''Not HTTP rule defined for: '' @ ar_selector rule)) l
      | Some _ \<Rightarrow>
          fold (load_requirement providers (ar_selector rule)) (ar_requirements rule)
            (l\<lparr>l_config := update_method (ar_selector rule)
                 (\<lambda>m. m\<lparr>auth := length (ar_requirements rule) > 0\<rparr>) (l_config l)\<rparr>))"

definition LoadAuthentication :: "loading \<Rightarrow> loading" where
  "LoadAuthentication l =
     (let s = cfg_service (l_config l);
          (providers, l) = fold load_provider (s_providers s) ([], l)
      in fold (load_auth_rule providers) (s_auth_rules s) l)"

section \<open>Usage, system parameters, backends and quota\<close>

definition load_usage_rule :: "usage_rule \<Rightarrow> loading \<Rightarrow> loading" where
  "load_usage_rule rule l =
     (case map_of (method_map (l_config l)) (ur_selector rule) of
        Some _ \<Rightarrow>
          l\<lparr>l_config := update_method (ur_selector rule)
              (\<lambda>m. m\<lparr>allow_unregistered_calls := ur_allow_unregistered_calls rule,
                     skip_service_control := ur_skip_service_control rule\<rparr>) (l_config l)\<rparr>
      | None \<Rightarrow> add_log (LogError (''Not HTTP rule defined for: '' @ ur_selector rule)) l)"

definition LoadUsage :: "loading \<Rightarrow> loading" where
  "LoadUsage l = fold load_usage_rule (s_usage_rules (cfg_service (l_config l))) l"

definition load_parameter :: "string \<Rightarrow> system_parameter \<Rightarrow> loading \<Rightarrow> loading" where
  "load_parameter sel p l =
     (if sp_name p = [] then add_log (LogError (''Missing parameter name for: '' @ sel)) l
      else
        l\<lparr>l_config := update_method sel
            (\<lambda>m. let m = (if sp_http_header p \<noteq> [] then add_http_header_parameter (sp_name p) (sp_http_header p) m else m)
                 in if sp_url_query_parameter p \<noteq> []
                    then add_url_query_parameter (sp_name p) (sp_url_query_parameter p) m else m)
            (l_config l)\<rparr>)"

definition load_parameter_rule :: "system_parameter_rule \<Rightarrow> loading \<Rightarrow> loading" where
  "load_parameter_rule rule l =
     (case map_of (method_map (l_config l)) (spr_selector rule) of
        Some _ \<Rightarrow>
          (let l = fold (load_parameter (spr_selector rule)) (spr_parameters rule) l
           in l\<lparr>l_config := update_method (spr_selector rule) process_system_parameters (l_config l)\<rparr>)
      | None \<Rightarrow> add_log (LogError (''Not HTTP rule defined for: '' @ spr_selector rule)) l)"

definition LoadSystemParameters :: "loading \<Rightarrow> loading" where
  "LoadSystemParameters l =
     (let l = fold load_parameter_rule (s_system_parameters (cfg_service (l_config l))) l;
          c = l_config l
      in l\<lparr>l_config := c\<lparr>method_map := map (\<lambda>(sel, m). (sel, ProcessSystemQueryParameterNames m)) (method_map c)\<rparr>\<rparr>)"

definition load_backend_rule :: "backend_rule \<Rightarrow> loading \<Rightarrow> loading" where
  "load_backend_rule rule l =
     (if br_address rule = [] then l
      else
        case map_of (method_map (l_config l)) (br_selector rule) of
          Some m \<Rightarrow>
            if backend_address m \<noteq> []
            then add_log (LogError (''Duplicate a backend address for selector: '' @ br_selector rule)) l
            else l\<lparr>l_config := update_method (br_selector rule) (process_backend_rule rule) (l_config l)\<rparr>
        | None \<Rightarrow> add_log (LogError (''No method matching backend selector: '' @ br_selector rule)) l)"

definition LoadBackends :: "loading \<Rightarrow> loading" where
  "LoadBackends l = fold load_backend_rule (s_backend_rules (cfg_service (l_config l))) l"

text \<open>The only step that can fail: a metric rule without a method ends the loading.\<close>

fun load_metric_rules :: "metric_rule list \<Rightarrow> loading \<Rightarrow> bool \<times> loading" where
  "load_metric_rules [] l = (True, l)"
| "load_metric_rules (rule # rules) l =
     (case map_of (method_map (l_config l)) (mr_selector rule) of
        Some _ \<Rightarrow>
          load_metric_rules rules
            (l\<lparr>l_config := update_method (mr_selector rule)
                 (fold (\<lambda>(metric, cost). add_metric_cost metric cost) (mr_metric_costs rule)) (l_config l)\<rparr>)
      | None \<Rightarrow>
          (False, add_log (LogError (''Metric rule with selector '' @ mr_selector rule @ ''is mismatched.'')) l))"

definition LoadQuotaRule :: "loading \<Rightarrow> bool \<times> loading" where
  "LoadQuotaRule l = load_metric_rules (s_metric_rules (cfg_service (l_config l))) l"

text \<open>\<^verbatim>\<open>emplace\<close> keeps an existing entry.\<close>

definition load_field :: "string \<times> string \<Rightarrow> config \<Rightarrow> config" where
  "load_field field c =
     (let (name, json_name) = field
      in if CHR ''_'' \<in> set name \<and> map_of (snake_path_to_json_map c) name = None
         then c\<lparr>snake_path_to_json_map := AList.update name json_name (snake_path_to_json_map c)\<rparr>
         else c)"

definition LoadTypes :: "config \<Rightarrow> config" where
  "LoadTypes c = fold load_field (concat (s_types (cfg_service c))) c"

section \<open>Creation and lookup\<close>

definition LoadService ::
    "(string \<Rightarrow> service option) \<Rightarrow> (service \<Rightarrow> string) \<Rightarrow> string \<Rightarrow> service option \<times> env_effect list" where
  "LoadService parse_service print_service service_config =
     (if service_config = [] then (None, [])
      else
        case parse_service service_config of
          None \<Rightarrow> (None, [LogError ''Cannot load ESP configuration protocol buffer.''])
        | Some s \<Rightarrow>
            if s_name s = []
            then (None, [LogError ''Service name not specified in the API configuration.''])
            else (Some s, [LogDebug (print_service s)]))"

definition load_all :: "(http_binding \<Rightarrow> string) \<Rightarrow> service \<Rightarrow> env_effect list \<Rightarrow> bool \<times> loading" where
  "load_all debug_string s logs =
     (let l = \<lparr>l_config = new_Config s, l_pmb = PathMatcherBuilder, l_log = logs\<rparr>;
          l = LoadHttpMethods debug_string (LoadRpcMethods l);
          l = l\<lparr>l_config := (l_config l)\<lparr>cfg_path_matcher := Some (l_pmb l)\<rparr>\<rparr>
      in LoadQuotaRule (LoadBackends (LoadSystemParameters (LoadUsage (LoadAuthentication l)))))"

definition Create ::
    "(string \<Rightarrow> service option) \<Rightarrow> (service \<Rightarrow> string) \<Rightarrow> (http_binding \<Rightarrow> string) \<Rightarrow> string \<Rightarrow>
     config option \<times> env_effect list" where
  "Create parse_service print_service debug_string service_config =
     (case LoadService parse_service print_service service_config of
        (None, logs) \<Rightarrow> (None, logs)
      | (Some s, logs) \<Rightarrow>
          (case load_all debug_string s logs of
             (False, l) \<Rightarrow> (None, l_log l)
           | (True, l) \<Rightarrow> (Some (LoadTypes (l_config l)), l_log l)))"

definition GetMethodInfo :: "string \<Rightarrow> string \<Rightarrow> config \<Rightarrow> method_info option" where
  "GetMethodInfo http_method url c =
     (case cfg_path_matcher c of
        None \<Rightarrow> None
      | Some pm \<Rightarrow> Option.bind (Lookup pm http_method url) (map_of (method_map c)))"

text \<open>
  The method, the bindings and the body field path; the matcher's two questions about a method
  are answered by the configuration.  \<open>Inl ()\<close> is the read past the end that never happens.
\<close>

definition GetMethodCallInfo ::
    "string \<Rightarrow> string \<Rightarrow> string \<Rightarrow> config \<Rightarrow> unit + string match_result option" where
  "GetMethodCallInfo http_method url query_params c =
     (case cfg_path_matcher c of
        None \<Rightarrow> Inr None
      | Some pm \<Rightarrow>
          Lookup_bindings
            (\<lambda>sel. case map_of (method_map c) sel of Some m \<Rightarrow> keep_binding_escaped m | None \<Rightarrow> False)
            (\<lambda>sel. case map_of (method_map c) sel of Some m \<Rightarrow> system_query_parameter_names m | None \<Rightarrow> {})
            pm http_method url query_params)"

definition GetJsonName :: "string \<Rightarrow> config \<Rightarrow> string option" where
  "GetJsonName snake_name c = map_of (snake_path_to_json_map c) snake_name"

text \<open>The server configuration is its Firebase server, when it has security rules.\<close>

definition GetFirebaseServer :: "string option \<Rightarrow> string" where
  "GetFirebaseServer firebase_server =
     (case firebase_server of Some f \<Rightarrow> if f \<noteq> [] then f else [] | None \<Rightarrow> [])"

definition GetFirebaseAudience :: "string option \<Rightarrow> string" where
  "GetFirebaseAudience firebase_server =
     GetFirebaseServer firebase_server @ ''/google.firebase.rules.v1.FirebaseRulesService''"

section \<open>Steps that only update methods\<close>

abbreviation methods :: "loading \<Rightarrow> string set" where
  "methods l \<equiv> dom (map_of (method_map (l_config l)))"

lemma update_method_simps [simp]:
  "dom (map_of (method_map (update_method sel f c))) = dom (map_of (method_map c))"
  "cfg_path_matcher (update_method sel f c) = cfg_path_matcher c"
  "cfg_service (update_method sel f c) = cfg_service c"
  "issuer_jwks_uri_map (update_method sel f c) = issuer_jwks_uri_map c"
  by (auto simp: update_method_def update_conv' split: option.splits if_splits)

lemma add_log_simps [simp]:
  "l_config (add_log e l) = l_config l" "l_pmb (add_log e l) = l_pmb l"
  by (simp_all add: add_log_def)

lemma SetJwksUri_simps [simp]:
  "method_map (SetJwksUri i u b c) = method_map c" "cfg_path_matcher (SetJwksUri i u b c) = cfg_path_matcher c"
  "cfg_service (SetJwksUri i u b c) = cfg_service c"
  by (simp_all add: SetJwksUri_def Let_def)

text \<open>
  The contract of a rule of the second half of the loading: it changes methods but adds none
  and removes none, and leaves the matcher and the service as they are.
\<close>

locale method_step =
  fixes step :: "'a \<Rightarrow> loading \<Rightarrow> loading"
  assumes keeps_methods: "methods (step x l) = methods l"
    and keeps_matcher: "cfg_path_matcher (l_config (step x l)) = cfg_path_matcher (l_config l)"
    and keeps_service: "cfg_service (l_config (step x l)) = cfg_service (l_config l)"
begin

lemma fold_methods: "methods (fold step xs l) = methods l"
  by (induction xs arbitrary: l) (simp_all add: keeps_methods)

lemma fold_matcher: "cfg_path_matcher (l_config (fold step xs l)) = cfg_path_matcher (l_config l)"
  by (induction xs arbitrary: l) (simp_all add: keeps_matcher)

lemma fold_service: "cfg_service (l_config (fold step xs l)) = cfg_service (l_config l)"
  by (induction xs arbitrary: l) (simp_all add: keeps_service)

lemmas fold_keeps = fold_methods fold_matcher fold_service

end

interpretation requirement: method_step "load_requirement providers sel" for providers sel
  by unfold_locales (simp_all add: load_requirement_def Let_def split: option.splits)

interpretation auth_rule: method_step "load_auth_rule providers" for providers
  by unfold_locales (simp_all add: load_auth_rule_def requirement.fold_keeps split: option.splits)

interpretation usage: method_step load_usage_rule
  by unfold_locales (simp_all add: load_usage_rule_def split: option.splits)

interpretation parameter: method_step "load_parameter sel" for sel
  by unfold_locales (simp_all add: load_parameter_def)

interpretation parameter_rule: method_step load_parameter_rule
  by unfold_locales (simp_all add: load_parameter_rule_def Let_def parameter.fold_keeps split: option.splits)

interpretation backend: method_step load_backend_rule
  by unfold_locales (simp_all add: load_backend_rule_def split: option.splits)

lemma load_provider_keeps:
  "methods (snd (load_provider p ml)) = methods (snd ml)"
  "cfg_path_matcher (l_config (snd (load_provider p ml))) = cfg_path_matcher (l_config (snd ml))"
  "cfg_service (l_config (snd (load_provider p ml))) = cfg_service (l_config (snd ml))"
  by (simp_all add: load_provider_def Let_def split: prod.splits)

lemma fold_provider_keeps:
  "methods (snd (fold load_provider ps ml)) = methods (snd ml) \<and>
   cfg_path_matcher (l_config (snd (fold load_provider ps ml))) = cfg_path_matcher (l_config (snd ml)) \<and>
   cfg_service (l_config (snd (fold load_provider ps ml))) = cfg_service (l_config (snd ml))"
  by (induction ps arbitrary: ml) (simp_all add: load_provider_keeps)

lemma LoadAuthentication_keeps:
  "methods (LoadAuthentication l) = methods l"
  "cfg_path_matcher (l_config (LoadAuthentication l)) = cfg_path_matcher (l_config l)"
  "cfg_service (l_config (LoadAuthentication l)) = cfg_service (l_config l)"
  using fold_provider_keeps [of "s_providers (cfg_service (l_config l))" "([], l)"]
  by (simp_all add: LoadAuthentication_def Let_def auth_rule.fold_keeps split_beta)

lemma LoadUsage_keeps:
  "methods (LoadUsage l) = methods l"
  "cfg_path_matcher (l_config (LoadUsage l)) = cfg_path_matcher (l_config l)"
  "cfg_service (l_config (LoadUsage l)) = cfg_service (l_config l)"
  by (simp_all add: LoadUsage_def usage.fold_keeps)

lemma map_of_map_value: "map_of (map (\<lambda>(k, v). (k, f v)) xs) k = map_option f (map_of xs k)"
  by (induction xs) auto

lemma LoadSystemParameters_keeps:
  "methods (LoadSystemParameters l) = methods l"
  "cfg_path_matcher (l_config (LoadSystemParameters l)) = cfg_path_matcher (l_config l)"
  "cfg_service (l_config (LoadSystemParameters l)) = cfg_service (l_config l)"
  using parameter_rule.fold_methods [of "s_system_parameters (cfg_service (l_config l))" l]
  by (simp_all add: LoadSystemParameters_def Let_def parameter_rule.fold_matcher parameter_rule.fold_service
      map_of_map_value dom_def)

lemma LoadBackends_keeps:
  "methods (LoadBackends l) = methods l"
  "cfg_path_matcher (l_config (LoadBackends l)) = cfg_path_matcher (l_config l)"
  "cfg_service (l_config (LoadBackends l)) = cfg_service (l_config l)"
  by (simp_all add: LoadBackends_def backend.fold_keeps)

lemma load_metric_rules_keeps:
  "load_metric_rules rs l = (b, l') \<Longrightarrow> methods l' = methods l \<and>
     cfg_path_matcher (l_config l') = cfg_path_matcher (l_config l) \<and> cfg_service (l_config l') = cfg_service (l_config l) \<and>
     (b \<longleftrightarrow> (\<forall>r \<in> set rs. mr_selector r \<in> methods l))"
proof (induction rs l rule: load_metric_rules.induct)
  case (2 rule rules l)
  then show ?case by (cases "map_of (method_map (l_config l)) (mr_selector rule)") auto
qed simp

lemmas load_keeps = LoadAuthentication_keeps LoadUsage_keeps LoadSystemParameters_keeps LoadBackends_keeps

lemma LoadTypes_simps [simp]:
  "method_map (LoadTypes c) = method_map c" "cfg_path_matcher (LoadTypes c) = cfg_path_matcher c"
  "cfg_service (LoadTypes c) = cfg_service c"
proof -
  have "method_map (fold load_field fs c) = method_map c \<and> cfg_path_matcher (fold load_field fs c) = cfg_path_matcher c \<and>
      cfg_service (fold load_field fs c) = cfg_service c" for fs
    by (induction fs arbitrary: c) (auto simp: load_field_def Let_def split: prod.splits)
  then show "method_map (LoadTypes c) = method_map c" "cfg_path_matcher (LoadTypes c) = cfg_path_matcher c"
      "cfg_service (LoadTypes c) = cfg_service c"
    by (simp_all add: LoadTypes_def)
qed

section \<open>The matcher and the methods\<close>

text \<open>
  The state of the first half of the loading: the builder holds a sequence of registrations,
  and every method registered is owned by the map.
\<close>

definition loading_inv :: "loading \<Rightarrow> bool" where
  "loading_inv l \<longleftrightarrow> (\<exists>rs. l_pmb l = register_all rs PathMatcherBuilder \<and>
     (\<forall>(hm, t, body, sel) \<in> set rs. sel \<in> methods l))"

lemma GetOrCreate_methods:
  "GetOrCreateMethodInfoImpl name an av c = (sel, c') \<Longrightarrow>
     sel = method_selector name an \<and> dom (map_of (method_map c')) = insert sel (dom (map_of (method_map c))) \<and>
     cfg_service c' = cfg_service c"
  by (auto simp: GetOrCreateMethodInfoImpl_def Let_def update_conv' split: option.splits)

lemma loading_inv_register:
  assumes "loading_inv l" "sel \<in> methods l'" "methods l \<subseteq> methods l'"
    "Register hm t body sel (l_pmb l) = (st, pmb)" "l_pmb l' = pmb"
  shows "loading_inv l'"
proof -
  obtain rs where "l_pmb l = register_all rs PathMatcherBuilder" "\<forall>(hm, t, body, sel) \<in> set rs. sel \<in> methods l"
    using assms(1) by (auto simp: loading_inv_def)
  then show ?thesis
    unfolding loading_inv_def using assms(2-5)
    by (intro exI [of _ "rs @ [(hm, t, body, sel)]"]) (force simp: register_all_append)
qed

lemma loading_inv_mono:
  "loading_inv l \<Longrightarrow> methods l \<subseteq> methods l' \<Longrightarrow> l_pmb l' = l_pmb l \<Longrightarrow> loading_inv l'"
  unfolding loading_inv_def by fastforce

lemma load_rpc_method_inv:
  assumes "loading_inv l"
  shows "loading_inv (load_rpc_method a am l) \<and>
    methods (load_rpc_method a am l) = insert (method_selector (am_name am) (a_name a)) (methods l) \<and>
    cfg_service (l_config (load_rpc_method a am l)) = cfg_service (l_config l)"
proof -
  obtain sel c where g: "GetOrCreateMethodInfoImpl (am_name am) (a_name a) (a_version a) (l_config l) = (sel, c)"
    by fastforce
  note m = GetOrCreate_methods [OF g]
  let ?c = "update_method sel (\<lambda>m. m\<lparr>request_type_url := am_request_type_url am,
                request_streaming := am_request_streaming am, response_type_url := am_response_type_url am,
                response_streaming := am_response_streaming am\<rparr>) c"
  obtain st pmb where r: "Register ''POST'' (rpc_method_full_name (the (map_of (method_map ?c) sel))) [] sel (l_pmb l) =
      (st, pmb)" by fastforce
  have e: "load_rpc_method a am l = (let l = l\<lparr>l_config := ?c, l_pmb := pmb\<rparr>
      in if \<not> ok st then add_log (LogError (message st)) l else l)"
    by (simp add: load_rpc_method_def g r Let_def)
  have "loading_inv (load_rpc_method a am l)"
    by (rule loading_inv_register [OF assms _ _ r]) (use m in \<open>auto simp: e Let_def\<close>)
  then show ?thesis using m by (simp add: e Let_def)
qed

definition rpc_selectors :: "service \<Rightarrow> string set" where
  "rpc_selectors s = {method_selector (am_name am) (a_name a) | a am. a \<in> set (s_apis s) \<and> a_name a \<noteq> [] \<and> am \<in> set (a_methods a)}"

lemma load_rpc_methods_inv:
  "loading_inv l \<Longrightarrow> loading_inv (fold (load_rpc_method a) ams l) \<and>
     methods (fold (load_rpc_method a) ams l) = methods l \<union> (\<lambda>am. method_selector (am_name am) (a_name a)) ` set ams \<and>
     cfg_service (l_config (fold (load_rpc_method a) ams l)) = cfg_service (l_config l)"
  by (induction ams arbitrary: l) (use load_rpc_method_inv in auto)

lemma LoadRpcMethods_inv:
  assumes "loading_inv l"
  shows "loading_inv (LoadRpcMethods l) \<and>
    methods (LoadRpcMethods l) = methods l \<union> rpc_selectors (cfg_service (l_config l)) \<and>
    cfg_service (l_config (LoadRpcMethods l)) = cfg_service (l_config l)"
proof -
  let ?f = "\<lambda>a l. if a_name a = [] then l else fold (load_rpc_method a) (a_methods a) l"
  have "loading_inv (fold ?f as l) \<and>
      methods (fold ?f as l) = methods l \<union> {method_selector (am_name am) (a_name a) | a am.
        a \<in> set as \<and> a_name a \<noteq> [] \<and> am \<in> set (a_methods a)} \<and>
      cfg_service (l_config (fold ?f as l)) = cfg_service (l_config l)" for as
    using assms
  proof (induction as arbitrary: l)
    case (Cons a as)
    show ?case
    proof (cases "a_name a = []")
      case True
      then show ?thesis using Cons.IH [OF Cons.prems] by auto
    next
      case False
      note 1 = load_rpc_methods_inv [OF Cons.prems, of a "a_methods a"]
      then show ?thesis using False Cons.IH [of "fold (load_rpc_method a) (a_methods a) l"] by (auto simp: image_iff)
    qed
  qed simp
  then show ?thesis by (simp add: LoadRpcMethods_def rpc_selectors_def)
qed

text \<open>What a step of the HTTP rules may do to the state.\<close>

definition http_step :: "string set \<Rightarrow> loading \<Rightarrow> loading \<Rightarrow> bool" where
  "http_step new l l' \<longleftrightarrow> loading_inv l' \<and> methods l' = methods l \<union> new \<and>
     cfg_service (l_config l') = cfg_service (l_config l)"

lemma http_step_refl: "loading_inv l \<Longrightarrow> http_step {} l l"
  by (simp add: http_step_def)

lemma http_step_trans: "http_step A l l1 \<Longrightarrow> http_step B l1 l2 \<Longrightarrow> http_step (A \<union> B) l l2"
  by (auto simp: http_step_def)

lemma http_step_log: "http_step A l l' \<Longrightarrow> http_step A l (add_log e l')"
  by (auto simp: http_step_def intro: loading_inv_mono)

lemma http_step_register:
  assumes "loading_inv l" "sel \<in> methods l" "Register hm t body sel (l_pmb l) = (st, pmb)"
  shows "http_step {} l (l\<lparr>l_pmb := pmb\<rparr>)"
  using loading_inv_register [OF assms(1), of sel "l\<lparr>l_pmb := pmb\<rparr>"] assms by (simp add: http_step_def)

lemma http_step_create:
  assumes "loading_inv l" "GetOrCreateMethodInfoImpl name an av (l_config l) = (sel, c)"
  shows "http_step {sel} l (l\<lparr>l_config := c\<rparr>)"
  using GetOrCreate_methods [OF assms(2)] loading_inv_mono [OF assms(1), of "l\<lparr>l_config := c\<rparr>"]
  by (auto simp: http_step_def)

lemma http_step_update:
  "loading_inv l \<Longrightarrow> http_step {} l (l\<lparr>l_config := update_method sel f (l_config l)\<rparr>)"
  using loading_inv_mono [of l "l\<lparr>l_config := update_method sel f (l_config l)\<rparr>"] by (simp add: http_step_def)

lemma RegisterHttpRule_step:
  assumes "loading_inv l" "mi \<in> methods l" "RegisterHttpRule mi rule (urls, l) = (b, urls', l')"
  shows "http_step {} l l'"
proof -
  note reg = http_step_register [OF assms(1,2)]
  show ?thesis
  proof (cases "pattern_method (hb_pattern rule)")
    case None
    then show ?thesis using assms by (auto simp: RegisterHttpRule_def intro: http_step_log http_step_refl)
  next
    case (Some mu)
    obtain hm url where mu: "mu = (hm, url)" by (cases mu)
    obtain st pmb where r: "Register hm url (hb_body rule) mi (l_pmb l) = (st, pmb)" by fastforce
    then show ?thesis
      using assms Some mu reg [OF r]
      by (auto simp: RegisterHttpRule_def Let_def intro: http_step_log http_step_refl split: if_splits)
  qed
qed

lemma load_additional_step:
  assumes "loading_inv (snd ul)" "mi \<in> methods (snd ul)"
  shows "http_step {} (snd ul) (snd (load_additional dbg mi rule ul))"
proof -
  obtain b urls' l' where r: "RegisterHttpRule mi rule (fst ul, snd ul) = (b, urls', l')"
    by (metis prod.exhaust)
  then show ?thesis
    using RegisterHttpRule_step [OF assms r]
    by (auto simp: load_additional_def Let_def intro: http_step_log)
qed

lemma fold_additional_step:
  "loading_inv (snd ul) \<Longrightarrow> mi \<in> methods (snd ul) \<Longrightarrow>
     http_step {} (snd ul) (snd (fold (load_additional dbg mi) rs ul))"
proof (induction rs arbitrary: ul)
  case Nil
  then show ?case by (simp add: http_step_refl)
next
  case (Cons r rs)
  have 1: "http_step {} (snd ul) (snd (load_additional dbg mi r ul))" using load_additional_step Cons.prems by blast
  then have "http_step {} (snd (load_additional dbg mi r ul)) (snd (fold (load_additional dbg mi) (r # rs) ul))"
    using Cons.IH [of "load_additional dbg mi r ul"] Cons.prems by (auto simp: http_step_def)
  then show ?case using http_step_trans [OF 1] by simp
qed

lemma load_http_rule_step:
  assumes "loading_inv (snd ul)"
  shows "http_step {hr_selector rule} (snd ul) (snd (load_http_rule dbg rule ul))"
proof -
  obtain urls l where ul: "ul = (urls, l)" by (cases ul)
  obtain mi c where g: "GetOrCreateMethodInfoImpl (hr_selector rule) [] [] (l_config l) = (mi, c)" by fastforce
  have mi: "mi = hr_selector rule" using GetOrCreate_methods [OF g] by (simp add: method_selector_def)
  let ?l = "l\<lparr>l_config := c\<rparr>"
  have 1: "http_step {hr_selector rule} l ?l" using http_step_create [of l, OF _ g] assms ul mi by simp
  then have m: "loading_inv ?l" "mi \<in> methods ?l" by (auto simp: http_step_def mi)
  obtain b urls' l' where r: "RegisterHttpRule mi (hr_binding rule) (urls, ?l) = (b, urls', l')" by (metis prod.exhaust)
  have 2: "http_step {hr_selector rule} l l'"
    using http_step_trans [OF 1 RegisterHttpRule_step [OF m r]] by simp
  have "loading_inv l'" "mi \<in> methods l'" using 2 by (auto simp: http_step_def mi)
  then have "http_step {} l' (snd (fold (load_additional dbg mi) (hr_additional_bindings rule) (urls', l')))"
    using fold_additional_step [of "(urls', l')" mi] by simp
  then have "http_step {hr_selector rule} l (snd (fold (load_additional dbg mi) (hr_additional_bindings rule) (urls', l')))"
    using http_step_trans [OF 2] by simp
  then show ?thesis
    using 2 by (simp add: load_http_rule_def ul g r Let_def http_step_log)
qed

lemma fold_http_rule_step:
  "loading_inv (snd ul) \<Longrightarrow> http_step (hr_selector ` set rs) (snd ul) (snd (fold (load_http_rule dbg) rs ul))"
proof (induction rs arbitrary: ul)
  case Nil
  then show ?case by (simp add: http_step_refl)
next
  case (Cons r rs)
  have 1: "http_step {hr_selector r} (snd ul) (snd (load_http_rule dbg r ul))" using load_http_rule_step Cons.prems by blast
  then have "http_step (hr_selector ` set rs) (snd (load_http_rule dbg r ul)) (snd (fold (load_http_rule dbg) (r # rs) ul))"
    using Cons.IH [of "load_http_rule dbg r ul"] by (auto simp: http_step_def)
  then show ?case using http_step_trans [OF 1] by simp
qed

lemma fold_options_step:
  "loading_inv l \<Longrightarrow> mi \<in> methods l \<Longrightarrow> http_step {} l (fold (register_options mi) us l)"
proof (induction us arbitrary: l)
  case Nil
  then show ?case by (simp add: http_step_refl)
next
  case (Cons u us)
  obtain st pmb where r: "Register ''OPTIONS'' u [] mi (l_pmb l) = (st, pmb)" by fastforce
  have 1: "http_step {} l (register_options mi u l)"
    using http_step_register [OF Cons.prems r] by (auto simp: register_options_def r Let_def intro: http_step_log)
  then have "http_step {} (register_options mi u l) (fold (register_options mi) (u # us) l)"
    using Cons.IH [of "register_options mi u l"] Cons.prems by (auto simp: http_step_def)
  then show ?case using http_step_trans [OF 1] by simp
qed

lemma AddOptions_step:
  assumes "loading_inv l"
  shows "http_step {cors_selector (method_map (l_config l))} l (AddOptionsMethodForAllUrls urls l)"
proof -
  obtain mi c where g: "GetOrCreateMethodInfoImpl (cors_selector (method_map (l_config l))) [] [] (l_config l) = (mi, c)"
    by fastforce
  have mi: "mi = cors_selector (method_map (l_config l))"
    using GetOrCreate_methods [OF g] by (simp add: method_selector_def)
  let ?l = "l\<lparr>l_config := update_method mi (\<lambda>m. m\<lparr>auth := False, allow_unregistered_calls := True\<rparr>) c\<rparr>"
  have 1: "http_step {mi} l (l\<lparr>l_config := c\<rparr>)" using http_step_create [OF assms g] .
  then have 2: "http_step {mi} l ?l"
    using http_step_trans [OF 1 http_step_update [of "l\<lparr>l_config := c\<rparr>"]] by (simp add: http_step_def)
  then have "loading_inv ?l" "mi \<in> methods ?l" by (auto simp: http_step_def)
  from http_step_trans [OF 2 fold_options_step [OF this]] show ?thesis
    by (simp add: AddOptionsMethodForAllUrls_def g Let_def mi)
qed

section \<open>The selector of the CORS methods\<close>

definition cors_name :: "nat \<Rightarrow> string" where
  "cors_name n = (if n = 0 then ''CORS'' else ''CORS.'' @ show_nat n)"

lemma inj_cors_name: "inj cors_name"
proof (rule injI)
  fix m n assume e: "cors_name m = cors_name n"
  show "m = n"
  proof (cases "m = 0 \<or> n = 0")
    case True
    then show ?thesis using e show_nat_digits [of m] show_nat_digits [of n]
      by (auto simp: cors_name_def split: if_splits)
  next
    case False
    then have "show_nat m = show_nat n" using e by (simp add: cors_name_def)
    then show ?thesis using show_nat_digits [of m] show_nat_digits [of n] by (metis of_nat_eq_iff)
  qed
qed

lemma cors_name_free: "finite M \<Longrightarrow> \<exists>n \<le> card M. cors_name n \<notin> M"
proof (rule ccontr)
  assume M: "finite M" and "\<not> (\<exists>n \<le> card M. cors_name n \<notin> M)"
  then have "cors_name ` {0..card M} \<subseteq> M" by auto
  then have "card (cors_name ` {0..card M}) \<le> card M" using M by (rule card_mono [rotated])
  then show False using card_image [OF inj_on_subset [OF inj_cors_name, of "{0..card M}"]] by simp
qed

lemma cors_selector_from_least:
  assumes "n \<le> m" "m \<le> n + fuel" "cors_name m \<notin> dom (map_of ms)" "\<forall>i. n \<le> i \<and> i < m \<longrightarrow> cors_name i \<in> dom (map_of ms)"
  shows "cors_selector_from fuel n (cors_name n) ms = cors_name m"
  using assms
proof (induction fuel arbitrary: n)
  case (Suc fuel)
  show ?case
  proof (cases "n = m")
    case True
    then show ?thesis using Suc.prems(3) by (auto simp: dom_def)
  next
    case False
    then have "cors_name n \<in> dom (map_of ms)" using Suc.prems by auto
    then have "cors_selector_from (Suc fuel) n (cors_name n) ms = cors_selector_from fuel (n + 1) (cors_name (n + 1)) ms"
      by (auto simp: cors_name_def)
    also have "\<dots> = cors_name m" using Suc.prems False by (intro Suc.IH) auto
    finally show ?thesis .
  qed
qed simp

lemma cors_selector_least:
  "cors_selector ms = cors_name (LEAST n. cors_name n \<notin> dom (map_of ms))"
proof -
  define M where "M = dom (map_of ms)"
  define m where "m = (LEAST n. cors_name n \<notin> M)"
  have "finite M" by (simp add: M_def finite_dom_map_of)
  then obtain n where n: "n \<le> card M" "cors_name n \<notin> M" using cors_name_free [of M] by blast
  have "card M \<le> length ms"
    using card_image_le [of "set ms" fst] card_length [of ms] by (simp add: M_def dom_map_of_conv_image_fst)
  then have "m \<le> length ms + 1" using Least_le [of "\<lambda>n. cors_name n \<notin> M", OF n(2)] n(1) by (simp add: m_def)
  moreover have "\<forall>i < m. cors_name i \<in> M"
  proof (intro allI impI)
    show "cors_name i \<in> M" if "i < m" for i using not_less_Least [OF that [unfolded m_def]] by simp
  qed
  moreover have "cors_name m \<notin> M" unfolding m_def using n(2) by (rule LeastI)
  ultimately have "cors_selector_from (length ms + 1) 0 (cors_name 0) ms = cors_name m"
    by (intro cors_selector_from_least) (simp_all add: M_def)
  then show ?thesis by (simp add: cors_selector_def cors_name_def m_def M_def)
qed

section \<open>The whole loading\<close>

definition cors_allowed :: "service \<Rightarrow> bool" where
  "cors_allowed s \<longleftrightarrow> list_ex (\<lambda>(name, allow_cors). name = s_name s \<and> allow_cors) (s_endpoints s)"

text \<open>The methods the service defines, and the ones the configuration owns.\<close>

definition service_selectors :: "service \<Rightarrow> string set" where
  "service_selectors s = rpc_selectors s \<union> hr_selector ` set (s_http_rules s)"

definition config_selectors :: "service \<Rightarrow> string set" where
  "config_selectors s = service_selectors s \<union>
     (if cors_allowed s then {cors_name (LEAST n. cors_name n \<notin> service_selectors s)} else {})"

lemma LoadHttpMethods_step:
  assumes "loading_inv l"
  shows "http_step (hr_selector ` set (s_http_rules (cfg_service (l_config l))) \<union>
    (if cors_allowed (cfg_service (l_config l)) then
      {cors_name (LEAST n. cors_name n \<notin> methods l \<union> hr_selector ` set (s_http_rules (cfg_service (l_config l))))}
     else {})) l (LoadHttpMethods dbg l)"
proof -
  define s where "s = cfg_service (l_config l)"
  obtain urls l' where f: "fold (load_http_rule dbg) (s_http_rules s) ({}, l) = (urls, l')" by fastforce
  have 1: "http_step (hr_selector ` set (s_http_rules s)) l l'"
    using fold_http_rule_step [of "({}, l)" "s_http_rules s" dbg] assms f by simp
  then have m: "methods l' = methods l \<union> hr_selector ` set (s_http_rules s)" by (simp add: http_step_def)
  define l2 where "l2 = add_log (LogInfo ''CORS is allowed.'') l'"
  have 2: "http_step (hr_selector ` set (s_http_rules s)) l l2" using http_step_log [OF 1] by (simp add: l2_def)
  then have "http_step {cors_selector (method_map (l_config l2))} l2 (AddOptionsMethodForAllUrls urls l2)"
    by (intro AddOptions_step) (simp add: http_step_def)
  from http_step_trans [OF 2 this] 1 m show ?thesis
    by (simp add: LoadHttpMethods_def f cors_allowed_def cors_selector_least l2_def flip: s_def)
qed

lemma load_all_methods:
  assumes "load_all dbg s logs = (b, l)"
  shows "methods l = config_selectors s \<and> (b \<longleftrightarrow> (\<forall>r \<in> set (s_metric_rules s). mr_selector r \<in> config_selectors s)) \<and>
    cfg_service (l_config l) = s \<and> (\<exists>rs. cfg_path_matcher (l_config l) = Some (register_all rs PathMatcherBuilder) \<and>
      (\<forall>(hm, t, body, sel) \<in> set rs. sel \<in> methods l))"
proof -
  define l0 where "l0 = \<lparr>l_config = new_Config s, l_pmb = PathMatcherBuilder, l_log = logs\<rparr>"
  have 0: "loading_inv l0" "methods l0 = {}" "cfg_service (l_config l0) = s"
    by (auto simp: l0_def loading_inv_def new_Config_def intro: exI [of _ "[]"])
  define l1 where "l1 = LoadRpcMethods l0"
  have 1: "loading_inv l1" "methods l1 = rpc_selectors s" "cfg_service (l_config l1) = s"
    using LoadRpcMethods_inv [OF 0(1)] 0 by (simp_all add: l1_def)
  define l2 where "l2 = LoadHttpMethods dbg l1"
  have 2: "loading_inv l2" "methods l2 = config_selectors s" "cfg_service (l_config l2) = s"
    using LoadHttpMethods_step [OF 1(1), of dbg] 1
    by (simp_all add: l2_def http_step_def config_selectors_def service_selectors_def Un_assoc split: if_splits)
  define l3 where "l3 = l2\<lparr>l_config := (l_config l2)\<lparr>cfg_path_matcher := Some (l_pmb l2)\<rparr>\<rparr>"
  define l4 where "l4 = LoadBackends (LoadSystemParameters (LoadUsage (LoadAuthentication l3)))"
  have 4: "methods l4 = config_selectors s" "cfg_service (l_config l4) = s"
      "cfg_path_matcher (l_config l4) = Some (l_pmb l2)"
    using 2 by (simp_all add: l4_def load_keeps l3_def)
  have "load_metric_rules (s_metric_rules s) l4 = (b, l)"
    using assms 4(2) by (simp add: load_all_def LoadQuotaRule_def Let_def l0_def l1_def l2_def l3_def l4_def)
  from load_metric_rules_keeps [OF this] 4 2(1,2) show ?thesis by (auto simp: loading_inv_def)
qed

lemma Create_config:
  assumes "Create parse print dbg sc = (Some c, logs)"
  obtains s l where "parse sc = Some s" "load_all dbg s [LogDebug (print s)] = (True, l)" "c = LoadTypes (l_config l)"
  using assms by (auto simp: Create_def LoadService_def split: prod.splits option.splits if_splits bool.splits)

text \<open>
  C13: a created configuration is closed: \<^verbatim>\<open>GetMethodInfo\<close> finds a method exactly when the
  path matcher finds one, since every method the matcher returns is owned by the method
  map, and \<^verbatim>\<open>GetMethodCallInfo\<close> agrees with it and never reads past the request's parts.
\<close>

theorem created_config_closed:
  assumes "Create parse print dbg sc = (Some c, logs)" and "length url < 2 ^ 64"
  shows "\<exists>pm. cfg_path_matcher c = Some pm \<and>
    (GetMethodInfo hm url c \<noteq> None \<longleftrightarrow> Lookup pm hm url \<noteq> None) \<and>
    (case GetMethodCallInfo hm url query c of
       Inl _ \<Rightarrow> False
     | Inr None \<Rightarrow> GetMethodInfo hm url c = None
     | Inr (Some r) \<Rightarrow> GetMethodInfo hm url c = map_of (method_map c) (mr_method r) \<and>
         mr_method r \<in> dom (map_of (method_map c)))"
proof -
  obtain s l where l: "load_all dbg s [LogDebug (print s)] = (True, l)" "c = LoadTypes (l_config l)"
    using assms(1) by (rule Create_config)
  obtain rs where rs: "cfg_path_matcher c = Some (register_all rs PathMatcherBuilder)"
      "\<forall>(hm, t, body, sel) \<in> set rs. sel \<in> dom (map_of (method_map c))"
    using load_all_methods [OF l(1)] l(2) by auto
  define pm where "pm = register_all rs PathMatcherBuilder"
  define parts where "parts = ExtractRequestParts url (pm_custom_verbs pm)"
  have own: "md_method md \<in> dom (map_of (method_map c))"
    if found: "lr_data (LookupInPathMatcherNode (pm_root pm) parts hm) = Some md" for md
  proof -
    obtain m t body where "(m, t, body, md_method md) \<in> set rs"
      using found [unfolded pm_def] by (rule found_registration)
    then show ?thesis using rs(2) by blast
  qed
  have bound: "ExtractBindingsFromPath (md_variables md) parts k \<noteq> None"
    if "lr_data (LookupInPathMatcherNode (pm_root pm) parts hm) = Some md" for md k
    using that unfolding parts_def pm_def by (rule found_bindings [OF assms(2)])
  have pm: "cfg_path_matcher c = Some pm" using rs(1) by (simp add: pm_def)
  show ?thesis
  proof (cases "lr_data (LookupInPathMatcherNode (pm_root pm) parts hm)")
    case None
    then show ?thesis
      by (simp add: GetMethodInfo_def GetMethodCallInfo_def pm Lookup_def Lookup_bindings_def Let_def flip: parts_def)
  next
    case (Some md)
    obtain m where m: "map_of (method_map c) (md_method md) = Some m" using own [OF Some] by blast
    obtain bs where bs: "ExtractBindingsFromPath (md_variables md) parts (keep_binding_escaped m) = Some bs"
      using bound [OF Some] by blast
    show ?thesis
      using Some m bs
      by (simp add: GetMethodInfo_def GetMethodCallInfo_def pm Lookup_def Lookup_bindings_def Let_def domI flip: parts_def)
  qed
qed

definition example_service :: service where
  "example_service = \<lparr>s_name = ''svc'', s_apis = [],
     s_http_rules = [\<lparr>hr_selector = ''M'', hr_binding = \<lparr>hb_pattern = PGet ''/a/{x}'', hb_body = ''''\<rparr>, hr_additional_bindings = []\<rparr>],
     s_endpoints = [], s_providers = [], s_auth_rules = [], s_usage_rules = [], s_system_parameters = [],
     s_backend_rules = [], s_metric_rules = [], s_types = []\<rparr>"

theorem created_config_closed_witness:
  "case Create (\<lambda>_. Some example_service) (\<lambda>_. ''svc'') (\<lambda>_. ''rule'') ''{}'' of
     (None, _) \<Rightarrow> False
   | (Some c, _) \<Rightarrow> GetMethodInfo ''GET'' ''/a/b'' c \<noteq> None \<and> GetMethodInfo ''GET'' ''/b'' c = None \<and>
       (\<exists>pm. cfg_path_matcher c = Some pm \<and> Lookup pm ''GET'' ''/a/b'' \<noteq> None \<and> Lookup pm ''GET'' ''/b'' = None)"
proof -
  obtain r logs where r: "Create (\<lambda>_. Some example_service) (\<lambda>_. ''svc'') (\<lambda>_. ''rule'') ''{}'' = (r, logs)" by fastforce
  have "case Create (\<lambda>_. Some example_service) (\<lambda>_. ''svc'') (\<lambda>_. ''rule'') ''{}'' of
      (None, _) \<Rightarrow> False
    | (Some c, _) \<Rightarrow> GetMethodInfo ''GET'' ''/a/b'' c \<noteq> None \<and> GetMethodInfo ''GET'' ''/b'' c = None" by code_simp
  then obtain c where c: "r = Some c" "GetMethodInfo ''GET'' ''/a/b'' c \<noteq> None" "GetMethodInfo ''GET'' ''/b'' c = None"
    by (auto simp: r split: option.splits)
  have "length ''/a/b'' < (2::nat) ^ 64" "length ''/b'' < (2::nat) ^ 64" by simp_all
  then show ?thesis
    using created_config_closed [OF r [unfolded c(1)], of "''/a/b''" "''GET''" "[]"]
      created_config_closed [OF r [unfolded c(1)], of "''/b''" "''GET''" "[]"] c by (auto simp: r)
qed

text \<open>
  C23: \<^verbatim>\<open>Config::Create\<close> fails exactly on an empty text, a text that does not parse, a service
  without a name and a metric rule whose selector is no method of the service; otherwise the
  methods of the configuration are those of the APIs, those of the HTTP rules and, when CORS
  is allowed, one more whose selector is the first free name of the CORS sequence.
\<close>

theorem Create_succeeds_iff:
  "case fst (Create parse print dbg sc) of
     None \<Rightarrow> sc = [] \<or> (case parse sc of
        None \<Rightarrow> True
      | Some s \<Rightarrow> s_name s = [] \<or> \<not> mr_selector ` set (s_metric_rules s) \<subseteq> config_selectors s)
   | Some c \<Rightarrow> sc \<noteq> [] \<and> (case parse sc of
        None \<Rightarrow> False
      | Some s \<Rightarrow> s_name s \<noteq> [] \<and> mr_selector ` set (s_metric_rules s) \<subseteq> config_selectors s \<and>
          dom (map_of (method_map c)) = config_selectors s)"
proof (cases "parse sc")
  case None
  then show ?thesis by (simp add: Create_def LoadService_def)
next
  case (Some s)
  obtain b l where l: "load_all dbg s [LogDebug (print s)] = (b, l)" by fastforce
  show ?thesis
    using load_all_methods [OF l] l Some by (cases b) (auto simp: Create_def LoadService_def)
qed

theorem Create_succeeds_iff_witness:
  "case fst (Create (\<lambda>_. Some example_service) (\<lambda>_. ''svc'') (\<lambda>_. ''rule'') ''{}'') of
     None \<Rightarrow> False
   | Some c \<Rightarrow> dom (map_of (method_map c)) = {''M''}"
proof -
  have "config_selectors example_service = {''M''}"
    by (simp add: config_selectors_def service_selectors_def rpc_selectors_def cors_allowed_def example_service_def)
  then show ?thesis
    using Create_succeeds_iff [where parse = "\<lambda>_. Some example_service" and print = "\<lambda>_. ''svc''"
        and dbg = "\<lambda>_. ''rule''" and sc = "''{}''"]
    by (simp add: example_service_def split: option.splits)
qed

lemma has_prefix_append: "has_prefix s p \<Longrightarrow> s = p @ drop (length p) s"
  unfolding has_prefix_def by (metis append_take_drop_id)

lemma url_content_scheme:
  assumes "scheme = kHttpPrefix \<or> scheme = kHttpsPrefix"
  shows "url_content (scheme @ r) = (if r \<noteq> [] \<and> last r = CHR ''/'' then butlast r else r)"
proof -
  have "\<not> has_prefix (kHttpPrefix @ r) kHttpsPrefix" "has_prefix (scheme @ r) scheme"
    by (simp_all add: has_prefix_def kHttpPrefix_def kHttpsPrefix_def)
  then show ?thesis using assms by (elim disjE) (simp_all add: url_content_def GetUrlContent_def Let_def)
qed

lemma discovery_url:
  assumes "url_content iss \<noteq> []"
  defines "url \<equiv> (if \<not> has_prefix iss kHttpsPrefix \<and> \<not> has_prefix iss kHttpPrefix then kHttpsPrefix @ iss else iss)"
  defines "url' \<equiv> (if last url \<noteq> CHR ''/'' then url @ ''/'' else url) @ openid_config_path"
  shows "IsHttpRequest url' \<and> url_content url' = url_content iss @ ''/'' @ openid_config_path"
proof -
  obtain scheme r where url: "url = scheme @ r" "scheme = kHttpPrefix \<or> scheme = kHttpsPrefix" "url_content iss = url_content url"
  proof -
    consider "has_prefix iss kHttpsPrefix" | "has_prefix iss kHttpPrefix"
      | "\<not> has_prefix iss kHttpsPrefix \<and> \<not> has_prefix iss kHttpPrefix" by blast
    then show thesis
    proof cases
      case 1
      then show ?thesis
        using that [of kHttpsPrefix "drop (length kHttpsPrefix) iss"] has_prefix_append by (simp add: url_def)
    next
      case 2
      then show ?thesis
        using that [of kHttpPrefix "drop (length kHttpPrefix) iss"] has_prefix_append by (simp add: url_def)
    next
      case 3
      then have "url_content iss = (if iss \<noteq> [] \<and> last iss = CHR ''/'' then butlast iss else iss)"
        by (simp add: url_content_def GetUrlContent_def Let_def)
      then show ?thesis
        using 3 that [of kHttpsPrefix iss] url_content_scheme [of kHttpsPrefix iss] by (simp add: url_def)
    qed
  qed
  have r: "r \<noteq> []" using assms(1) url by (auto simp: url_content_scheme)
  have p: "openid_config_path \<noteq> []" "last openid_config_path \<noteq> CHR ''/''" by (simp_all add: openid_config_path_def)
  have "\<exists>t. url' = scheme @ t @ openid_config_path \<and> t = url_content iss @ ''/''"
  proof (cases "last r = CHR ''/''")
    case True
    then have "r = butlast r @ ''/''" using r by (metis append_butlast_last_id)
    then show ?thesis using True r url by (simp add: url'_def url_content_scheme)
  next
    case False
    then show ?thesis using r url by (simp add: url'_def url_content_scheme)
  qed
  then obtain t where t: "url' = scheme @ t @ openid_config_path" "t = url_content iss @ ''/''" by blast
  have "url_content url' = t @ openid_config_path" using t url(2) p by (simp add: url_content_scheme)
  moreover have "IsHttpRequest url'"
    using t url(2) by (auto simp: IsHttpRequest_def has_prefix_def)
  ultimately show ?thesis using t by simp
qed

text \<open>
  after \<^verbatim>\<open>SetJwksUri\<close> the key location of an issuer is found under every spelling of it
  (with or without a scheme, with or without a trailing slash): a given URI as it is, without
  one the OpenID discovery document of the issuer as it was asked for, and other issuers keep
  theirs.
\<close>

theorem GetJwksUri_SetJwksUri:
  assumes "url_content issuer \<noteq> []" and "url_content other \<noteq> url_content issuer"
    and "url_content iss = url_content issuer"
  shows "GetJwksUri other (SetJwksUri issuer uri valid c) = GetJwksUri other c \<and>
    (uri \<noteq> [] \<longrightarrow> GetJwksUri iss (SetJwksUri issuer uri valid c) = (False, uri)) \<and>
    (uri = [] \<and> \<not> valid \<longrightarrow> GetJwksUri iss (SetJwksUri issuer uri valid c) = (False, [])) \<and>
    (uri = [] \<and> valid \<longrightarrow> (\<exists>url. GetJwksUri iss (SetJwksUri issuer uri valid c) = (True, url) \<and>
       IsHttpRequest url \<and> url_content url = url_content issuer @ ''/'' @ openid_config_path))"
proof -
  define c' where "c' = SetJwksUri issuer uri valid c"
  have iss: "map_of (issuer_jwks_uri_map c') (url_content iss) = Some (uri, valid)"
    and other: "map_of (issuer_jwks_uri_map c') (url_content other) = map_of (issuer_jwks_uri_map c) (url_content other)"
    using assms by (simp_all add: c'_def SetJwksUri_def Let_def update_conv')
  have "url_content iss \<noteq> []" using assms by simp
  note url = discovery_url [OF this]
  define u where "u = (if \<not> has_prefix iss kHttpsPrefix \<and> \<not> has_prefix iss kHttpPrefix then kHttpsPrefix @ iss else iss)"
  define v where "v = (if last u \<noteq> CHR ''/'' then u @ ''/'' else u) @ openid_config_path"
  have v: "IsHttpRequest v \<and> url_content v = url_content issuer @ ''/'' @ openid_config_path"
    using url unfolding u_def [symmetric] v_def [symmetric] assms(3) .
  have get: "GetJwksUri iss c' = (if uri \<noteq> [] then (False, uri) else if valid then (True, v) else (False, []))"
    unfolding GetJwksUri_def iss option.case prod.case Let_def u_def [symmetric] v_def [symmetric] ..
  have "GetJwksUri other c' = GetJwksUri other c" by (simp only: GetJwksUri_def other)
  then show ?thesis unfolding c'_def [symmetric] get using v by simp
qed

theorem GetJwksUri_SetJwksUri_witness:
  "\<exists>url. GetJwksUri ''http://iss'' (SetJwksUri ''https://iss/'' '''' True (new_Config example_service)) = (True, url) \<and>
     IsHttpRequest url \<and> url_content url = ''iss/.well-known/openid-configuration''"
proof -
  have u: "url_content ''https://iss/'' = ''iss''" "url_content ''other'' = ''other''" "url_content ''http://iss'' = ''iss''"
    by code_simp+
  from GetJwksUri_SetJwksUri [of "''https://iss/''" "''other''" "''http://iss''" "''''" True "new_Config example_service"] u
  show ?thesis by (simp add: openid_config_path_def)
qed

end
