(* ===== verification/Weighted_Selector.thy ===== *)
theory Weighted_Selector
  imports Esp_Prelude Complex_Main
begin

text \<open>
  The weighted round robin of \<^verbatim>\<open>src/api_manager/weighted_selector.cc\<close>, which spreads requests
  over the rollouts of a service.  A score is a quotient of two single-precision floats:
  \<open>fl\<close> is the rounding of a number to a float, an argument of the definitions, and the
  lemmas rely only on its being monotone.  Counts are 64-bit words.
\<close>

record weighted_selector =
  ws_list :: "(string \<times> int) list"
  ws_counts :: "nat list"

definition WeightedSelector :: "(string \<times> int) list \<Rightarrow> weighted_selector" where
  "WeightedSelector l = \<lparr>ws_list = l, ws_counts = replicate (length l) 0\<rparr>"

text \<open>\<^verbatim>\<open>float(counts_[index]) / list_[index].second\<close>: both operands and the quotient are rounded.\<close>

definition score_of :: "(rat \<Rightarrow> rat) \<Rightarrow> nat \<Rightarrow> int \<Rightarrow> rat" where
  "score_of fl n w = fl (fl (of_nat n) / fl (of_int w))"

definition score :: "(rat \<Rightarrow> rat) \<Rightarrow> weighted_selector \<Rightarrow> nat \<Rightarrow> rat" where
  "score fl s index = score_of fl (ws_counts s ! index) (snd (ws_list s ! index))"

text \<open>The loop over \<open>i\<close>, from the smallest score so far and its index.\<close>

fun min_loop :: "(nat \<Rightarrow> rat) \<Rightarrow> nat list \<Rightarrow> rat \<Rightarrow> nat \<Rightarrow> nat" where
  "min_loop sc [] min_score min_idx = min_idx"
| "min_loop sc (i # is) min_score min_idx =
     (if sc i < min_score then min_loop sc is (sc i) i else min_loop sc is min_score min_idx)"

definition Select :: "(rat \<Rightarrow> rat) \<Rightarrow> weighted_selector \<Rightarrow> string \<times> weighted_selector" where
  "Select fl s =
     (if length (ws_list s) = 0 then ([], s)
      else if length (ws_list s) = 1 then (fst (ws_list s ! 0), s)
      else
        let min_idx = min_loop (score fl s) [1..<length (ws_list s)] (score fl s 0) 0
        in (fst (ws_list s ! min_idx),
            s\<lparr>ws_counts := (ws_counts s)[min_idx := (ws_counts s ! min_idx + 1) mod 2 ^ 64]\<rparr>))"

section \<open>Fairness\<close>

lemma min_loop_min:
  "min_score = sc min_idx \<Longrightarrow>
     min_loop sc is min_score min_idx \<in> insert min_idx (set is) \<and>
     (\<forall>j \<in> insert min_idx (set is). sc (min_loop sc is min_score min_idx) \<le> sc j)"
proof (induction sc "is" min_score min_idx rule: min_loop.induct)
  case (2 sc i "is" min_score min_idx)
  show ?case
  proof (cases "sc i < min_score")
    case True
    then have "sc (min_loop sc is (sc i) i) \<le> sc min_idx" using 2 by force
    then show ?thesis using 2 True by auto
  next
    case False
    then have "sc (min_loop sc is min_score min_idx) \<le> sc i" using 2 by force
    then show ?thesis using 2 False by auto
  qed
qed simp

text \<open>
  No entry is ahead of another by more than one selection: had an entry been selected once
  less, its score would not be above that of any other.
\<close>

definition fair :: "(rat \<Rightarrow> rat) \<Rightarrow> weighted_selector \<Rightarrow> bool" where
  "fair fl s \<longleftrightarrow> length (ws_counts s) = length (ws_list s) \<and>
     (\<forall>i < length (ws_list s). \<forall>j < length (ws_list s). 0 < ws_counts s ! i \<longrightarrow>
        score_of fl (ws_counts s ! i - 1) (snd (ws_list s ! i)) \<le> score fl s j)"

lemma score_of_mono:
  assumes "mono fl" "0 < fl (of_int w)" "m \<le> n"
  shows "score_of fl m w \<le> score_of fl n w"
proof -
  have "fl (of_nat m) \<le> fl (of_nat n)" using assms(1,3) by (simp add: monoD)
  then show ?thesis
    unfolding score_of_def using assms by (intro monoD [OF assms(1)] divide_right_mono) auto
qed

lemma Select_fair:
  assumes m: "mono fl" and w: "\<forall>e \<in> set (ws_list s). 0 < fl (of_int (snd e))"
    and f: "fair fl s" and b: "sum_list (ws_counts s) < 2 ^ 64 - 1"
  shows "fair fl (snd (Select fl s)) \<and> sum_list (ws_counts (snd (Select fl s))) \<le> sum_list (ws_counts s) + 1"
proof (cases "length (ws_list s) \<le> 1")
  case True
  then show ?thesis using f by (auto simp: Select_def le_Suc_eq)
next
  case False
  let ?n = "length (ws_list s)"
  define k where "k = min_loop (score fl s) [1..<?n] (score fl s 0) 0"
  have len: "length (ws_counts s) = ?n" using f by (simp add: fair_def)
  have "insert 0 (set [1..<?n]) = {..<?n}" using False by auto
  then have k: "k < ?n" "\<forall>j < ?n. score fl s k \<le> score fl s j"
    using min_loop_min [of "score fl s 0" "score fl s" 0 "[1..<?n]"] unfolding k_def by auto
  have "ws_counts s ! k \<le> sum_list (ws_counts s)" using k len by (simp add: elem_le_sum_list)
  then have c: "(ws_counts s ! k + 1) mod 2 ^ 64 = ws_counts s ! k + 1" using b by simp
  let ?s = "s\<lparr>ws_counts := (ws_counts s)[k := ws_counts s ! k + 1]\<rparr>"
  have sel: "snd (Select fl s) = ?s" using False c by (auto simp: Select_def Let_def k_def)
  have up: "score fl s j \<le> score fl ?s j" if "j < ?n" for j
  proof (cases "j = k")
    case True
    then show ?thesis using that w m len by (auto simp: score_def intro!: score_of_mono)
  qed (simp add: score_def)
  have "score_of fl (ws_counts ?s ! i - 1) (snd (ws_list s ! i)) \<le> score fl ?s j"
    if i: "i < ?n" "0 < ws_counts ?s ! i" and j: "j < ?n" for i j
  proof (cases "i = k")
    case True
    then have "score_of fl (ws_counts ?s ! i - 1) (snd (ws_list s ! i)) = score fl s k"
      using k(1) len by (simp add: score_def)
    then show ?thesis using order_trans [OF k(2) [rule_format, OF j] up [OF j]] by simp
  next
    case False
    then have "score_of fl (ws_counts ?s ! i - 1) (snd (ws_list s ! i)) \<le> score fl s j"
      using f i j by (simp add: fair_def)
    then show ?thesis using up [OF j] by (rule order_trans)
  qed
  then have "fair fl ?s" using len by (simp add: fair_def)
  moreover have "sum_list (ws_counts ?s) = sum_list (ws_counts s) + 1"
    using k len by (simp add: sum_list_update)
  ultimately show ?thesis using sel by simp
qed

fun select_many :: "(rat \<Rightarrow> rat) \<Rightarrow> nat \<Rightarrow> weighted_selector \<Rightarrow> weighted_selector" where
  "select_many fl 0 s = s"
| "select_many fl (Suc n) s = snd (Select fl (select_many fl n s))"

lemma Select_list: "ws_list (snd (Select fl s)) = ws_list s"
  by (simp add: Select_def Let_def)

lemma select_many_fair:
  assumes "mono fl" "\<forall>e \<in> set l. 0 < fl (of_int (snd e))" "n < 2 ^ 64"
  shows "fair fl (select_many fl n (WeightedSelector l)) \<and> ws_list (select_many fl n (WeightedSelector l)) = l \<and>
     sum_list (ws_counts (select_many fl n (WeightedSelector l))) \<le> n"
  using assms(3)
proof (induction n)
  case 0
  then show ?case by (simp add: fair_def WeightedSelector_def score_def)
next
  case (Suc n)
  then show ?case
    using Select_fair [OF assms(1), of "select_many fl n (WeightedSelector l)"] assms(2)
    by (auto simp: Select_list)
qed



end
