(* ===== verification/Rewrite_Rule.thy ===== *)
theory Rewrite_Rule
  imports Esp_Env
begin

text \<open>
  The rewrite rules of \<^verbatim>\<open>src/api_manager/rewrite_rule.cc\<close>: the check of a rule, the
  constructor, which compiles the pattern and splits the replacement, and \<^verbatim>\<open>Check\<close>, which
  matches a URI and builds the destination.  The PCRE library is the argument \<open>pcre\<close>, a
  record of its functions; the logger is the list of messages returned.  What the source
  leaves undefined or throws is a value of \<open>rewrite_error\<close>.
\<close>

record 're pcre_api =
  pcre_compile :: "string \<Rightarrow> string + 're"
  pcre_study :: "'re \<Rightarrow> string option"
  pcre_exec :: "'re \<Rightarrow> string \<Rightarrow> int \<times> int list"
  pcre_get_substring :: "string \<Rightarrow> int list \<Rightarrow> int \<Rightarrow> int \<Rightarrow> string"

datatype rewrite_error = UseAfterFree | OutOfRange

section \<open>Validation\<close>

text \<open>\<^verbatim>\<open>std::istream_iterator<std::string>\<close>: the words between white space.\<close>

function words :: "string \<Rightarrow> string list" where
  "words s =
     (let t = dropWhile is_space s
      in if t = [] then []
         else takeWhile (\<lambda>c. \<not> is_space c) t # words (dropWhile (\<lambda>c. \<not> is_space c) t))"
  by pat_completeness auto
termination
proof (relation "measure length", goal_cases)
  case (2 s t)
  then obtain x xs where t: "t = x # xs" "\<not> is_space x"
    by (cases t) (metis hd_dropWhile list.sel(1) list.distinct(1))+
  have "length (dropWhile (\<lambda>c. \<not> is_space c) xs) \<le> length xs" by (rule length_dropWhile_le)
  moreover have "length t \<le> length s" unfolding 2(1) by (rule length_dropWhile_le)
  ultimately show ?case using t by simp
qed simp

declare words.simps [simp del]

text \<open>\<^verbatim>\<open>strncmp(s, p, strlen(p)) == 0\<close>\<close>

definition starts_with :: "string \<Rightarrow> string \<Rightarrow> bool" where
  "starts_with s p \<longleftrightarrow> take (length p) (c_string s) = p"

text \<open>The result is the flag and what \<^verbatim>\<open>error_msg\<close> is assigned.\<close>

definition ValidateRewriteRule :: "'re pcre_api \<Rightarrow> string \<Rightarrow> bool \<times> string option" where
  "ValidateRewriteRule pcre rule =
     (let parts = words rule;
          invalid = (False, Some (''Invalid regular expression in the rewrite rule: '' @ [CHR 0x22] @ rule @ [CHR 0x22]))
      in if length parts \<noteq> 2
         then (False, Some (''Invalid rewrite rule format(pattern replacement): '' @ [CHR 0x22] @ rule @ [CHR 0x22]))
         else if starts_with (parts ! 1) ''http://'' \<or> starts_with (parts ! 1) ''https://''
         then (False, Some (''Replacement starts with either '' @ [CHR 0x22] @ ''http://'' @ [CHR 0x22] @ '' or '' @
                [CHR 0x22] @ ''https://'' @ [CHR 0x22] @ '': is not allowed: '' @ [CHR 0x22] @ rule @ [CHR 0x22]))
         else case pcre_compile pcre (c_string (parts ! 0)) of
                Inl _ \<Rightarrow> invalid
              | Inr re \<Rightarrow> (case pcre_study pcre re of Some _ \<Rightarrow> invalid | None \<Rightarrow> (True, None)))"

section \<open>The replacement\<close>

datatype ReplacementSegment = TEXT string | REPLACEMENT int

text \<open>\<^verbatim>\<open>std::stoi\<close> on digits throws when the value is not an \<^verbatim>\<open>int\<close>.\<close>

definition stoi :: "string \<Rightarrow> rewrite_error + int" where
  "stoi ds = (if digits_value ds < 2 ^ 31 then Inr (digits_value ds) else Inl OutOfRange)"

text \<open>
  The loop over the replacement: \<open>in_repl\<close> is the status REPLACEMENT, \<open>segment\<close> the characters
  collected.
\<close>

fun split_replacement :: "bool \<Rightarrow> string \<Rightarrow> string \<Rightarrow> rewrite_error + ReplacementSegment list" where
  "split_replacement in_repl segment [] =
     (if length segment > 0
      then if in_repl
           then (case stoi segment of Inl e \<Rightarrow> Inl e | Inr i \<Rightarrow> Inr [REPLACEMENT i])
           else Inr [TEXT segment]
      else Inr [])"
| "split_replacement False segment (c # cs) =
     (if c = CHR ''$''
      then (case split_replacement True [] cs of
              Inl e \<Rightarrow> Inl e
            | Inr ps \<Rightarrow> Inr (if length segment > 0 then TEXT segment # ps else ps))
      else split_replacement False (segment @ [c]) cs)"
| "split_replacement True segment (c # cs) =
     (if is_digit c then split_replacement True (segment @ [c]) cs
      else
        case (if length segment > 0
              then (case stoi segment of Inl e \<Rightarrow> Inl e | Inr i \<Rightarrow> Inr (REPLACEMENT i))
              else Inr (TEXT ''$'')) of
          Inl e \<Rightarrow> Inl e
        | Inr p \<Rightarrow>
            (case (if c = CHR ''$'' then split_replacement True [] cs else split_replacement False [c] cs) of
               Inl e \<Rightarrow> Inl e
             | Inr ps \<Rightarrow> Inr (p # ps)))"

text \<open>The pointer \<^verbatim>\<open>regex_compiled_\<close>: null, live, or freed and still set.\<close>

datatype 're compiled = Null | Live 're | Freed

record 're rewrite_rule =
  regex_pattern :: string
  regex_compiled :: "'re compiled"
  replacement :: string
  replacement_parts :: "ReplacementSegment list"

definition new_RewriteRule ::
    "'re pcre_api \<Rightarrow> string \<Rightarrow> string \<Rightarrow> rewrite_error + 're rewrite_rule \<times> env_effect list" where
  "new_RewriteRule pcre regex repl =
     (let r = \<lparr>regex_pattern = regex, regex_compiled = Null, replacement = repl, replacement_parts = []\<rparr>;
          log = (\<lambda>err. LogError (''Invalid rewrite rule: '' @ [CHR 0x22] @ regex @ [CHR 0x22] @ '', error: '' @ err))
      in case pcre_compile pcre (c_string regex) of
           Inl err \<Rightarrow> Inr (r, [log err])
         | Inr re \<Rightarrow>
             (case pcre_study pcre re of
                Some err \<Rightarrow> Inr (r\<lparr>regex_compiled := Freed\<rparr>, [log err])
              | None \<Rightarrow>
                  (case split_replacement False [] repl of
                     Inl e \<Rightarrow> Inl e
                   | Inr ps \<Rightarrow> Inr (r\<lparr>regex_compiled := Live re, replacement_parts := ps\<rparr>, []))))"

section \<open>Matching a request\<close>

definition kEspRewriteTitle :: string where "kEspRewriteTitle = ''esp_rewrite''"
definition kMaxRegexMathCount :: int where "kMaxRegexMathCount = 100"

text \<open>The error codes of \<^verbatim>\<open>pcre.h\<close> the source names.\<close>

definition pcre_errors :: "(int \<times> string) list" where
  "pcre_errors =
     [(-1, ''String did not match the pattern''), (-2, ''Something was null''),
      (-3, ''A bad option was passed''), (-4, ''Magic number bad (compiled re corrupt?)''),
      (-5, ''Something kooky in the compiled re''), (-6, ''Ran out of memory'')]"

definition expand_part :: "'re pcre_api \<Rightarrow> string \<Rightarrow> int list \<Rightarrow> int \<Rightarrow> ReplacementSegment \<Rightarrow> string" where
  "expand_part pcre uri vec n p =
     (case p of
        TEXT t \<Rightarrow> t
      | REPLACEMENT i \<Rightarrow>
          if i \<ge> 0 \<and> i < n then c_string (pcre_get_substring pcre uri vec n i) else [])"

definition newline :: string where "newline = [CHR 0x0A]"

definition Check_text :: "'re pcre_api \<Rightarrow> 're rewrite_rule \<Rightarrow> string \<Rightarrow> int list \<Rightarrow> int \<Rightarrow> int \<Rightarrow> string" where
  "Check_text pcre r uri vec ret n =
     kEspRewriteTitle @ '': matching rule: '' @ regex_pattern r @ '' '' @ replacement r @ newline @
     (if ret = 0 then kEspRewriteTitle @ '': too many substrings were found to fit in sub_str_vec!'' @ newline else []) @
     kEspRewriteTitle @ '': regex='' @ regex_pattern r @ newline @
     kEspRewriteTitle @ '': request uri='' @ uri @ newline @
     concat (map (\<lambda>j. kEspRewriteTitle @ '': $'' @ show_int j @ '': '' @
                    c_string (pcre_get_substring pcre uri vec n j) @ newline) [0..n - 1]) @
     kEspRewriteTitle @ '': replacement: '' @ replacement r @ newline"

text \<open>The destination is \<open>Some\<close> where the source assigns it, that is when the result is true.\<close>

definition Check ::
    "'re pcre_api \<Rightarrow> 're rewrite_rule \<Rightarrow> string \<Rightarrow> bool \<Rightarrow>
     rewrite_error + string option \<times> env_effect list" where
  "Check pcre r uri debug_mode =
     (case regex_compiled r of
        Null \<Rightarrow> Inr (None, if debug_mode then [LogInfo ''Rewrite rule was not initialized''] else [])
      | Freed \<Rightarrow> Inl UseAfterFree
      | Live re \<Rightarrow>
          let (ret, vec) = pcre_exec pcre re uri
          in if ret < 0
             then Inr (None,
               if debug_mode
               then [LogInfo (kEspRewriteTitle @ '': matching rule: '' @ regex_pattern r @ '', request uri: '' @ uri @
                       '', error: '' @
                       (case map_of pcre_errors ret of Some msg \<Rightarrow> msg | None \<Rightarrow> ''Unknown error'') @ newline)]
               else [])
             else
               let n = (if ret = 0 then kMaxRegexMathCount div 3 else ret);
                   destination = concat (map (expand_part pcre uri vec n) (replacement_parts r))
               in Inr (Some destination,
                    if debug_mode
                    then [LogInfo (Check_text pcre r uri vec ret n @
                            kEspRewriteTitle @ '': destination uri: '' @ destination)]
                    else []))"

text \<open>\<^verbatim>\<open>~RewriteRule\<close> frees the compiled pattern: a second time when the study failed.\<close>

definition delete_RewriteRule :: "'re rewrite_rule \<Rightarrow> rewrite_error option" where
  "delete_RewriteRule r = (if regex_compiled r = Freed then Some UseAfterFree else None)"

section \<open>The destination\<close>

text \<open>
  A reference expansion of the replacement text: a dollar sign and the digits after it stand
  for the group with that number, a dollar sign without digits for itself, one at the very
  end of the text for nothing.
\<close>

function expand_spec :: "(int \<Rightarrow> string) \<Rightarrow> string \<Rightarrow> string" where
  "expand_spec grp [] = []"
| "expand_spec grp (c # cs) =
     (if c \<noteq> CHR ''$'' then c # expand_spec grp cs
      else if takeWhile is_digit cs \<noteq> []
           then grp (digits_value (takeWhile is_digit cs)) @ expand_spec grp (dropWhile is_digit cs)
      else if cs = [] then [] else CHR ''$'' # expand_spec grp cs)"
  by pat_completeness auto
termination
  by (relation "measure (\<lambda>(g, s). length s)") (auto simp: le_imp_less_Suc length_dropWhile_le)

definition expand_segment :: "(int \<Rightarrow> string) \<Rightarrow> ReplacementSegment \<Rightarrow> string" where
  "expand_segment grp p = (case p of TEXT t \<Rightarrow> t | REPLACEMENT i \<Rightarrow> grp i)"

lemma dollar_no_digit: "\<not> is_digit (CHR ''$'')"
  by (simp add: is_digit_def)

lemma expand_spec_digits:
  assumes "\<forall>d \<in> set ds. is_digit d" "ds \<noteq> []" "cs = [] \<or> \<not> is_digit (hd cs)"
  shows "expand_spec grp (CHR ''$'' # ds @ cs) = grp (digits_value ds) @ expand_spec grp cs"
proof -
  have "takeWhile is_digit (ds @ cs) = ds" "dropWhile is_digit (ds @ cs) = cs"
    using assms by (cases cs; simp add: takeWhile_append2 dropWhile_append2)+
  then show ?thesis using assms by simp
qed

lemma split_replacement_expands:
  "split_replacement in_repl seg s = Inr ps \<Longrightarrow> (in_repl \<longrightarrow> (\<forall>d \<in> set seg. is_digit d)) \<Longrightarrow>
   concat (map (expand_segment grp) ps) =
     (if in_repl then expand_spec grp (CHR ''$'' # seg @ s) else seg @ expand_spec grp s)"
proof (induction in_repl seg s arbitrary: ps rule: split_replacement.induct)
  case (1 in_repl seg)
  then show ?case
    using expand_spec_digits [of seg "[]" grp]
    by (auto simp: stoi_def expand_segment_def split: if_splits sum.splits)
next
  case (2 seg c cs)
  show ?case
  proof (cases "c = CHR ''$''")
    case True
    then obtain qs where "split_replacement True [] cs = Inr qs" "ps = (if length seg > 0 then TEXT seg # qs else qs)"
      using 2 by (auto split: sum.splits)
    then show ?thesis using "2.IH"(1) [OF True] True by (auto simp: expand_segment_def)
  qed (use 2 in auto)
next
  case (3 seg c cs)
  show ?case
  proof (cases "is_digit c")
    case True
    then show ?thesis using 3 by auto
  next
    case False
    obtain p qs where p: "ps = p # qs"
        "(if length seg > 0 then (case stoi seg of Inl e \<Rightarrow> Inl e | Inr i \<Rightarrow> Inr (REPLACEMENT i))
          else Inr (TEXT ''$'')) = (Inr p :: rewrite_error + ReplacementSegment)"
        "(if c = CHR ''$'' then split_replacement True [] cs else split_replacement False [c] cs) = Inr qs"
      using "3.prems"(1) False by (auto split: sum.splits if_splits)
    have "concat (map (expand_segment grp) qs) = expand_spec grp (c # cs)"
      using "3.IH"(2) [OF False p(2)] "3.IH"(3) [OF False p(2)] p(3)
      by (cases "c = CHR ''$''") auto
    moreover have "expand_spec grp (CHR ''$'' # seg @ c # cs) = expand_segment grp p @ expand_spec grp (c # cs)"
    proof (cases "seg = []")
      case True
      then have "p = TEXT ''$''" using p(2) by simp
      then show ?thesis using True False by (simp add: expand_segment_def)
    next
      case False
      then show ?thesis
        using p(2) "3.prems"(2) \<open>\<not> is_digit c\<close> expand_spec_digits [of seg "c # cs" grp]
        by (auto simp: expand_segment_def stoi_def split: if_splits)
    qed
    ultimately show ?thesis using p(1) by simp
  qed
qed

lemma split_replacement_nonneg:
  "split_replacement in_repl seg s = Inr ps \<Longrightarrow> (in_repl \<longrightarrow> (\<forall>d \<in> set seg. is_digit d)) \<Longrightarrow>
     REPLACEMENT i \<in> set ps \<Longrightarrow> 0 \<le> i"
  by (induction in_repl seg s arbitrary: ps rule: split_replacement.induct)
     (auto simp: stoi_def digits_value_nonneg split: if_splits sum.splits)

text \<open>A small matcher for examples: the pattern is a prefix, group 1 the text after it.\<close>

definition prefix_pcre :: "string pcre_api" where
  "prefix_pcre = \<lparr>pcre_compile = Inr, pcre_study = (\<lambda>_. None),
     pcre_exec = (\<lambda>re uri. if take (length re) uri = re then (2, [0, int (length uri), int (length re), int (length uri)])
                            else (-1, [])),
     pcre_get_substring = (\<lambda>uri vec n i. if i = 0 then uri else drop (nat (vec ! 2)) uri)\<rparr>"

text \<open>
  C32: the destination of a matching request is the replacement text with every group
  reference replaced by the text of its group, or by nothing when the match has no such
  group: splitting the replacement once and joining the parts per request is the same as
  expanding the text.
\<close>

theorem Check_expands_replacement:
  assumes "new_RewriteRule pcre regex repl = Inr (r, [])" and "regex_compiled r = Live re"
    and "pcre_exec pcre re uri = (ret, vec)" and "0 \<le> ret"
  shows "let n = (if ret = 0 then 33 else ret) in
    \<exists>log. Check pcre r uri debug_mode =
      Inr (Some (expand_spec (\<lambda>i. if i < n then c_string (pcre_get_substring pcre uri vec n i) else []) repl), log)"
proof -
  obtain ps where ps: "split_replacement False [] repl = Inr ps" "replacement_parts r = ps"
    using assms(1,2) by (auto simp: new_RewriteRule_def Let_def split: sum.splits option.splits)
  define n where "n = (if ret = 0 then 33 else ret)"
  let ?g = "\<lambda>i. if i < n then c_string (pcre_get_substring pcre uri vec n i) else []"
  have nonneg: "\<forall>i. REPLACEMENT i \<in> set ps \<longrightarrow> 0 \<le> i" using split_replacement_nonneg [OF ps(1)] by simp
  have "concat (map (expand_part pcre uri vec n) ps) = concat (map (expand_segment ?g) ps)"
    using nonneg by (intro arg_cong [of _ _ concat] map_cong)
      (auto simp: expand_part_def expand_segment_def split: ReplacementSegment.splits)
  also have "\<dots> = expand_spec ?g repl"
    using split_replacement_expands [OF ps(1), of ?g] by simp
  finally show ?thesis
    unfolding n_def
    using assms ps by (cases "ret = 0") (simp_all add: Check_def Let_def kMaxRegexMathCount_def)
qed

theorem Check_expands_replacement_witness:
  "let n = (if 2 = (0::int) then 33 else 2) in
    \<exists>log. Check prefix_pcre \<lparr>regex_pattern = ''/a/'', regex_compiled = Live ''/a/'', replacement = ''/b/$1?$'',
        replacement_parts = [TEXT ''/b/'', REPLACEMENT 1, TEXT ''?'']\<rparr> ''/a/x'' True =
      Inr (Some (expand_spec (\<lambda>i. if i < n then c_string (pcre_get_substring prefix_pcre ''/a/x'' [0, 4, 3, 4] n i)
        else []) ''/b/$1?$''), log)"
proof (rule Check_expands_replacement [where regex = "''/a/''" and re = "''/a/''"])
  show "new_RewriteRule prefix_pcre ''/a/'' ''/b/$1?$'' =
    Inr (\<lparr>regex_pattern = ''/a/'', regex_compiled = Live ''/a/'', replacement = ''/b/$1?$'',
        replacement_parts = [TEXT ''/b/'', REPLACEMENT 1, TEXT ''?'']\<rparr>, [])"
    by code_simp
qed (simp_all add: prefix_pcre_def)

text \<open>
  a rule that \<^verbatim>\<open>ValidateRewriteRule\<close> accepts has a pattern and a replacement, and the
  constructor applied to them logs nothing and yields a usable rule, unless a group number of
  the replacement is no \<^verbatim>\<open>int\<close>, in which case it throws.
\<close>

theorem validated_rule_constructs:
  assumes "fst (ValidateRewriteRule pcre rule)"
  shows "\<exists>p q. words rule = [p, q] \<and>
    (new_RewriteRule pcre p q = Inl OutOfRange \<or>
     (\<exists>r re. new_RewriteRule pcre p q = Inr (r, []) \<and> regex_compiled r = Live re \<and> delete_RewriteRule r = None))"
proof -
  have err: "split_replacement b seg s = Inl e \<Longrightarrow> e = OutOfRange" for b seg s e
    by (induction b seg s rule: split_replacement.induct) (auto simp: stoi_def split: if_splits sum.splits)
  have "length (words rule) = 2" using assms by (auto simp: ValidateRewriteRule_def Let_def split: if_splits)
  then obtain p q where pq: "words rule = [p, q]" by (auto simp: length_Suc_conv numeral_2_eq_2)
  then obtain re where "pcre_compile pcre (c_string p) = Inr re" "pcre_study pcre re = None"
    using assms by (auto simp: ValidateRewriteRule_def Let_def split: if_splits sum.splits option.splits)
  then show ?thesis
    using pq err [of False "[]" q]
    by (cases "split_replacement False [] q") (auto simp: new_RewriteRule_def delete_RewriteRule_def Let_def)
qed

theorem validated_rule_constructs_witness:
  "\<exists>p q. words ''/a/  /b/$1'' = [p, q] \<and>
    (new_RewriteRule prefix_pcre p q = Inl OutOfRange \<or>
     (\<exists>r re. new_RewriteRule prefix_pcre p q = Inr (r, []) \<and> regex_compiled r = Live re \<and> delete_RewriteRule r = None))"
proof (rule validated_rule_constructs)
  show "fst (ValidateRewriteRule prefix_pcre ''/a/  /b/$1'')" by code_simp
qed

text \<open>
  validation does not look at the group numbers: the rule below passes it and makes the
  constructor throw.
\<close>

theorem validated_rule_may_throw:
  "ValidateRewriteRule prefix_pcre ''/a $2147483648'' = (True, None) \<and>
   new_RewriteRule prefix_pcre ''/a'' ''$2147483648'' = Inl OutOfRange"
  by code_simp

text \<open>
  when studying the compiled pattern fails, the constructor frees the pattern but keeps
  the pointer: every \<^verbatim>\<open>Check\<close> of the rule then reads freed memory, and the destructor frees it
  again.
\<close>

theorem study_failure_use_after_free:
  assumes "pcre_compile pcre (c_string regex) = Inr re" and "pcre_study pcre re = Some err"
  shows "\<exists>r log. new_RewriteRule pcre regex repl = Inr (r, log) \<and>
    Check pcre r uri debug_mode = Inl UseAfterFree \<and> delete_RewriteRule r = Some UseAfterFree"
  using assms by (simp add: new_RewriteRule_def Check_def delete_RewriteRule_def Let_def)

theorem study_failure_use_after_free_witness:
  "\<exists>r log. new_RewriteRule (prefix_pcre\<lparr>pcre_study := (\<lambda>_. Some ''no memory'')\<rparr>) ''/a'' ''/b'' = Inr (r, log) \<and>
    Check (prefix_pcre\<lparr>pcre_study := (\<lambda>_. Some ''no memory'')\<rparr>) r ''/a'' False = Inl UseAfterFree \<and>
    delete_RewriteRule r = Some UseAfterFree"
  by (rule study_failure_use_after_free [where re = "''/a''" and err = "''no memory''"])
     (simp_all add: prefix_pcre_def c_string_def)

end
