(* ===== verification/Cloud_Trace.thy ===== *)
theory Cloud_Trace
  imports Esp_Env Complex_Main "HOL-Library.Word"
begin

text \<open>
  Cloud tracing (\<^verbatim>\<open>src/api_manager/cloud_trace\<close>): the sampler, the trace of a request with its
  spans, the two forms of the trace context header and the aggregator that sends the traces.

  The clock is an argument (nanoseconds), as are the random numbers a function draws and
  the version of the proxy.  The Abseil functions are the record \<open>absl_api\<close>, whose documented
  behaviour the round trips name as hypotheses.  Doubles are rationals with the rounding \<open>fl\<close>
  as an argument.
\<close>

section \<open>The sampler\<close>

record sampler =
  is_disabled :: bool
  previous :: int
  duration :: rat

text \<open>The members a disabled sampler leaves unset are never read; the clock starts at the epoch.\<close>

definition new_Sampler :: "(rat \<Rightarrow> rat) \<Rightarrow> rat \<Rightarrow> sampler" where
  "new_Sampler fl qps =
     (if qps = 0 then \<lparr>is_disabled = True, previous = 0, duration = 0\<rparr>
      else \<lparr>is_disabled = False, previous = 0, duration = fl (1 / qps)\<rparr>)"

definition On :: "(rat \<Rightarrow> rat) \<Rightarrow> int \<Rightarrow> sampler \<Rightarrow> bool \<times> sampler" where
  "On fl now s =
     (if is_disabled s then (False, s)
      else
        let diff = fl (of_int (now - previous s) / 1000000000)
        in if diff > duration s then (True, s\<lparr>previous := now\<rparr>) else (False, s))"

definition Refresh :: "int \<Rightarrow> sampler \<Rightarrow> sampler" where
  "Refresh now s = (if is_disabled s then s else s\<lparr>previous := now\<rparr>)"

section \<open>Traces\<close>

record timestamp =
  seconds :: int
  nanos :: int

record trace_span =
  span_id :: "64 word"
  parent_span_id :: "64 word"
  span_name :: string
  labels :: "(string \<times> string) list"
  start_time :: "timestamp option"
  end_time :: "timestamp option"

record trace =
  project_id :: string
  trace_id :: string
  spans :: "trace_span list"

datatype HeaderType = CLOUD_TRACE_CONTEXT | GRPC_TRACE_CONTEXT

record cloud_trace =
  ct_trace :: trace
  ct_options :: string
  ct_header_type :: HeaderType

definition kCloudTraceAgentKey :: string where "kCloudTraceAgentKey = ''trace.cloud.google.com/agent''"
definition kServiceAgentPrefix :: string where "kServiceAgentPrefix = ''esp/''"
definition kDefaultTraceOptions :: string where "kDefaultTraceOptions = ''o=1''"

text \<open>\<^verbatim>\<open>kTraceIdFieldIdPos\<close>, \<^verbatim>\<open>kSpanIdFieldIdPos\<close>, \<^verbatim>\<open>kTraceOptionsFieldIdPos\<close> and \<^verbatim>\<open>kGrpcTraceBinLen\<close>.\<close>

definition kTraceIdFieldIdPos :: nat where "kTraceIdFieldIdPos = 1"
definition kSpanIdFieldIdPos :: nat where "kSpanIdFieldIdPos = kTraceIdFieldIdPos + 16 + 1"
definition kTraceOptionsFieldIdPos :: nat where "kTraceOptionsFieldIdPos = kSpanIdFieldIdPos + 8 + 1"
definition kGrpcTraceBinLen :: nat where "kGrpcTraceBinLen = 29"

definition GetNow :: "int \<Rightarrow> timestamp" where
  "GetNow now = \<lparr>seconds = now div 1000000000, nanos = now mod 1000000000\<rparr>"

text \<open>\<^verbatim>\<open>labels->insert\<close> keeps an existing entry.\<close>

definition insert_label :: "string \<Rightarrow> string \<Rightarrow> trace_span \<Rightarrow> trace_span" where
  "insert_label k v s =
     (case map_of (labels s) k of None \<Rightarrow> s\<lparr>labels := labels s @ [(k, v)]\<rparr> | Some _ \<Rightarrow> s)"

definition new_span :: "string \<Rightarrow> 64 word \<Rightarrow> 64 word \<Rightarrow> string \<Rightarrow> int \<Rightarrow> trace_span" where
  "new_span version rnd parent name now =
     insert_label kCloudTraceAgentKey (kServiceAgentPrefix @ version)
       \<lparr>span_id = rnd, parent_span_id = parent, span_name = name, labels = [],
        start_time = Some (GetNow now), end_time = None\<rparr>"

definition GetNewTrace :: "string \<Rightarrow> string \<Rightarrow> 64 word \<Rightarrow> string \<Rightarrow> int \<Rightarrow> trace" where
  "GetNewTrace version trace_id_str rnd root_span_name now =
     \<lparr>project_id = [], trace_id = trace_id_str, spans = [new_span version rnd 0 root_span_name now]\<rparr>"

text \<open>\<^verbatim>\<open>std::setw(16) << std::hex\<close>\<close>

definition hex_char :: "nat \<Rightarrow> char" where
  "hex_char d = ''0123456789abcdef'' ! d"

definition hex64 :: "64 word \<Rightarrow> string" where
  "hex64 w = map (\<lambda>i. hex_char (unat (drop_bit (4 * (15 - i)) w) mod 16)) [0..<16]"

definition HexUInt128 :: "64 word \<Rightarrow> 64 word \<Rightarrow> string" where
  "HexUInt128 hi lo = hex64 hi @ hex64 lo"

section \<open>Spans of a request\<close>

text \<open>
  A \<^verbatim>\<open>CloudTraceSpan\<close> points to a span of the trace: its index.  The null \<^verbatim>\<open>CloudTrace\<close> is \<open>None\<close>.
\<close>

record cloud_trace_span =
  span_index :: nat
  messages :: "string list"

definition InitWithParentSpanId ::
    "string \<Rightarrow> 64 word \<Rightarrow> int \<Rightarrow> string \<Rightarrow> 64 word \<Rightarrow> trace \<Rightarrow> cloud_trace_span \<times> trace" where
  "InitWithParentSpanId version rnd now name parent t =
     (\<lparr>span_index = length (spans t), messages = []\<rparr>,
      t\<lparr>spans := spans t @ [new_span version rnd parent name now]\<rparr>)"

definition CreateSpan ::
    "string \<Rightarrow> 64 word \<Rightarrow> int \<Rightarrow> cloud_trace option \<Rightarrow> string \<Rightarrow>
     cloud_trace_span option \<times> cloud_trace option" where
  "CreateSpan version rnd now ct name =
     (case ct of
        None \<Rightarrow> (None, None)
      | Some c \<Rightarrow>
          let (s, t) = InitWithParentSpanId version rnd now name (span_id (spans (ct_trace c) ! 0)) (ct_trace c)
          in (Some s, Some (c\<lparr>ct_trace := t\<rparr>)))"

definition CreateChildSpan ::
    "string \<Rightarrow> 64 word \<Rightarrow> int \<Rightarrow> cloud_trace_span option \<Rightarrow> string \<Rightarrow> cloud_trace \<Rightarrow>
     cloud_trace_span option \<times> cloud_trace" where
  "CreateChildSpan version rnd now parent name c =
     (case parent of
        None \<Rightarrow> (None, c)
      | Some p \<Rightarrow>
          let (s, t) = InitWithParentSpanId version rnd now name
                         (span_id (spans (ct_trace c) ! span_index p)) (ct_trace c)
          in (Some s, c\<lparr>ct_trace := t\<rparr>))"

definition Write :: "string \<Rightarrow> cloud_trace_span \<Rightarrow> cloud_trace_span" where
  "Write msg s = s\<lparr>messages := messages s @ [msg]\<rparr>"

text \<open>\<^verbatim>\<open>std::setfill('0') << std::setw(3) << i\<close>\<close>

definition sequence_label :: "nat \<Rightarrow> string" where
  "sequence_label i = (let s = show_nat i in replicate (3 - length s) (CHR ''0'') @ s)"

fun insert_messages :: "nat \<Rightarrow> string list \<Rightarrow> trace_span \<Rightarrow> trace_span" where
  "insert_messages i [] s = s"
| "insert_messages i (m # ms) s = insert_messages (i + 1) ms (insert_label (sequence_label i) m s)"

definition delete_CloudTraceSpan :: "int \<Rightarrow> cloud_trace_span \<Rightarrow> trace \<Rightarrow> trace" where
  "delete_CloudTraceSpan now s t =
     t\<lparr>spans := (spans t)[span_index s :=
        insert_messages 0 (messages s) ((spans t ! span_index s)\<lparr>end_time := Some (GetNow now)\<rparr>)]\<rparr>"

definition SetProjectId :: "string \<Rightarrow> cloud_trace \<Rightarrow> cloud_trace" where
  "SetProjectId p c = c\<lparr>ct_trace := (ct_trace c)\<lparr>project_id := p\<rparr>\<rparr>"

definition EndRootSpan :: "int \<Rightarrow> cloud_trace \<Rightarrow> cloud_trace" where
  "EndRootSpan now c =
     c\<lparr>ct_trace := (ct_trace c)\<lparr>spans :=
        (spans (ct_trace c))[0 := (spans (ct_trace c) ! 0)\<lparr>end_time := Some (GetNow now)\<rparr>]\<rparr>\<rparr>"

section \<open>The trace context headers\<close>

record absl_api =
  HexStringToBytes :: "string \<Rightarrow> string"
  BytesToHexString :: "string \<Rightarrow> string"
  Base64Escape :: "string \<Rightarrow> string"
  Base64Unescape :: "string \<Rightarrow> string option"
  Load64 :: "string \<Rightarrow> 64 word"

text \<open>The bytes of a number, most significant first: \<^verbatim>\<open>__builtin_bswap64\<close> copied to memory.\<close>

definition big_endian_bytes :: "64 word \<Rightarrow> string" where
  "big_endian_bytes w = map (\<lambda>i. char_of (unat (drop_bit (8 * (7 - i)) w) mod 256)) [0..<8]"

definition ToTraceContextHeader :: "absl_api \<Rightarrow> cloud_trace \<Rightarrow> 64 word \<Rightarrow> string" where
  "ToTraceContextHeader absl c sid =
     (case ct_header_type c of
        CLOUD_TRACE_CONTEXT \<Rightarrow> trace_id (ct_trace c) @ ''/'' @ show_nat (unat sid) @ '';'' @ ct_options c
      | GRPC_TRACE_CONTEXT \<Rightarrow>
          Base64Escape absl
            ([CHR 0x00] @
             [CHR 0x00] @ take 16 (HexStringToBytes absl (trace_id (ct_trace c))) @
             [CHR 0x01] @ big_endian_bytes sid @
             [CHR 0x02] @ [if ct_options c = kDefaultTraceOptions then CHR 0x01 else CHR 0x00]))"

text \<open>
  The functions that parse a header return the trace, if they make one, with the options.  The
  source assigns the options before its last checks, but the caller uses them only with a trace.
\<close>

definition GetTraceFromGRpcTraceContextHeader ::
    "absl_api \<Rightarrow> string \<Rightarrow> 64 word \<Rightarrow> int \<Rightarrow> string \<Rightarrow> string \<Rightarrow> (trace \<times> string) option" where
  "GetTraceFromGRpcTraceContextHeader absl version rnd now raw root_span_name =
     (case Base64Unescape absl raw of
        None \<Rightarrow> None
      | Some tc \<Rightarrow>
          if length tc \<noteq> kGrpcTraceBinLen \<or> tc ! 0 \<noteq> CHR 0x00 then None
          else if tc ! kTraceIdFieldIdPos \<noteq> CHR 0x00 \<or> tc ! kSpanIdFieldIdPos \<noteq> CHR 0x01 \<or>
                  tc ! kTraceOptionsFieldIdPos \<noteq> CHR 0x02 then None
          else if even (of_char (tc ! (kTraceOptionsFieldIdPos + 1)) :: nat) then None
          else
            let trace_id_str = take 16 (drop (kTraceIdFieldIdPos + 1) tc)
            in if list_all (\<lambda>c. c = CHR 0x00) trace_id_str then None
               else
                 let sid = Load64 absl (take 8 (drop (kSpanIdFieldIdPos + 1) tc));
                     t = GetNewTrace version (BytesToHexString absl trace_id_str) rnd root_span_name now
                 in Some (if sid \<noteq> 0 then t\<lparr>spans := [(spans t ! 0)\<lparr>parent_span_id := sid\<rparr>]\<rparr> else t,
                     kDefaultTraceOptions))"

text \<open>
  \<^verbatim>\<open>stream >> value\<close> of a decimal number that must end the text: white space, a sign, digits.
  The result is the sign and the magnitude; \<open>None\<close> when the extraction fails or characters
  are left.
\<close>

definition stream_number :: "string \<Rightarrow> (bool \<times> int) option" where
  "stream_number s =
     (let t = dropWhile is_space s;
          neg = (t \<noteq> [] \<and> hd t = CHR ''-'');
          u = (if t \<noteq> [] \<and> (hd t = CHR ''-'' \<or> hd t = CHR ''+'') then tl t else t)
      in if u \<noteq> [] \<and> list_all is_digit u then Some (neg, digits_value u) else None)"

definition stream_int :: "string \<Rightarrow> int option" where
  "stream_int s =
     (case stream_number s of
        None \<Rightarrow> None
      | Some (neg, v) \<Rightarrow>
          let x = (if neg then - v else v) in if - (2 ^ 31) \<le> x \<and> x < 2 ^ 31 then Some x else None)"

text \<open>Reading an unsigned number takes the magnitude, which must fit, and negates it modulo \<open>2 ^ 64\<close>.\<close>

definition stream_uint64 :: "string \<Rightarrow> 64 word option" where
  "stream_uint64 s =
     (case stream_number s of
        None \<Rightarrow> None
      | Some (neg, v) \<Rightarrow> if v < 2 ^ 64 then Some (if neg then - word_of_int v else word_of_int v) else None)"

definition isxdigit :: "char \<Rightarrow> bool" where
  "isxdigit c \<longleftrightarrow>
     (let x = of_char c :: nat in
      (48 \<le> x \<and> x \<le> 57) \<or> (65 \<le> x \<and> x \<le> 70) \<or> (97 \<le> x \<and> x \<le> 102))"

text \<open>The loop over the options: true when it finds tracing enabled, false at every other end.\<close>

fun trace_enabled_in :: "string list \<Rightarrow> bool" where
  "trace_enabled_in [] = False"
| "trace_enabled_in (item # items) =
     (if take 2 item = ''o='' then
        (case stream_int (drop 2 item) of
           None \<Rightarrow> False
         | Some v \<Rightarrow> if v < 0 \<or> v > 3 then False else odd v)
      else trace_enabled_in items)"

definition options_after :: "string \<Rightarrow> string" where
  "options_after s = (case str_find (CHR '';'') s of None \<Rightarrow> s | Some i \<Rightarrow> drop (i + 1) s)"

definition GetTraceFromCloudTraceContextHeader ::
    "string \<Rightarrow> 64 word \<Rightarrow> int \<Rightarrow> string \<Rightarrow> string \<Rightarrow> (trace \<times> string) option" where
  "GetTraceFromCloudTraceContextHeader version rnd now trace_context root_span_name =
     (case split_string (CHR '';'') trace_context of
        [] \<Rightarrow> None
      | trace_and_span_id # items \<Rightarrow>
          if \<not> trace_enabled_in items then None
          else
            let (trace_id_str, span_id_str) =
                  (case str_find (CHR ''/'') trace_and_span_id of
                     None \<Rightarrow> (trace_and_span_id, [])
                   | Some pos \<Rightarrow> (take pos trace_and_span_id, drop (pos + 1) trace_and_span_id))
            in if length trace_id_str \<noteq> 32 \<or> \<not> list_all isxdigit trace_id_str then None
               else
                 case (if span_id_str = [] then Some 0 else stream_uint64 span_id_str) of
                   None \<Rightarrow> None
                 | Some sid \<Rightarrow>
                     let t = GetNewTrace version trace_id_str rnd root_span_name now
                     in Some (if sid \<noteq> 0 then t\<lparr>spans := [(spans t ! 0)\<lparr>parent_span_id := sid\<rparr>]\<rparr> else t,
                              options_after trace_context))"

text \<open>The random numbers are the root span's id and the two halves of a new trace id.\<close>

definition CreateCloudTrace ::
    "(rat \<Rightarrow> rat) \<Rightarrow> absl_api \<Rightarrow> string \<Rightarrow> 64 word \<times> 64 word \<times> 64 word \<Rightarrow> int \<Rightarrow>
     string \<Rightarrow> string \<Rightarrow> HeaderType \<Rightarrow> sampler option \<Rightarrow> cloud_trace option \<times> sampler option" where
  "CreateCloudTrace fl absl version rnds now trace_context root_span_name header_type smp =
     (let (rnd, hi, lo) = rnds;
          parsed = (case header_type of
            CLOUD_TRACE_CONTEXT \<Rightarrow> GetTraceFromCloudTraceContextHeader version rnd now trace_context root_span_name
          | GRPC_TRACE_CONTEXT \<Rightarrow> GetTraceFromGRpcTraceContextHeader absl version rnd now trace_context root_span_name)
      in case parsed of
           Some (t, options) \<Rightarrow>
             (Some \<lparr>ct_trace = t, ct_options = options, ct_header_type = header_type\<rparr>,
              map_option (Refresh now) smp)
         | None \<Rightarrow>
             (case smp of
                None \<Rightarrow> (None, None)
              | Some s \<Rightarrow>
                  let (on, s') = On fl now s
                  in if on
                     then (Some \<lparr>ct_trace = GetNewTrace version (HexUInt128 hi lo) rnd root_span_name now,
                                 ct_options = kDefaultTraceOptions, ct_header_type = header_type\<rparr>, Some s')
                     else (None, Some s')))"

section \<open>The aggregator\<close>

text \<open>
  \<open>to_json\<close> is the marshalling of the traces, \<open>token\<close> what the service account token returns for
  cloud tracing at the time of the call.
\<close>

record aggregator =
  cloud_trace_address :: string
  aggregate_time_millisec :: int
  cache_max_size :: int
  agg_traces :: "trace list"
  agg_project_id :: string
  agg_sampler :: sampler

definition new_Aggregator :: "(rat \<Rightarrow> rat) \<Rightarrow> string \<Rightarrow> int \<Rightarrow> int \<Rightarrow> rat \<Rightarrow> aggregator" where
  "new_Aggregator fl address time_ms max_size minimum_qps =
     \<lparr>cloud_trace_address = address, aggregate_time_millisec = time_ms, cache_max_size = max_size,
      agg_traces = [], agg_project_id = [], agg_sampler = new_Sampler fl minimum_qps\<rparr>"

definition Aggregator_Init :: "aggregator \<Rightarrow> env_effect list" where
  "Aggregator_Init a =
     (if aggregate_time_millisec a = 0 then [] else [StartPeriodicTimer (aggregate_time_millisec a)])"

definition delete_Aggregator :: "aggregator \<Rightarrow> env_effect list" where
  "delete_Aggregator a = (if aggregate_time_millisec a = 0 then [] else [StopTimer])"

definition SendAndClearTraces ::
    "(trace list \<Rightarrow> string) \<Rightarrow> string \<Rightarrow> aggregator \<Rightarrow> env_effect list \<times> aggregator" where
  "SendAndClearTraces to_json token a =
     (if length (agg_traces a) = 0 \<or> agg_project_id a = []
      then ([LogDebug ''Not sending request to CloudTrace: no traces or project_id is empty.''],
            a\<lparr>agg_traces := []\<rparr>)
      else
        let traces = map (\<lambda>t. t\<lparr>project_id := agg_project_id a\<rparr>) (agg_traces a);
            url = cloud_trace_address a @ ''/v1/projects/'' @ agg_project_id a @ ''/traces'';
            body = to_json traces
        in ([LogDebug ''Sending request to Cloud Trace.'', LogDebug body,
             RunHTTPRequest
               (set_body body
                 (set_header ''Content-Type'' ''application/json''
                   (set_auth_token token (set_method ''PATCH'' (set_url url new_HTTPRequest)))))],
            a\<lparr>agg_traces := []\<rparr>))"

text \<open>The callback of the request.\<close>

definition trace_response :: "status \<Rightarrow> string \<Rightarrow> env_effect" where
  "trace_response st body =
     (if code st < 0 then LogError (''Trace Request Failed.'' @ ToString st)
      else LogDebug (''Trace Response: '' @ ToString st @ [CHR 0x0A] @ body))"

definition AppendTrace ::
    "(trace list \<Rightarrow> string) \<Rightarrow> string \<Rightarrow> trace \<Rightarrow> aggregator \<Rightarrow> env_effect list \<times> aggregator" where
  "AppendTrace to_json token t a =
     (let a' = a\<lparr>agg_traces := agg_traces a @ [t]\<rparr>
      in if int (length (agg_traces a')) > cache_max_size a' then SendAndClearTraces to_json token a' else ([], a'))"

section \<open>Round trips of the headers\<close>

lemma GetNewTrace_simps [simp]:
  "trace_id (GetNewTrace v tid rnd name now) = tid"
  "spans (GetNewTrace v tid rnd name now) = [new_span v rnd 0 name now]"
  by (simp_all add: GetNewTrace_def)

lemma new_span_simps [simp]:
  "span_id (new_span v rnd p name now) = rnd" "parent_span_id (new_span v rnd p name now) = p"
  "labels (new_span v rnd p name now) = [(kCloudTraceAgentKey, kServiceAgentPrefix @ v)]"
  by (simp_all add: new_span_def insert_label_def)

text \<open>The parent a parsed header gives the root span.\<close>

lemma parsed_parent:
  "spans (if sid \<noteq> 0 then t\<lparr>spans := [(spans t ! 0)\<lparr>parent_span_id := sid\<rparr>]\<rparr> else t) =
     [(spans t ! 0)\<lparr>parent_span_id := sid\<rparr>]" if "t = GetNewTrace v tid rnd name now"
  using that by (simp add: new_span_def insert_label_def)

lemma nth_header:
  assumes "length tid = 16" "length sid = 8"
    and tc: "tc = [CHR 0x00] @ [CHR 0x00] @ tid @ [CHR 0x01] @ sid @ [CHR 0x02] @ [o']"
  shows "length tc = 29" "tc ! 0 = CHR 0x00" "tc ! 1 = CHR 0x00" "tc ! 18 = CHR 0x01" "tc ! 27 = CHR 0x02"
    "tc ! 28 = o'" "take 16 (drop 2 tc) = tid" "take 8 (drop 19 tc) = sid"
  using assms(1,2) by (simp_all add: tc nth_append)

text \<open>
  C33: a gRPC trace context header that the proxy writes for a sampled trace is read back as a
  trace with the same trace id whose root span has the given span as its parent.
\<close>

theorem grpc_header_roundtrip:
  assumes "\<forall>s. Base64Unescape absl (Base64Escape absl s) = Some s"
    and "\<forall>b. HexStringToBytes absl (BytesToHexString absl b) = b"
    and "\<forall>w. Load64 absl (big_endian_bytes w) = w"
    and "ct_header_type c = GRPC_TRACE_CONTEXT" and "ct_options c = kDefaultTraceOptions"
    and "trace_id (ct_trace c) = BytesToHexString absl tid" and "length tid = 16"
    and "\<not> list_all (\<lambda>c. c = CHR 0x00) tid"
  shows "\<exists>t. GetTraceFromGRpcTraceContextHeader absl version rnd now (ToTraceContextHeader absl c sid) name =
      Some (t, kDefaultTraceOptions) \<and> trace_id t = trace_id (ct_trace c) \<and>
      map parent_span_id (spans t) = [sid] \<and> map span_id (spans t) = [rnd]"
proof -
  have len: "length (big_endian_bytes sid) = 8" by (simp add: big_endian_bytes_def)
  have h: "ToTraceContextHeader absl c sid = Base64Escape absl
      ([CHR 0x00] @ [CHR 0x00] @ tid @ [CHR 0x01] @ big_endian_bytes sid @ [CHR 0x02] @ [CHR 0x01])"
    using assms by (simp add: ToTraceContextHeader_def)
  note n = nth_header [OF assms(7) len refl, of "CHR 0x01"]
  show ?thesis
    unfolding GetTraceFromGRpcTraceContextHeader_def h
    using assms n
    by (simp add: kGrpcTraceBinLen_def kTraceIdFieldIdPos_def kSpanIdFieldIdPos_def kTraceOptionsFieldIdPos_def
        Let_def)
qed

lemma base_digits:
  "foldl (\<lambda>a d. 256 * a + d) 0 (map (\<lambda>i. n div 256 ^ (k - 1 - i) mod 256) [0..<k]) = n mod (256::nat) ^ k"
proof (induction k arbitrary: n)
  case (Suc k)
  have e: "map (\<lambda>i. n div 256 ^ (k - i) mod 256) [0..<k] = map (\<lambda>i. (n div 256) div 256 ^ (k - 1 - i) mod 256) [0..<k]"
  proof (rule map_cong)
    fix i assume "i \<in> set [0..<k]"
    then have "k - i = Suc (k - 1 - i)" by auto
    then show "n div 256 ^ (k - i) mod 256 = (n div 256) div 256 ^ (k - 1 - i) mod 256"
      by (simp add: div_mult2_eq)
  qed simp
  have "foldl (\<lambda>a d. 256 * a + d) 0 (map (\<lambda>i. n div 256 ^ (Suc k - 1 - i) mod 256) [0..<Suc k]) =
      256 * foldl (\<lambda>a d. 256 * a + d) 0 (map (\<lambda>i. n div 256 ^ (k - i) mod 256) [0..<k]) + n mod 256"
    by simp
  also have "\<dots> = 256 * (n div 256 mod 256 ^ k) + n mod 256" unfolding e Suc.IH ..
  also have "\<dots> = n mod (256 * 256 ^ k)" by (simp add: mod_mult2_eq)
  finally show ?case by simp
qed simp

definition load_big_endian :: "string \<Rightarrow> 64 word" where
  "load_big_endian s = word_of_nat (foldl (\<lambda>a c. 256 * a + of_char c) 0 s)"

lemma load_big_endian_bytes: "load_big_endian (big_endian_bytes w) = w"
proof -
  let ?g = "\<lambda>i. unat w div 256 ^ (8 - 1 - i) mod 256"
  have "unat (drop_bit (8 * (7 - i)) w) mod 256 = ?g i" for i
    by (simp only: unat_drop_bit_eq) (simp add: drop_bit_eq_div power_mult)
  then have "big_endian_bytes w = map (\<lambda>i. char_of (?g i)) [0..<8]"
    unfolding big_endian_bytes_def by simp
  then have "foldl (\<lambda>a c. 256 * a + of_char c) 0 (big_endian_bytes w) = foldl (\<lambda>a d. 256 * a + d) 0 (map ?g [0..<8])"
    by (simp add: foldl_map of_char_mod_256)
  also have "\<dots> = unat w mod 256 ^ 8" using base_digits [of "unat w" 8] by simp
  also have "\<dots> = unat w" using unsigned_less [of w] by (intro mod_less) simp
  finally show ?thesis by (simp add: load_big_endian_def)
qed

definition plain_absl :: absl_api where
  "plain_absl = \<lparr>HexStringToBytes = (\<lambda>s. s), BytesToHexString = (\<lambda>s. s), Base64Escape = (\<lambda>s. s),
     Base64Unescape = Some, Load64 = load_big_endian\<rparr>"

theorem grpc_header_roundtrip_witness:
  "let c = \<lparr>ct_trace = GetNewTrace ''1.0'' ''0123456789abcdef'' 7 ''ESP_ROOT'' 5, ct_options = kDefaultTraceOptions,
            ct_header_type = GRPC_TRACE_CONTEXT\<rparr>
   in \<exists>t. GetTraceFromGRpcTraceContextHeader plain_absl ''1.0'' 9 6 (ToTraceContextHeader plain_absl c 8) ''ESP_ROOT'' =
      Some (t, kDefaultTraceOptions) \<and> trace_id t = trace_id (ct_trace c) \<and>
      map parent_span_id (spans t) = [8] \<and> map span_id (spans t) = [9]"
  unfolding Let_def
  by (rule grpc_header_roundtrip [where tid = "''0123456789abcdef''"])
     (simp_all add: plain_absl_def load_big_endian_bytes)

lemma stream_number_show_nat: "stream_number (show_nat n) = Some (False, int n)"
proof -
  note d = show_nat_digits [of n]
  have "\<not> is_space c \<and> c \<noteq> CHR ''-'' \<and> c \<noteq> CHR ''+''" if "is_digit c" for c
    using that by (auto simp: is_digit_def is_space_def Let_def)
  then have h: "\<not> is_space (hd (show_nat n))" "hd (show_nat n) \<noteq> CHR ''-''" "hd (show_nat n) \<noteq> CHR ''+''"
    using d by (meson hd_in_set)+
  then have "dropWhile is_space (show_nat n) = show_nat n" using d by (cases "show_nat n") auto
  then show ?thesis using d h by (simp add: stream_number_def Let_def list_all_iff)
qed

lemma stream_uint64_show: "stream_uint64 (show_nat (unat w)) = Some w"
proof -
  have "uint w < 2 ^ 64" using unsigned_less [of w] by simp
  then show ?thesis by (simp add: stream_uint64_def stream_number_show_nat)
qed

text \<open>
  an \<^verbatim>\<open>X-Cloud-Trace-Context\<close> header that the proxy writes, with options that enable tracing,
  is read back with the same trace id, the same options and the given span as the parent of
  the new root span.
\<close>

theorem cloud_header_roundtrip:
  assumes "ct_header_type c = CLOUD_TRACE_CONTEXT"
    and "length (trace_id (ct_trace c)) = 32" and "list_all isxdigit (trace_id (ct_trace c))"
    and "trace_enabled_in (split_string (CHR '';'') (ct_options c))"
  shows "\<exists>t. GetTraceFromCloudTraceContextHeader version rnd now (ToTraceContextHeader absl c sid) name =
      Some (t, ct_options c) \<and> trace_id t = trace_id (ct_trace c) \<and>
      map parent_span_id (spans t) = [sid] \<and> map span_id (spans t) = [rnd]"
proof -
  let ?tid = "trace_id (ct_trace c)" and ?n = "show_nat (unat sid)"
  have "isxdigit x \<Longrightarrow> x \<noteq> CHR '';'' \<and> x \<noteq> CHR ''/''" for x by (auto simp: isxdigit_def Let_def)
  then have t: "CHR '';'' \<notin> set ?tid" "CHR ''/'' \<notin> set ?tid" using assms(3) by (auto simp: list_all_iff)
  have "is_digit x \<Longrightarrow> x \<noteq> CHR '';''" for x by (auto simp: is_digit_def Let_def)
  then have n: "CHR '';'' \<notin> set ?n" "?n \<noteq> []" using show_nat_digits [of "unat sid"] by auto
  have h: "ToTraceContextHeader absl c sid = (?tid @ CHR ''/'' # ?n) @ CHR '';'' # ct_options c"
    using assms(1) by (simp add: ToTraceContextHeader_def)
  have nt: "CHR '';'' \<notin> set (?tid @ CHR ''/'' # ?n)" using t n by auto
  have o': "options_after ((?tid @ CHR ''/'' # ?n) @ CHR '';'' # ct_options c) = ct_options c"
    unfolding options_after_def str_find_append [OF nt] by simp
  show ?thesis
    unfolding GetTraceFromCloudTraceContextHeader_def h split_string_Cons [OF nt] o'
    using assms n stream_uint64_show [of sid] str_find_append [OF t(2), of ?n] by (simp add: Let_def)
qed

theorem cloud_header_roundtrip_witness:
  "let c = \<lparr>ct_trace = GetNewTrace ''1.0'' ''0123456789abcdef0123456789ABCDEF'' 7 ''ESP_ROOT'' 5,
            ct_options = ''o=1'', ct_header_type = CLOUD_TRACE_CONTEXT\<rparr>
   in \<exists>t. GetTraceFromCloudTraceContextHeader ''1.0'' 9 6 (ToTraceContextHeader plain_absl c 8) ''ESP_ROOT'' =
      Some (t, ct_options c) \<and> trace_id t = trace_id (ct_trace c) \<and>
      map parent_span_id (spans t) = [8] \<and> map span_id (spans t) = [9]"
  unfolding Let_def
proof (rule cloud_header_roundtrip)
  have "trace_enabled_in (split_string (CHR '';'') ''o=1'')" by code_simp
  then show "trace_enabled_in (split_string (CHR '';'') (ct_options
     \<lparr>ct_trace = GetNewTrace ''1.0'' ''0123456789abcdef0123456789ABCDEF'' 7 ''ESP_ROOT'' 5,
      ct_options = ''o=1'', ct_header_type = CLOUD_TRACE_CONTEXT\<rparr>))" by simp
qed (simp_all add: isxdigit_def)

section \<open>Creation and sampling\<close>

lemma parsed_spans:
  "GetTraceFromCloudTraceContextHeader version rnd now h name = Some (t, opts) \<Longrightarrow>
     map span_name (spans t) = [name] \<and> map span_id (spans t) = [rnd]"
  "GetTraceFromGRpcTraceContextHeader absl version rnd now h name = Some (t, opts) \<Longrightarrow>
     map span_name (spans t) = [name] \<and> map span_id (spans t) = [rnd]"
  by (auto simp: GetTraceFromCloudTraceContextHeader_def GetTraceFromGRpcTraceContextHeader_def Let_def
      new_span_def insert_label_def split: list.splits option.splits if_splits prod.splits)

text \<open>
  a created trace, whether the header or the sampler asked for it, has exactly one span, the
  root, on which the constructor of \<^verbatim>\<open>CloudTrace\<close> relies, and it restarts the interval of an
  enabled sampler.
\<close>

theorem CreateCloudTrace_root_span:
  assumes "CreateCloudTrace fl absl version (rnd, hi, lo) now h name ty smp = (Some c, smp')"
  shows "map span_name (spans (ct_trace c)) = [name] \<and> map span_id (spans (ct_trace c)) = [rnd] \<and>
    ct_header_type c = ty \<and>
    (case smp' of None \<Rightarrow> smp = None | Some s \<Rightarrow> is_disabled s \<or> previous s = now)"
proof -
  let ?p = "case ty of
            CLOUD_TRACE_CONTEXT \<Rightarrow> GetTraceFromCloudTraceContextHeader version rnd now h name
          | GRPC_TRACE_CONTEXT \<Rightarrow> GetTraceFromGRpcTraceContextHeader absl version rnd now h name"
  show ?thesis
  proof (cases ?p)
    case (Some to)
    obtain t opts where to: "to = (t, opts)" by (cases to)
    have "map span_name (spans t) = [name] \<and> map span_id (spans t) = [rnd]"
      using parsed_spans Some to by (cases ty) auto
    then show ?thesis
      using assms Some to by (auto simp: CreateCloudTrace_def Refresh_def split: option.splits if_splits)
  next
    case None
    then show ?thesis
      using assms
      by (auto simp: CreateCloudTrace_def On_def Let_def new_span_def insert_label_def
          split: option.splits if_splits prod.splits)
  qed
qed

theorem CreateCloudTrace_root_span_witness:
  "let r = CreateCloudTrace (\<lambda>x. x) plain_absl ''1.0'' (1, 2, 3) 9000000000 '''' ''ESP_ROOT'' CLOUD_TRACE_CONTEXT
        (Some (new_Sampler (\<lambda>x. x) 1))
   in map span_name (spans (ct_trace (the (fst r)))) = [''ESP_ROOT''] \<and>
      map span_id (spans (ct_trace (the (fst r)))) = [1] \<and>
      ct_header_type (the (fst r)) = CLOUD_TRACE_CONTEXT \<and>
      (case snd r of None \<Rightarrow> Some (new_Sampler (\<lambda>x. x) 1) = None | Some s \<Rightarrow> is_disabled s \<or> previous s = 9000000000)"
proof -
  have "fst (CreateCloudTrace (\<lambda>x. x) plain_absl ''1.0'' (1, 2, 3) 9000000000 '''' ''ESP_ROOT'' CLOUD_TRACE_CONTEXT
        (Some (new_Sampler (\<lambda>x. x) 1))) \<noteq> None"
    by (simp add: CreateCloudTrace_def GetTraceFromCloudTraceContextHeader_def On_def new_Sampler_def Let_def)
  then obtain c smp' where r: "CreateCloudTrace (\<lambda>x. x) plain_absl ''1.0'' (1, 2, 3) 9000000000 '''' ''ESP_ROOT''
        CLOUD_TRACE_CONTEXT (Some (new_Sampler (\<lambda>x. x) 1)) = (Some c, smp')"
    by (metis not_None_eq prod.collapse)
  show ?thesis unfolding Let_def r using CreateCloudTrace_root_span [OF r] by simp
qed

datatype sampler_call = CallOn int | CallRefresh int

fun call_time :: "sampler_call \<Rightarrow> int" where
  "call_time (CallOn t) = t"
| "call_time (CallRefresh t) = t"

text \<open>The times at which a sequence of calls turned tracing on.\<close>

fun sampled_times :: "(rat \<Rightarrow> rat) \<Rightarrow> sampler_call list \<Rightarrow> sampler \<Rightarrow> int list" where
  "sampled_times fl [] s = []"
| "sampled_times fl (CallOn t # cs) s =
     (case On fl t s of (on, s') \<Rightarrow> (if on then [t] else []) @ sampled_times fl cs s')"
| "sampled_times fl (CallRefresh t # cs) s = sampled_times fl cs (Refresh t s)"

lemma sampled_from:
  "\<lbrakk>mono fl; \<not> is_disabled s; p \<le> previous s; sorted (previous s # map call_time cs)\<rbrakk> \<Longrightarrow>
    successively (\<lambda>t u. duration s < fl (of_int (u - t) / 1000000000)) (p # sampled_times fl cs s)"
proof (induction fl cs s arbitrary: p rule: sampled_times.induct)
  case (2 fl t cs s)
  show ?case
  proof (cases "fl (of_int (t - previous s) / 1000000000) > duration s")
    case True
    then have on: "On fl t s = (True, s\<lparr>previous := t\<rparr>)" using "2.prems" by (simp add: On_def Let_def)
    have "fl (of_int (t - previous s) / 1000000000) \<le> fl (of_int (t - p) / 1000000000)"
      using "2.prems" by (intro monoD [OF "2.prems"(1)] divide_right_mono) auto
    then show ?thesis using "2.IH" [OF on [symmetric], of t] True "2.prems" on by auto
  next
    case False
    then have on: "On fl t s = (False, s)" using "2.prems" by (simp add: On_def Let_def)
    then show ?thesis using "2.IH" [OF on [symmetric], of p] "2.prems" by auto
  qed
next
  case (3 fl t cs s)
  then show ?case using "3.IH" [of p] by (auto simp: Refresh_def)
qed simp

text \<open>
  the sampler keeps its rate: under any sequence of calls at times that do not decrease, two
  requests it turns tracing on for are more than the configured interval apart.
\<close>

theorem sampler_rate:
  assumes "mono fl" and "sorted (previous s # map call_time cs)"
  shows "successively (\<lambda>t u. duration s < fl (of_int (u - t) / 1000000000)) (sampled_times fl cs s)"
proof (cases "is_disabled s")
  case True
  then have "sampled_times fl cs s = []"
  proof (induction fl cs s rule: sampled_times.induct)
    case (2 fl t cs s)
    then have on: "On fl t s = (False, s)" by (simp add: On_def)
    then show ?case using "2.IH" [OF on [symmetric]] "2.prems" by simp
  next
    case (3 fl t cs s)
    then show ?case by (simp add: Refresh_def)
  qed simp
  then show ?thesis by simp
next
  case False
  then show ?thesis
    using sampled_from [OF assms(1) False order_refl assms(2)] by (cases "sampled_times fl cs s") auto
qed

theorem sampler_rate_witness:
  "successively (\<lambda>t u. duration (new_Sampler (\<lambda>x. x) 2) < of_int (u - t) / 1000000000)
     (sampled_times (\<lambda>x. x) [CallOn 600000000, CallOn 700000000, CallRefresh 800000000, CallOn 1400000000]
        (new_Sampler (\<lambda>x. x) 2))"
  by (rule sampler_rate) (simp_all add: mono_def new_Sampler_def)

section \<open>Messages of a span\<close>

lemma digits_value_zeros: "digits_value (replicate k (CHR ''0'') @ s) = digits_value s"
  by (induction k) (simp_all add: digits_value_def)

lemma sequence_label_value: "digits_value (sequence_label i) = int i"
  using show_nat_digits [of i] by (simp add: sequence_label_def Let_def digits_value_zeros)

lemma sequence_label_inj: "sequence_label i = sequence_label j \<longleftrightarrow> i = j"
  by (metis of_nat_eq_iff sequence_label_value)

lemma sequence_label_digits: "\<forall>c \<in> set (sequence_label i). is_digit c"
proof -
  have "is_digit (CHR ''0'')" by code_simp
  then show ?thesis using show_nat_digits [of i] by (auto simp: sequence_label_def Let_def)
qed

lemma sequence_label_agent: "sequence_label i \<noteq> kCloudTraceAgentKey"
proof
  assume "sequence_label i = kCloudTraceAgentKey"
  then have "is_digit (CHR ''t'')" using sequence_label_digits [of i] by (simp add: kCloudTraceAgentKey_def)
  then show False by (simp add: is_digit_def)
qed

lemma labels_insert_label:
  "map_of (labels (insert_label k v s)) k' =
     (if k' = k then Some (case map_of (labels s) k of None \<Rightarrow> v | Some w \<Rightarrow> w) else map_of (labels s) k')"
  by (auto simp: insert_label_def map_add_def split: option.splits)

lemma insert_messages_other:
  "\<forall>j. i \<le> j \<longrightarrow> k \<noteq> sequence_label j \<Longrightarrow> map_of (labels (insert_messages i ms s)) k = map_of (labels s) k"
  by (induction i ms s rule: insert_messages.induct) (auto simp: labels_insert_label)

lemma insert_messages_labels:
  "\<lbrakk>\<forall>j \<ge> i. map_of (labels s) (sequence_label j) = None; n < length ms\<rbrakk> \<Longrightarrow>
     map_of (labels (insert_messages i ms s)) (sequence_label (i + n)) = Some (ms ! n)"
proof (induction i ms s arbitrary: n rule: insert_messages.induct)
  case (2 i m ms s)
  show ?case
  proof (cases n)
    case 0
    then show ?thesis
      using "2.prems"(1) by (simp add: insert_messages_other sequence_label_inj labels_insert_label)
  next
    case (Suc n')
    have "\<forall>j \<ge> i + 1. map_of (labels (insert_label (sequence_label i) m s)) (sequence_label j) = None"
      using "2.prems"(1) by (simp add: labels_insert_label sequence_label_inj)
    then show ?thesis using "2.IH" [of n'] "2.prems"(2) Suc by simp
  qed
qed simp

text \<open>
  when a span of a request ends, every message written to it is a label of the span under its
  sequence number, the agent label stays, and the other spans do not change.
\<close>

theorem span_end_keeps_messages:
  assumes "CreateSpan version rnd now (Some c) name = (Some s, Some c')"
    and "s' = fold Write msgs s" and "t = delete_CloudTraceSpan now' s' (ct_trace c')"
  shows "length (spans t) = Suc (length (spans (ct_trace c))) \<and>
    butlast (spans t) = spans (ct_trace c) \<and>
    map_of (labels (last (spans t))) kCloudTraceAgentKey = Some (kServiceAgentPrefix @ version) \<and>
    (\<forall>i < length msgs. map_of (labels (last (spans t))) (sequence_label i) = Some (msgs ! i))"
proof -
  let ?sp = "new_span version rnd (span_id (spans (ct_trace c) ! 0)) name now"
  have s: "s = \<lparr>span_index = length (spans (ct_trace c)), messages = []\<rparr>"
    "spans (ct_trace c') = spans (ct_trace c) @ [?sp]"
    using assms(1) by (auto simp: CreateSpan_def InitWithParentSpanId_def)
  have w: "fold Write ms u = u\<lparr>messages := messages u @ ms\<rparr>" for ms u
    by (induction ms arbitrary: u) (simp_all add: Write_def)
  have t: "spans t = spans (ct_trace c) @ [insert_messages 0 msgs (?sp\<lparr>end_time := Some (GetNow now')\<rparr>)]"
    using assms(2,3) s w [of msgs s] by (simp add: delete_CloudTraceSpan_def nth_append list_update_append)
  have none: "\<forall>j \<ge> 0. map_of (labels (?sp\<lparr>end_time := Some (GetNow now')\<rparr>)) (sequence_label j) = None"
    using sequence_label_agent by simp
  show ?thesis
    unfolding t
    using insert_messages_labels [OF none, of _ msgs] insert_messages_other [of 0 kCloudTraceAgentKey msgs]
      sequence_label_agent [symmetric]
    by auto
qed

theorem span_end_keeps_messages_witness:
  "\<exists>s c'. CreateSpan ''1.0'' 5 9 (Some \<lparr>ct_trace = GetNewTrace ''1.0'' ''ab'' 7 ''ESP_ROOT'' 5,
        ct_options = ''o=1'', ct_header_type = CLOUD_TRACE_CONTEXT\<rparr>) ''Check'' = (Some s, Some c') \<and>
     map_of (labels (last (spans (delete_CloudTraceSpan 11 (fold Write [''hello''] s) (ct_trace c'))))) ''000'' = Some ''hello''"
proof -
  obtain s c' where r: "CreateSpan ''1.0'' 5 9 (Some \<lparr>ct_trace = GetNewTrace ''1.0'' ''ab'' 7 ''ESP_ROOT'' 5,
        ct_options = ''o=1'', ct_header_type = CLOUD_TRACE_CONTEXT\<rparr>) ''Check'' = (Some s, Some c')"
    by (simp add: CreateSpan_def InitWithParentSpanId_def)
  have "sequence_label 0 = ''000''" by code_simp
  then show ?thesis using span_end_keeps_messages [OF r refl refl, of 11 "[''hello'']"] r by auto
qed

section \<open>No trace is lost\<close>

datatype aggregator_call = AppendCall trace | TimerCall

fun run_aggregator ::
    "(trace list \<Rightarrow> string) \<Rightarrow> string \<Rightarrow> aggregator_call list \<Rightarrow> aggregator \<Rightarrow> env_effect list \<times> aggregator" where
  "run_aggregator to_json token [] a = ([], a)"
| "run_aggregator to_json token (call # calls) a =
     (let (es, a1) = (case call of
                        AppendCall t \<Rightarrow> AppendTrace to_json token t a
                      | TimerCall \<Rightarrow> SendAndClearTraces to_json token a);
          (es', a2) = run_aggregator to_json token calls a1
      in (es @ es', a2))"

fun appended :: "aggregator_call list \<Rightarrow> trace list" where
  "appended [] = []"
| "appended (AppendCall t # calls) = t # appended calls"
| "appended (TimerCall # calls) = appended calls"

definition request_bodies :: "env_effect list \<Rightarrow> string list" where
  "request_bodies es = concat (map (\<lambda>e. case e of RunHTTPRequest r \<Rightarrow> [req_body r] | _ \<Rightarrow> []) es)"

lemma request_bodies_append: "request_bodies (es @ es') = request_bodies es @ request_bodies es'"
  by (simp add: request_bodies_def)

abbreviation with_project :: "string \<Rightarrow> trace \<Rightarrow> trace" where
  "with_project p t \<equiv> t\<lparr>project_id := p\<rparr>"

lemma send_step:
  assumes "agg_project_id a \<noteq> []" "SendAndClearTraces to_json token a = (es, a')"
  shows "\<exists>bs. request_bodies es = map to_json bs \<and>
     concat bs = map (with_project (agg_project_id a)) (agg_traces a) \<and> a' = a\<lparr>agg_traces := []\<rparr>"
proof (cases "agg_traces a = []")
  case True
  then show ?thesis using assms
    by (intro exI [of _ "[]"]) (auto simp: SendAndClearTraces_def request_bodies_def)
next
  case False
  then show ?thesis using assms
    by (intro exI [of _ "[map (with_project (agg_project_id a)) (agg_traces a)]"])
       (auto simp: SendAndClearTraces_def request_bodies_def Let_def http_request_setters)
qed

lemma call_step:
  assumes "agg_project_id a \<noteq> []"
    and "(case call of AppendCall t \<Rightarrow> AppendTrace to_json token t a
          | TimerCall \<Rightarrow> SendAndClearTraces to_json token a) = (es, a')"
  shows "\<exists>bs. request_bodies es = map to_json bs \<and>
     concat bs @ map (with_project (agg_project_id a)) (agg_traces a') =
       map (with_project (agg_project_id a)) (agg_traces a @ appended [call]) \<and>
     agg_project_id a' = agg_project_id a \<and> cache_max_size a' = cache_max_size a \<and>
     (int (length (agg_traces a)) \<le> max 0 (cache_max_size a) \<longrightarrow>
      int (length (agg_traces a')) \<le> max 0 (cache_max_size a))"
proof (cases call)
  case TimerCall
  then show ?thesis using send_step [OF assms(1), of to_json token es a'] assms(2) by fastforce
next
  case (AppendCall t)
  let ?a = "a\<lparr>agg_traces := agg_traces a @ [t]\<rparr>"
  show ?thesis
  proof (cases "int (length (agg_traces ?a)) > cache_max_size ?a")
    case True
    then have "SendAndClearTraces to_json token ?a = (es, a')"
      using assms(2) AppendCall by (simp add: AppendTrace_def Let_def)
    then show ?thesis using send_step [of ?a to_json token es a'] assms(1) AppendCall by fastforce
  next
    case False
    then have "es = []" "a' = ?a" using assms(2) AppendCall by (auto simp: AppendTrace_def Let_def)
    then show ?thesis using False AppendCall by (intro exI [of _ "[]"]) (auto simp: request_bodies_def)
  qed
qed



end
