(* ===== verification/Jwt_Validator.thy ===== *)
theory Jwt_Validator
  imports Esp_Status Esp_Utils "HOL-Library.Char_ord" "HOL-Library.List_Lexorder"
begin

text \<open>
  The verification of a JWT (\<^verbatim>\<open>src/api_manager/auth/lib/auth_jwt_validator.cc\<close> and
  \<^verbatim>\<open>json_util.cc\<close>): parsing the token, filling the user information and checking the
  signature against a set of public keys, in the JWK or the X.509 form, or against a shared
  secret.

  The grpc library (base64, JSON and the JWT claims) is the argument \<open>lib\<close>, the crypto library
  the argument \<open>crypto\<close>, both records of their functions, and \<open>now\<close> is the clock of the claims
  check.  A JSON tree is the struct of grpc, with its type, key, value and children.  \<open>None\<close> as the
  result of an operation is the dereference of a null pointer.  Allocations succeed, and the
  messages of \<^verbatim>\<open>gpr_log\<close> are left out.
\<close>

section \<open>JSON values\<close>

datatype json_type = JSON_OBJECT | JSON_ARRAY | JSON_STRING | JSON_NUMBER | JSON_TRUE | JSON_FALSE | JSON_NULL

datatype grpc_json = Json (jtype: json_type) (jkey: "string option") (jvalue: "string option")
  (jchildren: "grpc_json list")

text \<open>\<^verbatim>\<open>strcmp(cur->key, key)\<close> reads the key of every child, which the elements of an array do not have.\<close>

fun find_key :: "string \<Rightarrow> grpc_json list \<Rightarrow> grpc_json option option" where
  "find_key key [] = Some None"
| "find_key key (cur # rest) =
     (case jkey cur of
        None \<Rightarrow> None
      | Some k \<Rightarrow> if k = key then Some (Some cur) else find_key key rest)"

definition GetProperty :: "grpc_json option \<Rightarrow> string option \<Rightarrow> grpc_json option option" where
  "GetProperty json key =
     (case (json, key) of
        (Some j, Some k) \<Rightarrow> find_key k (jchildren j)
      | _ \<Rightarrow> Some None)"

definition GetPropertyValue :: "grpc_json option \<Rightarrow> string option \<Rightarrow> json_type \<Rightarrow> string option option" where
  "GetPropertyValue json key type = do {
     cur \<leftarrow> GetProperty json key;
     Some (case cur of
             None \<Rightarrow> None
           | Some cur \<Rightarrow> if jtype cur \<noteq> type then None else jvalue cur)
   }"

definition GetStringValue :: "grpc_json option \<Rightarrow> string option \<Rightarrow> string option option" where
  "GetStringValue json key = GetPropertyValue json key JSON_STRING"

definition GetNumberValue :: "grpc_json option \<Rightarrow> string option \<Rightarrow> string option option" where
  "GetNumberValue json key = GetPropertyValue json key JSON_NUMBER"

text \<open>The value of a property at the end of a path; a missing property leaves the null pointer.\<close>

fun follow_path :: "string list \<Rightarrow> grpc_json option \<Rightarrow> grpc_json option option" where
  "follow_path [] json = Some json"
| "follow_path (f # fs) json = do {
     json \<leftarrow> GetProperty json (Some (c_string f));
     follow_path fs json
   }"

definition GetPrimitiveFieldValue ::
    "(string \<Rightarrow> grpc_json option) \<Rightarrow> string \<Rightarrow> string \<Rightarrow> string option option" where
  "GetPrimitiveFieldValue parse_json json_str payload_path =
     (case parse_json (c_string json_str) of
        None \<Rightarrow> Some None
      | Some json_root \<Rightarrow> do {
          json \<leftarrow> follow_path (split_string (CHR ''.'') payload_path) (Some json_root);
          case json of
            None \<Rightarrow> Some None
          | Some json \<Rightarrow>
              (case jtype json of
                 JSON_STRING \<Rightarrow> (case jvalue json of None \<Rightarrow> None | Some v \<Rightarrow> Some (Some v))
               | JSON_NUMBER \<Rightarrow> (case jvalue json of None \<Rightarrow> None | Some v \<Rightarrow> Some (Some v))
               | JSON_TRUE \<Rightarrow> Some (Some ''true'')
               | JSON_FALSE \<Rightarrow> Some (Some ''false'')
               | _ \<Rightarrow> Some None)
        })"

section \<open>The libraries\<close>

text \<open>
  An empty slice is the empty string.  \<^verbatim>\<open>claims_check\<close> gives the message of a status that is
  not \<^verbatim>\<open>GRPC_JWT_VERIFIER_OK\<close>.
\<close>

record 'cl jwt_lib =
  base64_decode :: "string \<Rightarrow> string"
  json_parse :: "string \<Rightarrow> grpc_json option"
  json_dump :: "grpc_json \<Rightarrow> string option"
  claims_from_json :: "grpc_json \<Rightarrow> 'cl option"
  claims_issuer :: "'cl \<Rightarrow> string option"
  claims_subject :: "'cl \<Rightarrow> string option"
  claims_json :: "'cl \<Rightarrow> grpc_json option"
  claims_expires_at :: "'cl \<Rightarrow> int"
  claims_check :: "int \<Rightarrow> 'cl \<Rightarrow> string option"

datatype evp_md = EVP_sha256 | EVP_sha384 | EVP_sha512

record ('x, 'pk, 'ec, 'ctx) crypto_api =
  BIO_write :: "string \<Rightarrow> int"
  PEM_read_bio_X509 :: "string \<Rightarrow> 'x option"
  X509_get_pubkey :: "'x \<Rightarrow> 'pk option"
  EVP_PKEY_set1_RSA :: "string \<Rightarrow> string \<Rightarrow> 'pk option"
  EC_KEY_set_public_key_affine_coordinates :: "string \<Rightarrow> string \<Rightarrow> 'ec option"
  EVP_DigestVerifyInit :: "evp_md \<Rightarrow> 'pk \<Rightarrow> 'ctx option"
  EVP_DigestVerifyUpdate :: "'ctx \<Rightarrow> string \<Rightarrow> 'ctx option"
  EVP_DigestVerifyFinal :: "'ctx \<Rightarrow> string \<Rightarrow> int"
  SHA256 :: "string \<Rightarrow> string"
  ECDSA_do_verify :: "string \<Rightarrow> string \<times> string \<Rightarrow> 'ec \<Rightarrow> int"
  HMAC :: "evp_md \<Rightarrow> string \<Rightarrow> string \<Rightarrow> string"

definition EvpMdFromAlg :: "string \<Rightarrow> evp_md option" where
  "EvpMdFromAlg a =
     (if a = ''RS256'' \<or> a = ''HS256'' then Some EVP_sha256
      else if a = ''RS384'' \<or> a = ''HS384'' then Some EVP_sha384
      else if a = ''RS512'' \<or> a = ''HS512'' then Some EVP_sha512
      else None)"

definition HashSizeFromAlg :: "string \<Rightarrow> nat" where
  "HashSizeFromAlg a =
     (if a = ''HS256'' then 32 else if a = ''HS384'' then 48 else if a = ''HS512'' then 64 else 0)"

definition ToStatus :: "string \<Rightarrow> status" where
  "ToStatus error_msg = Status UNAUTHENTICATED error_msg"

definition DecodeBase64AndParseJson :: "'cl jwt_lib \<Rightarrow> string \<Rightarrow> string \<Rightarrow> status + grpc_json" where
  "DecodeBase64AndParseJson lib str section_name =
     (let buffer = base64_decode lib str
      in if buffer = [] then Inl (ToStatus (''Bad JWT format: Invalid base64 in '' @ section_name))
         else case json_parse lib buffer of
                None \<Rightarrow> Inl (ToStatus (''Bad JWT format: Invalid JSON in '' @ section_name))
              | Some json \<Rightarrow> Inr json)"

text \<open>A \<^verbatim>\<open>BIGNUM\<close> is the bytes it is read from.\<close>

definition BigNumFromBase64String :: "'cl jwt_lib \<Rightarrow> string option \<Rightarrow> string option" where
  "BigNumFromBase64String lib b64 =
     (case b64 of
        None \<Rightarrow> None
      | Some b64 \<Rightarrow> let bin = base64_decode lib b64 in if bin = [] then None else Some bin)"

section \<open>The validator\<close>

record jose_header =
  alg :: string
  kid :: "string option"

record ('cl, 'pk, 'ec) jwt_validator =
  v_jwt :: string
  v_header :: "jose_header option"
  v_header_json :: "grpc_json option"
  v_claims :: "'cl option"
  v_sig_buffer :: string
  v_signed_buffer :: string
  v_audiences :: "string set"
  v_exp :: int
  v_pkey_json :: "grpc_json option"
  v_pkey :: "'pk option"
  v_eck :: "'ec option"

definition JwtValidatorImpl :: "string \<Rightarrow> ('cl, 'pk, 'ec) jwt_validator" where
  "JwtValidatorImpl jwt = \<lparr>v_jwt = jwt, v_header = None, v_header_json = None, v_claims = None,
     v_sig_buffer = [], v_signed_buffer = [], v_audiences = {}, v_exp = 0, v_pkey_json = None,
     v_pkey = None, v_eck = None\<rparr>"

record user_info =
  ui_id :: string
  ui_email :: string
  ui_consumer_id :: string
  ui_issuer :: string
  ui_audiences :: "string set"
  ui_authorized_party :: string
  ui_claims :: string

definition new_UserInfo :: user_info where
  "new_UserInfo = \<lparr>ui_id = [], ui_email = [], ui_consumer_id = [], ui_issuer = [], ui_audiences = {},
     ui_authorized_party = [], ui_claims = []\<rparr>"

text \<open>\<^verbatim>\<open>std::set\<close> iterates in the order of the strings.\<close>

definition AudiencesAsString :: "user_info \<Rightarrow> string" where
  "AudiencesAsString ui = join_string (CHR '','') (sorted_list_of_set (ui_audiences ui))"

section \<open>Parsing\<close>

text \<open>
  The audiences of the first child with key \<^verbatim>\<open>aud\<close>, and the children with an array of audiences
  replaced by the empty string.
\<close>

definition string_values :: "grpc_json list \<Rightarrow> string set" where
  "string_values js = {v. \<exists>j \<in> set js. jtype j = JSON_STRING \<and> jvalue j = Some v}"

lemma string_values_code [code]:
  "string_values js = set (List.map_filter (\<lambda>j. if jtype j = JSON_STRING then jvalue j else None) js)"
  by (auto simp: string_values_def map_filter_def split: if_splits) (force split: if_splits)+

fun audience_children :: "grpc_json list \<Rightarrow> (string set \<times> grpc_json list) option" where
  "audience_children [] = Some ({}, [])"
| "audience_children (cur # rest) =
     (case jkey cur of
        None \<Rightarrow> None
      | Some k \<Rightarrow>
          if k = ''aud'' then
            if jtype cur = JSON_ARRAY
            then Some (string_values (jchildren cur), Json JSON_STRING (Some ''aud'') (Some []) [] # rest)
            else if jtype cur = JSON_STRING \<and> jvalue cur \<noteq> None
            then Some ({the (jvalue cur)}, cur # rest)
            else Some ({}, cur # rest)
          else map_option (\<lambda>(auds, rest). (auds, cur # rest)) (audience_children rest))"

definition UpdateAudience ::
    "grpc_json \<Rightarrow> ('cl, 'pk, 'ec) jwt_validator \<Rightarrow> (grpc_json \<times> ('cl, 'pk, 'ec) jwt_validator) option" where
  "UpdateAudience json v =
     map_option (\<lambda>(auds, children). (Json (jtype json) (jkey json) (jvalue json) children,
                                      v\<lparr>v_audiences := v_audiences v \<union> auds\<rparr>))
       (audience_children (jchildren json))"

definition CreateJoseHeader ::
    "('cl, 'pk, 'ec) jwt_validator \<Rightarrow> (status \<times> ('cl, 'pk, 'ec) jwt_validator) option" where
  "CreateJoseHeader v = do {
     a \<leftarrow> GetStringValue (v_header_json v) (Some ''alg'');
     case a of
       None \<Rightarrow> Some (ToStatus ''Missing alg field.'', v)
     | Some a \<Rightarrow>
         if EvpMdFromAlg a = None \<and> \<not> has_prefix a ''ES256''
         then Some (ToStatus ''Failed to allocate memory.'', v)
         else do {
           k \<leftarrow> GetStringValue (v_header_json v) (Some ''kid'');
           Some (Status_OK, v\<lparr>v_header := Some \<lparr>alg = a, kid = k\<rparr>\<rparr>)
         }
   }"

text \<open>The last part of \<^verbatim>\<open>ParseImpl\<close>: the text signed and the signature; \<open>dot\<close> is the second dot.\<close>

definition ParseSignature ::
    "'cl jwt_lib \<Rightarrow> nat \<Rightarrow> ('cl, 'pk, 'ec) jwt_validator \<Rightarrow> (status \<times> ('cl, 'pk, 'ec) jwt_validator) option" where
  "ParseSignature lib dot v =
     (let v = v\<lparr>v_signed_buffer := take dot (v_jwt v)\<rparr>
      in if v_signed_buffer v = [] then Some (ToStatus ''Failed to allocate memory'', v)
         else
           let v = v\<lparr>v_sig_buffer := base64_decode lib (drop (dot + 1) (v_jwt v))\<rparr>
           in if v_sig_buffer v = [] then Some (ToStatus ''Bad JWT format: invalid base64 for signature'', v)
              else
                case v_header v of
                  None \<Rightarrow> None
                | Some h \<Rightarrow>
                    if has_prefix (alg h) ''ES256'' \<and> length (v_sig_buffer v) \<noteq> 2 * 32
                    then Some (ToStatus ''Bad JWT format: signature length is not correct'', v)
                    else Some (Status_OK, v))"

text \<open>The middle part: the claims between the dots; \<open>cur\<close> is the position after the first dot.\<close>

definition ParseClaims ::
    "'cl jwt_lib \<Rightarrow> int \<Rightarrow> nat \<Rightarrow> ('cl, 'pk, 'ec) jwt_validator \<Rightarrow>
     (status \<times> ('cl, 'pk, 'ec) jwt_validator) option" where
  "ParseClaims lib now cur v =
     (case str_find (CHR ''.'') (drop cur (c_string (v_jwt v))) of
        None \<Rightarrow> Some (ToStatus ''Bad JWT format: should have 2 dots'', v)
      | Some len \<Rightarrow>
          (case DecodeBase64AndParseJson lib (take len (drop cur (v_jwt v))) ''claims'' of
             Inl st \<Rightarrow> Some (st, v)
           | Inr json \<Rightarrow> do {
               (json, v) \<leftarrow> UpdateAudience json v;
               case claims_from_json lib json of
                 None \<Rightarrow> Some (ToStatus
                   ''Bad JWT format: invalid JWT claims; e.g. wrong data type, iss is not a string.'', v)
               | Some cl \<Rightarrow>
                   let v = v\<lparr>v_claims := Some cl\<rparr>
                   in if claims_issuer lib cl = None
                      then Some (ToStatus
                        ''Bad JWT format: invalid JWT claims; issuer is mssing but required.'', v)
                      else case claims_check lib now cl of
                             Some msg \<Rightarrow> Some (ToStatus msg, v)
                           | None \<Rightarrow> ParseSignature lib (cur + len) v
             }))"

definition ParseImpl ::
    "'cl jwt_lib \<Rightarrow> int \<Rightarrow> ('cl, 'pk, 'ec) jwt_validator \<Rightarrow>
     (status \<times> ('cl, 'pk, 'ec) jwt_validator) option" where
  "ParseImpl lib now v =
     (if v_jwt v = [] then Some (ToStatus ''Bad JWT format: empty token'', v)
      else
        case str_find (CHR ''.'') (c_string (v_jwt v)) of
          None \<Rightarrow> Some (ToStatus ''Bad JWT format: should have 2 dots'', v)
        | Some dot \<Rightarrow>
            (case DecodeBase64AndParseJson lib (take dot (v_jwt v)) ''header'' of
               Inl st \<Rightarrow> Some (st, v)
             | Inr json \<Rightarrow> do {
                 (st, v) \<leftarrow> CreateJoseHeader (v\<lparr>v_header_json := Some json\<rparr>);
                 if \<not> ok st then Some (st, v) else ParseClaims lib now (dot + 1) v
               }))"

definition FillUserInfoAndSetExp ::
    "'cl jwt_lib \<Rightarrow> user_info \<Rightarrow> ('cl, 'pk, 'ec) jwt_validator \<Rightarrow>
     (status \<times> user_info \<times> ('cl, 'pk, 'ec) jwt_validator) option" where
  "FillUserInfoAndSetExp lib ui v =
     (case v_claims v of
        None \<Rightarrow> Some (ToStatus ''Bad JWT format: missing issuer field.'', ui, v)
      | Some cl \<Rightarrow>
          (case claims_issuer lib cl of
             None \<Rightarrow> Some (ToStatus ''Bad JWT format: missing issuer field.'', ui, v)
           | Some issuer \<Rightarrow>
               if v_audiences v = {} then Some (ToStatus ''Bad JWT format: missing audience field.'', ui, v)
               else
                 let ui = (case claims_subject lib cl of None \<Rightarrow> ui | Some subject \<Rightarrow> ui\<lparr>ui_id := subject\<rparr>);
                     ui = ui\<lparr>ui_issuer := issuer, ui_audiences := v_audiences v\<rparr>;
                     ui = (case Option.bind (claims_json lib cl) (json_dump lib) of
                             None \<Rightarrow> ui | Some s \<Rightarrow> ui\<lparr>ui_claims := s\<rparr>)
                 in do {
                   email \<leftarrow> GetStringValue (claims_json lib cl) (Some ''email'');
                   azp \<leftarrow> GetStringValue (claims_json lib cl) (Some ''azp'');
                   Some (Status_OK,
                     ui\<lparr>ui_email := (case email of None \<Rightarrow> [] | Some e \<Rightarrow> e),
                        ui_authorized_party := (case azp of None \<Rightarrow> [] | Some a \<Rightarrow> a)\<rparr>,
                     v\<lparr>v_exp := claims_expires_at lib cl\<rparr>)
                 }))"

definition Parse ::
    "'cl jwt_lib \<Rightarrow> int \<Rightarrow> user_info \<Rightarrow> ('cl, 'pk, 'ec) jwt_validator \<Rightarrow>
     (status \<times> user_info \<times> ('cl, 'pk, 'ec) jwt_validator) option" where
  "Parse lib now ui v = do {
     (st, v) \<leftarrow> ParseImpl lib now v;
     if ok st then FillUserInfoAndSetExp lib ui v else Some (st, ui, v)
   }"

section \<open>Signatures\<close>

definition ExtractPubkeyFromX509 ::
    "('x, 'pk, 'ec, 'ctx) crypto_api \<Rightarrow> string \<Rightarrow> ('cl, 'pk, 'ec) jwt_validator \<Rightarrow>
     status \<times> ('cl, 'pk, 'ec) jwt_validator" where
  "ExtractPubkeyFromX509 crypto key v =
     (if BIO_write crypto key \<le> 0 then (ToStatus (''BIO write error for key'' @ key), v)
      else
        case PEM_read_bio_X509 crypto key of
          None \<Rightarrow> (ToStatus (''Unable to parse x509 cert for key'' @ key), v)
        | Some x \<Rightarrow>
            let v = v\<lparr>v_pkey := X509_get_pubkey crypto x\<rparr>
            in if v_pkey v = None then (ToStatus ''X509_get_pubkey failed'', v) else (Status_OK, v))"

definition ExtractPubkeyFromJwkRSA ::
    "'cl jwt_lib \<Rightarrow> ('x, 'pk, 'ec, 'ctx) crypto_api \<Rightarrow> grpc_json \<Rightarrow> ('cl, 'pk, 'ec) jwt_validator \<Rightarrow>
     (status \<times> ('cl, 'pk, 'ec) jwt_validator) option" where
  "ExtractPubkeyFromJwkRSA lib crypto jwk v = do {
     rsa_n \<leftarrow> GetStringValue (Some jwk) (Some ''n'');
     rsa_e \<leftarrow> GetStringValue (Some jwk) (Some ''e'');
     case (BigNumFromBase64String lib rsa_n, BigNumFromBase64String lib rsa_e) of
       (Some n, Some e) \<Rightarrow>
         let v = v\<lparr>v_pkey := EVP_PKEY_set1_RSA crypto n e\<rparr>
         in if v_pkey v = None then Some (ToStatus ''EVP_PKEY_ste1_RSA failed'', v) else Some (Status_OK, v)
     | _ \<Rightarrow> Some (ToStatus ''Missing RSA public key field.'', v)
   }"

definition ExtractPubkeyFromJwkEC ::
    "'cl jwt_lib \<Rightarrow> ('x, 'pk, 'ec, 'ctx) crypto_api \<Rightarrow> grpc_json \<Rightarrow> ('cl, 'pk, 'ec) jwt_validator \<Rightarrow>
     (status \<times> ('cl, 'pk, 'ec) jwt_validator) option" where
  "ExtractPubkeyFromJwkEC lib crypto jwk v = do {
     eck_x \<leftarrow> GetStringValue (Some jwk) (Some ''x'');
     eck_y \<leftarrow> GetStringValue (Some jwk) (Some ''y'');
     if eck_x = None \<or> eck_y = None then Some (ToStatus ''Missing EC public key field.'', v)
     else
       case (BigNumFromBase64String lib eck_x, BigNumFromBase64String lib eck_y) of
         (Some x, Some y) \<Rightarrow>
           (case EC_KEY_set_public_key_affine_coordinates crypto x y of
              None \<Rightarrow> Some (ToStatus ''Could not populate ec key coordinates.'', v)
            | Some eck \<Rightarrow> Some (Status_OK, v\<lparr>v_eck := Some eck\<rparr>))
       | _ \<Rightarrow> Some (ToStatus ''Could not generate BIGNUM-type x and y fields.'', v)
   }"

definition ExtractPubkeyFromJwk ::
    "'cl jwt_lib \<Rightarrow> ('x, 'pk, 'ec, 'ctx) crypto_api \<Rightarrow> jose_header \<Rightarrow> grpc_json \<Rightarrow>
     ('cl, 'pk, 'ec) jwt_validator \<Rightarrow> (status \<times> ('cl, 'pk, 'ec) jwt_validator) option" where
  "ExtractPubkeyFromJwk lib crypto h jwk v =
     (if has_prefix (alg h) ''RS'' then ExtractPubkeyFromJwkRSA lib crypto jwk v
      else if has_prefix (alg h) ''ES256'' then ExtractPubkeyFromJwkEC lib crypto jwk v
      else Some (ToStatus (''Not supported alg '' @ alg h), v))"

definition VerifyPubkeyEC ::
    "('x, 'pk, 'ec, 'ctx) crypto_api \<Rightarrow> ('cl, 'pk, 'ec) jwt_validator \<Rightarrow> status" where
  "VerifyPubkeyEC crypto v =
     (case v_eck v of
        None \<Rightarrow> ToStatus ''Cannot find eck.''
      | Some eck \<Rightarrow>
          if ECDSA_do_verify crypto (SHA256 crypto (v_signed_buffer v))
               (take 32 (v_sig_buffer v), take 32 (drop 32 (v_sig_buffer v))) eck = 0
          then ToStatus ''JWT signature verification failed.''
          else Status_OK)"

text \<open>\<^verbatim>\<open>GPR_ASSERT\<close> ends the process: \<open>None\<close>.\<close>

definition VerifyPubkeyRSA ::
    "('x, 'pk, 'ec, 'ctx) crypto_api \<Rightarrow> jose_header \<Rightarrow> ('cl, 'pk, 'ec) jwt_validator \<Rightarrow> status option" where
  "VerifyPubkeyRSA crypto h v =
     (case v_pkey v of
        None \<Rightarrow> Some (ToStatus ''Cannot find public key.'')
      | Some pkey \<Rightarrow>
          (case EvpMdFromAlg (alg h) of
             None \<Rightarrow> None
           | Some md \<Rightarrow>
               Some (case EVP_DigestVerifyInit crypto md pkey of
                  None \<Rightarrow> ToStatus ''EVP_DigestVerifyInit failed.''
                | Some ctx \<Rightarrow>
                    (case EVP_DigestVerifyUpdate crypto ctx (v_signed_buffer v) of
                       None \<Rightarrow> ToStatus ''EVP_DigestVerifyUpdate failed.''
                     | Some ctx \<Rightarrow>
                         if EVP_DigestVerifyFinal crypto ctx (v_sig_buffer v) \<noteq> 1
                         then ToStatus ''JWT signature verification failed.''
                         else Status_OK))))"

definition VerifyPubkey ::
    "('x, 'pk, 'ec, 'ctx) crypto_api \<Rightarrow> jose_header \<Rightarrow> ('cl, 'pk, 'ec) jwt_validator \<Rightarrow> status option" where
  "VerifyPubkey crypto h v =
     (if has_prefix (alg h) ''RS'' then VerifyPubkeyRSA crypto h v
      else if has_prefix (alg h) ''ES256'' then Some (VerifyPubkeyEC crypto v)
      else Some (ToStatus (''Not supported alg '' @ alg h)))"

text \<open>The loops over the keys.\<close>

fun try_x509_keys ::
    "('x, 'pk, 'ec, 'ctx) crypto_api \<Rightarrow> jose_header \<Rightarrow> grpc_json list \<Rightarrow> ('cl, 'pk, 'ec) jwt_validator \<Rightarrow>
     (status \<times> ('cl, 'pk, 'ec) jwt_validator) option" where
  "try_x509_keys crypto h [] v = Some (ToStatus ''The JWT cannot be validated with any of the public keys.'', v)"
| "try_x509_keys crypto h (cur # rest) v =
     (case jvalue cur of
        None \<Rightarrow> try_x509_keys crypto h rest v
      | Some key \<Rightarrow>
          (case ExtractPubkeyFromX509 crypto key v of (st, v) \<Rightarrow>
             if \<not> ok st then try_x509_keys crypto h rest v
             else do {
               st \<leftarrow> VerifyPubkey crypto h v;
               if ok st then Some (Status_OK, v) else try_x509_keys crypto h rest v
             }))"

definition ExtractAndVerifyX509Keys ::
    "('x, 'pk, 'ec, 'ctx) crypto_api \<Rightarrow> jose_header \<Rightarrow> grpc_json \<Rightarrow> ('cl, 'pk, 'ec) jwt_validator \<Rightarrow>
     (status \<times> ('cl, 'pk, 'ec) jwt_validator) option" where
  "ExtractAndVerifyX509Keys crypto h pkey_json v =
     (case kid h of
        Some k \<Rightarrow> do {
          val \<leftarrow> GetStringValue (Some pkey_json) (Some k);
          case val of
            None \<Rightarrow> Some (ToStatus (''Could not find matching key in public key set for kid='' @ k), v)
          | Some key \<Rightarrow>
              (case ExtractPubkeyFromX509 crypto key v of (st, v) \<Rightarrow>
                 if \<not> ok st
                 then Some (ToStatus (''Failed to extract public key from X509 for kid='' @ k), v)
                 else do { st \<leftarrow> VerifyPubkey crypto h v; Some (st, v) })
        }
      | None \<Rightarrow>
          if jchildren pkey_json = []
          then Some (ToStatus ''Failed to extract public key from X509 for kid='', v)
          else try_x509_keys crypto h (jchildren pkey_json) v)"

definition unsupported_key_type :: "jose_header \<Rightarrow> string option \<Rightarrow> bool" where
  "unsupported_key_type h kty \<longleftrightarrow>
     (case kty of
        None \<Rightarrow> True
      | Some kty \<Rightarrow> (has_prefix (alg h) ''RS'' \<and> \<not> has_prefix kty ''RSA'') \<or>
                    (has_prefix (alg h) ''ES256'' \<and> \<not> has_prefix kty ''EC''))"

fun try_jwk_keys ::
    "'cl jwt_lib \<Rightarrow> ('x, 'pk, 'ec, 'ctx) crypto_api \<Rightarrow> jose_header \<Rightarrow> grpc_json list \<Rightarrow>
     ('cl, 'pk, 'ec) jwt_validator \<Rightarrow> (status \<times> ('cl, 'pk, 'ec) jwt_validator) option" where
  "try_jwk_keys lib crypto h [] v =
     Some (case kid h of
             Some k \<Rightarrow> ToStatus (''Cannot find matching key in key set for kid='' @ k)
           | None \<Rightarrow> ToStatus ''The JWT cannot be validated with any of the public keys.'', v)"
| "try_jwk_keys lib crypto h (jwk # rest) v =
     (if jtype jwk \<noteq> JSON_OBJECT then try_jwk_keys lib crypto h rest v
      else do {
        key_id \<leftarrow> GetStringValue (Some jwk) (Some ''kid'');
        if key_id = None \<or> kid h \<noteq> None \<and> key_id \<noteq> kid h then try_jwk_keys lib crypto h rest v
        else do {
          kty \<leftarrow> GetStringValue (Some jwk) (Some ''kty'');
          if unsupported_key_type h kty then try_jwk_keys lib crypto h rest v
          else do {
            (st, v) \<leftarrow> ExtractPubkeyFromJwk lib crypto h jwk v;
            if \<not> ok st then try_jwk_keys lib crypto h rest v
            else do {
              st \<leftarrow> VerifyPubkey crypto h v;
              if kid h \<noteq> None then Some (st, v)
              else if ok st then Some (Status_OK, v)
              else try_jwk_keys lib crypto h rest v
            }
          }
        }
      })"

definition ExtractAndVerifyJwkKeys ::
    "'cl jwt_lib \<Rightarrow> ('x, 'pk, 'ec, 'ctx) crypto_api \<Rightarrow> jose_header \<Rightarrow> grpc_json \<Rightarrow>
     ('cl, 'pk, 'ec) jwt_validator \<Rightarrow> (status \<times> ('cl, 'pk, 'ec) jwt_validator) option" where
  "ExtractAndVerifyJwkKeys lib crypto h jwk_keys v =
     (if jtype jwk_keys \<noteq> JSON_ARRAY
      then Some (ToStatus ''Unexpected value type of keys property in jwks key set.'', v)
      else if jchildren jwk_keys = [] then Some (ToStatus ''The jwks key set is empty'', v)
      else try_jwk_keys lib crypto h (jchildren jwk_keys) v)"

definition FindAndVerifySignature ::
    "'cl jwt_lib \<Rightarrow> ('x, 'pk, 'ec, 'ctx) crypto_api \<Rightarrow> ('cl, 'pk, 'ec) jwt_validator \<Rightarrow>
     (status \<times> ('cl, 'pk, 'ec) jwt_validator) option" where
  "FindAndVerifySignature lib crypto v =
     (case v_pkey_json v of
        None \<Rightarrow> Some (ToStatus ''The public keys are empty.'', v)
      | Some pkey_json \<Rightarrow>
          (case v_header v of
             None \<Rightarrow> Some (ToStatus ''Bad JWT format: JWT header is empty.'', v)
           | Some h \<Rightarrow> do {
               jwk_keys \<leftarrow> GetProperty (Some pkey_json) (Some ''keys'');
               case jwk_keys of
                 None \<Rightarrow>
                   if has_prefix (alg h) ''ES256''
                   then Some (ToStatus ''Invalid public key: keys field is missing.'', v)
                   else ExtractAndVerifyX509Keys crypto h pkey_json v
               | Some jwk_keys \<Rightarrow> ExtractAndVerifyJwkKeys lib crypto h jwk_keys v
             }))"

definition VerifyAsymSignature ::
    "'cl jwt_lib \<Rightarrow> ('x, 'pk, 'ec, 'ctx) crypto_api \<Rightarrow> string \<Rightarrow> ('cl, 'pk, 'ec) jwt_validator \<Rightarrow>
     (status \<times> ('cl, 'pk, 'ec) jwt_validator) option" where
  "VerifyAsymSignature lib crypto pkey v =
     (let v = v\<lparr>v_pkey_json := json_parse lib pkey\<rparr>
      in if v_pkey_json v = None then Some (ToStatus ''Invalid JSON for public key'', v)
         else FindAndVerifySignature lib crypto v)"

text \<open>
  The HMAC is written into a buffer of \<^verbatim>\<open>HashSizeFromAlg\<close> bytes: a longer one is a write past
  its end, \<open>None\<close>.
\<close>

definition VerifyHsSignature ::
    "'cl jwt_lib \<Rightarrow> ('x, 'pk, 'ec, 'ctx) crypto_api \<Rightarrow> jose_header \<Rightarrow> string \<Rightarrow>
     ('cl, 'pk, 'ec) jwt_validator \<Rightarrow> status option" where
  "VerifyHsSignature lib crypto h pkey v =
     (case EvpMdFromAlg (alg h) of
        None \<Rightarrow> None
      | Some md \<Rightarrow>
          let key = base64_decode lib pkey
          in if key = []
             then Some (ToStatus ''Invalid base64 encoded HS symmetric key. Most likely JWT alg is HS, but public key is ES or RSA.'')
             else
               let res = HMAC crypto md key (v_signed_buffer v)
               in if HashSizeFromAlg (alg h) < length res then None
                  else if res = [] then Some (ToStatus ''Cannot compute HMAC from the public key.'')
                  else if length res \<noteq> length (v_sig_buffer v) \<or> v_sig_buffer v \<noteq> res
                  then Some (ToStatus ''JWT signature verification failed.'')
                  else Some Status_OK)"

definition VerifySignature ::
    "'cl jwt_lib \<Rightarrow> ('x, 'pk, 'ec, 'ctx) crypto_api \<Rightarrow> string \<Rightarrow> ('cl, 'pk, 'ec) jwt_validator \<Rightarrow>
     (status \<times> ('cl, 'pk, 'ec) jwt_validator) option" where
  "VerifySignature lib crypto pkey v =
     (if pkey = [] then Some (ToStatus ''Bad public key format: Public key is empty'', v)
      else if v_jwt v = [] then Some (ToStatus ''Bad JWT format: JWT is empty'', v)
      else if v_signed_buffer v = [] \<or> v_sig_buffer v = []
      then Some (ToStatus ''Bad JWT format: JWT signature is empty'', v)
      else
        case v_header v of
          None \<Rightarrow> None
        | Some h \<Rightarrow>
            if has_prefix (alg h) ''ES256'' \<or> has_prefix (alg h) ''RS''
            then VerifyAsymSignature lib crypto pkey v
            else map_option (\<lambda>st. (st, v)) (VerifyHsSignature lib crypto h pkey v))"

section \<open>What a parsed token is\<close>

lemma ok_ToStatus [simp]: "\<not> ok (ToStatus msg)"
  by (simp add: ToStatus_def Status_def Status3_def ok_def)

lemma c_string_find:
  assumes "str_find c (drop n (c_string s)) = Some i" "n \<le> length (c_string s)"
  shows "drop n s = take i (drop n s) @ c # drop (n + i + 1) s \<and> c \<notin> set (take i (drop n s))"
proof -
  define d where "d = drop n (c_string s)"
  obtain r where "s = c_string s @ r" unfolding c_string_def by (metis takeWhile_dropWhile_id)
  then have s: "drop n s = d @ r" using assms(2) by (metis d_def drop_append diff_is_0_eq drop_0)
  have i: "i < length d" "d ! i = c" "c \<notin> set (take i d)"
    using str_find_Some [OF assms(1)] by (auto simp: d_def)
  have "d = take i d @ c # drop (Suc i) d" using id_take_nth_drop [OF i(1)] i(2) by simp
  moreover have "drop (n + i + 1) s = drop (Suc i) (drop n s)" by (simp add: add.commute)
  ultimately show ?thesis unfolding s using i(1,3) by (simp add: less_imp_le)
qed

text \<open>The algorithms the header may name.\<close>

definition supported_alg :: "string \<Rightarrow> bool" where
  "supported_alg a \<longleftrightarrow> a \<in> {''RS256'', ''RS384'', ''RS512'', ''HS256'', ''HS384'', ''HS512''} \<or> has_prefix a ''ES256''"

lemma EvpMdFromAlg_supported: "supported_alg a \<longleftrightarrow> EvpMdFromAlg a \<noteq> None \<or> has_prefix a ''ES256''"
  by (auto simp: EvpMdFromAlg_def supported_alg_def)

lemma CreateJoseHeader_ok:
  assumes "CreateJoseHeader v = Some (st, v')" "ok st"
  shows "\<exists>h. v' = v\<lparr>v_header := Some h\<rparr> \<and> supported_alg (alg h) \<and>
    GetStringValue (v_header_json v) (Some ''alg'') = Some (Some (alg h)) \<and>
    GetStringValue (v_header_json v) (Some ''kid'') = Some (kid h)"
proof -
  obtain a where a: "GetStringValue (v_header_json v) (Some ''alg'') = Some (Some a)"
    using assms by (auto simp: CreateJoseHeader_def bind_eq_Some_conv split: option.splits)
  have s: "supported_alg a"
    using assms a unfolding EvpMdFromAlg_supported by (auto simp: CreateJoseHeader_def split: if_splits)
  obtain k where k: "GetStringValue (v_header_json v) (Some ''kid'') = Some k"
    using assms a s unfolding EvpMdFromAlg_supported by (auto simp: CreateJoseHeader_def bind_eq_Some_conv)
  have "v' = v\<lparr>v_header := Some \<lparr>alg = a, kid = k\<rparr>\<rparr>"
    using assms a k s unfolding EvpMdFromAlg_supported by (auto simp: CreateJoseHeader_def)
  then show ?thesis using a k s by auto
qed

lemma ParseSignature_ok:
  assumes "ParseSignature lib dot v = Some (st, v')" "ok st"
  shows "\<exists>h. v_header v = Some h \<and> v' = v\<lparr>v_signed_buffer := take dot (v_jwt v),
      v_sig_buffer := base64_decode lib (drop (dot + 1) (v_jwt v))\<rparr> \<and>
    take dot (v_jwt v) \<noteq> [] \<and> base64_decode lib (drop (dot + 1) (v_jwt v)) \<noteq> [] \<and>
    (has_prefix (alg h) ''ES256'' \<longrightarrow> length (v_sig_buffer v') = 64)"
  using assms by (auto simp: ParseSignature_def Let_def split: option.splits if_splits)

lemma ParseClaims_ok:
  assumes "ParseClaims lib now cur v = Some (st, v')" "ok st"
  obtains len json auds children cl h where
    "str_find (CHR ''.'') (drop cur (c_string (v_jwt v))) = Some len"
    "json_parse lib (base64_decode lib (take len (drop cur (v_jwt v)))) = Some json"
    "audience_children (jchildren json) = Some (auds, children)"
    "claims_from_json lib (Json (jtype json) (jkey json) (jvalue json) children) = Some cl"
    "claims_issuer lib cl \<noteq> None" "claims_check lib now cl = None" "v_header v = Some h"
    "v' = v\<lparr>v_audiences := v_audiences v \<union> auds, v_claims := Some cl, v_signed_buffer := take (cur + len) (v_jwt v),
       v_sig_buffer := base64_decode lib (drop (cur + len + 1) (v_jwt v))\<rparr>"
    "take (cur + len) (v_jwt v) \<noteq> []" "v_sig_buffer v' \<noteq> []"
    "has_prefix (alg h) ''ES256'' \<longrightarrow> length (v_sig_buffer v') = 64"
proof -
  obtain len where 1: "str_find (CHR ''.'') (drop cur (c_string (v_jwt v))) = Some len"
    using assms by (auto simp: ParseClaims_def split: option.splits)
  obtain json where 2: "DecodeBase64AndParseJson lib (take len (drop cur (v_jwt v))) ''claims'' = Inr json"
    using assms 1 by (auto simp: ParseClaims_def DecodeBase64AndParseJson_def Let_def split: option.splits if_splits sum.splits)
  obtain auds children where 3: "audience_children (jchildren json) = Some (auds, children)"
    using assms 1 2 by (auto simp: ParseClaims_def UpdateAudience_def bind_eq_Some_conv)
  let ?json = "Json (jtype json) (jkey json) (jvalue json) children"
  obtain cl where 4: "claims_from_json lib ?json = Some cl"
    using assms 1 2 3 by (auto simp: ParseClaims_def UpdateAudience_def split: option.splits)
  let ?v = "v\<lparr>v_audiences := v_audiences v \<union> auds, v_claims := Some cl\<rparr>"
  have 5: "claims_issuer lib cl \<noteq> None" "claims_check lib now cl = None" "ParseSignature lib (cur + len) ?v = Some (st, v')"
    using assms 1 2 3 4 by (auto simp: ParseClaims_def UpdateAudience_def Let_def split: option.splits if_splits)
  have "json_parse lib (base64_decode lib (take len (drop cur (v_jwt v)))) = Some json"
    using 2 by (auto simp: DecodeBase64AndParseJson_def Let_def split: option.splits if_splits)
  moreover obtain h where h: "v_header v = Some h" "v' = ?v\<lparr>v_signed_buffer := take (cur + len) (v_jwt v),
      v_sig_buffer := base64_decode lib (drop (cur + len + 1) (v_jwt v))\<rparr>"
      "take (cur + len) (v_jwt v) \<noteq> []" "base64_decode lib (drop (cur + len + 1) (v_jwt v)) \<noteq> []"
      "has_prefix (alg h) ''ES256'' \<longrightarrow> length (v_sig_buffer v') = 64"
    using ParseSignature_ok [OF 5(3) assms(2)] by auto
  moreover from h have "v_sig_buffer v' \<noteq> []" by simp
  ultimately show thesis using that [OF 1 _ 3 4 5(1,2)] by simp
qed

lemma ParseImpl_ok:
  assumes "ParseImpl lib now (JwtValidatorImpl jwt) = Some (st, v)" "ok st"
  obtains h p s hjson cjson auds children cl hd where
    "jwt = h @ ''.'' @ p @ ''.'' @ s" "CHR ''.'' \<notin> set h" "CHR ''.'' \<notin> set p"
    "json_parse lib (base64_decode lib h) = Some hjson" "supported_alg (alg hd)"
    "GetStringValue (Some hjson) (Some ''alg'') = Some (Some (alg hd))"
    "GetStringValue (Some hjson) (Some ''kid'') = Some (kid hd)"
    "json_parse lib (base64_decode lib p) = Some cjson"
    "audience_children (jchildren cjson) = Some (auds, children)"
    "claims_from_json lib (Json (jtype cjson) (jkey cjson) (jvalue cjson) children) = Some cl"
    "claims_issuer lib cl \<noteq> None" "claims_check lib now cl = None"
    "v = (JwtValidatorImpl jwt)\<lparr>v_header := Some hd, v_header_json := Some hjson, v_claims := Some cl,
       v_audiences := auds, v_signed_buffer := h @ ''.'' @ p, v_sig_buffer := base64_decode lib s\<rparr>"
    "base64_decode lib s \<noteq> []" "has_prefix (alg hd) ''ES256'' \<longrightarrow> length (base64_decode lib s) = 64"
proof -
  let ?v0 = "JwtValidatorImpl jwt :: ('a, 'b, 'c) jwt_validator"
  have vj: "v_jwt ?v0 = jwt" by (simp add: JwtValidatorImpl_def)
  obtain dot where dot: "str_find (CHR ''.'') (c_string jwt) = Some dot"
    using assms by (auto simp: ParseImpl_def vj split: option.splits if_splits)
  obtain hjson where hj: "DecodeBase64AndParseJson lib (take dot jwt) ''header'' = Inr hjson"
    using assms dot by (auto simp: ParseImpl_def DecodeBase64AndParseJson_def vj Let_def split: option.splits if_splits sum.splits)
  let ?v1 = "?v0\<lparr>v_header_json := Some hjson\<rparr>"
  obtain st1 v1 where c: "CreateJoseHeader ?v1 = Some (st1, v1)"
    using assms dot hj by (auto simp: ParseImpl_def vj bind_eq_Some_conv split: if_splits)
  have ok1: "ok st1" "ParseClaims lib now (dot + 1) v1 = Some (st, v)"
    using assms dot hj c by (auto simp: ParseImpl_def vj split: if_splits)
  obtain hd where hd: "v1 = ?v1\<lparr>v_header := Some hd\<rparr>" "supported_alg (alg hd)"
      "GetStringValue (Some hjson) (Some ''alg'') = Some (Some (alg hd))"
      "GetStringValue (Some hjson) (Some ''kid'') = Some (kid hd)"
    using CreateJoseHeader_ok [OF c ok1(1)] by auto
  have v1j: "v_jwt v1 = jwt" by (simp add: hd(1) vj)
  obtain len cjson auds children cl h where cl:
    "str_find (CHR ''.'') (drop (dot + 1) (c_string jwt)) = Some len"
    "json_parse lib (base64_decode lib (take len (drop (dot + 1) jwt))) = Some cjson"
    "audience_children (jchildren cjson) = Some (auds, children)"
    "claims_from_json lib (Json (jtype cjson) (jkey cjson) (jvalue cjson) children) = Some cl"
    "claims_issuer lib cl \<noteq> None" "claims_check lib now cl = None" "v_header v1 = Some h"
    "v = v1\<lparr>v_audiences := v_audiences v1 \<union> auds, v_claims := Some cl, v_signed_buffer := take (dot + 1 + len) jwt,
       v_sig_buffer := base64_decode lib (drop (dot + 1 + len + 1) jwt)\<rparr>"
    "v_sig_buffer v \<noteq> []" "has_prefix (alg h) ''ES256'' \<longrightarrow> length (v_sig_buffer v) = 64"
    using ParseClaims_ok [OF ok1(2) assms(2)] unfolding v1j by metis
  define a b s where "a = take dot jwt" and "b = take len (drop (dot + 1) jwt)" and "s = drop (dot + 1 + len + 1) jwt"
  have "dot < length (c_string jwt)" using str_find_Some [OF dot] by simp
  then have 1: "jwt = a @ CHR ''.'' # drop (dot + 1) jwt" "CHR ''.'' \<notin> set a" "length a = dot"
    and 2: "drop (dot + 1) jwt = b @ CHR ''.'' # s" "CHR ''.'' \<notin> set b"
    using c_string_find [of "CHR ''.''" 0 jwt dot] dot c_string_find [OF cl(1)]
    by (auto simp: a_def b_def s_def add.assoc c_string_def dest: order.strict_trans2 [OF _ length_takeWhile_le])
  have jwt: "jwt = a @ ''.'' @ b @ ''.'' @ s" using 1(1) 2(1) by simp
  have "len < length (drop (dot + 1) (c_string jwt))" using str_find_Some [OF cl(1)] by simp
  then have "length b = len" using length_takeWhile_le [of "\<lambda>c. c \<noteq> CHR 0x00" jwt] by (simp add: b_def c_string_def)
  then have sg: "take (dot + 1 + len) jwt = a @ ''.'' @ b" using 1(3) by (subst jwt) simp
  have "json_parse lib (base64_decode lib a) = Some hjson"
    using hj by (auto simp: a_def DecodeBase64AndParseJson_def Let_def split: option.splits if_splits)
  moreover have "v = ?v0\<lparr>v_header := Some hd, v_header_json := Some hjson, v_claims := Some cl,
       v_audiences := auds, v_signed_buffer := a @ ''.'' @ b, v_sig_buffer := base64_decode lib s\<rparr>"
    using cl(8) hd(1) sg by (simp add: s_def JwtValidatorImpl_def)
  moreover have "h = hd" using cl(7) hd(1) by simp
  ultimately show thesis
    using that [OF jwt 1(2) 2(2) _ hd(2-4) _ cl(3-6)] cl(2,9,10) by (simp add: b_def)
qed

lemma FillUserInfoAndSetExp_ok:
  assumes "FillUserInfoAndSetExp lib ui v = Some (st, ui', v')" "ok st"
  shows "\<exists>cl. v_claims v = Some cl \<and> v_audiences v \<noteq> {} \<and> claims_issuer lib cl = Some (ui_issuer ui') \<and>
    ui_audiences ui' = v_audiences v \<and> v' = v\<lparr>v_exp := claims_expires_at lib cl\<rparr>"
proof -
  obtain cl issuer where cl: "v_claims v = Some cl" "claims_issuer lib cl = Some issuer" "v_audiences v \<noteq> {}"
    using assms unfolding FillUserInfoAndSetExp_def by (auto split: option.splits if_splits)
  then show ?thesis
    using assms unfolding FillUserInfoAndSetExp_def
    by (cases "Option.bind (claims_json lib cl) (json_dump lib)"; cases "claims_subject lib cl")
       (auto simp: Let_def bind_eq_Some_conv)
qed

lemma Parse_ok:
  assumes "Parse lib now ui (JwtValidatorImpl jwt) = Some (st, ui', v)" and "ok st"
  shows "\<exists>h p s hjson cjson auds children cl hd.
    jwt = h @ ''.'' @ p @ ''.'' @ s \<and> CHR ''.'' \<notin> set h \<and> CHR ''.'' \<notin> set p \<and>
    json_parse lib (base64_decode lib h) = Some hjson \<and> v_header v = Some hd \<and> supported_alg (alg hd) \<and>
    GetStringValue (Some hjson) (Some ''alg'') = Some (Some (alg hd)) \<and>
    json_parse lib (base64_decode lib p) = Some cjson \<and>
    audience_children (jchildren cjson) = Some (auds, children) \<and> auds \<noteq> {} \<and>
    claims_from_json lib (Json (jtype cjson) (jkey cjson) (jvalue cjson) children) = Some cl \<and>
    claims_check lib now cl = None \<and>
    claims_issuer lib cl = Some (ui_issuer ui') \<and> ui_audiences ui' = auds \<and>
    v_exp v = claims_expires_at lib cl \<and> v_signed_buffer v = h @ ''.'' @ p \<and>
    v_sig_buffer v = base64_decode lib s \<and> v_sig_buffer v \<noteq> [] \<and>
    (has_prefix (alg hd) ''ES256'' \<longrightarrow> length (v_sig_buffer v) = 64)"
proof -
  let ?v0 = "JwtValidatorImpl jwt :: ('a, 'b, 'c) jwt_validator"
  obtain st1 v1 where 1: "ParseImpl lib now ?v0 = Some (st1, v1)"
    using assms by (auto simp: Parse_def bind_eq_Some_conv)
  have 2: "ok st1" "FillUserInfoAndSetExp lib ui v1 = Some (st, ui', v)"
    using assms 1 by (auto simp: Parse_def split: if_splits)
  obtain h p s hjson cjson auds children cl hd where p:
    "jwt = h @ ''.'' @ p @ ''.'' @ s" "CHR ''.'' \<notin> set h" "CHR ''.'' \<notin> set p"
    "json_parse lib (base64_decode lib h) = Some hjson" "supported_alg (alg hd)"
    "GetStringValue (Some hjson) (Some ''alg'') = Some (Some (alg hd))"
    "json_parse lib (base64_decode lib p) = Some cjson"
    "audience_children (jchildren cjson) = Some (auds, children)"
    "claims_from_json lib (Json (jtype cjson) (jkey cjson) (jvalue cjson) children) = Some cl"
    "claims_issuer lib cl \<noteq> None" "claims_check lib now cl = None"
    "v1 = ?v0\<lparr>v_header := Some hd, v_header_json := Some hjson, v_claims := Some cl,
       v_audiences := auds, v_signed_buffer := h @ ''.'' @ p, v_sig_buffer := base64_decode lib s\<rparr>"
    "base64_decode lib s \<noteq> []" "has_prefix (alg hd) ''ES256'' \<longrightarrow> length (base64_decode lib s) = 64"
    using 1 2(1) by (rule ParseImpl_ok)
  have f: "auds \<noteq> {} \<and> claims_issuer lib cl = Some (ui_issuer ui') \<and> ui_audiences ui' = auds \<and>
      v = v1\<lparr>v_exp := claims_expires_at lib cl\<rparr>"
    using FillUserInfoAndSetExp_ok [OF 2(2) assms(2)] by (simp add: p(12))
  show ?thesis
    by (intro exI conjI) (use p f in \<open>simp_all\<close>)
qed

text \<open>
  C18: what a successful \<^verbatim>\<open>Parse\<close> means: the token is three parts separated by its first two
  dots; the header is a JSON text with a supported algorithm; the claims are a JSON text that
  the claims check accepted, with an issuer and at least one audience, which are the ones
  handed on; the text to be verified is the first two parts of the token, byte for byte, and
  the signature is the decoded third part, of 64 bytes for an ECDSA algorithm.
\<close>

theorem Parse_ok_token:
  assumes "Parse lib now ui (JwtValidatorImpl jwt) = Some (st, ui', v)" and "ok st"
  shows "\<exists>h p s hjson cjson auds children cl hd.
    jwt = h @ ''.'' @ p @ ''.'' @ s \<and> CHR ''.'' \<notin> set h \<and> CHR ''.'' \<notin> set p \<and>
    json_parse lib (base64_decode lib h) = Some hjson \<and> v_header v = Some hd \<and> supported_alg (alg hd) \<and>
    GetStringValue (Some hjson) (Some ''alg'') = Some (Some (alg hd)) \<and>
    json_parse lib (base64_decode lib p) = Some cjson \<and>
    audience_children (jchildren cjson) = Some (auds, children) \<and> auds \<noteq> {} \<and>
    claims_from_json lib (Json (jtype cjson) (jkey cjson) (jvalue cjson) children) = Some cl \<and>
    claims_check lib now cl = None \<and>
    claims_issuer lib cl = Some (ui_issuer ui') \<and> ui_audiences ui' = auds \<and>
    v_exp v = claims_expires_at lib cl \<and> v_signed_buffer v = h @ ''.'' @ p \<and>
    v_sig_buffer v = base64_decode lib s \<and> v_sig_buffer v \<noteq> [] \<and>
    (has_prefix (alg hd) ''ES256'' \<longrightarrow> length (v_sig_buffer v) = 64)"
  using assms by (rule Parse_ok)

section \<open>What a verified signature is\<close>

definition rsa_valid :: "('x, 'pk, 'ec, 'ctx) crypto_api \<Rightarrow> string \<Rightarrow> 'pk \<Rightarrow> string \<Rightarrow> string \<Rightarrow> bool" where
  "rsa_valid crypto a pk msg sig \<longleftrightarrow> (\<exists>md ctx ctx'. EvpMdFromAlg a = Some md \<and>
     EVP_DigestVerifyInit crypto md pk = Some ctx \<and> EVP_DigestVerifyUpdate crypto ctx msg = Some ctx' \<and>
     EVP_DigestVerifyFinal crypto ctx' sig = 1)"

definition ec_valid :: "('x, 'pk, 'ec, 'ctx) crypto_api \<Rightarrow> 'ec \<Rightarrow> string \<Rightarrow> string \<Rightarrow> bool" where
  "ec_valid crypto ec msg sig \<longleftrightarrow>
     ECDSA_do_verify crypto (SHA256 crypto msg) (take 32 sig, take 32 (drop 32 sig)) ec \<noteq> 0"

text \<open>The number of a field of a key.\<close>

definition key_number :: "'cl jwt_lib \<Rightarrow> grpc_json \<Rightarrow> string \<Rightarrow> string option" where
  "key_number lib jwk name = Option.bind (GetStringValue (Some jwk) (Some name)) (BigNumFromBase64String lib)"

definition jwk_valid ::
    "'cl jwt_lib \<Rightarrow> ('x, 'pk, 'ec, 'ctx) crypto_api \<Rightarrow> jose_header \<Rightarrow> string \<Rightarrow> string \<Rightarrow> grpc_json \<Rightarrow> bool" where
  "jwk_valid lib crypto h msg sig jwk \<longleftrightarrow> jtype jwk = JSON_OBJECT \<and>
     (\<exists>k. GetStringValue (Some jwk) (Some ''kid'') = Some (Some k) \<and> (kid h = None \<or> kid h = Some k)) \<and>
     (\<exists>kty. GetStringValue (Some jwk) (Some ''kty'') = Some kty \<and> \<not> unsupported_key_type h kty) \<and>
     (if has_prefix (alg h) ''RS''
      then \<exists>n e pk. key_number lib jwk ''n'' = Some n \<and> key_number lib jwk ''e'' = Some e \<and>
             EVP_PKEY_set1_RSA crypto n e = Some pk \<and> rsa_valid crypto (alg h) pk msg sig
      else \<exists>x y ec. key_number lib jwk ''x'' = Some x \<and> key_number lib jwk ''y'' = Some y \<and>
             EC_KEY_set_public_key_affine_coordinates crypto x y = Some ec \<and> ec_valid crypto ec msg sig)"

definition x509_valid ::
    "('x, 'pk, 'ec, 'ctx) crypto_api \<Rightarrow> jose_header \<Rightarrow> string \<Rightarrow> string \<Rightarrow> string \<Rightarrow> bool" where
  "x509_valid crypto h msg sig key \<longleftrightarrow> (\<exists>x pk. 0 < BIO_write crypto key \<and>
     PEM_read_bio_X509 crypto key = Some x \<and> X509_get_pubkey crypto x = Some pk \<and>
     rsa_valid crypto (alg h) pk msg sig)"

text \<open>The keys of a set that may verify the token, and a shared secret.\<close>

definition signature_valid ::
    "'cl jwt_lib \<Rightarrow> ('x, 'pk, 'ec, 'ctx) crypto_api \<Rightarrow> jose_header \<Rightarrow> string \<Rightarrow> string \<Rightarrow> string \<Rightarrow> bool" where
  "signature_valid lib crypto h key msg sig \<longleftrightarrow>
     (if has_prefix (alg h) ''ES256'' \<or> has_prefix (alg h) ''RS''
      then \<exists>j. json_parse lib key = Some j \<and>
        (case GetProperty (Some j) (Some ''keys'') of
           None \<Rightarrow> False
         | Some (Some ks) \<Rightarrow> jtype ks = JSON_ARRAY \<and> (\<exists>jwk \<in> set (jchildren ks). jwk_valid lib crypto h msg sig jwk)
         | Some None \<Rightarrow> has_prefix (alg h) ''RS'' \<and>
             (case kid h of
                Some k \<Rightarrow> \<exists>key. GetStringValue (Some j) (Some k) = Some (Some key) \<and> x509_valid crypto h msg sig key
              | None \<Rightarrow> \<exists>c \<in> set (jchildren j). \<exists>key. jvalue c = Some key \<and> x509_valid crypto h msg sig key))
      else \<exists>md. EvpMdFromAlg (alg h) = Some md \<and> base64_decode lib key \<noteq> [] \<and> sig \<noteq> [] \<and>
        HMAC crypto md (base64_decode lib key) msg = sig)"

text \<open>Extracting a key touches neither the text nor the signature.\<close>

definition same_text :: "('cl, 'pk, 'ec) jwt_validator \<Rightarrow> ('cl, 'pk, 'ec) jwt_validator \<Rightarrow> bool" where
  "same_text v v' \<longleftrightarrow> v_signed_buffer v' = v_signed_buffer v \<and> v_sig_buffer v' = v_sig_buffer v"

lemma RS_not_ES: "has_prefix a ''RS'' \<Longrightarrow> \<not> has_prefix a ''ES256''"
  by (cases a) (auto simp: has_prefix_def)

lemma VerifyPubkeyRSA_ok:
  "VerifyPubkeyRSA crypto h v = Some st \<Longrightarrow>
     ok st \<longleftrightarrow> (\<exists>pk. v_pkey v = Some pk \<and> rsa_valid crypto (alg h) pk (v_signed_buffer v) (v_sig_buffer v))"
  by (auto simp: VerifyPubkeyRSA_def rsa_valid_def split: option.splits if_splits)

lemma VerifyPubkeyEC_ok:
  "ok (VerifyPubkeyEC crypto v) \<longleftrightarrow>
     (\<exists>ec. v_eck v = Some ec \<and> ec_valid crypto ec (v_signed_buffer v) (v_sig_buffer v))"
  by (auto simp: VerifyPubkeyEC_def ec_valid_def split: option.splits)

lemma ExtractPubkeyFromJwkRSA_ok:
  assumes "ExtractPubkeyFromJwkRSA lib crypto jwk v = Some (st, v')"
  shows "same_text v v' \<and> (if ok st
    then \<exists>n e pk. key_number lib jwk ''n'' = Some n \<and> key_number lib jwk ''e'' = Some e \<and>
      EVP_PKEY_set1_RSA crypto n e = Some pk \<and> v_pkey v' = Some pk
    else \<forall>n e. key_number lib jwk ''n'' = Some n \<longrightarrow> key_number lib jwk ''e'' = Some e \<longrightarrow> EVP_PKEY_set1_RSA crypto n e = None)"
proof -
  obtain n e where ne: "GetStringValue (Some jwk) (Some ''n'') = Some n" "GetStringValue (Some jwk) (Some ''e'') = Some e"
    using assms by (auto simp: ExtractPubkeyFromJwkRSA_def bind_eq_Some_conv)
  show ?thesis
  proof (cases "BigNumFromBase64String lib n = None \<or> BigNumFromBase64String lib e = None")
    case True
    then show ?thesis
      using assms ne by (auto simp: ExtractPubkeyFromJwkRSA_def key_number_def same_text_def split: option.splits)
  next
    case False
    then obtain n' e' where "BigNumFromBase64String lib n = Some n'" "BigNumFromBase64String lib e = Some e'" by auto
    then show ?thesis
      using assms ne by (cases "EVP_PKEY_set1_RSA crypto n' e'")
        (auto simp: ExtractPubkeyFromJwkRSA_def key_number_def same_text_def)
  qed
qed

lemma ExtractPubkeyFromJwkEC_ok:
  assumes "ExtractPubkeyFromJwkEC lib crypto jwk v = Some (st, v')"
  shows "same_text v v' \<and> (if ok st
    then \<exists>x y ec. key_number lib jwk ''x'' = Some x \<and> key_number lib jwk ''y'' = Some y \<and>
      EC_KEY_set_public_key_affine_coordinates crypto x y = Some ec \<and> v_eck v' = Some ec
    else \<forall>x y. key_number lib jwk ''x'' = Some x \<longrightarrow> key_number lib jwk ''y'' = Some y \<longrightarrow>
      EC_KEY_set_public_key_affine_coordinates crypto x y = None)"
proof -
  obtain x y where xy: "GetStringValue (Some jwk) (Some ''x'') = Some x" "GetStringValue (Some jwk) (Some ''y'') = Some y"
    using assms by (auto simp: ExtractPubkeyFromJwkEC_def bind_eq_Some_conv)
  have none: "BigNumFromBase64String lib None = None" by (simp add: BigNumFromBase64String_def)
  show ?thesis
  proof (cases "BigNumFromBase64String lib x = None \<or> BigNumFromBase64String lib y = None")
    case True
    then show ?thesis
      using assms xy by (auto simp: ExtractPubkeyFromJwkEC_def key_number_def same_text_def split: option.splits if_splits)
  next
    case False
    then obtain x' y' where "BigNumFromBase64String lib x = Some x'" "BigNumFromBase64String lib y = Some y'" by auto
    moreover from this have "x \<noteq> None" "y \<noteq> None" using none by (metis option.distinct(1))+
    ultimately show ?thesis
      using assms xy by (cases "EC_KEY_set_public_key_affine_coordinates crypto x' y'")
        (auto simp: ExtractPubkeyFromJwkEC_def key_number_def same_text_def)
  qed
qed

lemma ExtractPubkeyFromX509_ok:
  assumes "ExtractPubkeyFromX509 crypto key v = (st, v')"
  shows "same_text v v' \<and> (if ok st
    then \<exists>x pk. 0 < BIO_write crypto key \<and> PEM_read_bio_X509 crypto key = Some x \<and>
      X509_get_pubkey crypto x = Some pk \<and> v_pkey v' = Some pk
    else 0 < BIO_write crypto key \<longrightarrow> (\<forall>x. PEM_read_bio_X509 crypto key = Some x \<longrightarrow> X509_get_pubkey crypto x = None))"
  using assms by (auto simp: ExtractPubkeyFromX509_def same_text_def Let_def split: option.splits if_splits)

lemma x509_step:
  assumes "ExtractPubkeyFromX509 crypto key v = (st, v')" "has_prefix (alg h) ''RS''"
  shows "\<not> ok st \<Longrightarrow> \<not> x509_valid crypto h (v_signed_buffer v) (v_sig_buffer v) key"
    and "\<lbrakk>ok st; VerifyPubkey crypto h v' = Some st'\<rbrakk> \<Longrightarrow>
      ok st' \<longleftrightarrow> x509_valid crypto h (v_signed_buffer v) (v_sig_buffer v) key"
    and "same_text v v'"
proof -
  note e = ExtractPubkeyFromX509_ok [OF assms(1)]
  show "same_text v v'" using e by blast
  show "\<not> x509_valid crypto h (v_signed_buffer v) (v_sig_buffer v) key" if "\<not> ok st"
    using e that by (auto simp: x509_valid_def)
  show "ok st' \<longleftrightarrow> x509_valid crypto h (v_signed_buffer v) (v_sig_buffer v) key"
    if "ok st" and "VerifyPubkey crypto h v' = Some st'"
  proof -
    have "VerifyPubkeyRSA crypto h v' = Some st'" using that(2) assms(2) by (simp add: VerifyPubkey_def)
    from VerifyPubkeyRSA_ok [OF this] show ?thesis using e that(1) by (auto simp: x509_valid_def same_text_def)
  qed
qed

text \<open>A key of the set that the loop considers, and what its check finds.\<close>

definition jwk_candidate :: "jose_header \<Rightarrow> grpc_json \<Rightarrow> bool" where
  "jwk_candidate h jwk \<longleftrightarrow> jtype jwk = JSON_OBJECT \<and>
     (\<exists>k. GetStringValue (Some jwk) (Some ''kid'') = Some (Some k) \<and> (kid h = None \<or> kid h = Some k)) \<and>
     (\<exists>kty. GetStringValue (Some jwk) (Some ''kty'') = Some kty \<and> \<not> unsupported_key_type h kty)"

lemma jwk_step:
  assumes "ExtractPubkeyFromJwk lib crypto h jwk v = Some (st, v')" "jwk_candidate h jwk"
    "has_prefix (alg h) ''ES256'' \<or> has_prefix (alg h) ''RS''"
  shows "\<not> ok st \<Longrightarrow> \<not> jwk_valid lib crypto h (v_signed_buffer v) (v_sig_buffer v) jwk"
    and "\<lbrakk>ok st; VerifyPubkey crypto h v' = Some st'\<rbrakk> \<Longrightarrow>
      ok st' \<longleftrightarrow> jwk_valid lib crypto h (v_signed_buffer v) (v_sig_buffer v) jwk"
    and "same_text v v'"
proof -
  have v: "jwk_valid lib crypto h msg sig jwk \<longleftrightarrow> (if has_prefix (alg h) ''RS''
      then \<exists>n e pk. key_number lib jwk ''n'' = Some n \<and> key_number lib jwk ''e'' = Some e \<and>
             EVP_PKEY_set1_RSA crypto n e = Some pk \<and> rsa_valid crypto (alg h) pk msg sig
      else \<exists>x y ec. key_number lib jwk ''x'' = Some x \<and> key_number lib jwk ''y'' = Some y \<and>
             EC_KEY_set_public_key_affine_coordinates crypto x y = Some ec \<and> ec_valid crypto ec msg sig)" for msg sig
    using assms(2) by (auto simp: jwk_valid_def jwk_candidate_def)
  consider (RS) "has_prefix (alg h) ''RS''" "ExtractPubkeyFromJwkRSA lib crypto jwk v = Some (st, v')"
    | (ES) "\<not> has_prefix (alg h) ''RS''" "has_prefix (alg h) ''ES256''" "ExtractPubkeyFromJwkEC lib crypto jwk v = Some (st, v')"
    using assms(1,3) by (auto simp: ExtractPubkeyFromJwk_def split: if_splits)
  then have *: "same_text v v' \<and> (\<not> ok st \<longrightarrow> \<not> jwk_valid lib crypto h (v_signed_buffer v) (v_sig_buffer v) jwk) \<and>
      (ok st \<longrightarrow> VerifyPubkey crypto h v' = Some st' \<longrightarrow> (ok st' \<longleftrightarrow> jwk_valid lib crypto h (v_signed_buffer v) (v_sig_buffer v) jwk))"
  proof cases
    case RS
    note e = ExtractPubkeyFromJwkRSA_ok [OF RS(2)]
    show ?thesis
      using e VerifyPubkeyRSA_ok [of crypto h v' st'] RS(1)
      by (auto simp: v VerifyPubkey_def same_text_def split: if_splits)
  next
    case ES
    note e = ExtractPubkeyFromJwkEC_ok [OF ES(3)]
    show ?thesis
      using e VerifyPubkeyEC_ok [of crypto v'] ES(1,2)
      by (auto simp: v VerifyPubkey_def same_text_def split: if_splits)
  qed
  then show "\<not> ok st \<Longrightarrow> \<not> jwk_valid lib crypto h (v_signed_buffer v) (v_sig_buffer v) jwk"
    and "\<lbrakk>ok st; VerifyPubkey crypto h v' = Some st'\<rbrakk> \<Longrightarrow>
      ok st' \<longleftrightarrow> jwk_valid lib crypto h (v_signed_buffer v) (v_sig_buffer v) jwk"
    and "same_text v v'" by blast+
qed

lemma same_text_trans: "same_text v v' \<Longrightarrow> same_text v' v'' \<Longrightarrow> same_text v v''"
  by (simp add: same_text_def)

lemma try_x509_keys_ok:
  assumes "try_x509_keys crypto h cs v = Some (st, v')" "has_prefix (alg h) ''RS''"
  shows "ok st \<longleftrightarrow> (\<exists>c \<in> set cs. \<exists>key. jvalue c = Some key \<and>
    x509_valid crypto h (v_signed_buffer v) (v_sig_buffer v) key)"
  using assms(1)
proof (induction cs arbitrary: v)
  case (Cons c cs)
  show ?case
  proof (cases "jvalue c")
    case None
    then show ?thesis using Cons by simp
  next
    case (Some key)
    obtain st1 v1 where e: "ExtractPubkeyFromX509 crypto key v = (st1, v1)" by fastforce
    note step = x509_step [OF e assms(2)]
    show ?thesis
    proof (cases "ok st1")
      case False
      then show ?thesis
        using Cons.IH [of v1] Cons.prems Some e step(1,3) by (simp add: same_text_def)
    next
      case True
      obtain st2 where v2: "VerifyPubkey crypto h v1 = Some st2"
        using Cons.prems Some e True by (auto simp: bind_eq_Some_conv)
      show ?thesis
        using Cons.IH [of v1] Cons.prems Some e step(2) [OF True v2] step(3) True v2
        by (auto simp: same_text_def split: if_splits)
    qed
  qed
qed auto

text \<open>With a key id in the header the first candidate decides, without one any candidate may.\<close>

lemma try_jwk_keys_ok:
  assumes "try_jwk_keys lib crypto h ks v = Some (st, v')" "has_prefix (alg h) ''ES256'' \<or> has_prefix (alg h) ''RS''"
  shows "(ok st \<longrightarrow> (\<exists>k \<in> set ks. jwk_valid lib crypto h (v_signed_buffer v) (v_sig_buffer v) k)) \<and>
    (kid h = None \<longrightarrow> (\<exists>k \<in> set ks. jwk_valid lib crypto h (v_signed_buffer v) (v_sig_buffer v) k) \<longrightarrow> ok st)"
  using assms(1)
proof (induction ks arbitrary: v)
  case Nil
  then show ?case by (auto split: option.splits)
next
  case (Cons k ks)
  note IH = Cons.IH
  show ?case
  proof (cases "jwk_candidate h k")
    case False
    have "\<not> jwk_valid lib crypto h msg sig k" for msg sig
      using False by (auto simp: jwk_valid_def jwk_candidate_def)
    moreover have "try_jwk_keys lib crypto h ks v = Some (st, v')"
    proof (cases "jtype k = JSON_OBJECT")
      case obj: True
      obtain key_id where id: "GetStringValue (Some k) (Some ''kid'') = Some key_id"
        using Cons.prems obj by (auto simp: bind_eq_Some_conv)
      show ?thesis
      proof (cases "key_id = None \<or> kid h \<noteq> None \<and> key_id \<noteq> kid h")
        case True
        then show ?thesis using Cons.prems unfolding try_jwk_keys.simps(2) id Option.bind.simps by (simp add: obj)
      next
        case match: False
        obtain kty where kty: "GetStringValue (Some k) (Some ''kty'') = Some kty"
          using Cons.prems match unfolding try_jwk_keys.simps(2) id Option.bind.simps
          by (simp only: obj if_False simp_thms) (auto simp: bind_eq_Some_conv)
        have "unsupported_key_type h kty" using False match obj id kty by (auto simp: jwk_candidate_def)
        then show ?thesis
          using Cons.prems match unfolding try_jwk_keys.simps(2) id kty Option.bind.simps
          by (simp only: obj if_False if_True simp_thms)
      qed
    qed (use Cons.prems in simp)
    ultimately show ?thesis using IH [of v] by simp
  next
    case True
    then obtain kk kty where k: "jtype k = JSON_OBJECT" "GetStringValue (Some k) (Some ''kid'') = Some (Some kk)"
        "kid h = None \<or> kid h = Some kk" "GetStringValue (Some k) (Some ''kty'') = Some kty" "\<not> unsupported_key_type h kty"
      by (auto simp: jwk_candidate_def)
    obtain st1 v1 where e: "ExtractPubkeyFromJwk lib crypto h k v = Some (st1, v1)"
      using Cons.prems k unfolding try_jwk_keys.simps(2) k(2,4) by (auto simp: bind_eq_Some_conv)
    have unfold: "try_jwk_keys lib crypto h (k # ks) v = (if ok st1
        then Option.bind (VerifyPubkey crypto h v1) (\<lambda>st. if kid h \<noteq> None then Some (st, v1)
          else if ok st then Some (Status_OK, v1) else try_jwk_keys lib crypto h ks v1)
        else try_jwk_keys lib crypto h ks v1)"
      using k(3) unfolding try_jwk_keys.simps(2) k(2,4) e Option.bind.simps prod.case by (elim disjE) (simp_all add: k(1,5))
    note prem = Cons.prems [unfolded unfold] and step = jwk_step [OF e True assms(2)]
    show ?thesis
    proof (cases "ok st1")
      case False
      then have "try_jwk_keys lib crypto h ks v1 = Some (st, v')" using prem by simp
      then show ?thesis using IH [of v1] step(1) [OF False] step(3) by (auto simp: same_text_def)
    next
      case ok1: True
      obtain st2 where v2: "VerifyPubkey crypto h v1 = Some st2"
        using prem ok1 by (auto simp: bind_eq_Some_conv)
      note iff = step(2) [OF ok1 v2]
      show ?thesis
      proof (cases "kid h = None \<and> \<not> ok st2")
        case True
        then have "try_jwk_keys lib crypto h ks v1 = Some (st, v')" using prem ok1 v2 by simp
        then show ?thesis using IH [of v1] iff True step(3) by (auto simp: same_text_def)
      next
        case False
        then have "st = st2 \<or> ok st2 \<and> ok st" using prem ok1 v2 by (auto split: if_splits)
        then show ?thesis using iff False by auto
      qed
    qed
  qed
qed

lemma VerifyHsSignature_ok:
  assumes "VerifyHsSignature lib crypto h key v = Some st" "v_sig_buffer v \<noteq> []"
  shows "ok st \<longleftrightarrow> (\<exists>md. EvpMdFromAlg (alg h) = Some md \<and> base64_decode lib key \<noteq> [] \<and>
    HMAC crypto md (base64_decode lib key) (v_signed_buffer v) = v_sig_buffer v)"
proof (cases "EvpMdFromAlg (alg h)")
  case None
  then show ?thesis using assms by (simp add: VerifyHsSignature_def)
next
  case (Some md)
  define res where "res = HMAC crypto md (base64_decode lib key) (v_signed_buffer v)"
  show ?thesis
    using assms unfolding VerifyHsSignature_def Some option.case Let_def res_def [symmetric]
    by (cases "base64_decode lib key = []"; cases "HashSizeFromAlg (alg h) < length res"; cases "res = v_sig_buffer v")
       (auto simp: res_def split: if_splits)
qed

lemma ExtractAndVerifyX509Keys_ok:
  assumes "ExtractAndVerifyX509Keys crypto h j v = Some (st, v')" "has_prefix (alg h) ''RS''"
  shows "ok st \<longleftrightarrow> (case kid h of
      Some k \<Rightarrow> \<exists>key. GetStringValue (Some j) (Some k) = Some (Some key) \<and>
        x509_valid crypto h (v_signed_buffer v) (v_sig_buffer v) key
    | None \<Rightarrow> \<exists>c \<in> set (jchildren j). \<exists>key. jvalue c = Some key \<and>
        x509_valid crypto h (v_signed_buffer v) (v_sig_buffer v) key)"
proof (cases "kid h")
  case None
  then show ?thesis
    using assms try_x509_keys_ok [of crypto h "jchildren j" v st v']
    by (cases "jchildren j = []") (auto simp: ExtractAndVerifyX509Keys_def)
next
  case (Some k)
  obtain val where val: "GetStringValue (Some j) (Some k) = Some val"
    using assms Some by (auto simp: ExtractAndVerifyX509Keys_def bind_eq_Some_conv)
  show ?thesis
  proof (cases val)
    case None
    then show ?thesis using assms Some val by (auto simp: ExtractAndVerifyX509Keys_def)
  next
    case key: (Some key)
    obtain st1 v1 where e: "ExtractPubkeyFromX509 crypto key v = (st1, v1)" by fastforce
    show ?thesis
      using assms Some val key e x509_step [OF e assms(2)]
      by (cases "ok st1") (auto simp: ExtractAndVerifyX509Keys_def bind_eq_Some_conv)
  qed
qed

lemma VerifySignature_ok:
  assumes "VerifySignature lib crypto key v = Some (st, v')" and "v_header v = Some h"
    and "v_jwt v \<noteq> []" "v_signed_buffer v \<noteq> []" "v_sig_buffer v \<noteq> []" "key \<noteq> []"
  shows "(ok st \<longrightarrow> signature_valid lib crypto h key (v_signed_buffer v) (v_sig_buffer v)) \<and>
    (kid h = None \<longrightarrow> signature_valid lib crypto h key (v_signed_buffer v) (v_sig_buffer v) \<longrightarrow> ok st)"
proof (cases "has_prefix (alg h) ''ES256'' \<or> has_prefix (alg h) ''RS''")
  case False
  then obtain st' where "VerifyHsSignature lib crypto h key v = Some st'" "st' = st"
    using assms by (auto simp: VerifySignature_def)
  then show ?thesis using VerifyHsSignature_ok [of lib crypto h key v st'] assms(5) False by (simp add: signature_valid_def)
next
  case True
  define v1 where "v1 = v\<lparr>v_pkey_json := json_parse lib key\<rparr>"
  have a: "VerifyAsymSignature lib crypto key v = Some (st, v')"
    using assms True by (auto simp: VerifySignature_def)
  show ?thesis
  proof (cases "json_parse lib key")
    case None
    then show ?thesis using a True by (auto simp: VerifyAsymSignature_def signature_valid_def)
  next
    case (Some j)
    have same: "v_signed_buffer v1 = v_signed_buffer v" "v_sig_buffer v1 = v_sig_buffer v" by (simp_all add: v1_def)
    have f: "FindAndVerifySignature lib crypto v1 = Some (st, v')"
      using a Some by (simp add: VerifyAsymSignature_def v1_def Let_def)
    obtain ks where ks: "GetProperty (Some j) (Some ''keys'') = Some ks"
      using f assms(2) Some by (auto simp: FindAndVerifySignature_def v1_def bind_eq_Some_conv)
    show ?thesis
    proof (cases ks)
      case None
      show ?thesis
      proof (cases "has_prefix (alg h) ''ES256''")
        case True
        then show ?thesis
          using f assms(2) Some ks None RS_not_ES by (auto simp: FindAndVerifySignature_def v1_def signature_valid_def)
      next
        case es: False
        with True have rs: "has_prefix (alg h) ''RS''" by simp
        have "ExtractAndVerifyX509Keys crypto h j v1 = Some (st, v')"
          using f assms(2) Some ks None es by (simp add: FindAndVerifySignature_def v1_def)
        from ExtractAndVerifyX509Keys_ok [OF this rs, unfolded same] show ?thesis
          using rs Some ks None by (simp add: signature_valid_def)
      qed
    next
      case (Some jks)
      have e: "ExtractAndVerifyJwkKeys lib crypto h jks v1 = Some (st, v')"
        using f assms(2) \<open>json_parse lib key = Some j\<close> ks Some by (simp add: FindAndVerifySignature_def v1_def)
      show ?thesis
      proof (cases "jtype jks \<noteq> JSON_ARRAY \<or> jchildren jks = []")
        case True
        then show ?thesis
          using e \<open>json_parse lib key = Some j\<close> ks Some \<open>has_prefix (alg h) ''ES256'' \<or> has_prefix (alg h) ''RS''\<close>
          by (auto simp: ExtractAndVerifyJwkKeys_def signature_valid_def split: if_splits)
      next
        case False
        then have "try_jwk_keys lib crypto h (jchildren jks) v1 = Some (st, v')"
          using e by (simp add: ExtractAndVerifyJwkKeys_def)
        from try_jwk_keys_ok [OF this True] show ?thesis
          using False \<open>json_parse lib key = Some j\<close> ks Some True by (simp add: signature_valid_def same)
      qed
    qed
  qed
qed

text \<open>An accepted signature alone implies that nothing was empty.\<close>

lemma VerifySignature_sound:
  assumes "VerifySignature lib crypto key v = Some (st, v')" "ok st" "v_header v = Some h"
  shows "signature_valid lib crypto h key (v_signed_buffer v) (v_sig_buffer v)"
proof -
  have "key \<noteq> [] \<and> v_jwt v \<noteq> [] \<and> v_signed_buffer v \<noteq> [] \<and> v_sig_buffer v \<noteq> []"
    using assms(1,2) by (auto simp: VerifySignature_def split: if_splits)
  then show ?thesis using VerifySignature_ok [OF assms(1,3)] assms(2) by blast
qed

text \<open>
  C14: \<^verbatim>\<open>VerifySignature\<close> accepts a token only when a key of the issuer's document verifies the
  signed text: a key of a JWK set with the key id of the header, when it has one, and of the
  type of the algorithm, or a certificate of an X.509 document, or, for the algorithms with a
  shared secret, the HMAC of the text under the decoded document; and a header without a key
  id is accepted whenever some key verifies it.
\<close>

theorem VerifySignature_accepts:
  assumes "VerifySignature lib crypto key v = Some (st, v')" and "v_header v = Some h"
    and "v_jwt v \<noteq> []" "v_signed_buffer v \<noteq> []" "v_sig_buffer v \<noteq> []" "key \<noteq> []"
  shows "(ok st \<longrightarrow> signature_valid lib crypto h key (v_signed_buffer v) (v_sig_buffer v)) \<and>
    (kid h = None \<longrightarrow> signature_valid lib crypto h key (v_signed_buffer v) (v_sig_buffer v) \<longrightarrow> ok st)"
  using assms by (rule VerifySignature_ok)

section \<open>An example\<close>

definition jstr :: "string \<Rightarrow> string \<Rightarrow> grpc_json" where
  "jstr k v = Json JSON_STRING (Some k) (Some v) []"

definition example_lib :: "unit jwt_lib" where
  "example_lib = \<lparr>base64_decode = (\<lambda>s. s),
     json_parse = map_of [
       (''H'', Json JSON_OBJECT None None [jstr ''alg'' ''RS256'', jstr ''kid'' ''1'']),
       (''C'', Json JSON_OBJECT None None [jstr ''iss'' ''iss'', jstr ''aud'' ''svc'']),
       (''A'', Json JSON_ARRAY None None [Json JSON_NUMBER None (Some ''1'') []]),
       (''K'', Json JSON_OBJECT None None [Json JSON_ARRAY (Some ''keys'') None
          [Json JSON_OBJECT None None [jstr ''kid'' ''1'', jstr ''kty'' ''RSA'', jstr ''n'' ''N'', jstr ''e'' ''E'']]])],
     json_dump = (\<lambda>_. Some ''{}''), claims_from_json = (\<lambda>_. Some ()), claims_issuer = (\<lambda>_. Some ''iss''),
     claims_subject = (\<lambda>_. None), claims_json = (\<lambda>_. Some (Json JSON_OBJECT None None [])),
     claims_expires_at = (\<lambda>_. 1000), claims_check = (\<lambda>now _. if now \<le> 1000 then None else Some ''expired'')\<rparr>"

definition example_crypto :: "(unit, string \<times> string, unit, string) crypto_api" where
  "example_crypto = \<lparr>BIO_write = (\<lambda>s. int (length s)), PEM_read_bio_X509 = (\<lambda>_. None), X509_get_pubkey = (\<lambda>_. None),
     EVP_PKEY_set1_RSA = (\<lambda>n e. Some (n, e)), EC_KEY_set_public_key_affine_coordinates = (\<lambda>_ _. None),
     EVP_DigestVerifyInit = (\<lambda>_ (n, e). Some n), EVP_DigestVerifyUpdate = (\<lambda>n d. Some (n @ d)),
     EVP_DigestVerifyFinal = (\<lambda>c s. if s = c then 1 else 0), SHA256 = (\<lambda>s. s),
     ECDSA_do_verify = (\<lambda>_ _ _. 0), HMAC = (\<lambda>_ _ _. ''0'')\<rparr>"

theorem Parse_ok_token_witness:
  "case Parse example_lib 7 new_UserInfo (JwtValidatorImpl ''H.C.NH.C'' :: (unit, string \<times> string, unit) jwt_validator) of
     None \<Rightarrow> False
   | Some (st, ui, v) \<Rightarrow> ok st \<and> (\<exists>h p s. ''H.C.NH.C'' = h @ ''.'' @ p @ ''.'' @ s \<and>
       v_signed_buffer v = h @ ''.'' @ p \<and> v_sig_buffer v = s)"
proof -
  obtain st ui v where p: "Parse example_lib 7 new_UserInfo (JwtValidatorImpl ''H.C.NH.C'' :: (unit, string \<times> string, unit) jwt_validator) =
      Some (st, ui, v)" "ok st"
  proof -
    have "case Parse example_lib 7 new_UserInfo (JwtValidatorImpl ''H.C.NH.C'' :: (unit, string \<times> string, unit) jwt_validator) of
        None \<Rightarrow> False | Some (st, ui, v) \<Rightarrow> ok st" by code_simp
    then show thesis using that by (auto split: option.splits)
  qed
  have "base64_decode example_lib s = s" for s by (simp add: example_lib_def)
  then show ?thesis using Parse_ok_token [OF p] p by auto
qed

theorem VerifySignature_accepts_witness:
  "case Parse example_lib 7 new_UserInfo (JwtValidatorImpl ''H.C.NH.C'' :: (unit, string \<times> string, unit) jwt_validator) of
     None \<Rightarrow> False
   | Some (_, _, v) \<Rightarrow>
       (case VerifySignature example_lib example_crypto ''K'' v of
          None \<Rightarrow> False
        | Some (st, _) \<Rightarrow> ok st \<and>
            signature_valid example_lib example_crypto \<lparr>alg = ''RS256'', kid = Some ''1''\<rparr> ''K'' ''H.C'' ''NH.C'')"
proof -
  have "case Parse example_lib 7 new_UserInfo (JwtValidatorImpl ''H.C.NH.C'' :: (unit, string \<times> string, unit) jwt_validator) of
      None \<Rightarrow> False
    | Some (_, _, v) \<Rightarrow> v_header v = Some \<lparr>alg = ''RS256'', kid = Some ''1''\<rparr> \<and> v_jwt v \<noteq> [] \<and>
        v_signed_buffer v = ''H.C'' \<and> v_sig_buffer v = ''NH.C'' \<and>
        (case VerifySignature example_lib example_crypto ''K'' v of None \<Rightarrow> False | Some (st, _) \<Rightarrow> ok st)"
    by code_simp
  then show ?thesis
    using VerifySignature_accepts [of example_lib example_crypto "''K''"]
    by (fastforce split: option.splits)
qed

section \<open>No crash after parsing\<close>

definition has_keys :: "grpc_json \<Rightarrow> bool" where
  "has_keys j \<longleftrightarrow> (\<forall>c \<in> set (jchildren j). jkey c \<noteq> None)"

definition md_size :: "evp_md \<Rightarrow> nat" where
  "md_size md = (case md of EVP_sha256 \<Rightarrow> 32 | EVP_sha384 \<Rightarrow> 48 | EVP_sha512 \<Rightarrow> 64)"

lemma find_key_Some: "\<forall>c \<in> set cs. jkey c \<noteq> None \<Longrightarrow> find_key k cs \<noteq> None"
  by (induction cs) auto

lemma find_key_found: "find_key k cs = Some (Some c) \<Longrightarrow> c \<in> set cs"
  by (induction cs) (auto split: option.splits if_splits)

lemma GetStringValue_Some:
  assumes "has_keys j"
  shows "GetStringValue (Some j) k \<noteq> None"
proof (cases k)
  case (Some name)
  obtain r where "find_key name (jchildren j) = Some r"
    using find_key_Some [of "jchildren j" name] assms by (auto simp: has_keys_def)
  then show ?thesis using Some by (simp add: GetStringValue_def GetPropertyValue_def GetProperty_def)
qed (simp add: GetStringValue_def GetPropertyValue_def GetProperty_def)

lemma ExtractPubkeyFromJwk_Some: "has_keys jwk \<Longrightarrow> ExtractPubkeyFromJwk lib crypto h jwk v \<noteq> None"
  using GetStringValue_Some [of jwk "Some ''n''"] GetStringValue_Some [of jwk "Some ''e''"]
    GetStringValue_Some [of jwk "Some ''x''"] GetStringValue_Some [of jwk "Some ''y''"]
  by (auto simp: ExtractPubkeyFromJwk_def ExtractPubkeyFromJwkRSA_def ExtractPubkeyFromJwkEC_def Let_def split: option.splits)

lemma VerifyPubkey_Some:
  assumes "supported_alg (alg h)"
  shows "VerifyPubkey crypto h v \<noteq> None"
proof (cases "has_prefix (alg h) ''RS''")
  case True
  then have "EvpMdFromAlg (alg h) \<noteq> None" using assms RS_not_ES by (auto simp: EvpMdFromAlg_supported)
  then show ?thesis using True by (auto simp: VerifyPubkey_def VerifyPubkeyRSA_def split: option.splits)
qed (simp add: VerifyPubkey_def)

lemma try_x509_keys_Some:
  assumes "supported_alg (alg h)"
  shows "try_x509_keys crypto h cs v \<noteq> None"
proof (induction cs arbitrary: v)
  case (Cons c cs)
  show ?case
  proof (cases "jvalue c")
    case (Some key)
    obtain st v1 where "ExtractPubkeyFromX509 crypto key v = (st, v1)" by fastforce
    moreover obtain e where "VerifyPubkey crypto h v1 = Some e" using VerifyPubkey_Some [OF assms] by blast
    ultimately show ?thesis using Cons.IH Some by simp
  qed (use Cons.IH in simp)
qed simp

lemma ExtractAndVerifyX509Keys_Some:
  assumes "supported_alg (alg h)" "has_keys j"
  shows "ExtractAndVerifyX509Keys crypto h j v \<noteq> None"
proof (cases "kid h")
  case None
  then show ?thesis using try_x509_keys_Some [OF assms(1), of crypto "jchildren j" v] by (simp add: ExtractAndVerifyX509Keys_def)
next
  case (Some k)
  obtain val where val: "GetStringValue (Some j) (Some k) = Some val" using GetStringValue_Some [OF assms(2)] by blast
  show ?thesis
  proof (cases val)
    case key: (Some key)
    obtain st v1 where "ExtractPubkeyFromX509 crypto key v = (st, v1)" by fastforce
    moreover obtain e where "VerifyPubkey crypto h v1 = Some e" using VerifyPubkey_Some [OF assms(1)] by blast
    ultimately show ?thesis using Some val key by (simp add: ExtractAndVerifyX509Keys_def)
  qed (use Some val in \<open>simp add: ExtractAndVerifyX509Keys_def\<close>)
qed

lemma try_jwk_keys_Some:
  assumes "supported_alg (alg h)" "\<forall>k \<in> set ks. jtype k = JSON_OBJECT \<longrightarrow> has_keys k"
  shows "try_jwk_keys lib crypto h ks v \<noteq> None"
  using assms(2)
proof (induction ks arbitrary: v)
  case (Cons k ks)
  then have IH: "try_jwk_keys lib crypto h ks v \<noteq> None" for v by simp
  show ?case
  proof (cases "jtype k = JSON_OBJECT")
    case True
    then have "has_keys k" using Cons.prems by simp
    then obtain a b c d where "GetStringValue (Some k) (Some ''kid'') = Some a" "GetStringValue (Some k) (Some ''kty'') = Some b"
        "ExtractPubkeyFromJwk lib crypto h k v = Some (c, d)"
      using GetStringValue_Some [of k] ExtractPubkeyFromJwk_Some [of k lib crypto h v] by fastforce
    moreover obtain e where "VerifyPubkey crypto h d = Some e" using VerifyPubkey_Some [OF assms(1)] by blast
    ultimately show ?thesis using True IH by simp
  qed (use IH in simp)
qed simp

lemma Parse_header:
  assumes "Parse lib now ui (JwtValidatorImpl jwt) = Some (st, ui', v)" "ok st"
  obtains h where "v_header v = Some h" "supported_alg (alg h)"
proof -
  obtain st1 v1 where 1: "ParseImpl lib now (JwtValidatorImpl jwt) = Some (st1, v1)" "ok st1"
      "FillUserInfoAndSetExp lib ui v1 = Some (st, ui', v)"
    using assms by (auto simp: Parse_def bind_eq_Some_conv split: if_splits)
  from 1(1,2) have "\<exists>h. v_header v1 = Some h \<and> supported_alg (alg h)" by (rule ParseImpl_ok) auto
  then show ?thesis using FillUserInfoAndSetExp_ok [OF 1(3) assms(2)] that by auto
qed

lemma VerifyAsymSignature_Some:
  assumes h: "v_header v = Some h" "supported_alg (alg h)"
    and keys: "\<And>j. json_parse lib key = Some j \<Longrightarrow> has_keys j \<and>
      (\<forall>ks \<in> set (jchildren j). \<forall>k \<in> set (jchildren ks). jtype k = JSON_OBJECT \<longrightarrow> has_keys k)"
  shows "VerifyAsymSignature lib crypto key v \<noteq> None"
proof (cases "json_parse lib key")
  case (Some j)
  define v1 where "v1 = v\<lparr>v_pkey_json := Some j\<rparr>"
  obtain ks where ks: "find_key ''keys'' (jchildren j) = Some ks"
    using find_key_Some [of "jchildren j" "''keys''"] keys [OF Some] by (auto simp: has_keys_def)
  have "FindAndVerifySignature lib crypto v1 \<noteq> None"
  proof (cases ks)
    case None
    then show ?thesis
      using ks h(1) ExtractAndVerifyX509Keys_Some [OF h(2), of j crypto v1] keys [OF Some]
      by (simp add: FindAndVerifySignature_def GetProperty_def v1_def)
  next
    case (Some jks)
    have "jks \<in> set (jchildren j)" using ks Some find_key_found by blast
    then have "try_jwk_keys lib crypto h (jchildren jks) v1 \<noteq> None"
      using try_jwk_keys_Some [OF h(2)] keys [OF \<open>json_parse lib key = Some j\<close>] by blast
    then show ?thesis
      using ks h(1) Some by (simp add: FindAndVerifySignature_def GetProperty_def v1_def ExtractAndVerifyJwkKeys_def)
  qed
  then show ?thesis by (simp add: VerifyAsymSignature_def Some v1_def Let_def)
qed (simp add: VerifyAsymSignature_def)

lemma VerifyHsSignature_Some:
  assumes "supported_alg (alg h)" "\<not> has_prefix (alg h) ''ES256''" "\<not> has_prefix (alg h) ''RS''"
    and "\<And>md k d. length (HMAC crypto md k d) \<le> md_size md"
  shows "VerifyHsSignature lib crypto h key v \<noteq> None"
proof -
  have "alg h \<in> {''HS256'', ''HS384'', ''HS512''}"
    using assms(1-3) by (auto simp: supported_alg_def has_prefix_def)
  then obtain md where "EvpMdFromAlg (alg h) = Some md" "md_size md = HashSizeFromAlg (alg h)"
    by (auto simp: EvpMdFromAlg_def HashSizeFromAlg_def md_size_def)
  moreover from this have "\<not> HashSizeFromAlg (alg h) < length (HMAC crypto md k d)" for k d
    using assms(4) [of md k d] by simp
  ultimately show ?thesis by (simp add: VerifyHsSignature_def Let_def)
qed



text \<open>
  C35: a token whose header is a JSON array with an element crashes the parser: the search for
  the algorithm compares the key of the element, which is a null pointer.
\<close>

theorem Parse_crashes_on_array_header:
  assumes "CHR ''.'' \<notin> set h" and "CHR 0x00 \<notin> set h" and "base64_decode lib h \<noteq> []"
    and "json_parse lib (base64_decode lib h) = Some (Json JSON_ARRAY k vl (c # cs))" and "jkey c = None"
  shows "Parse lib now ui (JwtValidatorImpl (h @ ''.'' @ rest)) = None"
proof -
  have "c_string (h @ ''.'' @ rest) = h @ CHR ''.'' # c_string rest"
    using assms(2) by (auto simp: c_string_def takeWhile_append)
  then have "str_find (CHR ''.'') (c_string (h @ ''.'' @ rest)) = Some (length h)"
    using str_find_append [OF assms(1)] by simp
  then show ?thesis
    using assms(3-5)
    by (simp add: Parse_def ParseImpl_def JwtValidatorImpl_def DecodeBase64AndParseJson_def CreateJoseHeader_def
        GetStringValue_def GetPropertyValue_def GetProperty_def)
qed

theorem Parse_crashes_on_array_header_witness:
  "Parse example_lib 7 new_UserInfo (JwtValidatorImpl (''A'' @ ''.'' @ ''C.S'') :: (unit, unit, unit) jwt_validator) = None"
  by (rule Parse_crashes_on_array_header) (simp add: example_lib_def)+

end
