(* ===== verification/Auth_Token.thy ===== *)
theory Auth_Token
  imports Jwt_Validator
begin

text \<open>
  Writing tokens and user information (\<^verbatim>\<open>src/api_manager/auth/lib/auth_token.cc\<close>, \<^verbatim>\<open>json.cc\<close>,
  \<^verbatim>\<open>base64.cc\<close> and the writing half of \<^verbatim>\<open>json_util.cc\<close>).

  The functions of grpc that write are the argument \<open>g\<close>: linking a child into a JSON tree,
  base64, and the signing with a service account key; \<open>now\<close> is the clock in seconds.  A local
  variable of type \<^verbatim>\<open>grpc_json\<close> is \<open>None\<close> until it is filled, and \<open>None\<close> as the result of an
  operation is undefined behaviour: passing on such a variable, or the null pointer as a string.
\<close>

section \<open>Building JSON trees\<close>

record 'k token_lib =
  json_link_child :: "grpc_json \<Rightarrow> grpc_json \<Rightarrow> grpc_json option \<Rightarrow> grpc_json"
  base64_encode :: "bool \<Rightarrow> bool \<Rightarrow> string \<Rightarrow> string option"
  json_key_create_from_string :: "string \<Rightarrow> 'k option"
  jwt_encode_and_sign :: "int \<Rightarrow> 'k \<Rightarrow> string \<Rightarrow> int \<Rightarrow> string option"

type_synonym json_local = "grpc_json option"

definition isNullOrEmpty :: "string option \<Rightarrow> bool" where
  "isNullOrEmpty str \<longleftrightarrow> str = None \<or> str = Some []"

text \<open>
  The child, when it was filled, and the parent.  The children are linked before they are
  filled, which the tree of pointers does not show.
\<close>

definition FillChild ::
    "'k token_lib \<Rightarrow> json_local option \<Rightarrow> grpc_json \<Rightarrow> string option \<Rightarrow> string option \<Rightarrow> json_type \<Rightarrow>
     (json_local \<times> grpc_json) option" where
  "FillChild g brother parent key value type =
     (if isNullOrEmpty value then Some (None, parent)
      else
        let child = Json type key value []
        in case brother of
             None \<Rightarrow> Some (Some child, json_link_child g parent child None)
           | Some None \<Rightarrow> None
           | Some (Some b) \<Rightarrow> Some (Some child, json_link_child g parent child (Some b)))"

text \<open>\<^verbatim>\<open>prev = FillChild(cur, prev, \<dots>)\<close>: the brother of a child is the one before, or null when that was not filled.\<close>

fun fill_elements :: "'k token_lib \<Rightarrow> string list \<Rightarrow> json_local \<Rightarrow> grpc_json \<Rightarrow> grpc_json option" where
  "fill_elements g [] prev child = Some child"
| "fill_elements g (elem # elems) prev child = do {
     (prev, child) \<leftarrow> FillChild g (map_option Some prev) child None (Some (c_string elem)) JSON_STRING;
     fill_elements g elems prev child
   }"

definition CreateGrpcJsonArray ::
    "'k token_lib \<Rightarrow> string set \<Rightarrow> json_local option \<Rightarrow> grpc_json \<Rightarrow> string \<Rightarrow> (json_local \<times> grpc_json) option" where
  "CreateGrpcJsonArray g strSet brother parent key =
     (if strSet = {} then Some (None, parent)
      else do {
        child \<leftarrow> fill_elements g (sorted_list_of_set strSet) None (Json JSON_ARRAY (Some key) None []);
        case brother of
          None \<Rightarrow> Some (Some child, json_link_child g parent child None)
        | Some None \<Rightarrow> None
        | Some (Some b) \<Rightarrow> Some (Some child, json_link_child g parent child (Some b))
      })"

definition json_top :: grpc_json where "json_top = Json JSON_OBJECT None None []"

section \<open>User information\<close>

definition WriteUserInfoToJson :: "'cl jwt_lib \<Rightarrow> 'k token_lib \<Rightarrow> user_info \<Rightarrow> string option option" where
  "WriteUserInfoToJson lib g ui = do {
     (prev, top) \<leftarrow> FillChild g None json_top (Some ''claims'') (Some (c_string (ui_claims ui))) JSON_STRING;
     (prev, top) \<leftarrow> FillChild g (map_option Some prev) top (Some ''issuer'') (Some (c_string (ui_issuer ui))) JSON_STRING;
     (prev, top) \<leftarrow> FillChild g (map_option Some prev) top (Some ''id'') (Some (c_string (ui_id ui))) JSON_STRING;
     (prev, top) \<leftarrow> FillChild g (map_option Some prev) top (Some ''email'') (Some (c_string (ui_email ui))) JSON_STRING;
     (prev, top) \<leftarrow> FillChild g (map_option Some prev) top (Some ''consumer_id'') (Some (c_string (ui_consumer_id ui))) JSON_STRING;
     (_, top) \<leftarrow> CreateGrpcJsonArray g (ui_audiences ui) (map_option Some prev) top ''audiences'';
     Some (json_dump lib top)
   }"

text \<open>Without padding the trailing \<^verbatim>\<open>=\<close> are cut off.\<close>

definition esp_base64_encode :: "'k token_lib \<Rightarrow> string \<Rightarrow> bool \<Rightarrow> bool \<Rightarrow> bool \<Rightarrow> string option" where
  "esp_base64_encode g data url_safe multiline padding =
     (case base64_encode g url_safe multiline data of
        None \<Rightarrow> None
      | Some result \<Rightarrow> Some (if padding then result else rev (dropWhile (\<lambda>c. c = CHR ''='') (rev result))))"

section \<open>Tokens\<close>

definition TOKEN_LIFETIME :: int where "TOKEN_LIFETIME = 3600"

definition GenerateJoseHeader :: "'cl jwt_lib \<Rightarrow> 'k token_lib \<Rightarrow> string \<Rightarrow> string option option" where
  "GenerateJoseHeader lib g algorithm = do {
     (json_algorithm, top) \<leftarrow> FillChild g None json_top (Some ''alg'') (Some algorithm) JSON_STRING;
     (json_type, top) \<leftarrow> FillChild g (Some json_algorithm) top (Some ''typ'') (Some ''JWT'') JSON_STRING;
     json_str \<leftarrow> json_dump lib top;
     Some (base64_encode g True False json_str)
   }"

definition GenerateJwtClaim ::
    "'cl jwt_lib \<Rightarrow> 'k token_lib \<Rightarrow> int \<Rightarrow> string \<Rightarrow> string \<Rightarrow> string \<Rightarrow> int \<Rightarrow> string option option" where
  "GenerateJwtClaim lib g now issuer subject audience token_lifetime = do {
     (json_issuer, top) \<leftarrow> FillChild g None json_top (Some ''iss'') (Some issuer) JSON_STRING;
     (json_subject, top) \<leftarrow> FillChild g (Some json_issuer) top (Some ''sub'') (Some subject) JSON_STRING;
     (json_audience, top) \<leftarrow> FillChild g (Some json_subject) top (Some ''aud'') (Some audience) JSON_STRING;
     (json_now, top) \<leftarrow> FillChild g (Some json_audience) top (Some ''iat'') (Some (show_int now)) JSON_NUMBER;
     (json_expiration, top) \<leftarrow>
       FillChild g (Some json_now) top (Some ''exp'') (Some (show_int (now + token_lifetime))) JSON_NUMBER;
     json_str \<leftarrow> json_dump lib top;
     Some (base64_encode g True False json_str)
   }"

text \<open>The HMAC is written into a buffer of 32 bytes.\<close>

definition GenerateSignatueHs256 ::
    "'cl jwt_lib \<Rightarrow> ('x, 'pk, 'ec, 'ctx) crypto_api \<Rightarrow> 'k token_lib \<Rightarrow> string \<Rightarrow> string \<Rightarrow> string option option" where
  "GenerateSignatueHs256 lib crypto g data key =
     (let key_buffer = base64_decode lib key
      in if key_buffer = [] then Some None
         else
           let res = HMAC crypto EVP_sha256 key_buffer data
           in if 32 < length res then None
              else if res = [] then Some None
              else Some (base64_encode g True False res))"

definition DotConcat :: "string \<Rightarrow> string \<Rightarrow> string" where
  "DotConcat str1 str2 = str1 @ ''.'' @ str2"

definition GenerateTokenSymmetricKey ::
    "'cl jwt_lib \<Rightarrow> ('x, 'pk, 'ec, 'ctx) crypto_api \<Rightarrow> 'k token_lib \<Rightarrow> int \<Rightarrow> grpc_json option \<Rightarrow> string \<Rightarrow>
     string option option" where
  "GenerateTokenSymmetricKey lib crypto g now json audience = do {
     issuer \<leftarrow> GetStringValue json (Some ''issuer'');
     case issuer of None \<Rightarrow> Some None | Some issuer \<Rightarrow> do {
       subject \<leftarrow> GetStringValue json (Some ''subject'');
       case subject of None \<Rightarrow> Some None | Some subject \<Rightarrow> do {
         header \<leftarrow> GenerateJoseHeader lib g ''HS256'';
         case header of None \<Rightarrow> Some None | Some header \<Rightarrow> do {
           claims \<leftarrow> GenerateJwtClaim lib g now issuer subject audience TOKEN_LIFETIME;
           case claims of None \<Rightarrow> Some None | Some claims \<Rightarrow> do {
             secret \<leftarrow> GetStringValue json (Some ''client_secret'');
             case secret of None \<Rightarrow> None | Some secret \<Rightarrow> do {
               signature \<leftarrow> GenerateSignatueHs256 lib crypto g (DotConcat header claims) secret;
               Some (case signature of
                       None \<Rightarrow> None
                     | Some signature \<Rightarrow> Some (DotConcat (DotConcat header claims) signature))
             }
           }
         }
       }
     }
   }"

definition esp_get_auth_token ::
    "'cl jwt_lib \<Rightarrow> ('x, 'pk, 'ec, 'ctx) crypto_api \<Rightarrow> 'k token_lib \<Rightarrow> int \<Rightarrow> string \<Rightarrow> string \<Rightarrow>
     string option option" where
  "esp_get_auth_token lib crypto g now json_secret audience = do {
     secret \<leftarrow> GetStringValue (json_parse lib json_secret) (Some ''client_secret'');
     if secret \<noteq> None then GenerateTokenSymmetricKey lib crypto g now (json_parse lib json_secret) audience
     else Some (case json_key_create_from_string g json_secret of
                  None \<Rightarrow> None
                | Some json_key \<Rightarrow> jwt_encode_and_sign g now json_key audience TOKEN_LIFETIME)
   }"

section \<open>Token responses\<close>

text \<open>\<^verbatim>\<open>atoi\<close>: white space, a sign and the digits; a value that does not fit an \<^verbatim>\<open>int\<close>, which C leaves undefined, is kept.\<close>

definition atoi :: "string \<Rightarrow> int" where
  "atoi s =
     (let s = dropWhile is_space s;
          neg = (s \<noteq> [] \<and> hd s = CHR ''-'');
          s = (if s \<noteq> [] \<and> (hd s = CHR ''-'' \<or> hd s = CHR ''+'') then tl s else s);
          n = digits_value (takeWhile is_digit s)
      in (if neg then - n else n))"

definition esp_get_service_account_auth_token ::
    "(string \<Rightarrow> grpc_json option) \<Rightarrow> string \<Rightarrow> (string \<times> int) option option" where
  "esp_get_service_account_auth_token parse_json input =
     (case parse_json input of
        None \<Rightarrow> Some None
      | Some json \<Rightarrow> do {
          access_token \<leftarrow> GetStringValue (Some json) (Some ''access_token'');
          expires_in \<leftarrow> GetNumberValue (Some json) (Some ''expires_in'');
          Some (case (access_token, expires_in) of
                  (Some tok, Some exp) \<Rightarrow> Some (tok, atoi exp)
                | _ \<Rightarrow> None)
        })"

section \<open>What is written\<close>

text \<open>The documented behaviour of \<^verbatim>\<open>grpc_json_link_child\<close>: it appends the child; the brother, when given, is the last child.\<close>

definition link_appends :: "'k token_lib \<Rightarrow> bool" where
  "link_appends g \<longleftrightarrow> (\<forall>type key value cs c brother. brother = None \<or> cs \<noteq> [] \<and> brother = Some (last cs) \<longrightarrow>
     json_link_child g (Json type key value cs) c brother = Json type key value (cs @ [c]))"

text \<open>A field is written when it is not empty.\<close>

definition json_field :: "string option \<Rightarrow> string \<Rightarrow> grpc_json list" where
  "json_field key value = (if c_string value = [] then [] else [Json JSON_STRING key (Some (c_string value)) []])"

definition user_info_json :: "user_info \<Rightarrow> grpc_json" where
  "user_info_json ui = Json JSON_OBJECT None None
     (json_field (Some ''claims'') (ui_claims ui) @ json_field (Some ''issuer'') (ui_issuer ui) @
      json_field (Some ''id'') (ui_id ui) @ json_field (Some ''email'') (ui_email ui) @
      json_field (Some ''consumer_id'') (ui_consumer_id ui) @
      (if ui_audiences ui = {} then []
       else [Json JSON_ARRAY (Some ''audiences'') None
               (concat (map (json_field None) (sorted_list_of_set (ui_audiences ui))))]))"

text \<open>The brother handed to the next call is the last child, or null.\<close>

definition last_child :: "json_local \<Rightarrow> grpc_json \<Rightarrow> bool" where
  "last_child prev parent \<longleftrightarrow> prev = None \<or> jchildren parent \<noteq> [] \<and> prev = Some (last (jchildren parent))"

lemma link_child:
  assumes "link_appends g" "last_child prev parent"
  shows "json_link_child g parent c prev = Json (jtype parent) (jkey parent) (jvalue parent) (jchildren parent @ [c])"
  using assms by (cases parent) (auto simp: link_appends_def last_child_def)

lemma FillChild_field:
  assumes "link_appends g" "last_child prev (Json ty ky vl cs)"
  obtains prev' where "FillChild g (map_option Some prev) (Json ty ky vl cs) k (Some (c_string v)) JSON_STRING =
      Some (prev', Json ty ky vl (cs @ json_field k v))"
    "last_child prev' (Json ty ky vl (cs @ json_field k v))"
  using link_child [OF assms] assms(2)
  by (cases prev; cases "c_string v = []") (auto simp: FillChild_def isNullOrEmpty_def json_field_def last_child_def Let_def)

lemma fill_elements_fields:
  assumes "link_appends g" "last_child prev (Json ty ky vl cs)"
  shows "fill_elements g elems prev (Json ty ky vl cs) =
    Some (Json ty ky vl (cs @ concat (map (json_field None) elems)))"
  using assms(2)
proof (induction elems arbitrary: prev cs)
  case (Cons elem elems)
  obtain prev' where "FillChild g (map_option Some prev) (Json ty ky vl cs) None (Some (c_string elem)) JSON_STRING =
      Some (prev', Json ty ky vl (cs @ json_field None elem))"
    "last_child prev' (Json ty ky vl (cs @ json_field None elem))"
    using FillChild_field [OF assms(1) Cons.prems] .
  then show ?case using Cons.IH by simp
qed simp

lemma CreateGrpcJsonArray_fields:
  assumes "link_appends g" "last_child prev (Json ty ky vl cs)"
  shows "\<exists>c. CreateGrpcJsonArray g strs (map_option Some prev) (Json ty ky vl cs) k =
    Some (c, Json ty ky vl (cs @ (if strs = {} then []
      else [Json JSON_ARRAY (Some k) None (concat (map (json_field None) (sorted_list_of_set strs)))])))"
  using link_child [OF assms] fill_elements_fields [OF assms(1), of None JSON_ARRAY "Some k" None "[]"]
  by (cases prev) (auto simp: CreateGrpcJsonArray_def last_child_def)

lemma fill_then:
  assumes "link_appends g" "last_child prev (Json ty ky vl cs)"
    and "\<And>p. last_child p (Json ty ky vl (cs @ json_field k v)) \<Longrightarrow>
      f (p, Json ty ky vl (cs @ json_field k v)) = r"
  shows "Option.bind (FillChild g (map_option Some prev) (Json ty ky vl cs) k (Some (c_string v)) JSON_STRING) f = r"
  using FillChild_field [OF assms(1,2), of k v] assms(3) by (metis bind.bind_lunit)

lemmas fill_first = fill_then [where prev = None and cs = "[]" and ty = JSON_OBJECT and ky = None and vl = None,
  simplified, folded json_top_def]

text \<open>
  the user information handed to the backend is the object of its non-empty fields and
  its audiences in their order, whatever fields are empty.
\<close>

theorem WriteUserInfoToJson_fields:
  assumes "link_appends g"
  shows "WriteUserInfoToJson lib g ui = Some (json_dump lib (user_info_json ui))"
  unfolding WriteUserInfoToJson_def
  apply (rule fill_first [OF assms])
   apply (simp add: last_child_def)
  apply (simp only: prod.case, rule fill_then [OF assms], assumption)+
  subgoal premises last for p1 p2 p3 p4 p5
    using CreateGrpcJsonArray_fields [OF assms last(5), of "ui_audiences ui" "''audiences''"]
    by (cases "ui_audiences ui = {}") (auto simp: user_info_json_def)
  done


section \<open>Tokens that are accepted\<close>

definition jose_json :: "string \<Rightarrow> grpc_json" where
  "jose_json algorithm = Json JSON_OBJECT None None [jstr ''alg'' algorithm, jstr ''typ'' ''JWT'']"

definition claims_doc :: "string \<Rightarrow> string \<Rightarrow> string \<Rightarrow> int \<Rightarrow> int \<Rightarrow> grpc_json" where
  "claims_doc issuer subject audience iat exp = Json JSON_OBJECT None None
     [jstr ''iss'' issuer, jstr ''sub'' subject, jstr ''aud'' audience,
      Json JSON_NUMBER (Some ''iat'') (Some (show_int iat)) [], Json JSON_NUMBER (Some ''exp'') (Some (show_int exp)) []]"

text \<open>
  What writing and reading promise each other: the encoded text has no dot and no NUL and is
  decoded to what was encoded, and a document is read back as it was written.
\<close>

definition base64_laws :: "'cl jwt_lib \<Rightarrow> 'k token_lib \<Rightarrow> bool" where
  "base64_laws lib g \<longleftrightarrow> (\<forall>s. s \<noteq> [] \<longrightarrow> (\<exists>e. base64_encode g True False s = Some e \<and> base64_decode lib e = s \<and>
     CHR ''.'' \<notin> set e \<and> CHR 0x00 \<notin> set e))"

definition reads_back :: "'cl jwt_lib \<Rightarrow> grpc_json \<Rightarrow> bool" where
  "reads_back lib j \<longleftrightarrow> (\<exists>t. t \<noteq> [] \<and> json_dump lib j = Some t \<and> json_parse lib t = Some j)"

lemma show_int_nonempty [simp]: "show_int n \<noteq> []"
  using show_nat_digits by (simp add: show_int_def)

lemma fill_next:
  assumes "link_appends g" "v \<noteq> []" "cs \<noteq> []"
  shows "FillChild g (Some (Some (last cs))) (Json ty ky vl cs) k (Some v) t =
    Some (Some (Json t k (Some v) []), Json ty ky vl (cs @ [Json t k (Some v) []]))"
  using assms by (simp add: FillChild_def isNullOrEmpty_def link_appends_def Let_def)

lemma fill_start:
  assumes "link_appends g" "v \<noteq> []"
  shows "FillChild g None json_top k (Some v) t = Some (Some (Json t k (Some v) []), Json JSON_OBJECT None None [Json t k (Some v) []])"
  using assms by (simp add: FillChild_def isNullOrEmpty_def link_appends_def json_top_def Let_def)

lemma encode_text:
  assumes "base64_laws lib g" "s \<noteq> []"
  obtains e where "base64_encode g True False s = Some e" "base64_decode lib e = s" "CHR ''.'' \<notin> set e" "CHR 0x00 \<notin> set e"
  using assms by (auto simp: base64_laws_def)

lemma encode_doc:
  assumes "base64_laws lib g" "reads_back lib j"
  obtains e t where "json_dump lib j = Some t" "base64_encode g True False t = Some e" "base64_decode lib e = t" "t \<noteq> []"
    "json_parse lib t = Some j" "CHR ''.'' \<notin> set e" "CHR 0x00 \<notin> set e"
proof -
  obtain t where t: "t \<noteq> []" "json_dump lib j = Some t" "json_parse lib t = Some j"
    using assms(2) by (auto simp: reads_back_def)
  show ?thesis using encode_text [OF assms(1) t(1)] that t by metis
qed

lemma GenerateJoseHeader_encodes:
  assumes "link_appends g" "a \<noteq> []" "json_dump lib (jose_json a) = Some t"
  shows "GenerateJoseHeader lib g a = Some (base64_encode g True False t)"
  using fill_start [OF assms(1,2)] fill_next [OF assms(1), of "''JWT''" "[Json JSON_STRING (Some ''alg'') (Some a) []]"] assms(3)
  by (simp add: GenerateJoseHeader_def jose_json_def jstr_def)

lemma GenerateJwtClaim_encodes:
  assumes "link_appends g" "iss \<noteq> []" "sub \<noteq> []" "aud \<noteq> []" "json_dump lib (claims_doc iss sub aud now (now + life)) = Some t"
  shows "GenerateJwtClaim lib g now iss sub aud life = Some (base64_encode g True False t)"
proof -
  let ?c1 = "[jstr ''iss'' iss]" and ?c2 = "[jstr ''iss'' iss, jstr ''sub'' sub]"
    and ?c3 = "[jstr ''iss'' iss, jstr ''sub'' sub, jstr ''aud'' aud]"
  let ?c4 = "[jstr ''iss'' iss, jstr ''sub'' sub, jstr ''aud'' aud, Json JSON_NUMBER (Some ''iat'') (Some (show_int now)) []]"
  note next' = fill_next [OF assms(1,3), of ?c1] fill_next [OF assms(1,4), of ?c2]
    fill_next [OF assms(1) show_int_nonempty, of ?c3] fill_next [OF assms(1) show_int_nonempty, of ?c4]
  show ?thesis
    using fill_start [OF assms(1,2)] next' assms(5) by (simp add: GenerateJwtClaim_def claims_doc_def jstr_def)
qed

text \<open>The way through the parser of a token with an HMAC algorithm.\<close>

lemma Parse_hs256:
  assumes "CHR ''.'' \<notin> set h" "CHR ''.'' \<notin> set p" "CHR 0x00 \<notin> set (h @ ''.'' @ p @ ''.'' @ s)"
    and h: "base64_decode lib h \<noteq> []" "json_parse lib (base64_decode lib h) = Some (jose_json ''HS256'')"
    and p: "base64_decode lib p \<noteq> []" "json_parse lib (base64_decode lib p) = Some (claims_doc iss sub aud iat exp)"
    and s: "base64_decode lib s \<noteq> []"
    and cl: "claims_from_json lib (claims_doc iss sub aud iat exp) = Some cl" "claims_issuer lib cl = Some iss"
      "claims_check lib now cl = None" "claims_json lib cl = Some (claims_doc iss sub aud iat exp)"
  obtains ui v where "Parse lib now new_UserInfo (JwtValidatorImpl (h @ ''.'' @ p @ ''.'' @ s)) = Some (Status_OK, ui, v)"
    "ui_issuer ui = iss" "ui_audiences ui = {aud}" "v_jwt v = h @ ''.'' @ p @ ''.'' @ s"
    "v_header v = Some \<lparr>alg = ''HS256'', kid = None\<rparr>" "v_signed_buffer v = h @ ''.'' @ p" "v_sig_buffer v = base64_decode lib s"
proof -
  let ?t = "h @ ''.'' @ p @ ''.'' @ s" and ?doc = "claims_doc iss sub aud iat exp"
  define v1 :: "('a, 'b, 'c) jwt_validator" where
    "v1 = (JwtValidatorImpl ?t)\<lparr>v_header_json := Some (jose_json ''HS256''), v_header := Some \<lparr>alg = ''HS256'', kid = None\<rparr>\<rparr>"
  define v2 where "v2 = v1\<lparr>v_audiences := {aud}, v_claims := Some cl\<rparr>"
  define v3 where "v3 = v2\<lparr>v_signed_buffer := h @ ''.'' @ p, v_sig_buffer := base64_decode lib s\<rparr>"
  note vs = v3_def v2_def v1_def JwtValidatorImpl_def
  have c: "c_string ?t = ?t" using assms(3) by (simp add: c_string_def takeWhile_eq_all_conv) blast
  have "GetStringValue (Some (jose_json ''HS256'')) (Some ''alg'') = Some (Some ''HS256'')"
      "GetStringValue (Some (jose_json ''HS256'')) (Some ''kid'') = Some None"
    by (simp_all add: GetStringValue_def GetPropertyValue_def GetProperty_def jose_json_def jstr_def)
  then have "CreateJoseHeader ((JwtValidatorImpl ?t)\<lparr>v_header_json := Some (jose_json ''HS256'')\<rparr>) = Some (Status_OK, v1)"
    by (simp add: CreateJoseHeader_def EvpMdFromAlg_def v1_def)
  then have 1: "ParseImpl lib now (JwtValidatorImpl ?t) = ParseClaims lib now (length h + 1) v1"
    using str_find_append [OF assms(1)] c h
    by (simp add: ParseImpl_def DecodeBase64AndParseJson_def JwtValidatorImpl_def Let_def)
  have "UpdateAudience ?doc v1 = Some (?doc, v1\<lparr>v_audiences := {aud}\<rparr>)"
    by (simp add: UpdateAudience_def claims_doc_def jstr_def v1_def JwtValidatorImpl_def)
  then have 2: "ParseClaims lib now (length h + 1) v1 = ParseSignature lib (length h + 1 + length p) v2"
    using str_find_append [OF assms(2)] c p cl(1-3)
    by (simp add: ParseClaims_def DecodeBase64AndParseJson_def v1_def JwtValidatorImpl_def v2_def Let_def)
  have 3: "ParseSignature lib (length h + 1 + length p) v2 = Some (Status_OK, v3)"
    using s by (simp add: ParseSignature_def vs Let_def has_prefix_def)
  have "GetStringValue (Some ?doc) (Some ''email'') = Some None" "GetStringValue (Some ?doc) (Some ''azp'') = Some None"
    by (simp_all add: GetStringValue_def GetPropertyValue_def GetProperty_def claims_doc_def jstr_def)
  then obtain ui v where 4: "FillUserInfoAndSetExp lib new_UserInfo v3 = Some (Status_OK, ui, v)" "ui_issuer ui = iss" "ui_audiences ui = {aud}"
      "v = v3\<lparr>v_exp := claims_expires_at lib cl\<rparr>"
    using cl(2,4) by (cases "claims_subject lib cl"; cases "json_dump lib ?doc")
      (simp_all add: FillUserInfoAndSetExp_def v3_def v2_def)
  show thesis
    by (rule that [of ui v]) (use 1 2 3 4 in \<open>simp_all add: Parse_def vs\<close>)
qed

text \<open>
  C17: a token that \<^verbatim>\<open>esp_get_auth_token\<close> writes with a client secret is accepted by the
  validator, with the issuer of the secret and the audience asked for, and its signature
  verifies under that secret; the claims library is asked to read the claims document and to
  find its times good.
\<close>

theorem issued_token_accepted:
  fixes lib :: "'cl jwt_lib" and crypto :: "('x, 'pk, 'ec, 'ctx) crypto_api"
  assumes "link_appends g" and "base64_laws lib g" and "reads_back lib (jose_json ''HS256'')"
    and "reads_back lib (claims_doc iss sub aud now (now + 3600))"
    and "json_parse lib secret = Some sj" and "GetStringValue (Some sj) (Some ''client_secret'') = Some (Some key)"
    and "GetStringValue (Some sj) (Some ''issuer'') = Some (Some iss)" and "GetStringValue (Some sj) (Some ''subject'') = Some (Some sub)"
    and "iss \<noteq> []" and "sub \<noteq> []" and "aud \<noteq> []" and "key \<noteq> []" and "base64_decode lib key \<noteq> []"
    and "\<And>k d. length (HMAC crypto EVP_sha256 k d) = 32"
    and "claims_from_json lib (claims_doc iss sub aud now (now + 3600)) = Some cl" and "claims_issuer lib cl = Some iss"
    and "claims_check lib later cl = None" and "claims_json lib cl = Some (claims_doc iss sub aud now (now + 3600))"
  shows "\<exists>tok ui v v'. esp_get_auth_token lib crypto g now secret aud = Some (Some tok) \<and>
    Parse lib later new_UserInfo (JwtValidatorImpl tok) = Some (Status_OK, ui, v) \<and>
    ui_issuer ui = iss \<and> ui_audiences ui = {aud} \<and> VerifySignature lib crypto key v = Some (Status_OK, v')"
proof -
  obtain h th where h: "json_dump lib (jose_json ''HS256'') = Some th" "base64_encode g True False th = Some h" "base64_decode lib h = th"
      "th \<noteq> []" "json_parse lib th = Some (jose_json ''HS256'')" "CHR ''.'' \<notin> set h" "CHR 0x00 \<notin> set h"
    using encode_doc [OF assms(2,3)] .
  obtain p tp where p: "json_dump lib (claims_doc iss sub aud now (now + 3600)) = Some tp" "base64_encode g True False tp = Some p"
      "base64_decode lib p = tp" "tp \<noteq> []" "json_parse lib tp = Some (claims_doc iss sub aud now (now + 3600))"
      "CHR ''.'' \<notin> set p" "CHR 0x00 \<notin> set p"
    using encode_doc [OF assms(2,4)] .
  define mac where "mac = HMAC crypto EVP_sha256 (base64_decode lib key) (h @ CHR ''.'' # p)"
  have mac: "mac \<noteq> []" "length mac = 32" using assms(14) [of "base64_decode lib key" "h @ CHR ''.'' # p"] by (auto simp: mac_def)
  obtain s where s: "base64_encode g True False mac = Some s" "base64_decode lib s = mac" "CHR 0x00 \<notin> set s"
    using encode_text [OF assms(2) mac(1)] .
  let ?tok = "h @ ''.'' @ p @ ''.'' @ s"
  have "GenerateSignatueHs256 lib crypto g (DotConcat h p) key = Some (Some s)"
    using assms(13) mac s(1) by (simp add: GenerateSignatueHs256_def DotConcat_def mac_def [symmetric] Let_def)
  then have 1: "esp_get_auth_token lib crypto g now secret aud = Some (Some ?tok)"
    using GenerateJoseHeader_encodes [OF assms(1) _ h(1)] GenerateJwtClaim_encodes [OF assms(1,9-11), of lib now 3600] p(1,2) h(2) assms(5-8)
    by (simp add: esp_get_auth_token_def GenerateTokenSymmetricKey_def TOKEN_LIFETIME_def DotConcat_def)
  obtain ui and v :: "('cl, 'pk, 'ec) jwt_validator" where 2: "Parse lib later new_UserInfo (JwtValidatorImpl ?tok) = Some (Status_OK, ui, v)"
      "ui_issuer ui = iss" "ui_audiences ui = {aud}" "v_jwt v = ?tok" "v_header v = Some \<lparr>alg = ''HS256'', kid = None\<rparr>"
      "v_signed_buffer v = h @ ''.'' @ p" "v_sig_buffer v = base64_decode lib s"
    by (rule Parse_hs256 [of h p s lib iss sub aud now "now + 3600" cl later]) (use h p s mac assms(15-18) in auto)
  have "VerifySignature lib crypto key v = Some (Status_OK, v)"
    using 2(4-7) assms(12,13) mac s(2)
    by (simp add: VerifySignature_def VerifyHsSignature_def EvpMdFromAlg_def HashSizeFromAlg_def has_prefix_def mac_def [symmetric] Let_def)
  with 1 2 show ?thesis by blast
qed

fun escape :: "string \<Rightarrow> string" where
  "escape [] = []"
| "escape (c # cs) =
     (if c = CHR ''.'' then ''xd'' else if c = CHR 0x00 then ''xn'' else if c = CHR ''x'' then ''xx'' else [c]) @ escape cs"

fun unescape :: "string \<Rightarrow> string" where
  "unescape [] = []"
| "unescape [c] = [c]"
| "unescape (a # b # cs) =
     (if a = CHR ''x''
      then (if b = CHR ''d'' then CHR ''.'' else if b = CHR ''n'' then CHR 0x00 else b) # unescape cs
      else a # unescape (b # cs))"

lemma unescape_Cons: "c \<noteq> CHR ''x'' \<Longrightarrow> unescape (c # cs) = c # unescape cs"
  by (cases cs) simp_all

lemma unescape_escape: "unescape (escape s) = s \<and> CHR ''.'' \<notin> set (escape s) \<and> CHR 0x00 \<notin> set (escape s)"
  by (induction s) (simp_all add: unescape_Cons)

definition example_secret :: grpc_json where
  "example_secret = Json JSON_OBJECT None None [jstr ''issuer'' ''i'', jstr ''subject'' ''s'', jstr ''client_secret'' ''k'']"

definition example_issuing_lib :: "unit jwt_lib" where
  "example_issuing_lib = example_lib\<lparr>base64_decode := unescape,
     json_parse := map_of [(''S'', example_secret), (''J'', jose_json ''HS256''), (''D'', claims_doc ''i'' ''s'' ''a'' 0 3600)],
     json_dump := (\<lambda>j. if j = jose_json ''HS256'' then Some ''J'' else if j = claims_doc ''i'' ''s'' ''a'' 0 3600 then Some ''D'' else None),
     claims_issuer := (\<lambda>_. Some ''i''), claims_json := (\<lambda>_. Some (claims_doc ''i'' ''s'' ''a'' 0 3600))\<rparr>"

definition example_token_lib :: "unit token_lib" where
  "example_token_lib = \<lparr>json_link_child = (\<lambda>p c b. Json (jtype p) (jkey p) (jvalue p) (jchildren p @ [c])),
     base64_encode = (\<lambda>_ _ s. Some (escape s)), json_key_create_from_string = (\<lambda>_. None), jwt_encode_and_sign = (\<lambda>_ _ _ _. None)\<rparr>"

theorem issued_token_accepted_witness:
  "\<exists>tok ui v v'.
     esp_get_auth_token example_issuing_lib (example_crypto\<lparr>HMAC := (\<lambda>_ _ _. replicate 32 CHR ''m'')\<rparr>) example_token_lib 0 ''S'' ''a'' = Some (Some tok) \<and>
     Parse example_issuing_lib 900 new_UserInfo (JwtValidatorImpl tok) = Some (Status_OK, ui, v) \<and>
     VerifySignature example_issuing_lib (example_crypto\<lparr>HMAC := (\<lambda>_ _ _. replicate 32 CHR ''m'')\<rparr>) ''k'' v = Some (Status_OK, v')"
proof -
  have "jose_json ''HS256'' \<noteq> claims_doc ''i'' ''s'' ''a'' 0 3600" by (simp add: jose_json_def claims_doc_def)
  then have rb: "reads_back example_issuing_lib (jose_json ''HS256'')"
      "reads_back example_issuing_lib (claims_doc ''i'' ''s'' ''a'' 0 (0 + 3600))"
    by (auto simp: reads_back_def example_issuing_lib_def)
  have laws: "link_appends example_token_lib" "base64_laws example_issuing_lib example_token_lib"
    using unescape_escape
    by (simp_all add: link_appends_def base64_laws_def example_token_lib_def example_issuing_lib_def)
  have doc: "json_parse example_issuing_lib ''S'' = Some example_secret"
      "GetStringValue (Some example_secret) (Some ''client_secret'') = Some (Some ''k'')"
      "GetStringValue (Some example_secret) (Some ''issuer'') = Some (Some ''i'')"
      "GetStringValue (Some example_secret) (Some ''subject'') = Some (Some ''s'')"
    by (simp_all add: example_issuing_lib_def GetStringValue_def GetPropertyValue_def GetProperty_def example_secret_def jstr_def)
  show ?thesis
    using issued_token_accepted [OF laws rb doc, of "example_crypto\<lparr>HMAC := (\<lambda>_ _ _. replicate 32 CHR ''m'')\<rparr>" "()" 900]
    by (fastforce simp: example_issuing_lib_def example_lib_def example_crypto_def)
qed

text \<open>
  an empty issuer, subject or audience is not written, and the next claim is linked behind
  the variable that was left uninitialised.
\<close>

theorem empty_claim_undefined:
  assumes "iss = [] \<or> sub = [] \<or> aud = []" and "link_appends g"
  shows "GenerateJwtClaim lib g now iss sub aud life = None"
proof -
  have start: "FillChild g None json_top (Some ''iss'') (Some iss) JSON_STRING =
      Some (if iss = [] then (None, json_top) else (Some (jstr ''iss'' iss), Json JSON_OBJECT None None [jstr ''iss'' iss]))"
    using assms(2) by (simp add: FillChild_def isNullOrEmpty_def link_appends_def json_top_def jstr_def Let_def)
  have gap: "FillChild g (Some None) parent k (Some v) t = (if v = [] then Some (None, parent) else None)" for parent k v t
    by (simp add: FillChild_def isNullOrEmpty_def Let_def)
  have more: "FillChild g (Some (Some b)) parent k (Some v) t =
      Some (if v = [] then (None, parent) else (Some (Json t k (Some v) []), json_link_child g parent (Json t k (Some v) []) (Some b)))"
    for b parent k v t by (simp add: FillChild_def isNullOrEmpty_def Let_def)
  show ?thesis using assms(1) by (auto simp: GenerateJwtClaim_def start gap more)
qed

theorem empty_claim_undefined_witness:
  "GenerateJwtClaim example_lib example_token_lib 0 [] ''sub'' ''aud'' 3600 = None"
  by (rule empty_claim_undefined) (simp_all add: link_appends_def example_token_lib_def)

end
