(* ===== verification/Service_Account_Token.thy ===== *)
theory Service_Account_Token
  imports Esp_Env Auth_Token
begin

text \<open>
  The tokens of the proxy's own service account: the token store
  (\<^verbatim>\<open>src/api_manager/auth/service_account_token.cc\<close>), the parsing of a token response
  (\<^verbatim>\<open>src/api_manager/auth/lib/auth_token.cc\<close>), and the fetch from the metadata server
  (\<^verbatim>\<open>src/api_manager/fetch_metadata.cc\<close>) as a step that starts a fetch and a step that receives
  its response.  \<open>now\<close> is the clock, in seconds; the signing of a JWT for an audience is the
  argument \<open>get_auth_token\<close>, and the JSON parser of grpc the argument \<open>parse_json\<close>.
\<close>

section \<open>The token store\<close>

datatype FetchState = NONE | FETCHING | FETCHED | FAILED

record token_info =
  token :: string
  expiration_time :: int

record jwt_token_info = token_info +
  audience :: string

datatype jwt_token_type = JWT_TOKEN_FOR_SERVICE_CONTROL | JWT_TOKEN_FOR_CLOUD_TRACING | JWT_TOKEN_FOR_FIREBASE
  | JWT_TOKEN_FOR_AUTHORIZATION_SERVICE | JWT_TOKEN_FOR_QUOTA_CONTROL | JWT_TOKEN_FOR_SERVICEMANAGEMENT_SERVICES

definition jwt_token_types :: "jwt_token_type list" where
  "jwt_token_types = [JWT_TOKEN_FOR_SERVICE_CONTROL, JWT_TOKEN_FOR_CLOUD_TRACING, JWT_TOKEN_FOR_FIREBASE,
     JWT_TOKEN_FOR_AUTHORIZATION_SERVICE, JWT_TOKEN_FOR_QUOTA_CONTROL, JWT_TOKEN_FOR_SERVICEMANAGEMENT_SERVICES]"

record service_account_token =
  client_auth_secret :: string
  access_token :: token_info
  jwt_tokens :: "jwt_token_type \<Rightarrow> jwt_token_info"
  state :: FetchState
  last_failed_fetch_time :: int

definition is_valid :: "int \<Rightarrow> int \<Rightarrow> 'a token_info_scheme \<Rightarrow> bool" where
  "is_valid now duration t \<longleftrightarrow> token t \<noteq> [] \<and> expiration_time t \<ge> now + duration"

definition set_token :: "int \<Rightarrow> string \<Rightarrow> int \<Rightarrow> 'a token_info_scheme \<Rightarrow> 'a token_info_scheme" where
  "set_token now tok expiration t = t\<lparr>token := tok, expiration_time := now + expiration\<rparr>"

text \<open>The expiration times of tokens that were never set are not initialised: the argument \<open>garbage\<close>.\<close>

definition ServiceAccountToken :: "int \<Rightarrow> service_account_token" where
  "ServiceAccountToken garbage = \<lparr>client_auth_secret = [], access_token = \<lparr>token = [], expiration_time = garbage\<rparr>,
     jwt_tokens = (\<lambda>_. \<lparr>token = [], expiration_time = garbage, audience = []\<rparr>), state = NONE,
     last_failed_fetch_time = 0\<rparr>"

definition set_state :: "FetchState \<Rightarrow> service_account_token \<Rightarrow> service_account_token" where
  "set_state st t = t\<lparr>state := st\<rparr>"

definition has_client_secret :: "service_account_token \<Rightarrow> bool" where
  "has_client_secret t \<longleftrightarrow> client_auth_secret t \<noteq> []"

definition set_access_token :: "int \<Rightarrow> string \<Rightarrow> int \<Rightarrow> service_account_token \<Rightarrow> service_account_token" where
  "set_access_token now tok expiration t = t\<lparr>access_token := set_token now tok expiration (access_token t)\<rparr>"

definition set_last_failed_fetch_time :: "int \<Rightarrow> service_account_token \<Rightarrow> service_account_token" where
  "set_last_failed_fetch_time time t = t\<lparr>last_failed_fetch_time := time\<rparr>"

definition is_access_token_valid :: "int \<Rightarrow> int \<Rightarrow> service_account_token \<Rightarrow> bool" where
  "is_access_token_valid now duration t \<longleftrightarrow> is_valid now duration (access_token t)"

definition kClientSecretAuthTokenExpiration :: int where
  "kClientSecretAuthTokenExpiration = 3600 - 100"

text \<open>
  \<^verbatim>\<open>GOOGLE_CHECK(!audience_.empty())\<close> ends the process: \<open>None\<close>.  \<^verbatim>\<open>esp_get_auth_token\<close> is the argument
  \<open>get_auth_token\<close> on the clock, the secret and the audience.
\<close>

definition GenerateJwtToken ::
    "(int \<Rightarrow> string \<Rightarrow> string \<Rightarrow> string option option) \<Rightarrow> int \<Rightarrow> string \<Rightarrow> jwt_token_info \<Rightarrow> (status \<times> jwt_token_info) option" where
  "GenerateJwtToken get_auth_token now secret t =
     (if audience t = [] then None
      else do {
        tok \<leftarrow> get_auth_token now (c_string secret) (c_string (audience t));
        Some (case tok of
                None \<Rightarrow> (Status INVALID_ARGUMENT ''Invalid client auth secret, the file may be corrupted.'', t)
              | Some tok \<Rightarrow> (Status_OK, set_token now tok kClientSecretAuthTokenExpiration t))
      })"

definition put_jwt_token :: "jwt_token_type \<Rightarrow> jwt_token_info \<Rightarrow> service_account_token \<Rightarrow> service_account_token" where
  "put_jwt_token type info t = t\<lparr>jwt_tokens := (jwt_tokens t)(type := info)\<rparr>"

text \<open>The loop over the token types ends at the first failure.\<close>

fun generate_all ::
    "(int \<Rightarrow> string \<Rightarrow> string \<Rightarrow> string option option) \<Rightarrow> int \<Rightarrow> jwt_token_type list \<Rightarrow> service_account_token \<Rightarrow>
     (status \<times> service_account_token \<times> env_effect list) option" where
  "generate_all get_auth_token now [] t = Some (Status_OK, t, [])"
| "generate_all get_auth_token now (type # types) t =
     (if audience (jwt_tokens t type) \<noteq> [] then do {
        (st, info) \<leftarrow> GenerateJwtToken get_auth_token now (client_auth_secret t) (jwt_tokens t type);
        (let t = put_jwt_token type info t
         in if \<not> ok st then Some (st, t, [LogError ''Failed to generate auth token.''])
            else generate_all get_auth_token now types t)
      }
      else generate_all get_auth_token now types t)"

definition SetClientAuthSecret ::
    "(int \<Rightarrow> string \<Rightarrow> string \<Rightarrow> string option option) \<Rightarrow> int \<Rightarrow> string \<Rightarrow> service_account_token \<Rightarrow>
     (status \<times> service_account_token \<times> env_effect list) option" where
  "SetClientAuthSecret get_auth_token now secret t =
     (if secret = [] then Some (Status_OK, t, [LogDebug ''SetClientAuthSecret called with empty secret''])
      else generate_all get_auth_token now jwt_token_types (t\<lparr>client_auth_secret := secret\<rparr>))"

definition SetAudience :: "int \<Rightarrow> jwt_token_type \<Rightarrow> string \<Rightarrow> service_account_token \<Rightarrow> service_account_token" where
  "SetAudience now type aud t =
     (if audience (jwt_tokens t type) \<noteq> aud
      then put_jwt_token type ((set_token now [] 0 (jwt_tokens t type))\<lparr>audience := aud\<rparr>) t
      else t)"

definition GetAuthToken_for ::
    "(int \<Rightarrow> string \<Rightarrow> string \<Rightarrow> string option option) \<Rightarrow> int \<Rightarrow> jwt_token_type \<Rightarrow> string \<Rightarrow> service_account_token \<Rightarrow>
     (string \<times> service_account_token \<times> env_effect list) option" where
  "GetAuthToken_for get_auth_token now type aud t =
     (if has_client_secret t then
        let t = SetAudience now type aud t
        in if \<not> is_valid now 0 (jwt_tokens t type) then do {
             (st, info) \<leftarrow> GenerateJwtToken get_auth_token now (client_auth_secret t) (jwt_tokens t type);
             (let t = put_jwt_token type info t
              in if \<not> ok st then Some ([], t, [LogError ''Failed to generate auth token.''])
                 else Some (token (jwt_tokens t type), t, []))
           }
           else Some (token (jwt_tokens t type), t, [])
      else Some (token (access_token t), t, []))"

definition GetAuthToken ::
    "(int \<Rightarrow> string \<Rightarrow> string \<Rightarrow> string option option) \<Rightarrow> int \<Rightarrow> jwt_token_type \<Rightarrow> service_account_token \<Rightarrow>
     (string \<times> service_account_token \<times> env_effect list) option" where
  "GetAuthToken get_auth_token now type t =
     GetAuthToken_for get_auth_token now type (audience (jwt_tokens t type)) t"

section \<open>Token responses\<close>

definition SetTokenJsonResponse ::
    "(string \<Rightarrow> grpc_json option) \<Rightarrow> int \<Rightarrow> string \<Rightarrow> service_account_token \<Rightarrow>
     (bool \<times> service_account_token) option" where
  "SetTokenJsonResponse parse_json now body t = do {
     r \<leftarrow> esp_get_service_account_auth_token parse_json body;
     Some (case r of
             None \<Rightarrow> (False, set_state FAILED t)
           | Some (auth_token, expires) \<Rightarrow> (True, set_access_token now auth_token (expires - 50) (set_state FETCHED t)))
   }"

section \<open>Fetching from the metadata server\<close>

text \<open>The part of the global context the fetch uses.\<close>

record token_context =
  metadata_server :: string
  tc_service_account_token :: service_account_token
  instance_identity_token_map :: "(string \<times> service_account_token) list"

definition GetInstanceIdentityToken ::
    "int \<Rightarrow> string \<Rightarrow> token_context \<Rightarrow> service_account_token \<times> token_context" where
  "GetInstanceIdentityToken garbage aud ctx =
     (case map_of (instance_identity_token_map ctx) aud of
        Some t \<Rightarrow> (t, ctx)
      | None \<Rightarrow>
          (ServiceAccountToken garbage,
           ctx\<lparr>instance_identity_token_map :=
             AList.update aud (ServiceAccountToken garbage) (instance_identity_token_map ctx)\<rparr>))"

definition kMetadataServiceAccountToken :: string where
  "kMetadataServiceAccountToken = ''/computeMetadata/v1/instance/service-accounts/default/token''"

definition kMetadataInstanceIdentityToken :: string where
  "kMetadataInstanceIdentityToken =
     ''/computeMetadata/v1/instance/service-accounts/default/'' @ ''identity?format=full&audience=''"

definition kInstanceIdentityTokenExpiration :: int where "kInstanceIdentityTokenExpiration = 3500"
definition kFailureStatusWindow :: int where "kFailureStatusWindow = 5"
definition kMetadataFetchTimeout :: int where "kMetadataFetchTimeout = 30000"
definition kMetadataTokenFetchRetries :: int where "kMetadataTokenFetchRetries = 3"
definition kFailedTokenFetch :: string where "kFailedTokenFetch = ''Failed to fetch service account token''"
definition kFailedTokenParse :: string where "kFailedTokenParse = ''Failed to parse access token response''"
definition kTokenRefetchWindow :: int where "kTokenRefetchWindow = 60"

definition FetchMetadata :: "token_context \<Rightarrow> string \<Rightarrow> int \<Rightarrow> env_effect" where
  "FetchMetadata ctx path retry =
     RunHTTPRequest (set_max_retries retry (set_timeout_ms kMetadataFetchTimeout
       (set_header ''Metadata-Flavor'' ''Google''
          (set_url (metadata_server ctx @ path) (set_method ''GET'' new_HTTPRequest)))))"

text \<open>The token of an audience: the empty audience is the service account's own.\<close>

definition select_token :: "int \<Rightarrow> string \<Rightarrow> token_context \<Rightarrow> service_account_token \<times> token_context" where
  "select_token garbage aud ctx =
     (if aud = [] then (tc_service_account_token ctx, ctx) else GetInstanceIdentityToken garbage aud ctx)"

definition put_token :: "string \<Rightarrow> service_account_token \<Rightarrow> token_context \<Rightarrow> token_context" where
  "put_token aud t ctx =
     (if aud = [] then ctx\<lparr>tc_service_account_token := t\<rparr>
      else ctx\<lparr>instance_identity_token_map := AList.update aud t (instance_identity_token_map ctx)\<rparr>)"

definition token_path :: "string \<Rightarrow> string" where
  "token_path aud = (if aud = [] then kMetadataServiceAccountToken else kMetadataInstanceIdentityToken @ aud)"

text \<open>
  The outcome of the first half: the continuation is called with a status, or a request was
  sent whose response the second half receives.  \<open>now\<close> is the clock in seconds and \<open>now_ns\<close>
  the system clock in nanoseconds.
\<close>

datatype fetch_outcome = Continue status | Await

definition GlobalFetchServiceAccountToken ::
    "int \<Rightarrow> int \<Rightarrow> int \<Rightarrow> string \<Rightarrow> token_context \<Rightarrow> fetch_outcome \<times> token_context \<times> env_effect list" where
  "GlobalFetchServiceAccountToken garbage now now_ns aud ctx =
     (let (t, ctx) = select_token garbage aud ctx;
          fetch = (\<lambda>logs. (Await, put_token aud (set_state FETCHING t) ctx,
                           logs @ [StartSpan (if aud = [] then ''FetchAccessToken'' else ''FetchIdentityToken''),
                                   FetchMetadata ctx (token_path aud) kMetadataTokenFetchRetries]))
      in if metadata_server ctx = [] \<or> has_client_secret t then (Continue Status_OK, ctx, [])
         else
           case state t of
             FETCHED \<Rightarrow>
               if is_access_token_valid now kTokenRefetchWindow t then (Continue Status_OK, ctx, [])
               else fetch []
           | FETCHING \<Rightarrow>
               if is_access_token_valid now 0 t
               then (Continue Status_OK, ctx, [LogDebug ''Service account token fetch in progress''])
               else fetch [LogDebug ''Service account token fetch in progress'']
           | FAILED \<Rightarrow>
               if now_ns - last_failed_fetch_time t < kFailureStatusWindow * 1000000000
               then (Continue (Status INTERNAL_CODE kFailedTokenFetch), ctx, [])
               else fetch []
           | NONE \<Rightarrow> fetch [LogDebug ''Need to fetch service account token''])"

text \<open>The callback of the request; \<open>None\<close> is a crash of the JSON search.\<close>

definition token_fetched ::
    "(string \<Rightarrow> grpc_json option) \<Rightarrow> int \<Rightarrow> int \<Rightarrow> string \<Rightarrow> status \<Rightarrow> string \<Rightarrow> service_account_token \<Rightarrow>
     (status \<times> service_account_token \<times> env_effect list) option" where
  "token_fetched parse_json now now_ns aud st body t =
     (if \<not> ok st
      then Some (Status INTERNAL_CODE kFailedTokenFetch,
                 set_state FAILED (set_last_failed_fetch_time now_ns t),
                 [LogError ''Failed to fetch service account token''])
      else if aud = [] then do {
        (parsed, t) \<leftarrow> SetTokenJsonResponse parse_json now body t;
        Some (if \<not> parsed
              then (Status INTERNAL_CODE kFailedTokenParse, t, [LogError ''Failed to parse token response body''])
              else (Status_OK, t, []))
      }
      else Some (Status_OK, set_access_token now body kInstanceIdentityTokenExpiration t, []))"

definition token_response ::
    "(string \<Rightarrow> grpc_json option) \<Rightarrow> int \<Rightarrow> int \<Rightarrow> int \<Rightarrow> string \<Rightarrow> status \<Rightarrow> string \<Rightarrow> token_context \<Rightarrow>
     (status \<times> token_context \<times> env_effect list) option" where
  "token_response parse_json garbage now now_ns aud st body ctx =
     (let (t, ctx) = select_token garbage aud ctx
      in do {
        (r, t, logs) \<leftarrow> token_fetched parse_json now now_ns aud st body t;
        Some (r, put_token aud t ctx, TraceMessage (''Returned with status '' @ ToString st) # logs)
      })"

definition FetchServiceAccountToken ::
    "int \<Rightarrow> int \<Rightarrow> int \<Rightarrow> token_context \<Rightarrow> fetch_outcome \<times> token_context \<times> env_effect list" where
  "FetchServiceAccountToken garbage now now_ns ctx = GlobalFetchServiceAccountToken garbage now now_ns [] ctx"

text \<open>The argument is the backend audience of the request's method, if it has a method.\<close>

definition FetchInstanceIdentityToken ::
    "int \<Rightarrow> int \<Rightarrow> int \<Rightarrow> string option \<Rightarrow> token_context \<Rightarrow> fetch_outcome \<times> token_context \<times> env_effect list" where
  "FetchInstanceIdentityToken garbage now now_ns backend_jwt_audience ctx =
     (case backend_jwt_audience of
        None \<Rightarrow> (Continue Status_OK, ctx, [])
      | Some aud \<Rightarrow>
          if aud = [] then (Continue Status_OK, ctx, [])
          else GlobalFetchServiceAccountToken garbage now now_ns aud ctx)"

section \<open>Tokens signed for an audience\<close>

text \<open>The calls on a token store, in any order once the secret is set.\<close>

datatype token_call = CallSetAudience int jwt_token_type string | CallGetAuthToken int jwt_token_type string

fun run_calls ::
    "(int \<Rightarrow> string \<Rightarrow> string \<Rightarrow> string option option) \<Rightarrow> token_call list \<Rightarrow> service_account_token \<Rightarrow> service_account_token option" where
  "run_calls get_auth_token [] t = Some t"
| "run_calls get_auth_token (CallSetAudience now type aud # cs) t = run_calls get_auth_token cs (SetAudience now type aud t)"
| "run_calls get_auth_token (CallGetAuthToken now type aud # cs) t =
     Option.bind (GetAuthToken_for get_auth_token now type aud t) (\<lambda>(_, t, _). run_calls get_auth_token cs t)"

text \<open>Every stored token was signed for its audience with the current secret, 3500 seconds before it expires.\<close>

definition tokens_signed :: "(int \<Rightarrow> string \<Rightarrow> string \<Rightarrow> string option option) \<Rightarrow> service_account_token \<Rightarrow> bool" where
  "tokens_signed get_auth_token t \<longleftrightarrow> (\<forall>type. token (jwt_tokens t type) \<noteq> [] \<longrightarrow>
     get_auth_token (expiration_time (jwt_tokens t type) - 3500) (c_string (client_auth_secret t))
       (c_string (audience (jwt_tokens t type))) = Some (Some (token (jwt_tokens t type))))"

lemma SetAudience_simps [simp]:
  "client_auth_secret (SetAudience now type aud t) = client_auth_secret t"
  "audience (jwt_tokens (SetAudience now type aud t) type) = aud"
  "access_token (SetAudience now type aud t) = access_token t"
  by (simp_all add: SetAudience_def put_jwt_token_def)

lemma tokens_signed_SetAudience: "tokens_signed g t \<Longrightarrow> tokens_signed g (SetAudience now type aud t)"
  by (simp add: tokens_signed_def SetAudience_def put_jwt_token_def set_token_def)

lemma GenerateJwtToken_signed:
  assumes "GenerateJwtToken g now (client_auth_secret t) (jwt_tokens t type) = Some (st, info)" "tokens_signed g t"
  shows "tokens_signed g (put_jwt_token type info t) \<and> audience info = audience (jwt_tokens t type) \<and>
    (ok st \<longrightarrow> g now (c_string (client_auth_secret t)) (c_string (audience info)) = Some (Some (token info)) \<and>
      expiration_time info = now + 3500)"
  using assms
  by (auto simp: GenerateJwtToken_def tokens_signed_def put_jwt_token_def set_token_def Status_def Status3_def ok_def
      kClientSecretAuthTokenExpiration_def bind_eq_Some_conv split: if_splits option.splits)

lemma GetAuthToken_for_signed:
  assumes "GetAuthToken_for g now type aud t = Some (tok, t', logs)" "tokens_signed g t"
  shows "tokens_signed g t' \<and> client_auth_secret t' = client_auth_secret t \<and>
    (has_client_secret t \<and> tok \<noteq> [] \<longrightarrow>
       (\<exists>signed \<ge> now - 3500. g signed (c_string (client_auth_secret t)) (c_string aud) = Some (Some tok)))"
proof (cases "has_client_secret t")
  case False
  then show ?thesis using assms by (simp add: GetAuthToken_for_def)
next
  case True
  define t1 where "t1 = SetAudience now type aud t"
  have t1: "tokens_signed g t1" "client_auth_secret t1 = client_auth_secret t" "audience (jwt_tokens t1 type) = aud"
    using tokens_signed_SetAudience [OF assms(2)] by (simp_all add: t1_def)
  show ?thesis
  proof (cases "is_valid now 0 (jwt_tokens t1 type)")
    case valid: True
    then have "tok = token (jwt_tokens t1 type)" "t' = t1"
      using assms(1) True unfolding GetAuthToken_for_def t1_def [symmetric] by (auto simp: Let_def)
    then show ?thesis
      using valid t1 by (auto simp: is_valid_def tokens_signed_def intro!: exI [of _ "expiration_time (jwt_tokens t1 type) - 3500"])
  next
    case False
    obtain st info where gen: "GenerateJwtToken g now (client_auth_secret t1) (jwt_tokens t1 type) = Some (st, info)"
      using assms(1) True False unfolding GetAuthToken_for_def t1_def [symmetric] by (auto simp: Let_def bind_eq_Some_conv)
    have r: "t' = put_jwt_token type info t1" "tok = (if ok st then token info else [])"
      using assms(1) True False gen unfolding GetAuthToken_for_def t1_def [symmetric]
      by (auto simp: Let_def put_jwt_token_def split: if_splits)
    then show ?thesis
      using GenerateJwtToken_signed [OF gen t1(1)] t1(2,3)
      by (auto simp: put_jwt_token_def intro!: exI [of _ now])
  qed
qed

lemma run_calls_signed:
  "tokens_signed g t \<Longrightarrow> run_calls g cs t = Some t' \<Longrightarrow> tokens_signed g t' \<and> client_auth_secret t' = client_auth_secret t"
proof (induction g cs t rule: run_calls.induct)
  case (2 g now type aud cs t)
  then show ?case using tokens_signed_SetAudience by auto
next
  case (3 g now type aud cs t)
  obtain tok t1 logs where 1: "GetAuthToken_for g now type aud t = Some (tok, t1, logs)"
    using "3.prems"(2) by (auto simp: bind_eq_Some_conv)
  show ?case using GetAuthToken_for_signed [OF 1 "3.prems"(1)] "3.IH" [OF 1] "3.prems"(2) 1 by auto
qed auto

lemma generate_all_signed:
  "tokens_signed g t \<Longrightarrow> generate_all g now types t = Some (st, t', logs) \<Longrightarrow>
     tokens_signed g t' \<and> client_auth_secret t' = client_auth_secret t"
proof (induction g now types t rule: generate_all.induct)
  case (2 g now type types t)
  show ?case
  proof (cases "audience (jwt_tokens t type) = []")
    case True
    then show ?thesis using 2 by simp
  next
    case False
    obtain st1 info where gen: "GenerateJwtToken g now (client_auth_secret t) (jwt_tokens t type) = Some (st1, info)"
      using "2.prems"(2) False by (auto simp: bind_eq_Some_conv)
    show ?thesis
      using GenerateJwtToken_signed [OF gen "2.prems"(1)] "2.IH"(1) [OF False gen] "2.prems"(2) False gen
      by (cases "ok st1") (auto simp: put_jwt_token_def)
  qed
qed auto



section \<open>When a token is fetched\<close>

lemma select_put:
  "select_token g aud (put_token aud t ctx) = (t, put_token aud t ctx)"
  by (simp add: select_token_def put_token_def GetInstanceIdentityToken_def update_conv')

lemma metadata_server_put [simp]: "metadata_server (put_token aud t ctx) = metadata_server ctx"
  by (simp add: put_token_def)

lemma metadata_server_select: "select_token g aud ctx = (t, ctx') \<Longrightarrow> metadata_server ctx' = metadata_server ctx"
  by (auto simp: select_token_def GetInstanceIdentityToken_def split: if_splits option.splits)

text \<open>What the first half does with a token, by the state of the fetch.\<close>

lemma fetch_cases:
  assumes "select_token g aud ctx = (t, ctx')" "metadata_server ctx \<noteq> []" "\<not> has_client_secret t"
  shows "fst (GlobalFetchServiceAccountToken g now ns aud ctx) =
    (case state t of
       FETCHED \<Rightarrow> if is_access_token_valid now kTokenRefetchWindow t then Continue Status_OK else Await
     | FETCHING \<Rightarrow> if is_access_token_valid now 0 t then Continue Status_OK else Await
     | FAILED \<Rightarrow> if ns - last_failed_fetch_time t < kFailureStatusWindow * 1000000000
                 then Continue (Status INTERNAL_CODE kFailedTokenFetch) else Await
     | NONE \<Rightarrow> Await)"
  using assms metadata_server_select [OF assms(1)]
  by (auto simp: GlobalFetchServiceAccountToken_def Let_def split: FetchState.splits)

text \<open>The context after a response holds the token the response made.\<close>

lemma token_response_token:
  assumes "select_token g aud ctx = (t, ctx')" "metadata_server ctx \<noteq> []" "\<not> has_client_secret t"
    and "token_response parse_json g now ns aud st body ctx = Some (r, ctx1, logs)"
  obtains t1 l where "token_fetched parse_json now ns aud st body t = Some (r, t1, l)"
    "select_token g aud ctx1 = (t1, ctx1)" "metadata_server ctx1 \<noteq> []" "\<not> has_client_secret t1"
proof -
  obtain t1 l where f: "token_fetched parse_json now ns aud st body t = Some (r, t1, l)" "ctx1 = put_token aud t1 ctx'"
    using assms(1,4) by (auto simp: token_response_def bind_eq_Some_conv)
  have "\<not> has_client_secret t1"
    using f(1) assms(3)
    by (auto simp: token_fetched_def SetTokenJsonResponse_def has_client_secret_def set_state_def
        set_last_failed_fetch_time_def set_access_token_def bind_eq_Some_conv split: if_splits option.splits)
  then show ?thesis
    using that f select_put [of g aud t1 ctx'] metadata_server_select [OF assms(1)] assms(2) by simp
qed


definition example_context :: token_context where
  "example_context = \<lparr>metadata_server = ''http://md'',
     tc_service_account_token = set_state FETCHING (ServiceAccountToken 0),
     instance_identity_token_map = [(''aud'', set_state FETCHING (ServiceAccountToken 0))]\<rparr>"


text \<open>
  the fetch of an identity token never reaches the state in which a token is renewed ahead
  of its expiration: after a successful response requests use the token up to its last
  second, and every request after that sends a fetch of its own, also while one is running.
\<close>

theorem identity_token_not_renewed_ahead:
  assumes "select_token g aud ctx = (t, ctx')" and "metadata_server ctx \<noteq> []" and "\<not> has_client_secret t"
    and "aud \<noteq> []" and "state t = FETCHING" and "ok st" and "body \<noteq> []"
    and "token_response parse_json g now ns aud st body ctx = Some (r, ctx1, logs)"
  shows "fst (GlobalFetchServiceAccountToken g now1 ns1 aud ctx1) = (if now1 \<le> now + 3500 then Continue Status_OK else Await) \<and>
    (now + 3500 < now1 \<longrightarrow>
      fst (GlobalFetchServiceAccountToken g now1 ns1 aud (fst (snd (GlobalFetchServiceAccountToken g now1 ns1 aud ctx1)))) = Await)"
proof -
  obtain t1 l where f: "token_fetched parse_json now ns aud st body t = Some (r, t1, l)"
      and sel: "select_token g aud ctx1 = (t1, ctx1)" and srv: "metadata_server ctx1 \<noteq> []" and sec: "\<not> has_client_secret t1"
    using token_response_token [OF assms(1-3,8)] .
  have t1_def: "t1 = set_access_token now body kInstanceIdentityTokenExpiration t"
    using f assms(4,6) by (auto simp: token_fetched_def)
  have fetching: "state t1 = FETCHING" using assms(5) by (simp add: t1_def set_access_token_def)
  have valid: "is_access_token_valid now1 0 t1 \<longleftrightarrow> now1 \<le> now + 3500"
    using assms(7) by (simp add: t1_def is_access_token_valid_def is_valid_def set_access_token_def set_token_def
        kInstanceIdentityTokenExpiration_def)
  have out: "fst (GlobalFetchServiceAccountToken g now1 ns1 aud ctx1) = (if now1 \<le> now + 3500 then Continue Status_OK else Await)"
    using fetch_cases [OF sel srv sec] fetching valid by simp
  moreover have "fst (GlobalFetchServiceAccountToken g now1 ns1 aud (fst (snd (GlobalFetchServiceAccountToken g now1 ns1 aud ctx1)))) = Await"
    if "now + 3500 < now1"
  proof -
    have c2: "fst (snd (GlobalFetchServiceAccountToken g now1 ns1 aud ctx1)) = put_token aud (set_state FETCHING t1) ctx1"
      using sel srv sec fetching valid that by (simp add: GlobalFetchServiceAccountToken_def)
    have "select_token g aud (put_token aud (set_state FETCHING t1) ctx1) =
        (set_state FETCHING t1, put_token aud (set_state FETCHING t1) ctx1)" by (rule select_put)
    from fetch_cases [OF this] show ?thesis
      unfolding c2 using srv sec valid that
      by (simp add: set_state_def has_client_secret_def is_access_token_valid_def)
  qed
  ultimately show ?thesis by blast
qed

theorem identity_token_not_renewed_ahead_witness:
  "case token_response (\<lambda>_. None) 0 100 7 ''aud'' Status_OK ''jwt'' example_context of
     None \<Rightarrow> False
   | Some (r, ctx1, _) \<Rightarrow>
       fst (GlobalFetchServiceAccountToken 0 3599 8 ''aud'' ctx1) = Continue Status_OK \<and>
       fst (GlobalFetchServiceAccountToken 0 3601 8 ''aud'' ctx1) = Await"
proof -
  let ?t = "set_state FETCHING (ServiceAccountToken 0)"
  have sel: "select_token 0 ''aud'' example_context = (?t, example_context)"
    by (simp add: select_token_def example_context_def GetInstanceIdentityToken_def)
  have c: "metadata_server example_context \<noteq> []" "\<not> has_client_secret ?t" "state ?t = FETCHING" "ok Status_OK"
    by (simp_all add: example_context_def has_client_secret_def set_state_def ServiceAccountToken_def)
  obtain r ctx1 logs where r: "token_response (\<lambda>_. None) 0 100 7 ''aud'' Status_OK ''jwt'' example_context = Some (r, ctx1, logs)"
    by (auto simp: token_response_def sel token_fetched_def)
  show ?thesis
    using identity_token_not_renewed_ahead [OF sel c(1,2) _ c(3,4) _ r, of 3599 8]
      identity_token_not_renewed_ahead [OF sel c(1,2) _ c(3,4) _ r, of 3601 8] r
    by simp
qed

end
