(* ===== verification/Check_Auth.thy ===== *)
theory Check_Auth
  imports Esp_Config Auth_Token
begin

text \<open>
  The authentication of a request (\<^verbatim>\<open>src/api_manager/check_auth.cc\<close>) with its caches
  (\<^verbatim>\<open>src/api_manager/auth/jwt_cache.cc\<close>, \<^verbatim>\<open>authz_cache.cc\<close> and \<^verbatim>\<open>certs.h\<close>).  An \<^verbatim>\<open>AuthChecker\<close>
  runs until it calls the final continuation or has sent a request; the response resumes it.
  Checkers of different requests share the caches and the configuration, the record
  \<open>service_state\<close>.

  The environment of the checker is the record \<open>auth_env\<close>: the LRU cache of the service control
  client, the \<^verbatim>\<open>JwtValidator\<close> interface, the JSON parser, and the encoders of the user
  information.  The readings of the clock in one run are the record \<open>ticks\<close>, in nanoseconds,
  and in seconds for the claims check.  \<open>None\<close> as the result of a step is undefined behaviour or a
  crash.
\<close>

section \<open>Caches\<close>

definition seconds :: "int \<Rightarrow> int" where
  "seconds s = s * 1000000000"

text \<open>\<^verbatim>\<open>SimpleLRUCache\<close>: a lookup may reorder the entries, an insertion may drop others.\<close>

record ('v, 'c) lru_api =
  lru_find :: "string \<Rightarrow> 'c \<Rightarrow> 'v option \<times> 'c"
  lru_insert :: "string \<Rightarrow> 'v \<Rightarrow> 'c \<Rightarrow> 'c"
  lru_remove :: "string \<Rightarrow> 'c \<Rightarrow> 'c"

record jwt_value =
  jv_user_info :: user_info
  jv_exp :: int

definition kJwtCacheTimeout :: int where "kJwtCacheTimeout = 300"

definition JwtCache_Insert ::
    "(jwt_value, 'c) lru_api \<Rightarrow> string \<Rightarrow> user_info \<Rightarrow> int \<Rightarrow> int \<Rightarrow> 'c \<Rightarrow> 'c" where
  "JwtCache_Insert lru jwt ui token_exp now cache =
     lru_insert lru jwt \<lparr>jv_user_info = ui, jv_exp = min token_exp (now + seconds kJwtCacheTimeout)\<rparr> cache"

record authz_value =
  if_success :: bool
  az_exp :: int

definition kAuthzCacheTimeout :: int where "kAuthzCacheTimeout = 300"

definition AuthzCache_Add :: "(authz_value, 'c) lru_api \<Rightarrow> string \<Rightarrow> bool \<Rightarrow> int \<Rightarrow> 'c \<Rightarrow> 'c" where
  "AuthzCache_Add lru cache_key success now cache =
     lru_insert lru cache_key \<lparr>if_success = success, az_exp = now + seconds kAuthzCacheTimeout\<rparr> cache"

definition AuthzCache_Lookup ::
    "(authz_value, 'c) lru_api \<Rightarrow> string \<Rightarrow> int \<Rightarrow> 'c \<Rightarrow> authz_value option \<times> 'c" where
  "AuthzCache_Lookup lru cache_key now cache =
     (case lru_find lru cache_key cache of
        (None, cache) \<Rightarrow> (None, cache)
      | (Some val, cache) \<Rightarrow>
          if now > az_exp val then (None, lru_remove lru cache_key cache) else (Some val, cache))"

definition ComposeAuthzCacheKey :: "(string \<Rightarrow> string) \<Rightarrow> string \<Rightarrow> string \<Rightarrow> string \<Rightarrow> string" where
  "ComposeAuthzCacheKey md5 auth_token path http_method =
     md5 (auth_token @ path @ http_method)"

type_synonym certs = "(string \<times> string \<times> int) list"

definition Certs_Update :: "string \<Rightarrow> string \<Rightarrow> int \<Rightarrow> certs \<Rightarrow> certs" where
  "Certs_Update issuer cert expiration m = AList.update issuer (cert, expiration) m"

definition GetCert :: "string \<Rightarrow> certs \<Rightarrow> (string \<times> int) option" where
  "GetCert iss m = map_of m iss"

section \<open>State\<close>

record ('v, 'c) auth_env =
  ae_lru :: "(jwt_value, 'c) lru_api"
  ae_Create :: "string \<Rightarrow> 'v option"
  ae_Parse :: "int \<Rightarrow> user_info \<Rightarrow> 'v \<Rightarrow> (status \<times> user_info \<times> 'v) option"
  ae_VerifySignature :: "string \<Rightarrow> 'v \<Rightarrow> (status \<times> 'v) option"
  ae_GetExpirationTime :: "'v \<Rightarrow> int"
  ae_parse_json :: "string \<Rightarrow> grpc_json option"
  ae_WriteUserInfoToJson :: "user_info \<Rightarrow> string option option"
  ae_base64_encode :: "string \<Rightarrow> bool \<Rightarrow> bool \<Rightarrow> bool \<Rightarrow> string option"

record ticks =
  t_claims :: int
  t_lookup :: int
  t_key :: int
  t_fetched :: int
  t_insert :: int

record 'c service_state =
  ss_force_disabled :: bool
  ss_has_authentication :: bool
  ss_config :: config
  ss_certs :: certs
  ss_jwt_cache :: 'c
  ss_jwks_cache_duration_in_s :: int

definition RequireAuth :: "'c service_state \<Rightarrow> bool" where
  "RequireAuth s \<longleftrightarrow> \<not> ss_force_disabled s \<and> ss_has_authentication s"

text \<open>The checker and the fields of the request context it sets.\<close>

record 'v auth_checker =
  ac_method :: "method_info option"
  ac_FindHeader :: "string \<Rightarrow> string option"
  ac_FindQuery :: "string \<Rightarrow> string option"
  ac_auth_token :: string
  ac_user_info :: user_info
  ac_validator :: "'v option"
  rc_auth_token :: string
  rc_auth_issuer :: string
  rc_auth_audience :: string
  rc_auth_authorized_party :: string
  rc_auth_claims :: string

definition AuthChecker ::
    "(string \<Rightarrow> string option) \<Rightarrow> (string \<Rightarrow> string option) \<Rightarrow> method_info option \<Rightarrow> 'v auth_checker" where
  "AuthChecker find_header find_query m = \<lparr>ac_method = m, ac_FindHeader = find_header, ac_FindQuery = find_query,
     ac_auth_token = [], ac_user_info = new_UserInfo, ac_validator = None, rc_auth_token = [], rc_auth_issuer = [],
     rc_auth_audience = [], rc_auth_authorized_party = [], rc_auth_claims = []\<rparr>"

datatype auth_effect = Env env_effect | EndSpan | RequestSetAuthToken string | AddHeaderToBackend string string

text \<open>
  The final continuation was called with a status; a request was sent and its response will
  resume the checker; or the run ended without either.
\<close>

datatype auth_outcome = AuthDone status | AwaitJwksUri | AwaitPubKey | NoCallback

type_synonym ('v, 'c) auth_result =
  "(auth_outcome \<times> 'c service_state \<times> 'v auth_checker \<times> auth_effect list) option"

section \<open>The end of a check\<close>

definition Unauthenticated :: "string \<Rightarrow> 'c service_state \<Rightarrow> 'v auth_checker \<Rightarrow> ('v, 'c) auth_result" where
  "Unauthenticated error s ac =
     Some (AuthDone (Status3 UNAUTHENTICATED (''JWT validation failed: '' @ error) AUTH), s, ac,
           [Env (TraceMessage (''Authentication failed: '' @ error)), EndSpan])"

definition Unauthorized :: "string \<Rightarrow> 'c service_state \<Rightarrow> 'v auth_checker \<Rightarrow> ('v, 'c) auth_result" where
  "Unauthorized error s ac =
     Some (AuthDone (Status3 PERMISSION_DENIED (''JWT validation failed: '' @ error) AUTH), s, ac,
           [Env (TraceMessage (''Authorization failed: '' @ error)), EndSpan])"

definition FetchFailure :: "string \<Rightarrow> status \<Rightarrow> 'c service_state \<Rightarrow> 'v auth_checker \<Rightarrow> ('v, 'c) auth_result" where
  "FetchFailure error st s ac =
     Some (AuthDone (Status3 UNAUTHENTICATED
             (''JWT validation failed: '' @ error @
              (if code st \<ge> 300 then ''. HTTP response code: '' @ show_int (code st) else [])) AUTH), s, ac,
           [EndSpan])"

text \<open>Effects that come before those of the rest of a run.\<close>

definition after :: "auth_effect list \<Rightarrow> ('v, 'c) auth_result \<Rightarrow> ('v, 'c) auth_result" where
  "after es r = map_option (\<lambda>(out, s, ac, es'). (out, s, ac, es @ es')) r"

definition kEndpointApiUserInfo :: string where "kEndpointApiUserInfo = ''X-Endpoint-API-UserInfo''"

definition PassUserInfoOnSuccess ::
    "('v, 'c) auth_env \<Rightarrow> 'c service_state \<Rightarrow> 'v auth_checker \<Rightarrow> ('v, 'c) auth_result" where
  "PassUserInfoOnSuccess env s ac = do {
     json_buf \<leftarrow> ae_WriteUserInfoToJson env (ac_user_info ac);
     case json_buf of
       None \<Rightarrow> Some (NoCallback, s, ac, [])
     | Some json_buf \<Rightarrow> do {
         base64_json_buf \<leftarrow> ae_base64_encode env json_buf True False True;
         Some (AuthDone Status_OK, s, ac,
               [AddHeaderToBackend kEndpointApiUserInfo base64_json_buf,
                Env (TraceMessage ''Authenticated.''), EndSpan])
       }
   }"

section \<open>The key and the signature\<close>

text \<open>\<^verbatim>\<open>validator_->VerifySignature\<close> with the null validator is a crash.\<close>

definition AuthChecker_VerifySignature ::
    "('v, 'c) auth_env \<Rightarrow> ticks \<Rightarrow> 'c service_state \<Rightarrow> 'v auth_checker \<Rightarrow> ('v, 'c) auth_result" where
  "AuthChecker_VerifySignature env ts s ac =
     (case GetCert (ui_issuer (ac_user_info ac)) (ss_certs s) of
        None \<Rightarrow> Unauthenticated ''Missing verification key'' s ac
      | Some (key, _) \<Rightarrow>
          (case ac_validator ac of
             None \<Rightarrow> None
           | Some v \<Rightarrow>
               (case ae_VerifySignature env key v of
                  None \<Rightarrow> None
                | Some (st, v) \<Rightarrow>
                    let ac = ac\<lparr>ac_validator := Some v\<rparr>
                    in if \<not> ok st then Unauthenticated (message st) s ac
                       else PassUserInfoOnSuccess env
                              (s\<lparr>ss_jwt_cache := JwtCache_Insert (ae_lru env) (ac_auth_token ac) (ac_user_info ac)
                                   (ae_GetExpirationTime env v) (t_insert ts) (ss_jwt_cache s)\<rparr>) ac)))"

definition HttpFetch :: "string \<Rightarrow> auth_effect list" where
  "HttpFetch url =
     [Env (StartSpan ''HttpFetch''), Env (LogDebug (''http fetch: '' @ url)),
      Env (TraceMessage (''Http request URL: '' @ url)),
      Env (RunHTTPRequest (set_url url (set_method ''GET'' new_HTTPRequest)))]"

definition FetchPubKey :: "string \<Rightarrow> 'c service_state \<Rightarrow> 'v auth_checker \<Rightarrow> ('v, 'c) auth_result" where
  "FetchPubKey url s ac = Some (AwaitPubKey, s, ac, HttpFetch url)"

definition DiscoverJwksUri :: "string \<Rightarrow> 'c service_state \<Rightarrow> 'v auth_checker \<Rightarrow> ('v, 'c) auth_result" where
  "DiscoverJwksUri url s ac = Some (AwaitJwksUri, s, ac, HttpFetch url)"

definition PostFetchPubKey ::
    "('v, 'c) auth_env \<Rightarrow> ticks \<Rightarrow> status \<Rightarrow> string \<Rightarrow> 'c service_state \<Rightarrow> 'v auth_checker \<Rightarrow>
     ('v, 'c) auth_result" where
  "PostFetchPubKey env ts st body s ac =
     after [Env (TraceMessage (''Http response status: '' @ ToString st))]
       (if \<not> ok st \<or> body = [] then FetchFailure ''Unable to fetch verification key'' st s ac
        else AuthChecker_VerifySignature env ts
               (s\<lparr>ss_certs := Certs_Update (ui_issuer (ac_user_info ac)) body
                    (t_fetched ts + seconds (ss_jwks_cache_duration_in_s s)) (ss_certs s)\<rparr>) ac)"

definition put_jwks_uri :: "string \<Rightarrow> string \<Rightarrow> bool \<Rightarrow> 'c service_state \<Rightarrow> 'c service_state" where
  "put_jwks_uri issuer uri openid_valid s = s\<lparr>ss_config := SetJwksUri issuer uri openid_valid (ss_config s)\<rparr>"

definition PostFetchJwksUri ::
    "('v, 'c) auth_env \<Rightarrow> status \<Rightarrow> string \<Rightarrow> 'c service_state \<Rightarrow> 'v auth_checker \<Rightarrow> ('v, 'c) auth_result" where
  "PostFetchJwksUri env st body s ac =
     after [Env (TraceMessage (''Http response status: '' @ ToString st))]
       (let issuer = ui_issuer (ac_user_info ac)
        in if \<not> ok st
           then FetchFailure ''Unable to fetch URI of the key via OpenID discovery'' st
                  (put_jwks_uri issuer [] False s) ac
           else
             case GetStringValue (ae_parse_json env body) (Some ''jwks_uri'') of
               None \<Rightarrow> None
             | Some None \<Rightarrow>
                 after [Env (LogError ''OpenID discovery failed due to invalid doc format'')]
                   (Unauthenticated ''Unable to parse URI of the key via OpenID discovery''
                      (put_jwks_uri issuer [] False s) ac)
             | Some (Some jwks_uri) \<Rightarrow> FetchPubKey jwks_uri (put_jwks_uri issuer jwks_uri False s) ac)"

definition InitKey ::
    "('v, 'c) auth_env \<Rightarrow> ticks \<Rightarrow> 'c service_state \<Rightarrow> 'v auth_checker \<Rightarrow> ('v, 'c) auth_result" where
  "InitKey env ts s ac =
     (let cert = GetCert (ui_issuer (ac_user_info ac)) (ss_certs s)
      in if (case cert of None \<Rightarrow> True | Some (_, expiration) \<Rightarrow> t_key ts > expiration)
         then let (tryOpenId, url) = GetJwksUri (ui_issuer (ac_user_info ac)) (ss_config s)
              in if url = [] then Unauthenticated ''Cannot determine the URI of the key'' s ac
                 else if tryOpenId then DiscoverJwksUri url s ac
                 else FetchPubKey url s ac
         else AuthChecker_VerifySignature env ts s ac)"

section \<open>The token\<close>

text \<open>
  \<^verbatim>\<open>GetUrlContent\<close> of the issuer and of each audience is undefined where nothing is left of them.
\<close>

definition CheckAudience ::
    "('v, 'c) auth_env \<Rightarrow> ticks \<Rightarrow> bool \<Rightarrow> method_info \<Rightarrow> 'c service_state \<Rightarrow> 'v auth_checker \<Rightarrow>
     ('v, 'c) auth_result" where
  "CheckAudience env ts cache_hit m s ac =
     (let ui = ac_user_info ac;
          ac = ac\<lparr>rc_auth_issuer := ui_issuer ui,
                  rc_auth_audience := (if ui_audiences ui = {} then [] else AudiencesAsString ui),
                  rc_auth_authorized_party := ui_authorized_party ui, rc_auth_claims := ui_claims ui\<rparr>
      in case GetUrlContent (ui_issuer ui) of
           None \<Rightarrow> None
         | Some issuer \<Rightarrow>
             if \<not> isIssuerAllowed issuer m then Unauthenticated ''Issuer not allowed'' s ac
             else if \<exists>a \<in> ui_audiences ui. GetUrlContent a = None then None
             else
               let aud = url_content ` ui_audiences ui
               in if s_name (cfg_service (ss_config s)) \<notin> aud \<and> \<not> isAudienceAllowed issuer aud m
                  then Unauthorized ''Audience not allowed'' s ac
                  else if cache_hit then PassUserInfoOnSuccess env s ac
                  else InitKey env ts s ac)"

definition ParseJwt ::
    "('v, 'c) auth_env \<Rightarrow> ticks \<Rightarrow> method_info \<Rightarrow> 'c service_state \<Rightarrow> 'v auth_checker \<Rightarrow> ('v, 'c) auth_result" where
  "ParseJwt env ts m s ac =
     (case (case ac_validator ac of None \<Rightarrow> ae_Create env (ac_auth_token ac) | Some v \<Rightarrow> Some v) of
        None \<Rightarrow> Unauthenticated ''Internal error'' s ac
      | Some v \<Rightarrow>
          (case ae_Parse env (t_claims ts) (ac_user_info ac) v of
             None \<Rightarrow> None
           | Some (st, ui, v) \<Rightarrow>
               let ac = ac\<lparr>ac_validator := Some v, ac_user_info := ui\<rparr>
               in if \<not> ok st then Unauthenticated (message st) s ac
                  else CheckAudience env ts False m s ac))"

definition LookupJwtCache ::
    "('v, 'c) auth_env \<Rightarrow> ticks \<Rightarrow> method_info \<Rightarrow> 'c service_state \<Rightarrow> 'v auth_checker \<Rightarrow> ('v, 'c) auth_result" where
  "LookupJwtCache env ts m s ac =
     (case lru_find (ae_lru env) (ac_auth_token ac) (ss_jwt_cache s) of (val, cache) \<Rightarrow>
        let s = s\<lparr>ss_jwt_cache := cache\<rparr>
        in case val of
             None \<Rightarrow> ParseJwt env ts m s ac
           | Some val \<Rightarrow>
               if t_lookup ts \<le> jv_exp val
               then CheckAudience env ts True m s (ac\<lparr>ac_user_info := jv_user_info val\<rparr>)
               else ParseJwt env ts m
                      (s\<lparr>ss_jwt_cache := lru_remove (ae_lru env) (ac_auth_token ac) cache\<rparr>) ac)"

definition kAccessTokenName :: string where "kAccessTokenName = ''access_token''"
definition kAuthHeader :: string where "kAuthHeader = ''authorization''"
definition kAuthHeaderIAP :: string where "kAuthHeaderIAP = ''x-goog-iap-jwt-assertion''"
definition kBearer :: string where "kBearer = ''Bearer ''"

definition AuthChecker_GetAuthToken :: "'v auth_checker \<Rightarrow> string" where
  "AuthChecker_GetAuthToken ac =
     (case ac_FindHeader ac kAuthHeaderIAP of
        Some t \<Rightarrow> t
      | None \<Rightarrow>
          (case ac_FindHeader ac kAuthHeader of
             None \<Rightarrow> (case ac_FindQuery ac kAccessTokenName of None \<Rightarrow> [] | Some t \<Rightarrow> t)
           | Some auth_header \<Rightarrow>
               if length auth_header \<le> length kBearer \<or> \<not> has_prefix auth_header kBearer
               then auth_header
               else drop (length kBearer) auth_header))"

definition AuthChecker_Check ::
    "('v, 'c) auth_env \<Rightarrow> ticks \<Rightarrow> 'c service_state \<Rightarrow> 'v auth_checker \<Rightarrow> ('v, 'c) auth_result" where
  "AuthChecker_Check env ts s ac =
     (case (if RequireAuth s then ac_method ac else None) of
        None \<Rightarrow> Some (AuthDone Status_OK, s, ac, [Env (LogDebug ''Auth not required.'')])
      | Some m \<Rightarrow>
          if \<not> auth m then Some (AuthDone Status_OK, s, ac, [Env (LogDebug ''Auth not required.'')])
          else
            let tok = AuthChecker_GetAuthToken ac;
                ac = ac\<lparr>ac_auth_token := tok\<rparr>
            in after [Env (StartSpan ''CheckAuth'')]
                 (if tok = [] then Unauthenticated ''Missing or invalid credentials'' s ac
                  else
                    let ac = ac\<lparr>rc_auth_token := tok\<rparr>
                    in after [RequestSetAuthToken tok, Env (LogDebug (''auth token: '' @ tok))]
                         (LookupJwtCache env ts m s ac)))"

definition CheckAuth ::
    "('v, 'c) auth_env \<Rightarrow> ticks \<Rightarrow> (string \<Rightarrow> string option) \<Rightarrow> (string \<Rightarrow> string option) \<Rightarrow> method_info option \<Rightarrow>
     'c service_state \<Rightarrow> ('v, 'c) auth_result" where
  "CheckAuth env ts find_header find_query m s =
     AuthChecker_Check env ts s (AuthChecker find_header find_query m)"

section \<open>Who is authenticated\<close>

text \<open>
  What the checker relies on of the LRU cache: a lookup finds only what was last inserted
  under its key, and neither a lookup nor a removal makes an entry appear.
\<close>

definition lru_laws :: "('v, 'c) lru_api \<Rightarrow> bool" where
  "lru_laws lru \<longleftrightarrow>
     (\<forall>k v c k' v'. fst (lru_find lru k' (lru_insert lru k v c)) = Some v' \<longrightarrow>
        (if k' = k then v' = v else fst (lru_find lru k' c) = Some v')) \<and>
     (\<forall>k c k' v'. fst (lru_find lru k' (snd (lru_find lru k c))) = Some v' \<longrightarrow> fst (lru_find lru k' c) = Some v') \<and>
     (\<forall>k c k' v'. fst (lru_find lru k' (lru_remove lru k c)) = Some v' \<longrightarrow> fst (lru_find lru k' c) = Some v')"

text \<open>A token parsed to its user information, and one whose signature a key of its issuer verified.\<close>

definition parsed :: "('v, 'c) auth_env \<Rightarrow> string \<Rightarrow> user_info \<Rightarrow> 'v \<Rightarrow> bool" where
  "parsed env tok ui v \<longleftrightarrow> (\<exists>v0 now st. ae_Create env tok = Some v0 \<and>
     ae_Parse env now new_UserInfo v0 = Some (st, ui, v) \<and> ok st)"

definition verified :: "('v, 'c) auth_env \<Rightarrow> (string \<Rightarrow> string set) \<Rightarrow> string \<Rightarrow> user_info \<Rightarrow> int \<Rightarrow> bool" where
  "verified env K tok ui expiry \<longleftrightarrow> (\<exists>v key st v'. parsed env tok ui v \<and> key \<in> K (ui_issuer ui) \<and>
     ae_VerifySignature env key v = Some (st, v') \<and> ok st \<and> ae_GetExpirationTime env v' = expiry)"

definition allowed :: "string \<Rightarrow> method_info \<Rightarrow> user_info \<Rightarrow> bool" where
  "allowed name m ui \<longleftrightarrow> (\<exists>issuer. GetUrlContent (ui_issuer ui) = Some issuer \<and> isIssuerAllowed issuer m \<and>
     (name \<in> url_content ` ui_audiences ui \<or> isAudienceAllowed issuer (url_content ` ui_audiences ui) m))"

text \<open>
  The caches hold what they should: keys of their issuer, and tokens that were verified, no
  longer than they are valid.  \<open>K\<close> gives the key documents that were served for an issuer.
\<close>

definition caches_ok :: "('v, 'c) auth_env \<Rightarrow> (string \<Rightarrow> string set) \<Rightarrow> 'c service_state \<Rightarrow> bool" where
  "caches_ok env K s \<longleftrightarrow>
     (\<forall>iss key expiration. GetCert iss (ss_certs s) = Some (key, expiration) \<longrightarrow> key \<in> K iss) \<and>
     (\<forall>tok val. fst (lru_find (ae_lru env) tok (ss_jwt_cache s)) = Some val \<longrightarrow>
        (\<exists>expiry. verified env K tok (jv_user_info val) expiry \<and> jv_exp val \<le> expiry))"

abbreviation service_name_of :: "'c service_state \<Rightarrow> string" where
  "service_name_of s \<equiv> s_name (cfg_service (ss_config s))"

text \<open>What a step may leave behind.\<close>

definition auth_good ::
    "('v, 'c) auth_env \<Rightarrow> (string \<Rightarrow> string set) \<Rightarrow> 'c service_state \<Rightarrow> method_info \<Rightarrow> string \<Rightarrow> ('v, 'c) auth_result \<Rightarrow> bool" where
  "auth_good env K s m tok r \<longleftrightarrow> (case r of
     None \<Rightarrow> True
   | Some (out, s', ac, _) \<Rightarrow>
       caches_ok env K s' \<and> service_name_of s' = service_name_of s \<and> RequireAuth s' = RequireAuth s \<and>
       ac_method ac = Some m \<and> ac_auth_token ac = tok \<and>
       (case out of
          AuthDone st \<Rightarrow> ok st \<longrightarrow> allowed (service_name_of s) m (ac_user_info ac) \<and> (\<exists>expiry. verified env K tok (ac_user_info ac) expiry)
        | NoCallback \<Rightarrow> True
        | _ \<Rightarrow> allowed (service_name_of s) m (ac_user_info ac) \<and>
               (\<exists>v. ac_validator ac = Some v \<and> parsed env tok (ac_user_info ac) v)))"

definition checker_of :: "method_info \<Rightarrow> string \<Rightarrow> 'v auth_checker \<Rightarrow> bool" where
  "checker_of m tok ac \<longleftrightarrow> ac_method ac = Some m \<and> ac_auth_token ac = tok"

lemma auth_good_after [simp]: "auth_good env K s m tok (after es r) \<longleftrightarrow> auth_good env K s m tok r"
  by (auto simp: auth_good_def after_def split: option.splits)

lemma not_ok_codes: "\<not> ok (Status3 UNAUTHENTICATED msg c)" "\<not> ok (Status3 PERMISSION_DENIED msg c)"
  by (simp_all add: ok_def Status3_def)

lemma auth_good_failures:
  assumes "caches_ok env K s'" "checker_of m tok ac" "service_name_of s' = service_name_of s" "RequireAuth s' = RequireAuth s"
  shows "auth_good env K s m tok (Unauthenticated e s' ac)" "auth_good env K s m tok (Unauthorized e s' ac)"
    "auth_good env K s m tok (FetchFailure e st s' ac)"
  using assms not_ok_codes
  by (simp_all add: auth_good_def Unauthenticated_def Unauthorized_def FetchFailure_def checker_of_def)

lemma auth_good_base:
  assumes "service_name_of s' = service_name_of s" "RequireAuth s' = RequireAuth s"
  shows "auth_good env K s' m tok r \<longleftrightarrow> auth_good env K s m tok r"
  unfolding auth_good_def assms ..

lemma auth_good_Pass:
  assumes "caches_ok env K s" "checker_of m tok ac" "allowed (service_name_of s) m (ac_user_info ac)"
    "verified env K tok (ac_user_info ac) expiry"
  shows "auth_good env K s m tok (PassUserInfoOnSuccess env s ac)"
  using assms
  by (auto simp: auth_good_def PassUserInfoOnSuccess_def checker_of_def bind_eq_Some_conv split: option.splits) blast

lemma caches_ok_insert:
  assumes "caches_ok env K s" "lru_laws (ae_lru env)" "verified env K tok ui expiry"
  shows "caches_ok env K (s\<lparr>ss_jwt_cache := JwtCache_Insert (ae_lru env) tok ui expiry now (ss_jwt_cache s)\<rparr>)"
proof -
  let ?c = "lru_insert (ae_lru env) tok \<lparr>jv_user_info = ui, jv_exp = min expiry (now + seconds kJwtCacheTimeout)\<rparr> (ss_jwt_cache s)"
  have "\<exists>e. verified env K tok' (jv_user_info val) e \<and> jv_exp val \<le> e"
    if "fst (lru_find (ae_lru env) tok' ?c) = Some val" for tok' val
  proof -
    have "if tok' = tok then val = \<lparr>jv_user_info = ui, jv_exp = min expiry (now + seconds kJwtCacheTimeout)\<rparr>
        else fst (lru_find (ae_lru env) tok' (ss_jwt_cache s)) = Some val"
      using assms(2) that unfolding lru_laws_def by blast
    then show ?thesis using assms(1,3) by (cases "tok' = tok") (auto simp: caches_ok_def intro!: exI [of _ expiry])
  qed
  then show ?thesis using assms(1) by (simp add: caches_ok_def JwtCache_Insert_def)
qed

lemma auth_good_VerifySignature:
  assumes "caches_ok env K s" "lru_laws (ae_lru env)" "checker_of m tok ac"
    "allowed (service_name_of s) m (ac_user_info ac)" "\<forall>v. ac_validator ac = Some v \<longrightarrow> parsed env tok (ac_user_info ac) v"
  shows "auth_good env K s m tok (AuthChecker_VerifySignature env ts s ac)"
proof (cases "GetCert (ui_issuer (ac_user_info ac)) (ss_certs s)")
  case None
  then show ?thesis using auth_good_failures [OF assms(1,3)] by (simp add: AuthChecker_VerifySignature_def)
next
  case (Some ke)
  obtain key expiration where ke: "ke = (key, expiration)" by (cases ke)
  then have key: "key \<in> K (ui_issuer (ac_user_info ac))" using assms(1) Some by (auto simp: caches_ok_def)
  show ?thesis
  proof (cases "ac_validator ac")
    case None
    then show ?thesis using Some ke by (simp add: AuthChecker_VerifySignature_def auth_good_def)
  next
    case v: (Some v)
    show ?thesis
    proof (cases "ae_VerifySignature env key v")
      case None
      then show ?thesis using Some ke v by (simp add: AuthChecker_VerifySignature_def auth_good_def)
    next
      case r: (Some stv)
      obtain st v' where stv: "stv = (st, v')" by (cases stv)
      define ac' where "ac' = ac\<lparr>ac_validator := Some v'\<rparr>"
      have c: "checker_of m tok ac'" using assms(3) by (simp add: checker_of_def ac'_def)
      show ?thesis
      proof (cases "ok st")
        case False
        then show ?thesis
          using auth_good_failures [OF assms(1) c] Some ke v r stv
          by (simp add: AuthChecker_VerifySignature_def ac'_def)
      next
        case True
        define expiry where "expiry = ae_GetExpirationTime env v'"
        have ver: "verified env K tok (ac_user_info ac) expiry"
          using assms(5) v key r stv True by (auto simp: verified_def expiry_def)
        define s' where "s' = s\<lparr>ss_jwt_cache := JwtCache_Insert (ae_lru env) tok (ac_user_info ac) expiry (t_insert ts) (ss_jwt_cache s)\<rparr>"
        have "auth_good env K s' m tok (PassUserInfoOnSuccess env s' ac')"
          using caches_ok_insert [OF assms(1,2) ver] c assms(4) ver
          by (intro auth_good_Pass [of _ _ _ _ _ _ expiry]) (simp_all add: s'_def ac'_def)
        moreover have "service_name_of s' = service_name_of s" "RequireAuth s' = RequireAuth s"
          by (simp_all add: s'_def RequireAuth_def)
        ultimately have "auth_good env K s m tok (PassUserInfoOnSuccess env s' ac')" using auth_good_base [of s' s] by blast
        moreover have "AuthChecker_VerifySignature env ts s ac = PassUserInfoOnSuccess env s' ac'"
          using Some ke v r stv True assms(3)
          by (simp add: AuthChecker_VerifySignature_def s'_def ac'_def expiry_def checker_of_def)
        ultimately show ?thesis by simp
      qed
    qed
  qed
qed

lemma auth_good_await:
  assumes "caches_ok env K s'" "checker_of m tok ac" "service_name_of s' = service_name_of s" "RequireAuth s' = RequireAuth s"
    "allowed (service_name_of s) m (ac_user_info ac)" "ac_validator ac = Some v" "parsed env tok (ac_user_info ac) v"
  shows "auth_good env K s m tok (FetchPubKey url s' ac)" "auth_good env K s m tok (DiscoverJwksUri url s' ac)"
  using assms by (simp_all add: auth_good_def FetchPubKey_def DiscoverJwksUri_def checker_of_def)

lemma auth_good_InitKey:
  assumes "caches_ok env K s" "lru_laws (ae_lru env)" "checker_of m tok ac"
    "allowed (service_name_of s) m (ac_user_info ac)" "ac_validator ac = Some v" "parsed env tok (ac_user_info ac) v"
  shows "auth_good env K s m tok (InitKey env ts s ac)"
proof -
  have "auth_good env K s m tok (AuthChecker_VerifySignature env ts s ac)"
    using assms by (intro auth_good_VerifySignature) auto
  moreover note auth_good_failures [OF assms(1,3) refl refl] auth_good_await [OF assms(1,3) refl refl assms(4-6)]
  ultimately show ?thesis by (simp add: InitKey_def Let_def split: prod.splits)
qed

lemma auth_good_CheckAudience:
  assumes "caches_ok env K s" "lru_laws (ae_lru env)" "checker_of m tok ac"
    "if hit then verified env K tok (ac_user_info ac) expiry
     else ac_validator ac = Some v \<and> parsed env tok (ac_user_info ac) v"
  shows "auth_good env K s m tok (CheckAudience env ts hit m s ac)"
proof -
  define ui where "ui = ac_user_info ac"
  define ac' where "ac' = ac\<lparr>rc_auth_issuer := ui_issuer ui,
      rc_auth_audience := (if ui_audiences ui = {} then [] else AudiencesAsString ui),
      rc_auth_authorized_party := ui_authorized_party ui, rc_auth_claims := ui_claims ui\<rparr>"
  have c: "checker_of m tok ac'" "ac_user_info ac' = ui" "ac_validator ac' = ac_validator ac"
    using assms(3) by (simp_all add: checker_of_def ac'_def ui_def)
  note fail = auth_good_failures [OF assms(1) c(1) refl refl]
  have unfold: "CheckAudience env ts hit m s ac = (case GetUrlContent (ui_issuer ui) of
      None \<Rightarrow> None
    | Some issuer \<Rightarrow>
        if \<not> isIssuerAllowed issuer m then Unauthenticated ''Issuer not allowed'' s ac'
        else if \<exists>a \<in> ui_audiences ui. GetUrlContent a = None then None
        else if service_name_of s \<notin> url_content ` ui_audiences ui \<and> \<not> isAudienceAllowed issuer (url_content ` ui_audiences ui) m
             then Unauthorized ''Audience not allowed'' s ac'
             else if hit then PassUserInfoOnSuccess env s ac' else InitKey env ts s ac')"
    unfolding CheckAudience_def Let_def ui_def [symmetric] ac'_def [symmetric] ..
  have ok: "auth_good env K s m tok (if hit then PassUserInfoOnSuccess env s ac' else InitKey env ts s ac')"
    if al: "allowed (service_name_of s) m ui"
  proof (cases hit)
    case True
    then have "auth_good env K s m tok (PassUserInfoOnSuccess env s ac')"
      using assms(4) al c by (intro auth_good_Pass [OF assms(1) c(1), of expiry]) (simp_all add: ui_def)
    then show ?thesis using True by simp
  next
    case False
    then have "auth_good env K s m tok (InitKey env ts s ac')"
      using assms(4) al c by (intro auth_good_InitKey [OF assms(1,2) c(1), of v]) (simp_all add: ui_def)
    then show ?thesis using False by simp
  qed
  show ?thesis
  proof (cases "GetUrlContent (ui_issuer ui)")
    case None
    then show ?thesis by (simp add: unfold auth_good_def)
  next
    case (Some issuer)
    have none: "auth_good env K s m tok None" by (simp add: auth_good_def)
    have "allowed (service_name_of s) m ui"
      if "isIssuerAllowed issuer m" "\<not> (service_name_of s \<notin> url_content ` ui_audiences ui \<and> \<not> isAudienceAllowed issuer (url_content ` ui_audiences ui) m)"
      using that Some by (auto simp: allowed_def)
    then show ?thesis using fail ok none unfolding unfold Some option.case by (auto split: if_splits simp del: image_iff)
  qed
qed

lemma auth_good_ParseJwt:
  assumes "caches_ok env K s" "lru_laws (ae_lru env)" "checker_of m tok ac"
    "ac_validator ac = None" "ac_user_info ac = new_UserInfo"
  shows "auth_good env K s m tok (ParseJwt env ts m s ac)"
proof (cases "ae_Create env tok")
  case None
  then show ?thesis using auth_good_failures [OF assms(1,3) refl refl] assms(3,4) by (simp add: ParseJwt_def checker_of_def)
next
  case (Some v0)
  show ?thesis
  proof (cases "ae_Parse env (t_claims ts) new_UserInfo v0")
    case None
    then show ?thesis using Some assms(3-5) by (simp add: ParseJwt_def checker_of_def auth_good_def)
  next
    case r: (Some r)
    obtain st ui v where r': "r = (st, ui, v)" by (cases r)
    define ac' where "ac' = ac\<lparr>ac_validator := Some v, ac_user_info := ui\<rparr>"
    have c: "checker_of m tok ac'" using assms(3) by (simp add: checker_of_def ac'_def)
    have e: "ParseJwt env ts m s ac = (if \<not> ok st then Unauthenticated (message st) s ac' else CheckAudience env ts False m s ac')"
      using Some r r' assms(3-5) by (simp add: ParseJwt_def checker_of_def ac'_def)
    have "auth_good env K s m tok (CheckAudience env ts False m s ac')" if "ok st"
    proof (rule auth_good_CheckAudience [OF assms(1,2) c, of _ _ v])
      have "parsed env tok ui v" using Some r r' that by (auto simp: parsed_def)
      then show "if False then verified env K tok (ac_user_info ac') undefined
          else ac_validator ac' = Some v \<and> parsed env tok (ac_user_info ac') v" by (simp add: ac'_def)
    qed
    then show ?thesis using auth_good_failures [OF assms(1) c refl refl] by (simp add: e)
  qed
qed

lemma caches_ok_cache:
  assumes "caches_ok env K s" "\<And>tok val. fst (lru_find (ae_lru env) tok c) = Some val \<Longrightarrow>
    fst (lru_find (ae_lru env) tok (ss_jwt_cache s)) = Some val"
  shows "caches_ok env K (s\<lparr>ss_jwt_cache := c\<rparr>)"
  using assms by (simp add: caches_ok_def)

lemma auth_good_LookupJwtCache:
  assumes "caches_ok env K s" "lru_laws (ae_lru env)" "checker_of m tok ac"
    "ac_validator ac = None" "ac_user_info ac = new_UserInfo"
  shows "auth_good env K s m tok (LookupJwtCache env ts m s ac)"
proof -
  let ?lru = "ae_lru env"
  obtain val cache where f: "lru_find ?lru tok (ss_jwt_cache s) = (val, cache)" by fastforce
  have keep: "fst (lru_find ?lru t cache) = Some x \<Longrightarrow> fst (lru_find ?lru t (ss_jwt_cache s)) = Some x" for t x
    using assms(2) f unfolding lru_laws_def by (metis snd_conv)
  have keep': "fst (lru_find ?lru t (lru_remove ?lru tok cache)) = Some x \<Longrightarrow> fst (lru_find ?lru t (ss_jwt_cache s)) = Some x" for t x
    using assms(2) keep unfolding lru_laws_def by blast
  define s1 where "s1 = s\<lparr>ss_jwt_cache := cache\<rparr>"
  define s2 where "s2 = s\<lparr>ss_jwt_cache := lru_remove ?lru tok cache\<rparr>"
  have ok: "caches_ok env K s1" "caches_ok env K s2"
    using caches_ok_cache [OF assms(1), of cache] keep caches_ok_cache [OF assms(1), of "lru_remove ?lru tok cache"] keep'
    by (simp_all add: s1_def s2_def)
  have base: "auth_good env K s1 m tok r = auth_good env K s m tok r" "auth_good env K s2 m tok r = auth_good env K s m tok r" for r
    by (rule auth_good_base; simp add: s1_def s2_def RequireAuth_def)+
  have p: "auth_good env K s m tok (ParseJwt env ts m s1 ac)" "auth_good env K s m tok (ParseJwt env ts m s2 ac)"
    using auth_good_ParseJwt [OF ok(1) assms(2-5)] auth_good_ParseJwt [OF ok(2) assms(2-5)] base by blast+
  show ?thesis
  proof (cases val)
    case None
    then show ?thesis using p(1) f assms(3) by (simp add: LookupJwtCache_def checker_of_def s1_def)
  next
    case (Some x)
    have "\<exists>e. verified env K tok (jv_user_info x) e \<and> jv_exp x \<le> e"
      using assms(1) f Some unfolding caches_ok_def by (metis fst_conv)
    then obtain e where e: "verified env K tok (jv_user_info x) e" by blast
    have "checker_of m tok (ac\<lparr>ac_user_info := jv_user_info x\<rparr>)" using assms(3) by (simp add: checker_of_def)
    from auth_good_CheckAudience [OF ok(1) assms(2) this, of True e]
    have "auth_good env K s m tok (CheckAudience env ts True m s1 (ac\<lparr>ac_user_info := jv_user_info x\<rparr>))"
      using e base by simp
    then show ?thesis using p(2) f assms(3) Some by (simp add: LookupJwtCache_def checker_of_def s1_def s2_def Let_def)
  qed
qed

lemma auth_good_PostFetchPubKey:
  assumes "caches_ok env K s" "lru_laws (ae_lru env)" "checker_of m tok ac"
    "allowed (service_name_of s) m (ac_user_info ac)" "ac_validator ac = Some v" "parsed env tok (ac_user_info ac) v"
    "ok st \<Longrightarrow> body \<in> K (ui_issuer (ac_user_info ac))"
  shows "auth_good env K s m tok (PostFetchPubKey env ts st body s ac)"
proof -
  define s' where "s' = s\<lparr>ss_certs := Certs_Update (ui_issuer (ac_user_info ac)) body
      (t_fetched ts + seconds (ss_jwks_cache_duration_in_s s)) (ss_certs s)\<rparr>"
  have "auth_good env K s m tok (AuthChecker_VerifySignature env ts s' ac)" if "ok st"
  proof -
    have "caches_ok env K s'"
      using assms(1) assms(7) [OF that] by (auto simp: caches_ok_def s'_def Certs_Update_def GetCert_def update_conv' split: if_splits)
    then have "auth_good env K s' m tok (AuthChecker_VerifySignature env ts s' ac)"
      using assms(2-6) by (intro auth_good_VerifySignature) (simp_all add: s'_def)
    moreover have "service_name_of s' = service_name_of s" "RequireAuth s' = RequireAuth s" by (simp_all add: s'_def RequireAuth_def)
    ultimately show ?thesis using auth_good_base [of s' s] by blast
  qed
  then show ?thesis
    using auth_good_failures [OF assms(1,3) refl refl] by (simp add: PostFetchPubKey_def flip: s'_def)
qed

lemma auth_good_PostFetchJwksUri:
  assumes "caches_ok env K s" "checker_of m tok ac"
    "allowed (service_name_of s) m (ac_user_info ac)" "ac_validator ac = Some v" "parsed env tok (ac_user_info ac) v"
  shows "auth_good env K s m tok (PostFetchJwksUri env st body s ac)"
proof -
  have s': "caches_ok env K (put_jwks_uri i u b s)" "service_name_of (put_jwks_uri i u b s) = service_name_of s"
    "RequireAuth (put_jwks_uri i u b s) = RequireAuth s" for i u b
    using assms(1) by (simp_all add: caches_ok_def put_jwks_uri_def RequireAuth_def)
  note fail = auth_good_failures [OF s'(1) assms(2) s'(2,3)]
  note await = auth_good_await [OF s'(1) assms(2) s'(2,3) assms(3-5)]
  show ?thesis
    using fail await unfolding PostFetchJwksUri_def Let_def
    by (auto simp: auth_good_def [of _ _ _ _ _ None] split: option.splits)
qed

section \<open>Interleaved requests\<close>

text \<open>
  The requests of a service, each with its checker and the outcome of its last run.  Requests
  arrive and responses come back in any order; \<open>K\<close> gives the key documents that the key
  servers of an issuer send.
\<close>

type_synonym 'v requests = "nat \<Rightarrow> (auth_outcome \<times> 'v auth_checker) option"

inductive auth_reachable ::
    "('v, 'c) auth_env \<Rightarrow> (string \<Rightarrow> string set) \<Rightarrow> 'c service_state \<Rightarrow> 'v requests \<Rightarrow> bool" for env K where
  start: "\<lbrakk>\<And>k. fst (lru_find (ae_lru env) k (ss_jwt_cache s)) = None; ss_certs s = []\<rbrakk> \<Longrightarrow>
    auth_reachable env K s (\<lambda>_. None)"
| arrive: "\<lbrakk>auth_reachable env K s p; p i = None; CheckAuth env ts fh fq mo s = Some (out, s', ac, es)\<rbrakk> \<Longrightarrow>
    auth_reachable env K s' (p(i \<mapsto> (out, ac)))"
| jwks_uri: "\<lbrakk>auth_reachable env K s p; p i = Some (AwaitJwksUri, ac);
    PostFetchJwksUri env st body s ac = Some (out, s', ac', es)\<rbrakk> \<Longrightarrow> auth_reachable env K s' (p(i \<mapsto> (out, ac')))"
| pub_key: "\<lbrakk>auth_reachable env K s p; p i = Some (AwaitPubKey, ac); ok st \<Longrightarrow> body \<in> K (ui_issuer (ac_user_info ac));
    PostFetchPubKey env ts st body s ac = Some (out, s', ac', es)\<rbrakk> \<Longrightarrow> auth_reachable env K s' (p(i \<mapsto> (out, ac')))"

text \<open>What holds of a request, given the service name and whether authentication is required.\<close>

definition request_ok :: "('v, 'c) auth_env \<Rightarrow> (string \<Rightarrow> string set) \<Rightarrow> string \<Rightarrow> bool \<Rightarrow> auth_outcome \<times> 'v auth_checker \<Rightarrow> bool" where
  "request_ok env K name required r \<longleftrightarrow> (case r of (out, ac) \<Rightarrow>
     (case ac_method ac of
        None \<Rightarrow> out = AuthDone Status_OK
      | Some m \<Rightarrow>
          (case out of
             AuthDone st \<Rightarrow> ok st \<and> required \<and> auth m \<longrightarrow> allowed name m (ac_user_info ac) \<and>
               (\<exists>expiry. verified env K (ac_auth_token ac) (ac_user_info ac) expiry)
           | NoCallback \<Rightarrow> True
           | _ \<Rightarrow> allowed name m (ac_user_info ac) \<and>
               (\<exists>v. ac_validator ac = Some v \<and> parsed env (ac_auth_token ac) (ac_user_info ac) v))))"

lemma auth_good_request_ok:
  assumes "auth_good env K s m tok (Some (out, s', ac, es))"
  shows "caches_ok env K s' \<and> service_name_of s' = service_name_of s \<and> RequireAuth s' = RequireAuth s \<and>
    request_ok env K (service_name_of s) (RequireAuth s) (out, ac)"
  using assms by (auto simp: auth_good_def request_ok_def split: auth_outcome.splits)

lemma CheckAuth_ok:
  assumes "CheckAuth env ts fh fq mo s = Some (out, s', ac, es)" "caches_ok env K s" "lru_laws (ae_lru env)"
  shows "caches_ok env K s' \<and> service_name_of s' = service_name_of s \<and> RequireAuth s' = RequireAuth s \<and>
    request_ok env K (service_name_of s) (RequireAuth s) (out, ac)"
proof (cases "\<exists>m. RequireAuth s \<and> mo = Some m \<and> auth m")
  case False
  then have "out = AuthDone Status_OK \<and> s' = s \<and> ac_method ac = mo"
    using assms(1) by (auto simp: CheckAuth_def AuthChecker_Check_def AuthChecker_def split: if_splits option.splits)
  then show ?thesis using assms(2) False by (auto simp: request_ok_def split: option.splits)
next
  case True
  then obtain m where m: "RequireAuth s" "mo = Some m" "auth m" by blast
  define ac0 :: "'b auth_checker" where "ac0 = AuthChecker fh fq mo"
  define tok where "tok = AuthChecker_GetAuthToken ac0"
  have c: "checker_of m tok (ac0\<lparr>ac_auth_token := tok\<rparr>)" "checker_of m tok (ac0\<lparr>ac_auth_token := tok, rc_auth_token := tok\<rparr>)"
    using m by (simp_all add: checker_of_def ac0_def AuthChecker_def)
  have "auth_good env K s m tok (LookupJwtCache env ts m s (ac0\<lparr>ac_auth_token := tok, rc_auth_token := tok\<rparr>))"
    by (rule auth_good_LookupJwtCache [OF assms(2,3) c(2)]) (simp_all add: ac0_def AuthChecker_def)
  moreover have "auth_good env K s m tok (Unauthenticated ''Missing or invalid credentials'' s (ac0\<lparr>ac_auth_token := tok\<rparr>))"
    by (rule auth_good_failures(1) [OF assms(2) c(1) refl refl])
  moreover have "ac_method ac0 = Some m" using m by (simp add: ac0_def AuthChecker_def)
  ultimately have "auth_good env K s m tok (CheckAuth env ts fh fq mo s)"
    using m(1,3) unfolding CheckAuth_def AuthChecker_Check_def Let_def ac0_def [symmetric] tok_def [symmetric]
    by (cases "tok = []") simp_all
  then show ?thesis unfolding assms(1) by (rule auth_good_request_ok)
qed

lemma PostFetchJwksUri_ok:
  assumes "PostFetchJwksUri env st body s ac = Some (out, s', ac', es)" "caches_ok env K s"
    "request_ok env K (service_name_of s) (RequireAuth s) (AwaitJwksUri, ac)"
  shows "caches_ok env K s' \<and> service_name_of s' = service_name_of s \<and> RequireAuth s' = RequireAuth s \<and>
    request_ok env K (service_name_of s) (RequireAuth s) (out, ac')"
proof -
  obtain m v where "ac_method ac = Some m" "allowed (service_name_of s) m (ac_user_info ac)" "ac_validator ac = Some v"
      "parsed env (ac_auth_token ac) (ac_user_info ac) v"
    using assms(3) by (auto simp: request_ok_def split: option.splits)
  then have "auth_good env K s m (ac_auth_token ac) (PostFetchJwksUri env st body s ac)"
    using assms(2) by (intro auth_good_PostFetchJwksUri [of _ _ _ _ _ _ v]) (simp_all add: checker_of_def)
  then show ?thesis unfolding assms(1) by (rule auth_good_request_ok)
qed

lemma PostFetchPubKey_ok:
  assumes "PostFetchPubKey env ts st body s ac = Some (out, s', ac', es)" "caches_ok env K s" "lru_laws (ae_lru env)"
    "request_ok env K (service_name_of s) (RequireAuth s) (AwaitPubKey, ac)" "ok st \<Longrightarrow> body \<in> K (ui_issuer (ac_user_info ac))"
  shows "caches_ok env K s' \<and> service_name_of s' = service_name_of s \<and> RequireAuth s' = RequireAuth s \<and>
    request_ok env K (service_name_of s) (RequireAuth s) (out, ac')"
proof -
  obtain m v where "ac_method ac = Some m" "allowed (service_name_of s) m (ac_user_info ac)" "ac_validator ac = Some v"
      "parsed env (ac_auth_token ac) (ac_user_info ac) v"
    using assms(4) by (auto simp: request_ok_def split: option.splits)
  then have "auth_good env K s m (ac_auth_token ac) (PostFetchPubKey env ts st body s ac)"
    using assms(2,3,5) by (intro auth_good_PostFetchPubKey [of _ _ _ _ _ _ v]) (simp_all add: checker_of_def)
  then show ?thesis unfolding assms(1) by (rule auth_good_request_ok)
qed

lemma auth_reachable_ok:
  assumes "auth_reachable env K s p" "lru_laws (ae_lru env)"
  shows "caches_ok env K s \<and> (\<forall>i r. p i = Some r \<longrightarrow> request_ok env K (service_name_of s) (RequireAuth s) r)"
  using assms
proof (induction rule: auth_reachable.induct)
  case (start s)
  then show ?case by (simp add: caches_ok_def GetCert_def)
next
  case (arrive s p i ts fh fq mo out s' ac es)
  then show ?case using CheckAuth_ok [OF arrive.hyps(3) _ arrive.prems] by auto
next
  case (jwks_uri s p i ac st body out s' ac' es)
  then show ?case using PostFetchJwksUri_ok [OF jwks_uri.hyps(3), of K] by auto
next
  case (pub_key s p i ac st body ts out s' ac' es)
  then show ?case using PostFetchPubKey_ok [OF pub_key.hyps(4) _ pub_key.prems, of K] by auto
qed

section \<open>An example\<close>

definition list_lru :: "('v, (string \<times> 'v) list) lru_api" where
  "list_lru = \<lparr>lru_find = (\<lambda>k c. (map_of c k, c)), lru_insert = AList.update, lru_remove = AList.delete\<rparr>"

lemma list_lru_laws: "lru_laws list_lru"
  by (auto simp: lru_laws_def list_lru_def update_conv' delete_conv' split: if_splits)

definition example_state :: "(string \<times> jwt_value) list service_state" where
  "example_state = \<lparr>ss_force_disabled = False, ss_has_authentication = True,
     ss_config = SetJwksUri ''iss'' ''http://keys'' False (new_Config example_service),
     ss_certs = [], ss_jwt_cache = [], ss_jwks_cache_duration_in_s = 300\<rparr>"

definition example_method :: method_info where
  "example_method = (addAuthProvider ''iss'' '''' '''' (MethodInfoImpl ''m'' '''' ''''))\<lparr>auth := True\<rparr>"

definition example_ticks :: ticks where
  "example_ticks = \<lparr>t_claims = 0, t_lookup = 0, t_key = 0, t_fetched = 0, t_insert = 0\<rparr>"

section \<open>Every check ends\<close>

text \<open>How many responses a checker still waits for.\<close>

fun responses_left :: "auth_outcome \<Rightarrow> nat option" where
  "responses_left (AuthDone _) = Some 0"
| "responses_left AwaitPubKey = Some 1"
| "responses_left AwaitJwksUri = Some 2"
| "responses_left NoCallback = None"

text \<open>
  The outcome of a run needs at most \<open>n\<close> more responses, or the run ended without calling the
  continuation, which needs user information that cannot be written.
\<close>

definition ends_within :: "('v, 'c) auth_env \<Rightarrow> nat \<Rightarrow> ('v, 'c) auth_result \<Rightarrow> bool" where
  "ends_within env n r \<longleftrightarrow> (case r of
     None \<Rightarrow> True
   | Some (out, _, ac, _) \<Rightarrow>
       (case responses_left out of
          Some k \<Rightarrow> k \<le> n
        | None \<Rightarrow> ae_WriteUserInfoToJson env (ac_user_info ac) = Some None))"

lemma ends_within_mono: "ends_within env n r \<Longrightarrow> n \<le> n' \<Longrightarrow> ends_within env n' r"
  by (auto simp: ends_within_def split: option.splits)

lemma ends_within_simps [simp]:
  "ends_within env n None"
  "ends_within env n (after es r) \<longleftrightarrow> ends_within env n r"
  "ends_within env n (Unauthenticated e s ac)" "ends_within env n (Unauthorized e s ac)"
  "ends_within env n (FetchFailure e st s ac)" "ends_within env n (PassUserInfoOnSuccess env s ac)"
  by (auto simp: ends_within_def after_def Unauthenticated_def Unauthorized_def FetchFailure_def PassUserInfoOnSuccess_def
      bind_eq_Some_conv split: option.splits)

lemma VerifySignature_ends: "ends_within env 0 (AuthChecker_VerifySignature env ts s ac)"
  by (simp add: AuthChecker_VerifySignature_def Let_def split: option.splits prod.splits)

lemma FetchPubKey_ends: "ends_within env 1 (FetchPubKey url s ac)"
  by (simp add: ends_within_def FetchPubKey_def)

lemma DiscoverJwksUri_ends: "ends_within env 2 (DiscoverJwksUri url s ac)"
  by (simp add: ends_within_def DiscoverJwksUri_def)

lemma InitKey_ends: "ends_within env 2 (InitKey env ts s ac)"
  by (simp add: InitKey_def Let_def ends_within_mono [OF VerifySignature_ends] ends_within_mono [OF FetchPubKey_ends]
      DiscoverJwksUri_ends split: prod.splits)

lemma CheckAudience_ends: "ends_within env 2 (CheckAudience env ts hit m s ac)"
  by (simp add: InitKey_ends CheckAudience_def Let_def split: option.splits)

lemma ParseJwt_ends: "ends_within env 2 (ParseJwt env ts m s ac)"
  by (simp add: CheckAudience_ends ParseJwt_def Let_def split: option.splits prod.splits)

lemma LookupJwtCache_ends: "ends_within env 2 (LookupJwtCache env ts m s ac)"
  by (simp add: CheckAudience_ends ParseJwt_ends LookupJwtCache_def Let_def split: option.splits prod.splits)


text \<open>A token with an empty audience, signed or not, reaches undefined behaviour.\<close>

lemma empty_audience_undefined:
  assumes "RequireAuth s" "auth m" "AuthChecker_GetAuthToken (AuthChecker fh fq (Some m) :: 'v auth_checker) = tok" "tok \<noteq> []"
    "lru_find (ae_lru env) tok (ss_jwt_cache s) = (None, c)" "ae_Create env tok = Some v"
    "ae_Parse env (t_claims ts) new_UserInfo v = Some (st, ui, v')" "ok st"
    "GetUrlContent (ui_issuer ui) = Some issuer" "isIssuerAllowed issuer m" "[] \<in> ui_audiences ui"
  shows "CheckAuth env ts fh fq (Some m) s = (None :: ('v, 'c) auth_result)"
proof -
  have "GetUrlContent [] = None" by code_simp
  then have "\<exists>a \<in> ui_audiences ui. GetUrlContent a = None" using assms(11) by blast
  then show ?thesis
    using assms(1-10)
    by (auto simp: CheckAuth_def AuthChecker_Check_def AuthChecker_def LookupJwtCache_def ParseJwt_def CheckAudience_def
        after_def Let_def)
qed

end
