(* ===== verification/Service_Control_Proto.thy ===== *)
theory Service_Control_Proto
  imports Complex_Main Auth_Token "HOL-Library.AList" "HOL-Library.Signed_Division"
begin

text \<open>
  The messages of service control (\<^verbatim>\<open>src/api_manager/service_control/info.h\<close>, \<^verbatim>\<open>proto.cc\<close>): what
  a request is described by, and how the check, quota and report requests are filled and their
  responses read.

  The protobuf messages are records of the fields that are set, a map field is an association
  list.  The distributions of the service control library are the arguments of \<open>lib\<close>, with the
  base64 of the tokens and the version of the proxy; a double is a rational, without its
  rounding.  The metrics and labels are the tables of the source, a row holding its setter.
\<close>

section \<open>Information about a request\<close>

datatype Protocol = UNKNOWN_PROTOCOL | HTTP | HTTPS | GRPC

definition Protocol_ToString :: "Protocol \<Rightarrow> string" where
  "Protocol_ToString p = (case p of HTTP \<Rightarrow> ''http'' | HTTPS \<Rightarrow> ''https'' | GRPC \<Rightarrow> ''grpc'' | UNKNOWN_PROTOCOL \<Rightarrow> ''unknown'')"

record statistics =
  total_called_checks :: int
  send_checks_by_flush :: int
  send_checks_in_flight :: int
  total_called_reports :: int
  send_reports_by_flush :: int
  send_reports_in_flight :: int
  send_report_operations :: int
  max_report_size :: int

definition Merge :: "statistics \<Rightarrow> statistics \<Rightarrow> statistics" where
  "Merge v s = s\<lparr>total_called_checks := (total_called_checks s + total_called_checks v) mod 2 ^ 64,
     send_checks_by_flush := (send_checks_by_flush s + send_checks_by_flush v) mod 2 ^ 64,
     send_checks_in_flight := (send_checks_in_flight s + send_checks_in_flight v) mod 2 ^ 64,
     total_called_reports := (total_called_reports s + total_called_reports v) mod 2 ^ 64,
     send_reports_by_flush := (send_reports_by_flush s + send_reports_by_flush v) mod 2 ^ 64,
     send_report_operations := (send_report_operations s + send_report_operations v) mod 2 ^ 64,
     max_report_size := (if max_report_size v > max_report_size s then max_report_size v else max_report_size s)\<rparr>"

record latency_info =
  request_time_ms :: int
  backend_time_ms :: int
  overhead_time_ms :: int

definition LatencyInfo :: latency_info where
  "LatencyInfo = \<lparr>request_time_ms = -1, backend_time_ms = -1, overhead_time_ms = -1\<rparr>"

text \<open>Times are nanoseconds since the epoch.\<close>

record operation_info =
  oi_operation_id :: string
  oi_operation_name :: string
  oi_producer_project_id :: string
  oi_api_key :: string
  oi_referer :: string
  oi_request_start_time :: int
  oi_client_ip :: string
  oi_client_host :: string

record check_request_info = operation_info +
  android_package_name :: string
  android_cert_fingerprint :: string
  ios_bundle_id :: string

record check_response_info =
  is_api_key_valid :: bool
  service_is_activated :: bool
  consumer_project_id :: string

definition CheckResponseInfo :: check_response_info where
  "CheckResponseInfo = \<lparr>is_api_key_valid = True, service_is_activated = True, consumer_project_id = []\<rparr>"

record quota_request_info = operation_info +
  method_name :: string
  qi_metric_cost_vector :: "(string \<times> int) list option"

record report_request_info = operation_info +
  response_code :: int
  ri_status :: status
  ri_url :: string
  location :: string
  ri_api_name :: string
  ri_api_version :: string
  api_method :: string
  request_size :: int
  response_size :: int
  latency :: latency_info
  log_message :: string
  auth_issuer :: string
  auth_audience :: string
  jwt_payloads :: string
  frontend_protocol :: Protocol
  backend_protocol :: Protocol
  http_method :: string
  compute_platform :: string
  ri_check_response_info :: check_response_info
  request_bytes :: int
  request_headers :: string
  response_bytes :: int
  response_headers :: string
  streaming_request_message_counts :: int
  streaming_response_message_counts :: int
  streaming_durations :: int
  is_first_report :: bool
  is_final_report :: bool

definition ReportRequestInfo :: report_request_info where
  "ReportRequestInfo = \<lparr>oi_operation_id = [], oi_operation_name = [], oi_producer_project_id = [], oi_api_key = [],
     oi_referer = [], oi_request_start_time = 0, oi_client_ip = [], oi_client_host = [],
     response_code = 200, ri_status = Status_OK, ri_url = [], location = [], ri_api_name = [], ri_api_version = [],
     api_method = [], request_size = -1, response_size = -1, latency = LatencyInfo, log_message = [],
     auth_issuer = [], auth_audience = [], jwt_payloads = [], frontend_protocol = UNKNOWN_PROTOCOL,
     backend_protocol = UNKNOWN_PROTOCOL, http_method = [], compute_platform = ''unknown'',
     ri_check_response_info = CheckResponseInfo, request_bytes = 0, request_headers = [], response_bytes = 0,
     response_headers = [], streaming_request_message_counts = 0, streaming_response_message_counts = 0,
     streaming_durations = 0, is_first_report = True, is_final_report = True\<rparr>"

section \<open>Messages\<close>

record proto_timestamp =
  ts_seconds :: int
  ts_nanos :: int

datatype 'd metric_value = Int64Value int | DistributionValue 'd | NoValue

datatype log_value = StringValue string | NumberValue rat

datatype severity = SEVERITY_INFO | SEVERITY_ERROR

record log_entry =
  le_name :: string
  le_timestamp :: proto_timestamp
  le_severity :: severity
  le_fields :: "(string \<times> log_value) list"

record 'd operation =
  op_operation_id :: string
  op_operation_name :: string
  op_consumer_id :: string
  op_start_time :: proto_timestamp
  op_end_time :: proto_timestamp
  op_labels :: "(string \<times> string) list"
  op_metric_value_sets :: "(string \<times> 'd metric_value list) list"
  op_log_entries :: "log_entry list"

definition new_Operation :: "'d operation" where
  "new_Operation = \<lparr>op_operation_id = [], op_operation_name = [], op_consumer_id = [],
     op_start_time = \<lparr>ts_seconds = 0, ts_nanos = 0\<rparr>, op_end_time = \<lparr>ts_seconds = 0, ts_nanos = 0\<rparr>,
     op_labels = [], op_metric_value_sets = [], op_log_entries = []\<rparr>"

record 'd report_request =
  rr_service_name :: string
  rr_service_config_id :: string
  rr_operations :: "'d operation list"

record 'd check_request =
  cr_service_name :: string
  cr_service_config_id :: string
  cr_operation :: "'d operation"

record quota_operation =
  qo_operation_id :: string
  qo_method_name :: string
  qo_consumer_id :: string
  qo_best_effort :: bool
  qo_labels :: "(string \<times> string) list"
  qo_quota_metrics :: "(string \<times> int list) list"

record quota_request =
  qr_service_name :: string
  qr_service_config_id :: string
  qr_allocate_operation :: quota_operation

section \<open>Metrics\<close>

text \<open>The library of the distributions, the base64 of the tokens and \<^verbatim>\<open>Version::instance().get()\<close>.\<close>

record ('k, 'd) proto_lib =
  InitExponential :: "int \<Rightarrow> rat \<Rightarrow> rat \<Rightarrow> proto_status + 'd"
  AddSample :: "rat \<Rightarrow> 'd \<Rightarrow> proto_status + 'd"
  pl_token_lib :: "'k token_lib"
  pl_version :: string

definition AddMetricValue :: "string \<Rightarrow> 'd metric_value \<Rightarrow> 'd operation \<Rightarrow> 'd operation" where
  "AddMetricValue metric_name v op = op\<lparr>op_metric_value_sets := op_metric_value_sets op @ [(metric_name, [v])]\<rparr>"

definition AddInt64Metric :: "string \<Rightarrow> int \<Rightarrow> 'd operation \<Rightarrow> 'd operation" where
  "AddInt64Metric metric_name v op = AddMetricValue metric_name (Int64Value v) op"

record distribution_options =
  buckets :: int
  growth :: rat
  scale :: rat

definition time_distribution :: distribution_options where
  "time_distribution = \<lparr>buckets = 29, growth = 2, scale = 1 / 1000000\<rparr>"

definition size_distribution :: distribution_options where
  "size_distribution = \<lparr>buckets = 8, growth = 10, scale = 1\<rparr>"

definition kMsToSecs :: rat where "kMsToSecs = 1 / 1000"

text \<open>A failure leaves the value set of the metric without a value.\<close>

definition AddDistributionMetric ::
    "('k, 'd) proto_lib \<Rightarrow> distribution_options \<Rightarrow> string \<Rightarrow> rat \<Rightarrow> 'd operation \<Rightarrow> status \<times> 'd operation" where
  "AddDistributionMetric lib options metric_name v op =
     (case InitExponential lib (buckets options) (growth options) (scale options) of
        Inl proto_status \<Rightarrow> (FromProto proto_status, AddMetricValue metric_name NoValue op)
      | Inr distribution \<Rightarrow>
          (case AddSample lib v distribution of
             Inl proto_status \<Rightarrow> (FromProto proto_status, AddMetricValue metric_name NoValue op)
           | Inr distribution \<Rightarrow> (Status_OK, AddMetricValue metric_name (DistributionValue distribution) op)))"

type_synonym 'd metric_setter = "string \<Rightarrow> report_request_info \<Rightarrow> 'd operation \<Rightarrow> status \<times> 'd operation"

definition set_int64_metric_to_constant_1 :: "'d metric_setter" where
  "set_int64_metric_to_constant_1 name info op = (Status_OK, AddInt64Metric name 1 op)"

definition set_int64_metric_to_constant_1_if_http_error :: "'d metric_setter" where
  "set_int64_metric_to_constant_1_if_http_error name info op =
     (Status_OK, if response_code info \<ge> 400 then AddInt64Metric name 1 op else op)"

definition set_distribution_metric_to_request_size :: "('k, 'd) proto_lib \<Rightarrow> 'd metric_setter" where
  "set_distribution_metric_to_request_size lib name info op =
     (if request_size info \<ge> 0 then AddDistributionMetric lib size_distribution name (of_int (request_size info)) op
      else (Status_OK, op))"

definition set_distribution_metric_to_response_size :: "('k, 'd) proto_lib \<Rightarrow> 'd metric_setter" where
  "set_distribution_metric_to_response_size lib name info op =
     (if response_size info \<ge> 0 then AddDistributionMetric lib size_distribution name (of_int (response_size info)) op
      else (Status_OK, op))"

definition set_distribution_metric_to_request_time :: "('k, 'd) proto_lib \<Rightarrow> 'd metric_setter" where
  "set_distribution_metric_to_request_time lib name info op =
     (if request_time_ms (latency info) \<ge> 0
      then AddDistributionMetric lib time_distribution name (of_int (request_time_ms (latency info)) * kMsToSecs) op
      else (Status_OK, op))"

definition set_distribution_metric_to_backend_time :: "('k, 'd) proto_lib \<Rightarrow> 'd metric_setter" where
  "set_distribution_metric_to_backend_time lib name info op =
     (if backend_time_ms (latency info) \<ge> 0
      then AddDistributionMetric lib time_distribution name (of_int (backend_time_ms (latency info)) * kMsToSecs) op
      else (Status_OK, op))"

definition set_distribution_metric_to_overhead_time :: "('k, 'd) proto_lib \<Rightarrow> 'd metric_setter" where
  "set_distribution_metric_to_overhead_time lib name info op =
     (if overhead_time_ms (latency info) \<ge> 0
      then AddDistributionMetric lib time_distribution name (of_int (overhead_time_ms (latency info)) * kMsToSecs) op
      else (Status_OK, op))"

definition set_int64_metric_to_request_bytes :: "'d metric_setter" where
  "set_int64_metric_to_request_bytes name info op =
     (Status_OK, if request_bytes info > 0 then AddInt64Metric name (request_bytes info) op else op)"

definition set_int64_metric_to_response_bytes :: "'d metric_setter" where
  "set_int64_metric_to_response_bytes name info op =
     (Status_OK, if response_bytes info > 0 then AddInt64Metric name (response_bytes info) op else op)"

text \<open>The status of the distribution is dropped in the three streaming metrics.\<close>

definition set_distribution_metric_to_streaming_request_message_counts :: "('k, 'd) proto_lib \<Rightarrow> 'd metric_setter" where
  "set_distribution_metric_to_streaming_request_message_counts lib name info op =
     (Status_OK,
      if streaming_request_message_counts info > 0
      then snd (AddDistributionMetric lib size_distribution name (of_int (streaming_request_message_counts info)) op) else op)"

definition set_distribution_metric_to_streaming_response_message_counts :: "('k, 'd) proto_lib \<Rightarrow> 'd metric_setter" where
  "set_distribution_metric_to_streaming_response_message_counts lib name info op =
     (Status_OK,
      if streaming_response_message_counts info > 0
      then snd (AddDistributionMetric lib size_distribution name (of_int (streaming_response_message_counts info)) op) else op)"

definition set_distribution_metric_to_streaming_durations :: "('k, 'd) proto_lib \<Rightarrow> 'd metric_setter" where
  "set_distribution_metric_to_streaming_durations lib name info op =
     (Status_OK,
      if streaming_durations info > 0
      then snd (AddDistributionMetric lib time_distribution name (of_int (streaming_durations info)) op) else op)"

datatype metric_kind = DELTA | OTHER_KIND
datatype value_type = VT_STRING | VT_INT64 | VT_DISTRIBUTION | OTHER_TYPE int
datatype metric_tag = START | INTERMEDIATE | FINAL
datatype metric_mark = PRODUCER | CONSUMER | PRODUCER_BY_CONSUMER

record 'd supported_metric =
  sm_name :: string
  sm_metric_kind :: metric_kind
  sm_value_type :: value_type
  sm_tag :: metric_tag
  sm_mark :: metric_mark
  sm_set :: "'d metric_setter"

definition delta_metric :: "string \<Rightarrow> value_type \<Rightarrow> metric_tag \<Rightarrow> metric_mark \<Rightarrow> 'd metric_setter \<Rightarrow> 'd supported_metric" where
  "delta_metric name vt tag mark setter = \<lparr>sm_name = ''serviceruntime.googleapis.com/api/'' @ name, sm_metric_kind = DELTA,
     sm_value_type = vt, sm_tag = tag, sm_mark = mark, sm_set = setter\<rparr>"

definition supported_metrics :: "('k, 'd) proto_lib \<Rightarrow> 'd supported_metric list" where
  "supported_metrics lib =
    [delta_metric ''consumer/request_count'' VT_INT64 START CONSUMER set_int64_metric_to_constant_1,
     delta_metric ''producer/request_count'' VT_INT64 START PRODUCER set_int64_metric_to_constant_1,
     delta_metric ''producer/by_consumer/request_count'' VT_INT64 FINAL PRODUCER_BY_CONSUMER set_int64_metric_to_constant_1,
     delta_metric ''consumer/request_sizes'' VT_DISTRIBUTION FINAL CONSUMER (set_distribution_metric_to_request_size lib),
     delta_metric ''producer/request_sizes'' VT_DISTRIBUTION FINAL PRODUCER (set_distribution_metric_to_request_size lib),
     delta_metric ''producer/by_consumer/request_sizes'' VT_DISTRIBUTION FINAL PRODUCER_BY_CONSUMER
       (set_distribution_metric_to_request_size lib),
     delta_metric ''consumer/response_sizes'' VT_DISTRIBUTION FINAL CONSUMER (set_distribution_metric_to_response_size lib),
     delta_metric ''producer/response_sizes'' VT_DISTRIBUTION FINAL PRODUCER (set_distribution_metric_to_response_size lib),
     delta_metric ''producer/by_consumer/response_sizes'' VT_DISTRIBUTION FINAL PRODUCER_BY_CONSUMER
       (set_distribution_metric_to_response_size lib),
     delta_metric ''consumer/request_bytes'' VT_INT64 INTERMEDIATE CONSUMER set_int64_metric_to_request_bytes,
     delta_metric ''consumer/response_bytes'' VT_INT64 INTERMEDIATE CONSUMER set_int64_metric_to_response_bytes,
     delta_metric ''producer/request_bytes'' VT_INT64 INTERMEDIATE PRODUCER set_int64_metric_to_request_bytes,
     delta_metric ''producer/response_bytes'' VT_INT64 INTERMEDIATE PRODUCER set_int64_metric_to_response_bytes,
     delta_metric ''consumer/error_count'' VT_INT64 FINAL CONSUMER set_int64_metric_to_constant_1_if_http_error,
     delta_metric ''producer/error_count'' VT_INT64 FINAL PRODUCER set_int64_metric_to_constant_1_if_http_error,
     delta_metric ''producer/by_consumer/error_count'' VT_INT64 FINAL PRODUCER_BY_CONSUMER
       set_int64_metric_to_constant_1_if_http_error,
     delta_metric ''consumer/total_latencies'' VT_DISTRIBUTION FINAL CONSUMER (set_distribution_metric_to_request_time lib),
     delta_metric ''producer/total_latencies'' VT_DISTRIBUTION FINAL PRODUCER (set_distribution_metric_to_request_time lib),
     delta_metric ''producer/by_consumer/total_latencies'' VT_DISTRIBUTION FINAL PRODUCER_BY_CONSUMER
       (set_distribution_metric_to_request_time lib),
     delta_metric ''consumer/backend_latencies'' VT_DISTRIBUTION FINAL CONSUMER (set_distribution_metric_to_backend_time lib),
     delta_metric ''producer/backend_latencies'' VT_DISTRIBUTION FINAL PRODUCER (set_distribution_metric_to_backend_time lib),
     delta_metric ''producer/by_consumer/backend_latencies'' VT_DISTRIBUTION FINAL PRODUCER_BY_CONSUMER
       (set_distribution_metric_to_backend_time lib),
     delta_metric ''consumer/request_overhead_latencies'' VT_DISTRIBUTION FINAL CONSUMER
       (set_distribution_metric_to_overhead_time lib),
     delta_metric ''producer/request_overhead_latencies'' VT_DISTRIBUTION FINAL PRODUCER
       (set_distribution_metric_to_overhead_time lib),
     delta_metric ''producer/by_consumer/request_overhead_latencies'' VT_DISTRIBUTION FINAL PRODUCER_BY_CONSUMER
       (set_distribution_metric_to_overhead_time lib),
     delta_metric ''consumer/streaming_request_message_counts'' VT_DISTRIBUTION FINAL CONSUMER
       (set_distribution_metric_to_streaming_request_message_counts lib),
     delta_metric ''producer/streaming_request_message_counts'' VT_DISTRIBUTION FINAL PRODUCER
       (set_distribution_metric_to_streaming_request_message_counts lib),
     delta_metric ''consumer/streaming_response_message_counts'' VT_DISTRIBUTION FINAL CONSUMER
       (set_distribution_metric_to_streaming_response_message_counts lib),
     delta_metric ''producer/streaming_response_message_counts'' VT_DISTRIBUTION FINAL PRODUCER
       (set_distribution_metric_to_streaming_response_message_counts lib),
     delta_metric ''consumer/streaming_durations'' VT_DISTRIBUTION FINAL CONSUMER
       (set_distribution_metric_to_streaming_durations lib),
     delta_metric ''producer/streaming_durations'' VT_DISTRIBUTION FINAL PRODUCER
       (set_distribution_metric_to_streaming_durations lib)]"

section \<open>Labels\<close>

definition kServiceControlCallerIp :: string where "kServiceControlCallerIp = ''servicecontrol.googleapis.com/caller_ip''"
definition kServiceControlReferer :: string where "kServiceControlReferer = ''servicecontrol.googleapis.com/referer''"
definition kServiceControlServiceAgent :: string where
  "kServiceControlServiceAgent = ''servicecontrol.googleapis.com/service_agent''"
definition kServiceControlUserAgent :: string where "kServiceControlUserAgent = ''servicecontrol.googleapis.com/user_agent''"
definition kServiceControlPlatform :: string where "kServiceControlPlatform = ''servicecontrol.googleapis.com/platform''"
definition kServiceControlAndroidPackageName :: string where
  "kServiceControlAndroidPackageName = ''servicecontrol.googleapis.com/android_package_name''"
definition kServiceControlAndroidCertFingerprint :: string where
  "kServiceControlAndroidCertFingerprint = ''servicecontrol.googleapis.com/android_cert_fingerprint''"
definition kServiceControlIosBundleId :: string where
  "kServiceControlIosBundleId = ''servicecontrol.googleapis.com/ios_bundle_id''"
definition kServiceControlBackendProtocol :: string where
  "kServiceControlBackendProtocol = ''servicecontrol.googleapis.com/backend_protocol''"
definition kServiceControlConsumerProject :: string where
  "kServiceControlConsumerProject = ''serviceruntime.googleapis.com/consumer_project''"
definition kUserAgent :: string where "kUserAgent = ''ESP''"
definition kServiceAgentPrefix_sc :: string where "kServiceAgentPrefix_sc = ''ESP/''"
definition kDefaultLocation :: string where "kDefaultLocation = ''global''"

text \<open>\<open>None\<close>: the index of \<^verbatim>\<open>error_types\<close> is outside the array.\<close>

type_synonym label_setter =
  "string \<Rightarrow> report_request_info \<Rightarrow> (string \<times> string) list \<Rightarrow> (status \<times> (string \<times> string) list) option"

definition set_credential_id :: "('k, 'd) proto_lib \<Rightarrow> label_setter" where
  "set_credential_id lib name info labels =
     (if oi_api_key info \<noteq> [] then Some (Status_OK, AList.update name (''apikey:'' @ oi_api_key info) labels)
      else if auth_issuer info \<noteq> [] then
        Some (case esp_base64_encode (pl_token_lib lib) (auth_issuer info) True False False of
                None \<Rightarrow> (Status INTERNAL_CODE ''Out of memory'', labels)
              | Some base64_issuer \<Rightarrow>
                  let credential_id = ''jwtauth:issuer='' @ base64_issuer
                  in if auth_audience info = [] then (Status_OK, AList.update name credential_id labels)
                     else case esp_base64_encode (pl_token_lib lib) (auth_audience info) True False False of
                            None \<Rightarrow> (Status INTERNAL_CODE ''Out of memory'', labels)
                          | Some base64_audience \<Rightarrow>
                              (Status_OK, AList.update name (credential_id @ ''&audience='' @ base64_audience) labels))
      else Some (Status_OK, labels))"

definition error_types :: "string list" where
  "error_types = [''0xx'', ''1xx'', ''2xx'', ''3xx'', ''4xx'', ''5xx'', ''6xx'', ''7xx'', ''8xx'', ''9xx'']"

definition error_type_at :: "int \<Rightarrow> string option" where
  "error_type_at i = (if 0 \<le> i \<and> i < 10 then Some (error_types ! nat i) else None)"

definition set_error_type :: label_setter where
  "set_error_type name info labels =
     (if response_code info \<ge> 400
      then map_option (\<lambda>t. (Status_OK, AList.update name t labels)) (error_type_at ((response_code info sdiv 100) smod 10))
      else Some (Status_OK, labels))"

definition set_protocol :: label_setter where
  "set_protocol name info labels = Some (Status_OK, AList.update name (Protocol_ToString (frontend_protocol info)) labels)"

definition set_backend_protocol :: label_setter where
  "set_backend_protocol name info labels =
     Some (Status_OK,
       if backend_protocol info = GRPC \<and> frontend_protocol info \<noteq> backend_protocol info
       then AList.update name (Protocol_ToString (backend_protocol info)) labels else labels)"

definition set_consumer_project :: label_setter where
  "set_consumer_project name info labels =
     Some (Status_OK, AList.update name (consumer_project_id (ri_check_response_info info)) labels)"

definition set_referer :: label_setter where
  "set_referer name info labels =
     Some (Status_OK, if oi_referer info \<noteq> [] then AList.update name (oi_referer info) labels else labels)"

text \<open>The buffer of \<^verbatim>\<open>snprintf\<close> holds every \<^verbatim>\<open>int\<close>.\<close>

definition set_response_code :: label_setter where
  "set_response_code name info labels =
     Some (Status_OK, if is_final_report info then AList.update name (show_int (response_code info)) labels else labels)"

definition set_response_code_class :: label_setter where
  "set_response_code_class name info labels =
     (if \<not> is_final_report info then Some (Status_OK, labels)
      else map_option (\<lambda>t. (Status_OK, AList.update name t labels)) (error_type_at ((response_code info sdiv 100) smod 10)))"

definition set_status_code :: label_setter where
  "set_status_code name info labels =
     Some (Status_OK,
       if is_final_report info then AList.update name (show_int (CanonicalCode (ri_status info))) labels else labels)"

definition set_location :: label_setter where
  "set_location name info labels =
     Some (Status_OK, AList.update name (if location info \<noteq> [] then location info else kDefaultLocation) labels)"

definition set_api_method :: label_setter where
  "set_api_method name info labels =
     Some (Status_OK, if api_method info \<noteq> [] then AList.update name (api_method info) labels else labels)"

definition set_api_version :: label_setter where
  "set_api_version name info labels =
     Some (Status_OK, if ri_api_version info \<noteq> [] then AList.update name (ri_api_version info) labels else labels)"

definition set_platform :: label_setter where
  "set_platform name info labels = Some (Status_OK, AList.update name (compute_platform info) labels)"

definition set_service_agent :: "('k, 'd) proto_lib \<Rightarrow> label_setter" where
  "set_service_agent lib name info labels = Some (Status_OK, AList.update name (kServiceAgentPrefix_sc @ pl_version lib) labels)"

definition set_user_agent :: label_setter where
  "set_user_agent name info labels = Some (Status_OK, AList.update name kUserAgent labels)"

datatype label_kind = USER | SYSTEM

record supported_label =
  sl_name :: string
  sl_value_type :: value_type
  sl_kind :: label_kind
  sl_set :: "label_setter option"
  sl_by_consumer_only :: bool

definition string_label :: "string \<Rightarrow> label_kind \<Rightarrow> label_setter option \<Rightarrow> bool \<Rightarrow> supported_label" where
  "string_label name kind setter by_consumer_only = \<lparr>sl_name = name, sl_value_type = VT_STRING, sl_kind = kind,
     sl_set = setter, sl_by_consumer_only = by_consumer_only\<rparr>"

definition supported_labels :: "('k, 'd) proto_lib \<Rightarrow> supported_label list" where
  "supported_labels lib =
    [string_label ''/credential_id'' USER (Some (set_credential_id lib)) False,
     string_label ''/end_user'' USER None False,
     string_label ''/end_user_country'' USER None False,
     string_label ''/error_type'' USER (Some set_error_type) False,
     string_label ''/protocol'' USER (Some set_protocol) False,
     string_label ''/referer'' USER (Some set_referer) False,
     string_label ''/response_code'' USER (Some set_response_code) False,
     string_label ''/response_code_class'' USER (Some set_response_code_class) False,
     string_label ''/status_code'' USER (Some set_status_code) False,
     string_label ''appengine.googleapis.com/clone_id'' USER None False,
     string_label ''appengine.googleapis.com/module_id'' USER None False,
     string_label ''appengine.googleapis.com/replica_index'' USER None False,
     string_label ''appengine.googleapis.com/version_id'' USER None False,
     string_label ''cloud.googleapis.com/location'' SYSTEM (Some set_location) False,
     string_label ''cloud.googleapis.com/project'' SYSTEM None False,
     string_label ''cloud.googleapis.com/region'' SYSTEM None False,
     string_label ''cloud.googleapis.com/resource_id'' USER None False,
     string_label ''cloud.googleapis.com/resource_type'' USER None False,
     string_label ''cloud.googleapis.com/service'' SYSTEM None False,
     string_label ''cloud.googleapis.com/zone'' SYSTEM None False,
     string_label ''cloud.googleapis.com/uid'' SYSTEM None False,
     string_label ''serviceruntime.googleapis.com/api_method'' USER (Some set_api_method) False,
     string_label ''serviceruntime.googleapis.com/api_version'' USER (Some set_api_version) False,
     string_label kServiceControlCallerIp SYSTEM None False,
     string_label kServiceControlReferer SYSTEM None False,
     string_label kServiceControlServiceAgent SYSTEM (Some (set_service_agent lib)) False,
     string_label kServiceControlUserAgent SYSTEM (Some set_user_agent) False,
     string_label kServiceControlPlatform SYSTEM (Some set_platform) False,
     string_label kServiceControlBackendProtocol SYSTEM (Some set_backend_protocol) False,
     string_label kServiceControlConsumerProject SYSTEM (Some set_consumer_project) True]"

section \<open>Filling requests\<close>

definition kConsumerIdApiKey :: string where "kConsumerIdApiKey = ''api_key:''"
definition kConsumerIdProject :: string where "kConsumerIdProject = ''project:''"

definition CreateTimestamp :: "int \<Rightarrow> proto_timestamp" where
  "CreateTimestamp nanos = \<lparr>ts_seconds = nanos sdiv 1000000000, ts_nanos = nanos smod 1000000000\<rparr>"

definition VerifyRequiredCheckFields :: "'a operation_info_scheme \<Rightarrow> status" where
  "VerifyRequiredCheckFields info =
     (if oi_operation_id info = [] then Status3 INVALID_ARGUMENT ''operation_id is required.'' SERVICE_CONTROL
      else if oi_operation_name info = [] then Status3 INVALID_ARGUMENT ''operation_name is required.'' SERVICE_CONTROL
      else Status_OK)"

definition VerifyRequiredReportFields :: "'a operation_info_scheme \<Rightarrow> status" where
  "VerifyRequiredReportFields info = Status_OK"

definition SetOperationCommonFields :: "'a operation_info_scheme \<Rightarrow> proto_timestamp \<Rightarrow> 'd operation \<Rightarrow> 'd operation" where
  "SetOperationCommonFields info current_time op =
     (let op = (if oi_operation_id info \<noteq> [] then op\<lparr>op_operation_id := oi_operation_id info\<rparr> else op);
          op = (if oi_operation_name info \<noteq> [] then op\<lparr>op_operation_name := oi_operation_name info\<rparr> else op);
          op = (if oi_api_key info \<noteq> [] then op\<lparr>op_consumer_id := kConsumerIdApiKey @ oi_api_key info\<rparr> else op)
      in op\<lparr>op_start_time := current_time, op_end_time := current_time\<rparr>)"

text \<open>A field of the payload of a log entry, written when there is something to write.\<close>

definition string_field :: "string \<Rightarrow> string \<Rightarrow> (string \<times> log_value) list \<Rightarrow> (string \<times> log_value) list" where
  "string_field name v fs = (if v \<noteq> [] then AList.update name (StringValue v) fs else fs)"

definition size_field :: "string \<Rightarrow> int \<Rightarrow> (string \<times> log_value) list \<Rightarrow> (string \<times> log_value) list" where
  "size_field name v fs = (if v \<ge> 0 then AList.update name (NumberValue (of_int v)) fs else fs)"

definition FillLogEntry ::
    "('k, 'd) proto_lib \<Rightarrow> report_request_info \<Rightarrow> string \<Rightarrow> string \<Rightarrow> proto_timestamp \<Rightarrow> log_entry" where
  "FillLogEntry lib info name config_id current_time =
     (let fs = AList.update ''timestamp''
            (NumberValue (of_int (ts_seconds current_time) + of_int (ts_nanos current_time) / 1000000000)) [];
          fs = AList.update ''service_config_id'' (StringValue config_id) fs;
          fs = AList.update ''service_agent'' (StringValue (kServiceAgentPrefix_sc @ pl_version lib)) fs;
          fs = string_field ''producer_project_id'' (oi_producer_project_id info) fs;
          fs = string_field ''api_key'' (oi_api_key info) fs;
          fs = string_field ''referer'' (oi_referer info) fs;
          fs = string_field ''api_name'' (ri_api_name info) fs;
          fs = string_field ''api_version'' (ri_api_version info) fs;
          fs = string_field ''url'' (ri_url info) fs;
          fs = string_field ''api_method'' (api_method info) fs;
          fs = string_field ''location'' (location info) fs;
          fs = string_field ''log_message'' (log_message info) fs;
          fs = string_field ''jwt_payloads'' (jwt_payloads info) fs;
          fs = AList.update ''http_response_code'' (NumberValue (of_int (response_code info))) fs;
          fs = size_field ''request_size_in_bytes'' (request_size info) fs;
          fs = string_field ''request_headers'' (request_headers info) fs;
          fs = size_field ''response_size_in_bytes'' (response_size info) fs;
          fs = string_field ''response_headers'' (response_headers info) fs;
          fs = size_field ''request_latency_in_ms'' (request_time_ms (latency info)) fs;
          fs = string_field ''http_method'' (http_method info) fs;
          fs = string_field ''client_ip'' (oi_client_ip info) fs;
          fs = (if response_code info \<ge> 400
                    then AList.update ''error_cause'' (StringValue (ErrorCauseToString (cause (ri_status info)))) fs
                    else fs)
      in \<lparr>le_name = name, le_timestamp = current_time,
          le_severity = (if response_code info \<ge> 400 then SEVERITY_ERROR else SEVERITY_INFO), le_fields = fs\<rparr>)"

record 'd proto =
  p_logs :: "string list"
  p_metrics :: "'d supported_metric list"
  p_labels :: "supported_label list"
  p_service_name :: string
  p_service_config_id :: string

definition Proto :: "('k, 'd) proto_lib \<Rightarrow> string set \<Rightarrow> string set \<Rightarrow> string set \<Rightarrow> string \<Rightarrow> string \<Rightarrow> 'd proto" where
  "Proto lib logs metrics labels service_name service_config_id =
     \<lparr>p_logs = sorted_list_of_set logs,
      p_metrics = filter (\<lambda>m. sm_name m \<in> metrics) (supported_metrics lib),
      p_labels = filter (\<lambda>l. sl_set l \<noteq> None \<and> (sl_kind l = SYSTEM \<or> sl_name l \<in> labels)) (supported_labels lib),
      p_service_name = service_name, p_service_config_id = service_config_id\<rparr>"

definition Proto_all :: "('k, 'd) proto_lib \<Rightarrow> string set \<Rightarrow> string \<Rightarrow> string \<Rightarrow> 'd proto" where
  "Proto_all lib logs service_name service_config_id =
     \<lparr>p_logs = sorted_list_of_set logs, p_metrics = supported_metrics lib,
      p_labels = filter (\<lambda>l. sl_set l \<noteq> None) (supported_labels lib),
      p_service_name = service_name, p_service_config_id = service_config_id\<rparr>"

definition FillAllocateQuotaRequest :: "('k, 'd) proto_lib \<Rightarrow> 'd proto \<Rightarrow> quota_request_info \<Rightarrow> status \<times> quota_request" where
  "FillAllocateQuotaRequest lib p info =
     (let labels = (if oi_client_ip info \<noteq> [] then AList.update kServiceControlCallerIp (oi_client_ip info) [] else []);
          labels = (if oi_referer info \<noteq> [] then AList.update kServiceControlReferer (oi_referer info) labels else labels);
          labels = AList.update kServiceControlUserAgent kUserAgent labels;
          labels = AList.update kServiceControlServiceAgent (kServiceAgentPrefix_sc @ pl_version lib) labels
      in (Status_OK,
          \<lparr>qr_service_name = p_service_name p, qr_service_config_id = p_service_config_id p,
           qr_allocate_operation =
             \<lparr>qo_operation_id = oi_operation_id info, qo_method_name = method_name info,
              qo_consumer_id =
                (if oi_api_key info \<noteq> [] then kConsumerIdApiKey @ oi_api_key info
                 else if oi_producer_project_id info \<noteq> [] then kConsumerIdProject @ oi_producer_project_id info else []),
              qo_best_effort = True, qo_labels = labels,
              qo_quota_metrics =
                (case qi_metric_cost_vector info of
                   None \<Rightarrow> []
                 | Some costs \<Rightarrow> map (\<lambda>(metric, cost). (metric, [if cost \<le> 0 then 1 else cost])) costs)\<rparr>\<rparr>))"

definition FillCheckRequest ::
    "('k, 'd) proto_lib \<Rightarrow> int \<Rightarrow> 'd proto \<Rightarrow> check_request_info \<Rightarrow> status + 'd check_request" where
  "FillCheckRequest lib now p info =
     (let st = VerifyRequiredCheckFields info
      in if \<not> ok st then Inl st
         else
           let op = SetOperationCommonFields info (CreateTimestamp now) new_Operation;
               labels = (if oi_client_ip info \<noteq> [] then AList.update kServiceControlCallerIp (oi_client_ip info) [] else []);
               labels = (if oi_referer info \<noteq> [] then AList.update kServiceControlReferer (oi_referer info) labels else labels);
               labels = AList.update kServiceControlUserAgent kUserAgent labels;
               labels = AList.update kServiceControlServiceAgent (kServiceAgentPrefix_sc @ pl_version lib) labels;
               labels = (if android_package_name info \<noteq> []
                         then AList.update kServiceControlAndroidPackageName (android_package_name info) labels else labels);
               labels = (if android_cert_fingerprint info \<noteq> []
                         then AList.update kServiceControlAndroidCertFingerprint (android_cert_fingerprint info) labels else labels);
               labels = (if ios_bundle_id info \<noteq> []
                         then AList.update kServiceControlIosBundleId (ios_bundle_id info) labels else labels)
           in Inr \<lparr>cr_service_name = p_service_name p, cr_service_config_id = p_service_config_id p,
                   cr_operation = op\<lparr>op_labels := labels\<rparr>\<rparr>)"

text \<open>The loops over the labels and the metrics end at the first status that is not OK.\<close>

fun set_labels ::
    "supported_label list \<Rightarrow> report_request_info \<Rightarrow> (string \<times> string) list \<Rightarrow> (status \<times> (string \<times> string) list) option" where
  "set_labels [] info labels = Some (Status_OK, labels)"
| "set_labels (l # ls) info labels =
     (case sl_set l of
        None \<Rightarrow> set_labels ls info labels
      | Some setter \<Rightarrow> do {
          (st, labels) \<leftarrow> setter (sl_name l) info labels;
          if \<not> ok st then Some (st, labels) else set_labels ls info labels
        })"

fun set_metrics :: "'d supported_metric list \<Rightarrow> report_request_info \<Rightarrow> 'd operation \<Rightarrow> status \<times> 'd operation" where
  "set_metrics [] info op = (Status_OK, op)"
| "set_metrics (m # ms) info op =
     (let (st, op) = sm_set m (sm_name m) info op
      in if \<not> ok st then (st, op) else set_metrics ms info op)"

text \<open>Whether a metric belongs into this report of the request.\<close>

definition in_report :: "report_request_info \<Rightarrow> 'd supported_metric \<Rightarrow> bool" where
  "in_report info m \<longleftrightarrow>
     is_first_report info \<and> sm_tag m = START \<or>
     is_final_report info \<and> (sm_tag m = FINAL \<or> sm_tag m = INTERMEDIATE) \<or>
     \<not> is_final_report info \<and> sm_tag m = INTERMEDIATE"

definition add_operation :: "'d operation \<Rightarrow> 'd report_request \<Rightarrow> 'd report_request" where
  "add_operation op request = request\<lparr>rr_operations := rr_operations request @ [op]\<rparr>"

definition AppendByConsumerOperations ::
    "'d proto \<Rightarrow> report_request_info \<Rightarrow> 'd report_request \<Rightarrow> proto_timestamp \<Rightarrow> (status \<times> 'd report_request) option" where
  "AppendByConsumerOperations p info request current_time =
     (let op = SetOperationCommonFields info current_time new_Operation;
          op = op\<lparr>op_operation_id := op_operation_id op @ ''1''\<rparr>
      in if oi_operation_id info \<noteq> [] \<and> oi_operation_name info \<noteq> [] then do {
           (st, labels) \<leftarrow> set_labels (p_labels p) info (op_labels op);
           (let op = op\<lparr>op_labels := labels\<rparr>
            in if \<not> ok st then Some (st, add_operation op request)
               else
                 let (st, op) = set_metrics (filter (\<lambda>m. sm_mark m = PRODUCER_BY_CONSUMER \<and> in_report info m) (p_metrics p)) info op
                 in Some (st, add_operation op request))
         }
         else Some (Status_OK, add_operation op request))"

definition FillReportRequest ::
    "('k, 'd) proto_lib \<Rightarrow> int \<Rightarrow> 'd proto \<Rightarrow> report_request_info \<Rightarrow> (status \<times> 'd report_request) option" where
  "FillReportRequest lib now p info =
     (let request = \<lparr>rr_service_name = p_service_name p, rr_service_config_id = p_service_config_id p, rr_operations = []\<rparr>;
          current_time = CreateTimestamp now;
          op = SetOperationCommonFields info current_time new_Operation;
          send_consumer_metric = (oi_api_key info \<noteq> [])
      in do {
        (st, op) \<leftarrow>
          (if oi_operation_id info \<noteq> [] \<and> oi_operation_name info \<noteq> [] then do {
             (st, labels) \<leftarrow> set_labels (filter (\<lambda>l. \<not> sl_by_consumer_only l) (p_labels p)) info (op_labels op);
             (let op = op\<lparr>op_labels := labels\<rparr>
              in Some (if \<not> ok st then (st, op)
                       else set_metrics
                              (filter (\<lambda>m. (send_consumer_metric \<or> sm_mark m \<noteq> CONSUMER) \<and>
                                 sm_mark m \<noteq> PRODUCER_BY_CONSUMER \<and> in_report info m) (p_metrics p)) info op))
           }
           else Some (Status_OK, op));
        if \<not> ok st then Some (st, add_operation op request)
        else
          let op = (if is_final_report info
                    then op\<lparr>op_log_entries := map (\<lambda>name. FillLogEntry lib info name (p_service_config_id p) current_time) (p_logs p)\<rparr>
                    else op);
              request = add_operation op request
          in if consumer_project_id (ri_check_response_info info) \<noteq> []
             then AppendByConsumerOperations p info request current_time
             else Some (Status_OK, request)
      })"

section \<open>Reading responses\<close>

datatype quota_error_code = QuotaError_UNSPECIFIED | QuotaError_RESOURCE_EXHAUSTED | QuotaError_BILLING_NOT_ACTIVE
  | QuotaError_PROJECT_DELETED | QuotaError_API_KEY_INVALID | QuotaError_API_KEY_EXPIRED | QuotaError_other int

type_synonym quota_response = "(quota_error_code \<times> string) list"

definition ConvertAllocateQuotaResponse :: "quota_response \<Rightarrow> string \<Rightarrow> status" where
  "ConvertAllocateQuotaResponse response service_name =
     (case response of
        [] \<Rightarrow> Status_OK
      | (error, description) # _ \<Rightarrow>
          (case error of
             QuotaError_UNSPECIFIED \<Rightarrow> Status_OK
           | QuotaError_RESOURCE_EXHAUSTED \<Rightarrow> Status RESOURCE_EXHAUSTED description
           | QuotaError_BILLING_NOT_ACTIVE \<Rightarrow> Status PERMISSION_DENIED description
           | QuotaError_PROJECT_DELETED \<Rightarrow> Status INVALID_ARGUMENT description
           | QuotaError_API_KEY_INVALID \<Rightarrow> Status INVALID_ARGUMENT description
           | QuotaError_API_KEY_EXPIRED \<Rightarrow> Status INVALID_ARGUMENT description
           | QuotaError_other _ \<Rightarrow> Status INTERNAL_CODE description))"

datatype check_error_code =
    CheckError_NOT_FOUND | CheckError_API_KEY_NOT_FOUND | CheckError_API_KEY_EXPIRED | CheckError_API_KEY_INVALID
  | CheckError_SERVICE_NOT_ACTIVATED | CheckError_RESOURCE_EXHAUSTED | CheckError_PERMISSION_DENIED
  | CheckError_IP_ADDRESS_BLOCKED | CheckError_REFERER_BLOCKED | CheckError_CLIENT_APP_BLOCKED
  | CheckError_API_TARGET_BLOCKED | CheckError_PROJECT_DELETED | CheckError_PROJECT_INVALID
  | CheckError_BILLING_DISABLED | CheckError_SECURITY_POLICY_VIOLATED | CheckError_INVALID_CREDENTIAL
  | CheckError_LOCATION_POLICY_VIOLATED | CheckError_CONSUMER_INVALID
  | CheckError_NAMESPACE_LOOKUP_UNAVAILABLE | CheckError_SERVICE_STATUS_UNAVAILABLE
  | CheckError_BILLING_STATUS_UNAVAILABLE | CheckError_QUOTA_CHECK_UNAVAILABLE
  | CheckError_CLOUD_RESOURCE_MANAGER_BACKEND_UNAVAILABLE | CheckError_SECURITY_POLICY_BACKEND_UNAVAILABLE
  | CheckError_LOCATION_POLICY_BACKEND_UNAVAILABLE | CheckError_other int

record check_response =
  cresp_project_number :: int
  cresp_check_errors :: "check_error_code list"
  cresp_service_rollout_id :: string
  cresp_service_config_id :: string

definition check_error_status :: "check_error_code \<Rightarrow> string \<Rightarrow> status" where
  "check_error_status error service_name =
     (let denied = (\<lambda>msg. Status3 PERMISSION_DENIED msg SERVICE_CONTROL);
          invalid = (\<lambda>msg. Status3 INVALID_ARGUMENT msg SERVICE_CONTROL)
      in case error of
        CheckError_NOT_FOUND \<Rightarrow> invalid ''Consumer project not found. Please pass a valid project.''
      | CheckError_API_KEY_NOT_FOUND \<Rightarrow> invalid ''API key not found. Please pass a valid API key.''
      | CheckError_API_KEY_EXPIRED \<Rightarrow> invalid ''API key expired. Please renew the API key.''
      | CheckError_API_KEY_INVALID \<Rightarrow> invalid ''API key not valid. Please pass a valid API key.''
      | CheckError_SERVICE_NOT_ACTIVATED \<Rightarrow> denied (''API '' @ service_name @ '' is not enabled for the consumer project.'')
      | CheckError_RESOURCE_EXHAUSTED \<Rightarrow> denied ''Quota check failed.''
      | CheckError_PERMISSION_DENIED \<Rightarrow> denied (''Consumer project doesn'' @ [CHR 0x27] @ ''t have access to the API '' @ service_name)
      | CheckError_IP_ADDRESS_BLOCKED \<Rightarrow> denied ''IP address is blocked by the API key with restrictions.''
      | CheckError_REFERER_BLOCKED \<Rightarrow> denied ''Referer address is blocked by the API key with restrictions.''
      | CheckError_CLIENT_APP_BLOCKED \<Rightarrow> denied ''Client application is blocked by the API key with restrictions.''
      | CheckError_API_TARGET_BLOCKED \<Rightarrow> denied (''API '' @ service_name @ '' is invalid for the consumer project.'')
      | CheckError_PROJECT_DELETED \<Rightarrow> denied ''Project has been deleted.''
      | CheckError_PROJECT_INVALID \<Rightarrow> invalid ''Consumer project not valid. Please pass a valid project.''
      | CheckError_BILLING_DISABLED \<Rightarrow> denied (''API '' @ service_name @ '' has billing disabled. Please enable it.'')
      | CheckError_SECURITY_POLICY_VIOLATED \<Rightarrow> denied ''Request is not allowed as per security policies.''
      | CheckError_INVALID_CREDENTIAL \<Rightarrow> denied ''The credential in the request can not be verified''
      | CheckError_LOCATION_POLICY_VIOLATED \<Rightarrow> denied ''Request is not allowed as per location policies.''
      | CheckError_CONSUMER_INVALID \<Rightarrow>
          denied ''The consumer from the API key does not represent a valid consumer folder or organization''
      | CheckError_other n \<Rightarrow>
          Status3 INTERNAL_CODE (''Request blocked due to unsupported error code: '' @ show_int n) SERVICE_CONTROL
      | _ \<Rightarrow> Status_OK)"

definition ConvertCheckResponse :: "check_response \<Rightarrow> string \<Rightarrow> check_response_info \<Rightarrow> status \<times> check_response_info" where
  "ConvertCheckResponse response service_name info =
     (let info = (if cresp_project_number response > 0
                  then info\<lparr>consumer_project_id := show_int (cresp_project_number response)\<rparr> else info)
      in case cresp_check_errors response of
           [] \<Rightarrow> (Status_OK, info)
         | error # _ \<Rightarrow>
             (check_error_status error service_name,
              if error \<in> {CheckError_API_KEY_NOT_FOUND, CheckError_API_KEY_EXPIRED, CheckError_API_KEY_INVALID}
              then info\<lparr>is_api_key_valid := False\<rparr>
              else if error = CheckError_SERVICE_NOT_ACTIVATED then info\<lparr>service_is_activated := False\<rparr> else info))"

section \<open>What is supported\<close>

record label_descriptor =
  ld_key :: string
  ld_value_type :: value_type

record metric_descriptor =
  md_name :: string
  md_metric_kind :: metric_kind
  md_value_type :: value_type
  md_labels :: "label_descriptor list"

definition IsMetricSupported :: "('k, 'd) proto_lib \<Rightarrow> metric_descriptor \<Rightarrow> bool" where
  "IsMetricSupported lib metric \<longleftrightarrow>
     list_ex (\<lambda>m. md_name metric = sm_name m \<and> md_metric_kind metric = sm_metric_kind m \<and> md_value_type metric = sm_value_type m)
       (supported_metrics lib)"

definition IsLabelSupported :: "('k, 'd) proto_lib \<Rightarrow> label_descriptor \<Rightarrow> bool" where
  "IsLabelSupported lib label \<longleftrightarrow>
     list_ex (\<lambda>l. ld_key label = sl_name l \<and> ld_value_type label = sl_value_type l) (supported_labels lib)"

section \<open>Which metrics are reported\<close>

text \<open>The last part of the name of a metric, and when there is a value for it.\<close>

definition base_name :: "string \<Rightarrow> string" where
  "base_name name = rev (takeWhile (\<lambda>c. c \<noteq> CHR ''/'') (rev name))"

definition measured :: "report_request_info \<Rightarrow> string \<Rightarrow> bool" where
  "measured info base \<longleftrightarrow>
     base = ''request_count'' \<or>
     base = ''error_count'' \<and> response_code info \<ge> 400 \<or>
     base = ''request_sizes'' \<and> request_size info \<ge> 0 \<or>
     base = ''response_sizes'' \<and> response_size info \<ge> 0 \<or>
     base = ''request_bytes'' \<and> request_bytes info > 0 \<or>
     base = ''response_bytes'' \<and> response_bytes info > 0 \<or>
     base = ''total_latencies'' \<and> request_time_ms (latency info) \<ge> 0 \<or>
     base = ''backend_latencies'' \<and> backend_time_ms (latency info) \<ge> 0 \<or>
     base = ''request_overhead_latencies'' \<and> overhead_time_ms (latency info) \<ge> 0 \<or>
     base = ''streaming_request_message_counts'' \<and> streaming_request_message_counts info > 0 \<or>
     base = ''streaming_response_message_counts'' \<and> streaming_response_message_counts info > 0 \<or>
     base = ''streaming_durations'' \<and> streaming_durations info > 0"

text \<open>What the library promises: distributions with the two options take every sample, and base64 encodes every text.\<close>

definition proto_lib_laws :: "('k, 'd) proto_lib \<Rightarrow> bool" where
  "proto_lib_laws lib \<longleftrightarrow>
     (\<forall>options \<in> {time_distribution, size_distribution}. \<exists>d.
        InitExponential lib (buckets options) (growth options) (scale options) = Inr d \<and> (\<forall>v \<ge> 0. \<exists>d'. AddSample lib v d = Inr d')) \<and>
     (\<forall>s. base64_encode (pl_token_lib lib) True False s \<noteq> None)"

lemma AddDistributionMetric_ok:
  assumes "proto_lib_laws lib" "options = time_distribution \<or> options = size_distribution" "0 \<le> v"
  shows "\<exists>d. AddDistributionMetric lib options name v op = (Status_OK, AddMetricValue name (DistributionValue d) op)"
proof -
  obtain d where d: "InitExponential lib (buckets options) (growth options) (scale options) = Inr d"
      "\<forall>v \<ge> 0. \<exists>d'. AddSample lib v d = Inr d'"
    using assms(1,2) unfolding proto_lib_laws_def by blast
  then obtain d' where "AddSample lib v d = Inr d'" using assms(3) by blast
  then show ?thesis using d(1) by (auto simp: AddDistributionMetric_def)
qed

text \<open>A setter adds one value set under the name of its metric when there is a value, and nothing otherwise.\<close>

definition sets_when :: "bool \<Rightarrow> 'd supported_metric \<Rightarrow> report_request_info \<Rightarrow> bool" where
  "sets_when b m info \<longleftrightarrow> (\<forall>op. \<exists>v. sm_set m (sm_name m) info op =
     (Status_OK, if b then AddMetricValue (sm_name m) v op else op))"

lemma sets_when_setters:
  assumes "proto_lib_laws lib"
  shows
    "sets_when True (delta_metric n vt t k set_int64_metric_to_constant_1) info"
    "sets_when (response_code info \<ge> 400) (delta_metric n vt t k set_int64_metric_to_constant_1_if_http_error) info"
    "sets_when (request_size info \<ge> 0) (delta_metric n vt t k (set_distribution_metric_to_request_size lib)) info"
    "sets_when (response_size info \<ge> 0) (delta_metric n vt t k (set_distribution_metric_to_response_size lib)) info"
    "sets_when (request_time_ms (latency info) \<ge> 0) (delta_metric n vt t k (set_distribution_metric_to_request_time lib)) info"
    "sets_when (backend_time_ms (latency info) \<ge> 0) (delta_metric n vt t k (set_distribution_metric_to_backend_time lib)) info"
    "sets_when (overhead_time_ms (latency info) \<ge> 0) (delta_metric n vt t k (set_distribution_metric_to_overhead_time lib)) info"
    "sets_when (request_bytes info > 0) (delta_metric n vt t k set_int64_metric_to_request_bytes) info"
    "sets_when (response_bytes info > 0) (delta_metric n vt t k set_int64_metric_to_response_bytes) info"
    "sets_when (streaming_request_message_counts info > 0)
       (delta_metric n vt t k (set_distribution_metric_to_streaming_request_message_counts lib)) info"
    "sets_when (streaming_response_message_counts info > 0)
       (delta_metric n vt t k (set_distribution_metric_to_streaming_response_message_counts lib)) info"
    "sets_when (streaming_durations info > 0) (delta_metric n vt t k (set_distribution_metric_to_streaming_durations lib)) info"
proof -
  note dist = AddDistributionMetric_ok [OF assms]
  note defs = sets_when_def delta_metric_def AddInt64Metric_def kMsToSecs_def
  show "sets_when True (delta_metric n vt t k set_int64_metric_to_constant_1) info"
    by (auto simp: defs set_int64_metric_to_constant_1_def)
  show "sets_when (response_code info \<ge> 400) (delta_metric n vt t k set_int64_metric_to_constant_1_if_http_error) info"
    by (auto simp: defs set_int64_metric_to_constant_1_if_http_error_def)
  show "sets_when (request_size info \<ge> 0) (delta_metric n vt t k (set_distribution_metric_to_request_size lib)) info"
    using dist [of size_distribution "of_int (request_size info)"]
    by (auto simp: defs set_distribution_metric_to_request_size_def)
  show "sets_when (response_size info \<ge> 0) (delta_metric n vt t k (set_distribution_metric_to_response_size lib)) info"
    using dist [of size_distribution "of_int (response_size info)"]
    by (auto simp: defs set_distribution_metric_to_response_size_def)
  show "sets_when (request_time_ms (latency info) \<ge> 0) (delta_metric n vt t k (set_distribution_metric_to_request_time lib)) info"
    using dist [of time_distribution "of_int (request_time_ms (latency info)) * kMsToSecs"]
    by (auto simp: defs set_distribution_metric_to_request_time_def)
  show "sets_when (backend_time_ms (latency info) \<ge> 0) (delta_metric n vt t k (set_distribution_metric_to_backend_time lib)) info"
    using dist [of time_distribution "of_int (backend_time_ms (latency info)) * kMsToSecs"]
    by (auto simp: defs set_distribution_metric_to_backend_time_def)
  show "sets_when (overhead_time_ms (latency info) \<ge> 0) (delta_metric n vt t k (set_distribution_metric_to_overhead_time lib)) info"
    using dist [of time_distribution "of_int (overhead_time_ms (latency info)) * kMsToSecs"]
    by (auto simp: defs set_distribution_metric_to_overhead_time_def)
  show "sets_when (request_bytes info > 0) (delta_metric n vt t k set_int64_metric_to_request_bytes) info"
    by (auto simp: defs set_int64_metric_to_request_bytes_def)
  show "sets_when (response_bytes info > 0) (delta_metric n vt t k set_int64_metric_to_response_bytes) info"
    by (auto simp: defs set_int64_metric_to_response_bytes_def)
  show "sets_when (streaming_request_message_counts info > 0)
      (delta_metric n vt t k (set_distribution_metric_to_streaming_request_message_counts lib)) info"
    using dist [of size_distribution "of_int (streaming_request_message_counts info)"]
    by (auto simp: defs set_distribution_metric_to_streaming_request_message_counts_def) (metis snd_conv)
  show "sets_when (streaming_response_message_counts info > 0)
      (delta_metric n vt t k (set_distribution_metric_to_streaming_response_message_counts lib)) info"
    using dist [of size_distribution "of_int (streaming_response_message_counts info)"]
    by (auto simp: defs set_distribution_metric_to_streaming_response_message_counts_def) (metis snd_conv)
  show "sets_when (streaming_durations info > 0) (delta_metric n vt t k (set_distribution_metric_to_streaming_durations lib)) info"
    using dist [of time_distribution "of_int (streaming_durations info)"]
    by (auto simp: defs set_distribution_metric_to_streaming_durations_def) (metis snd_conv)
qed

lemma base_name_simps:
  "base_name (sm_name (delta_metric n vt t k s)) = rev (takeWhile (\<lambda>c. c \<noteq> CHR ''/'') (rev (''serviceruntime.googleapis.com/api/'' @ n)))"
  by (simp add: base_name_def delta_metric_def)

lemma supported_metrics_set:
  assumes "proto_lib_laws lib" "m \<in> set (supported_metrics lib)"
  shows "sets_when (measured info (base_name (sm_name m))) m info"
proof -
  have "list_all (\<lambda>m. sets_when (measured info (base_name (sm_name m))) m info) (supported_metrics lib)"
    unfolding supported_metrics_def list.pred_inject base_name_simps
    by (simp add: measured_def sets_when_setters [OF assms(1)])
  then show ?thesis using assms(2) by (simp add: list_all_iff)
qed


lemma metric_sets_AddMetricValue [simp]:
  "op_metric_value_sets (AddMetricValue n v op) = op_metric_value_sets op @ [(n, [v])]"
  by (simp add: AddMetricValue_def)

lemma set_metrics_names:
  assumes "proto_lib_laws lib" "set ms \<subseteq> set (supported_metrics lib)"
  shows "\<exists>op'. set_metrics ms info op = (Status_OK, op') \<and>
    map fst (op_metric_value_sets op') =
      map fst (op_metric_value_sets op) @ map sm_name (filter (\<lambda>m. measured info (base_name (sm_name m))) ms)"
  using assms(2)
proof (induction ms arbitrary: op)
  case (Cons m ms)
  have "sets_when (measured info (base_name (sm_name m))) m info"
    using supported_metrics_set [OF assms(1)] Cons.prems by simp
  then obtain v where v: "sm_set m (sm_name m) info op =
      (Status_OK, if measured info (base_name (sm_name m)) then AddMetricValue (sm_name m) v op else op)"
    unfolding sets_when_def by blast
  show ?case
    using Cons.IH [of "AddMetricValue (sm_name m) v op"] Cons.IH [of op] Cons.prems by (auto simp: v)
qed simp

text \<open>The setters of the labels.\<close>

lemma error_type_in_range: "0 \<le> c \<Longrightarrow> error_type_at ((c sdiv 100) smod 10) \<noteq> None"
proof -
  assume "0 \<le> c"
  then have "(c sdiv 100) smod 10 = (c div 100) mod 10"
    by (simp add: signed_divide_int_def signed_modulo_int_def sgn_if minus_mult_div_eq_mod)
  then show ?thesis by (simp add: error_type_at_def)
qed

definition label_works :: "supported_label \<Rightarrow> report_request_info \<Rightarrow> bool" where
  "label_works l info \<longleftrightarrow> (\<forall>setter labels. sl_set l = Some setter \<longrightarrow>
     (\<exists>labels'. setter (sl_name l) info labels = Some (Status_OK, labels')))"

lemma set_credential_id_works:
  assumes "proto_lib_laws lib"
  shows "\<exists>labels'. set_credential_id lib n info labels = Some (Status_OK, labels')"
proof -
  have "\<exists>e. esp_base64_encode (pl_token_lib lib) s True False False = Some e" for s
  proof -
    obtain e where "base64_encode (pl_token_lib lib) True False s = Some e" using assms unfolding proto_lib_laws_def by blast
    then show ?thesis by (simp add: esp_base64_encode_def)
  qed
  then obtain e1 e2 where "esp_base64_encode (pl_token_lib lib) (auth_issuer info) True False False = Some e1"
      "esp_base64_encode (pl_token_lib lib) (auth_audience info) True False False = Some e2" by blast
  then show ?thesis by (simp add: set_credential_id_def Let_def)
qed

lemma supported_labels_work:
  assumes "proto_lib_laws lib" "0 \<le> response_code info" "l \<in> set (supported_labels lib)"
  shows "label_works l info"
proof -
  obtain t where t: "error_type_at ((response_code info sdiv 100) smod 10) = Some t"
    using error_type_in_range [OF assms(2)] by blast
  have "list_all (\<lambda>l. label_works l info) (supported_labels lib)"
    unfolding supported_labels_def list.pred_inject
    using set_credential_id_works [OF assms(1)] t
    by (simp add: label_works_def string_label_def set_error_type_def set_protocol_def set_referer_def set_response_code_def
        set_response_code_class_def set_status_code_def set_location_def set_api_method_def set_api_version_def
        set_service_agent_def set_user_agent_def set_platform_def set_backend_protocol_def set_consumer_project_def)
  then show ?thesis using assms(3) by (simp add: list_all_iff)
qed

lemma set_labels_works:
  assumes "\<forall>l \<in> set ls. label_works l info"
  shows "\<exists>labels'. set_labels ls info labels = Some (Status_OK, labels')"
  using assms
proof (induction ls arbitrary: labels)
  case (Cons l ls)
  show ?case
  proof (cases "sl_set l")
    case (Some setter)
    then obtain labels1 where "setter (sl_name l) info labels = Some (Status_OK, labels1)"
      using Cons.prems by (fastforce simp: label_works_def)
    then show ?thesis using Cons.IH [of labels1] Cons.prems Some by simp
  qed (use Cons in simp)
qed simp

definition reported :: "string set \<Rightarrow> report_request_info \<Rightarrow> 'd supported_metric \<Rightarrow> bool" where
  "reported metrics info m \<longleftrightarrow> sm_name m \<in> metrics \<and> in_report info m \<and> measured info (base_name (sm_name m))"

lemma AppendByConsumerOperations_works:
  fixes lib :: "('k, 'd) proto_lib"
  assumes "proto_lib_laws lib" "0 \<le> response_code info" "oi_operation_id info \<noteq> []" "oi_operation_name info \<noteq> []"
  shows "\<exists>op. AppendByConsumerOperations (Proto lib logs metrics labels n c) info request t =
      Some (Status_OK, add_operation op request) \<and>
    map fst (op_metric_value_sets op) = map sm_name (filter (\<lambda>m. reported metrics info m \<and> sm_mark m = PRODUCER_BY_CONSUMER)
      (supported_metrics lib))"
proof -
  let ?p = "Proto lib logs metrics labels n c"
  let ?ms = "filter (\<lambda>m. sm_mark m = PRODUCER_BY_CONSUMER \<and> in_report info m) (p_metrics ?p)"
  define op0 :: "'d operation" where "op0 = SetOperationCommonFields info t new_Operation"
  define op1 where "op1 = op0\<lparr>op_operation_id := op_operation_id op0 @ ''1''\<rparr>"
  have o: "op_metric_value_sets op1 = []" by (simp add: op1_def op0_def SetOperationCommonFields_def new_Operation_def Let_def)
  obtain ls where ls: "set_labels (p_labels ?p) info (op_labels op1) = Some (Status_OK, ls)"
    using set_labels_works supported_labels_work [OF assms(1,2)] by (fastforce simp: Proto_def)
  obtain op' where op': "set_metrics ?ms info (op1\<lparr>op_labels := ls\<rparr>) = (Status_OK, op')"
      "map fst (op_metric_value_sets op') = map sm_name (filter (\<lambda>m. measured info (base_name (sm_name m))) ?ms)"
    using set_metrics_names [OF assms(1), of ?ms info "op1\<lparr>op_labels := ls\<rparr>"] o by (auto simp: Proto_def)
  have "AppendByConsumerOperations ?p info request t = Some (Status_OK, add_operation op' request)"
    using assms(3,4) ls op'(1)
    unfolding AppendByConsumerOperations_def Let_def op0_def [symmetric] op1_def [symmetric] by simp
  moreover have "filter (\<lambda>m. measured info (base_name (sm_name m))) ?ms =
      filter (\<lambda>m. reported metrics info m \<and> sm_mark m = PRODUCER_BY_CONSUMER) (supported_metrics lib)"
    by (auto simp: Proto_def reported_def intro: filter_cong)
  ultimately show ?thesis using op'(2) by auto
qed

text \<open>
  C19: a report of a request with an operation succeeds and carries exactly the metrics that are
  configured, that belong into this report and that have a value: those of the consumer only
  with an API key, those by consumer in an operation of their own, which is there when the
  consumer project is known.
\<close>

theorem FillReportRequest_metrics:
  fixes lib :: "('k, 'd) proto_lib"
  assumes "proto_lib_laws lib" and "0 \<le> response_code info" and "oi_operation_id info \<noteq> []" and "oi_operation_name info \<noteq> []"
  shows "\<exists>request op ops. FillReportRequest lib now (Proto lib logs metrics labels n c) info = Some (Status_OK, request) \<and>
    rr_operations request = op # ops \<and>
    map fst (op_metric_value_sets op) = map sm_name (filter (\<lambda>m. reported metrics info m \<and>
      (oi_api_key info \<noteq> [] \<or> sm_mark m \<noteq> CONSUMER) \<and> sm_mark m \<noteq> PRODUCER_BY_CONSUMER) (supported_metrics lib)) \<and>
    (if consumer_project_id (ri_check_response_info info) = [] then ops = []
     else \<exists>op'. ops = [op'] \<and> map fst (op_metric_value_sets op') =
       map sm_name (filter (\<lambda>m. reported metrics info m \<and> sm_mark m = PRODUCER_BY_CONSUMER) (supported_metrics lib)))"
proof -
  let ?p = "Proto lib logs metrics labels n c" and ?t = "CreateTimestamp now"
  let ?ls = "filter (\<lambda>l. \<not> sl_by_consumer_only l) (p_labels ?p)"
  let ?ms = "filter (\<lambda>m. (oi_api_key info \<noteq> [] \<or> sm_mark m \<noteq> CONSUMER) \<and> sm_mark m \<noteq> PRODUCER_BY_CONSUMER \<and> in_report info m) (p_metrics ?p)"
  define op0 :: "'d operation" where "op0 = SetOperationCommonFields info ?t new_Operation"
  have o: "op_metric_value_sets op0 = []" by (simp add: op0_def SetOperationCommonFields_def new_Operation_def Let_def)
  obtain ls where ls: "set_labels ?ls info (op_labels op0) = Some (Status_OK, ls)"
    using set_labels_works [of ?ls info "op_labels op0"] supported_labels_work [OF assms(1,2)] by (auto simp: Proto_def)
  obtain op1 where op1: "set_metrics ?ms info (op0\<lparr>op_labels := ls\<rparr>) = (Status_OK, op1)"
      "map fst (op_metric_value_sets op1) = map sm_name (filter (\<lambda>m. measured info (base_name (sm_name m))) ?ms)"
    using set_metrics_names [OF assms(1), of ?ms info "op0\<lparr>op_labels := ls\<rparr>"] o by (auto simp: Proto_def)
  define op2 where "op2 = (if is_final_report info
    then op1\<lparr>op_log_entries := map (\<lambda>name. FillLogEntry lib info name (p_service_config_id ?p) ?t) (p_logs ?p)\<rparr> else op1)"
  define request where "request = add_operation op2 \<lparr>rr_service_name = p_service_name ?p, rr_service_config_id = p_service_config_id ?p,
    rr_operations = []\<rparr>"
  have f: "FillReportRequest lib now ?p info =
      (if consumer_project_id (ri_check_response_info info) \<noteq> [] then AppendByConsumerOperations ?p info request ?t
       else Some (Status_OK, request))"
    using assms(3,4) ls op1(1)
    unfolding FillReportRequest_def Let_def op0_def [symmetric] request_def op2_def by simp
  have "filter (\<lambda>m. measured info (base_name (sm_name m))) ?ms = filter (\<lambda>m. reported metrics info m \<and>
      (oi_api_key info \<noteq> [] \<or> sm_mark m \<noteq> CONSUMER) \<and> sm_mark m \<noteq> PRODUCER_BY_CONSUMER) (supported_metrics lib)"
    by (auto simp: Proto_def reported_def intro: filter_cong)
  then have op2: "map fst (op_metric_value_sets op2) = map sm_name (filter (\<lambda>m. reported metrics info m \<and>
      (oi_api_key info \<noteq> [] \<or> sm_mark m \<noteq> CONSUMER) \<and> sm_mark m \<noteq> PRODUCER_BY_CONSUMER) (supported_metrics lib))"
    using op1(2) by (simp add: op2_def)
  show ?thesis
    using AppendByConsumerOperations_works [OF assms, of logs metrics labels n c request ?t] op2
    by (auto simp: f request_def add_operation_def)
qed


definition example_proto_lib :: "(unit, rat list) proto_lib" where
  "example_proto_lib = \<lparr>InitExponential = (\<lambda>b g s. Inr []), AddSample = (\<lambda>v d. Inr (v # d)), pl_token_lib = example_token_lib,
     pl_version = ''1.0''\<rparr>"

lemma example_proto_lib_laws: "proto_lib_laws example_proto_lib"
  by (simp add: proto_lib_laws_def example_proto_lib_def example_token_lib_def)

definition example_report :: report_request_info where
  "example_report = ReportRequestInfo\<lparr>oi_operation_id := ''id'', oi_operation_name := ''name'', response_code := 404\<rparr>"

theorem FillReportRequest_metrics_witness:
  "\<exists>request op. FillReportRequest example_proto_lib 5
      (Proto example_proto_lib {} {''serviceruntime.googleapis.com/api/producer/error_count'',
         ''serviceruntime.googleapis.com/api/consumer/error_count''} {} ''svc'' ''id'') example_report = Some (Status_OK, request) \<and>
     rr_operations request = [op] \<and> map fst (op_metric_value_sets op) = [''serviceruntime.googleapis.com/api/producer/error_count'']"
proof -
  let ?ms = "{''serviceruntime.googleapis.com/api/producer/error_count'', ''serviceruntime.googleapis.com/api/consumer/error_count''}"
  have "map sm_name (filter (\<lambda>m. reported ?ms example_report m \<and> (oi_api_key example_report \<noteq> [] \<or> sm_mark m \<noteq> CONSUMER) \<and>
      sm_mark m \<noteq> PRODUCER_BY_CONSUMER) (supported_metrics example_proto_lib)) =
      [''serviceruntime.googleapis.com/api/producer/error_count'']" by code_simp
  moreover have "consumer_project_id (ri_check_response_info example_report) = []"
    by (simp add: example_report_def ReportRequestInfo_def CheckResponseInfo_def)
  moreover have "0 \<le> response_code example_report" "oi_operation_id example_report \<noteq> []" "oi_operation_name example_report \<noteq> []"
    by (simp_all add: example_report_def)
  ultimately show ?thesis
    using FillReportRequest_metrics [OF example_proto_lib_laws, of example_report 5 "{}" ?ms "{}" "''svc''" "''id''"] by auto
qed

section \<open>Which requests a check lets through\<close>



lemma HttpCode_positive: "0 < HttpCode s"
proof -
  have "list_all (\<lambda>(_, c). 0 < c) ngx_http_codes" "list_all (\<lambda>(_, c). 0 < c) canonical_http_codes" by code_simp+
  then have "map_of ngx_http_codes k = Some c \<Longrightarrow> 0 < c" "map_of canonical_http_codes k = Some c \<Longrightarrow> 0 < c" for k c
    by (auto simp: list_all_iff dest: map_of_SomeD)
  then show ?thesis by (auto simp: HttpCode_def split: option.splits)
qed

definition label_defined :: "supported_label \<Rightarrow> report_request_info \<Rightarrow> bool" where
  "label_defined l info \<longleftrightarrow> (\<forall>setter labels. sl_set l = Some setter \<longrightarrow> setter (sl_name l) info labels \<noteq> None)"

lemma set_labels_defined:
  "\<forall>l \<in> set ls. label_defined l info \<Longrightarrow> \<exists>st labels'. set_labels ls info labels = Some (st, labels')"
proof (induction ls arbitrary: labels)
  case (Cons l ls)
  show ?case
  proof (cases "sl_set l")
    case (Some setter)
    then have "setter (sl_name l) info labels \<noteq> None" using Cons.prems by (simp add: label_defined_def)
    then obtain st labels1 where "setter (sl_name l) info labels = Some (st, labels1)" by auto
    then show ?thesis using Cons.IH [of labels1] Cons.prems Some by simp
  qed (use Cons in simp)
qed simp

lemma supported_labels_defined:
  assumes "0 \<le> response_code info" "l \<in> set (supported_labels lib)"
  shows "label_defined l info"
proof -
  obtain t where t: "error_type_at ((response_code info sdiv 100) smod 10) = Some t" using error_type_in_range [OF assms(1)] by blast
  have "list_all (\<lambda>l. label_defined l info) (supported_labels lib)"
    unfolding supported_labels_def list.pred_inject
    using t
    by (simp add: label_defined_def string_label_def set_credential_id_def set_error_type_def set_protocol_def set_referer_def
        set_response_code_def set_response_code_class_def set_status_code_def set_location_def set_api_method_def
        set_api_version_def set_service_agent_def set_user_agent_def set_platform_def set_backend_protocol_def
        set_consumer_project_def)
  then show ?thesis using assms(2) by (simp add: list_all_iff)
qed

text \<open>
  C28: filling a report never reads outside the table of the error classes when the response
  code is that of a status, whatever status, metrics, labels and other fields.
\<close>

theorem FillReportRequest_in_bounds:
  fixes lib :: "('k, 'd) proto_lib"
  assumes "response_code info = HttpCode (ri_status info)"
  shows "FillReportRequest lib now (Proto lib logs metrics labels n c) info \<noteq> None"
proof -
  let ?p = "Proto lib logs metrics labels n c"
  have "0 \<le> response_code info" using HttpCode_positive [of "ri_status info"] assms by simp
  then have def: "\<forall>l \<in> set (p_labels ?p). label_defined l info" using supported_labels_defined by (auto simp: Proto_def)
  have app: "AppendByConsumerOperations ?p info request time \<noteq> None" for request time
    using set_labels_defined [OF def, of "op_labels (SetOperationCommonFields info time new_Operation :: 'd operation)"]
    by (auto simp: AppendByConsumerOperations_def Let_def split: prod.splits)
  obtain st ls where "set_labels (filter (\<lambda>l. \<not> sl_by_consumer_only l) (p_labels ?p)) info
      (op_labels (SetOperationCommonFields info (CreateTimestamp now) new_Operation :: 'd operation)) = Some (st, ls)"
    using set_labels_defined [of "filter (\<lambda>l. \<not> sl_by_consumer_only l) (p_labels ?p)"] def by (metis filter_is_subset subset_iff)
  then show ?thesis
    using app by (auto simp: FillReportRequest_def Let_def split: prod.splits)
qed

theorem FillReportRequest_in_bounds_witness:
  "FillReportRequest example_proto_lib 5 (Proto example_proto_lib {} {} {''/response_code_class''} ''svc'' ''id'')
     (example_report\<lparr>ri_status := Status (-1) ''closed'', response_code := 500\<rparr>) \<noteq> None"
  by (rule FillReportRequest_in_bounds) (simp add: HttpCode_def ngx_http_codes_def status_defs)

end
