(* ===== verification/Logs_Metrics_Loader.thy ===== *)
theory Logs_Metrics_Loader
  imports Service_Control_Proto
begin

text \<open>
  Which logs, metrics and labels a service reports (\<^verbatim>\<open>src/api_manager/service_control/logs_metrics_loader.cc\<close>).
  The map of the labels is an association list; of the map of the metrics only the names are
  read, so it is their set.  The two predicates of the loader are arguments.
\<close>

section \<open>Descriptors\<close>

record log_descriptor =
  log_name :: string
  log_labels :: "label_descriptor list"

record monitored_resource =
  mr_type :: string
  mr_labels :: "label_descriptor list"

record logging_destination =
  lgd_monitored_resource :: string
  lgd_logs :: "string list"

record monitoring_destination =
  mnd_monitored_resource :: string
  mnd_metrics :: "string list"

record monitoring_service =
  ms_monitored_resources :: "monitored_resource list"
  ms_logs :: "log_descriptor list"
  ms_metrics :: "metric_descriptor list"
  ms_logging_producer :: "logging_destination list"
  ms_monitoring_producer :: "monitoring_destination list"
  ms_monitoring_consumer :: "monitoring_destination list"

type_synonym labels_map = "(string \<times> label_descriptor) list"

section \<open>The loader\<close>

text \<open>The first descriptor whose key is already there with another type.\<close>

fun conflicting_label :: "label_descriptor list \<Rightarrow> labels_map \<Rightarrow> string option" where
  "conflicting_label [] labels = None"
| "conflicting_label (ld # lds) labels =
     (case map_of labels (ld_key ld) of
        Some existing \<Rightarrow> if ld_value_type existing \<noteq> ld_value_type ld then Some (ld_key ld) else conflicting_label lds labels
      | None \<Rightarrow> conflicting_label lds labels)"

text \<open>\<^verbatim>\<open>std::map::insert\<close> keeps the entry that is there.\<close>

definition insert_label_descriptor :: "(label_descriptor \<Rightarrow> bool) \<Rightarrow> label_descriptor \<Rightarrow> labels_map \<Rightarrow> labels_map" where
  "insert_label_descriptor label_supported ld labels =
     (if label_supported ld \<and> map_of labels (ld_key ld) = None then (ld_key ld, ld) # labels else labels)"

definition AddLabels :: "(label_descriptor \<Rightarrow> bool) \<Rightarrow> label_descriptor list \<Rightarrow> labels_map \<Rightarrow> status \<times> labels_map" where
  "AddLabels label_supported descriptors labels =
     (case conflicting_label descriptors labels of
        Some key \<Rightarrow> (Status INVALID_ARGUMENT (''Conflicting label in the configuration: '' @ key), labels)
      | None \<Rightarrow> (Status_OK, fold (insert_label_descriptor label_supported) descriptors labels))"

definition AddLogLabels ::
    "(label_descriptor \<Rightarrow> bool) \<Rightarrow> log_descriptor list \<Rightarrow> string \<Rightarrow> labels_map \<Rightarrow> status \<times> labels_map" where
  "AddLogLabels label_supported descriptors name labels =
     (case List.find (\<lambda>ld. log_name ld = name) descriptors of
        Some ld \<Rightarrow> AddLabels label_supported (log_labels ld) labels
      | None \<Rightarrow> (Status INVALID_ARGUMENT (''Log not found: '' @ name), labels))"

definition AddMonitoredResourceLabels ::
    "(label_descriptor \<Rightarrow> bool) \<Rightarrow> monitored_resource list \<Rightarrow> string \<Rightarrow> labels_map \<Rightarrow> status \<times> labels_map" where
  "AddMonitoredResourceLabels label_supported descriptors name labels =
     (case List.find (\<lambda>mr. mr_type mr = name) descriptors of
        Some mr \<Rightarrow> AddLabels label_supported (mr_labels mr) labels
      | None \<Rightarrow> (Status INVALID_ARGUMENT (''Monitored resource not found: '' @ name), labels))"

definition add_report_log ::
    "(label_descriptor \<Rightarrow> bool) \<Rightarrow> log_descriptor list \<Rightarrow> string \<Rightarrow> string set \<times> labels_map \<Rightarrow> string set \<times> labels_map" where
  "add_report_log label_supported log_descriptors name = (\<lambda>(logs, labels).
     let (s, labels) = AddLogLabels label_supported log_descriptors name labels
     in if \<not> ok s then (logs, labels) else (insert name logs, labels))"

definition add_logging_destination ::
    "(label_descriptor \<Rightarrow> bool) \<Rightarrow> monitored_resource list \<Rightarrow> log_descriptor list \<Rightarrow> logging_destination \<Rightarrow>
     string set \<times> labels_map \<Rightarrow> string set \<times> labels_map" where
  "add_logging_destination label_supported resources log_descriptors ld = (\<lambda>(logs, labels).
     let (s, labels) = AddMonitoredResourceLabels label_supported resources (lgd_monitored_resource ld) labels
     in if \<not> ok s then (logs, labels) else fold (add_report_log label_supported log_descriptors) (lgd_logs ld) (logs, labels))"

definition AddLoggingDestinations ::
    "(label_descriptor \<Rightarrow> bool) \<Rightarrow> logging_destination list \<Rightarrow> monitored_resource list \<Rightarrow> log_descriptor list \<Rightarrow>
     string set \<times> labels_map \<Rightarrow> status \<times> string set \<times> labels_map" where
  "AddLoggingDestinations label_supported destinations resources log_descriptors s =
     (Status_OK, fold (add_logging_destination label_supported resources log_descriptors) destinations s)"

definition FindMetricDescriptor :: "metric_descriptor list \<Rightarrow> string \<Rightarrow> metric_descriptor option" where
  "FindMetricDescriptor descriptors name = List.find (\<lambda>md. md_name md = name) descriptors"

definition add_metric ::
    "(label_descriptor \<Rightarrow> bool) \<Rightarrow> (metric_descriptor \<Rightarrow> bool) \<Rightarrow> metric_descriptor list \<Rightarrow> string \<Rightarrow>
     string set \<times> labels_map \<Rightarrow> string set \<times> labels_map" where
  "add_metric label_supported metric_supported descriptors name = (\<lambda>(metrics, labels).
     case FindMetricDescriptor descriptors name of
       None \<Rightarrow> (metrics, labels)
     | Some md \<Rightarrow>
         if \<not> metric_supported md then (metrics, labels)
         else
           let (s, labels) = AddLabels label_supported (md_labels md) labels
           in if \<not> ok s then (metrics, labels) else (insert name metrics, labels))"

definition add_monitoring_destination ::
    "(label_descriptor \<Rightarrow> bool) \<Rightarrow> (metric_descriptor \<Rightarrow> bool) \<Rightarrow> monitored_resource list \<Rightarrow> metric_descriptor list \<Rightarrow>
     monitoring_destination \<Rightarrow> string set \<times> labels_map \<Rightarrow> string set \<times> labels_map" where
  "add_monitoring_destination label_supported metric_supported resources descriptors md = (\<lambda>(metrics, labels).
     let (s, labels) = AddMonitoredResourceLabels label_supported resources (mnd_monitored_resource md) labels
     in if \<not> ok s then (metrics, labels)
        else fold (add_metric label_supported metric_supported descriptors) (mnd_metrics md) (metrics, labels))"

definition AddMonitoringDestinations ::
    "(label_descriptor \<Rightarrow> bool) \<Rightarrow> (metric_descriptor \<Rightarrow> bool) \<Rightarrow> monitoring_destination list \<Rightarrow> monitored_resource list \<Rightarrow>
     metric_descriptor list \<Rightarrow> string set \<times> labels_map \<Rightarrow> status \<times> string set \<times> labels_map" where
  "AddMonitoringDestinations label_supported metric_supported destinations resources descriptors s =
     (Status_OK, fold (add_monitoring_destination label_supported metric_supported resources descriptors) destinations s)"

text \<open>The sets of the caller go in and come out.\<close>

definition LoadLogsMetrics ::
    "(label_descriptor \<Rightarrow> bool) \<Rightarrow> (metric_descriptor \<Rightarrow> bool) \<Rightarrow> monitoring_service \<Rightarrow>
     string set \<times> string set \<times> string set \<Rightarrow> status \<times> string set \<times> string set \<times> string set" where
  "LoadLogsMetrics label_supported metric_supported service = (\<lambda>(logs, metrics, labels).
     let resources = ms_monitored_resources service;
         (s, logs, labels_map) = AddLoggingDestinations label_supported (ms_logging_producer service) resources (ms_logs service) (logs, [])
     in if \<not> ok s then (s, logs, metrics, labels)
        else
          let (s, metrics_map, labels_map) = AddMonitoringDestinations label_supported metric_supported
                 (ms_monitoring_producer service) resources (ms_metrics service) ({}, labels_map)
          in if \<not> ok s then (s, logs, metrics, labels)
             else
               let (s, metrics_map, labels_map) = AddMonitoringDestinations label_supported metric_supported
                      (ms_monitoring_consumer service) resources (ms_metrics service) (metrics_map, labels_map)
               in if \<not> ok s then (s, logs, metrics, labels)
                  else (Status_OK, logs, metrics \<union> metrics_map, labels \<union> fst ` set labels_map))"

definition LogsMetricsLoader_Load ::
    "('k, 'd) proto_lib \<Rightarrow> monitoring_service \<Rightarrow> string set \<times> string set \<times> string set \<Rightarrow>
     status \<times> string set \<times> string set \<times> string set" where
  "LogsMetricsLoader_Load lib service = LoadLogsMetrics (IsLabelSupported lib) (IsMetricSupported lib) service"

section \<open>What is loaded\<close>

text \<open>Descriptors of the same key agree on the type.\<close>

definition consistent_labels :: "label_descriptor set \<Rightarrow> bool" where
  "consistent_labels D \<longleftrightarrow> (\<forall>a\<in>D. \<forall>b\<in>D. ld_key a = ld_key b \<longrightarrow> ld_value_type a = ld_value_type b)"

definition service_labels :: "monitoring_service \<Rightarrow> label_descriptor set" where
  "service_labels service =
     (\<Union>mr\<in>set (ms_monitored_resources service). set (mr_labels mr)) \<union>
     (\<Union>ld\<in>set (ms_logs service). set (log_labels ld)) \<union>
     (\<Union>md\<in>set (ms_metrics service). set (md_labels md))"

definition supported_keys :: "(label_descriptor \<Rightarrow> bool) \<Rightarrow> label_descriptor list \<Rightarrow> string set" where
  "supported_keys label_supported lds = ld_key ` {ld \<in> set lds. label_supported ld}"

definition labels_inv :: "label_descriptor set \<Rightarrow> labels_map \<Rightarrow> bool" where
  "labels_inv D labels \<longleftrightarrow> consistent_labels D \<and> (\<forall>(k, ld) \<in> set labels. ld \<in> D \<and> ld_key ld = k)"

lemma labels_inv_Nil [simp]: "labels_inv D [] \<longleftrightarrow> consistent_labels D"
  by (simp add: labels_inv_def)

lemma insert_label_descriptor_keys:
  "fst ` set (insert_label_descriptor ls ld labels) = fst ` set labels \<union> (if ls ld then {ld_key ld} else {})"
  by (auto simp: insert_label_descriptor_def map_of_eq_None_iff)

lemma insert_label_descriptor_inv:
  "labels_inv D labels \<Longrightarrow> ld \<in> D \<Longrightarrow> labels_inv D (insert_label_descriptor ls ld labels)"
  by (simp add: labels_inv_def insert_label_descriptor_def)

lemma insert_labels_inv:
  "labels_inv D labels \<Longrightarrow> set lds \<subseteq> D \<Longrightarrow> labels_inv D (fold (insert_label_descriptor ls) lds labels)"
  by (induction lds arbitrary: labels) (simp_all add: insert_label_descriptor_inv)

lemma insert_labels_keys:
  "fst ` set (fold (insert_label_descriptor ls) lds labels) = fst ` set labels \<union> supported_keys ls lds"
proof (induction lds arbitrary: labels)
  case (Cons ld lds)
  have "supported_keys ls (ld # lds) = (if ls ld then {ld_key ld} else {}) \<union> supported_keys ls lds"
    by (auto simp: supported_keys_def)
  then show ?case unfolding fold_simps Cons.IH insert_label_descriptor_keys by (simp only: Un_assoc)
qed (simp add: supported_keys_def)

lemma conflicting_label_None:
  "conflicting_label lds labels = None \<longleftrightarrow>
     (\<forall>ld\<in>set lds. \<forall>e. map_of labels (ld_key ld) = Some e \<longrightarrow> ld_value_type e = ld_value_type ld)"
  by (induction lds) (auto split: option.split)

lemma no_conflict:
  assumes "labels_inv D labels" "set lds \<subseteq> D"
  shows "conflicting_label lds labels = None"
  unfolding conflicting_label_None
proof (intro ballI allI impI)
  fix ld e
  assume ld: "ld \<in> set lds" and "map_of labels (ld_key ld) = Some e"
  then have "(ld_key ld, e) \<in> set labels" by (blast dest: map_of_SomeD)
  then have "e \<in> D" "ld_key e = ld_key ld" using assms(1) by (auto simp: labels_inv_def)
  moreover have "ld \<in> D" using ld assms(2) by blast
  ultimately show "ld_value_type e = ld_value_type ld"
    using assms(1) unfolding labels_inv_def consistent_labels_def by blast
qed

lemma AddLabels_consistent:
  assumes "labels_inv D labels" "set lds \<subseteq> D"
  shows "AddLabels ls lds labels = (Status_OK, fold (insert_label_descriptor ls) lds labels)"
  using no_conflict [OF assms] by (simp add: AddLabels_def)

text \<open>
  One step of the loader: it adds the names \<open>names x\<close> and the labels \<open>adds x\<close> and keeps the map
  consistent, for the items that are fine.  A loop of such steps adds the unions.
\<close>

locale loader_step =
  fixes step :: "label_descriptor set \<Rightarrow> 'c \<Rightarrow> 'a \<Rightarrow> string set \<times> labels_map \<Rightarrow> string set \<times> labels_map"
    and fine :: "label_descriptor set \<Rightarrow> 'c \<Rightarrow> bool"
    and names :: "'c \<Rightarrow> 'a \<Rightarrow> string set"
    and adds :: "'c \<Rightarrow> 'a \<Rightarrow> string set"
  assumes step_names: "labels_inv D m \<Longrightarrow> fine D c \<Longrightarrow> fst (step D c x (s, m)) = s \<union> names c x"
    and step_keys: "labels_inv D m \<Longrightarrow> fine D c \<Longrightarrow> fst ` set (snd (step D c x (s, m))) = fst ` set m \<union> adds c x"
    and step_inv: "labels_inv D m \<Longrightarrow> fine D c \<Longrightarrow> labels_inv D (snd (step D c x (s, m)))"
begin

lemma loop_adds:
  "labels_inv D m \<Longrightarrow> fine D c \<Longrightarrow>
     fst (fold (step D c) xs (s, m)) = s \<union> (\<Union>x\<in>set xs. names c x) \<and>
     fst ` set (snd (fold (step D c) xs (s, m))) = fst ` set m \<union> (\<Union>x\<in>set xs. adds c x) \<and>
     labels_inv D (snd (fold (step D c) xs (s, m)))"
proof (induction xs arbitrary: s m)
  case (Cons x xs)
  obtain s' m' where st: "step D c x (s, m) = (s', m')" by fastforce
  have new: "s' = s \<union> names c x" "fst ` set m' = fst ` set m \<union> adds c x" "labels_inv D m'"
    using step_names [OF Cons.prems, of x s] step_keys [OF Cons.prems, of x s] step_inv [OF Cons.prems, of x s]
    by (simp_all add: st)
  show ?case
    unfolding fold_simps st using Cons.IH [OF new(3) Cons.prems(2), of s'] unfolding new(1,2) by (simp only: list.set UN_insert Un_assoc)
qed simp

lemmas loop_names = loop_adds [THEN conjunct1]
lemmas loop_keys = loop_adds [THEN conjunct2, THEN conjunct1]
lemmas loop_inv = loop_adds [THEN conjunct2, THEN conjunct2]

end

text \<open>The logs and the metrics of a destination, with the labels they bring.\<close>

definition log_fine :: "label_descriptor set \<Rightarrow> (label_descriptor \<Rightarrow> bool) \<times> log_descriptor list \<Rightarrow> bool" where
  "log_fine D = (\<lambda>(ls, lds). \<forall>ld\<in>set lds. set (log_labels ld) \<subseteq> D)"

definition log_names :: "(label_descriptor \<Rightarrow> bool) \<times> log_descriptor list \<Rightarrow> string \<Rightarrow> string set" where
  "log_names = (\<lambda>(ls, lds) name. if List.find (\<lambda>ld. log_name ld = name) lds = None then {} else {name})"

definition log_adds :: "(label_descriptor \<Rightarrow> bool) \<times> log_descriptor list \<Rightarrow> string \<Rightarrow> string set" where
  "log_adds = (\<lambda>(ls, lds) name.
     case List.find (\<lambda>ld. log_name ld = name) lds of None \<Rightarrow> {} | Some ld \<Rightarrow> supported_keys ls (log_labels ld))"

lemma find_Some_in: "List.find P xs = Some x \<Longrightarrow> x \<in> set xs \<and> P x"
  by (induction xs) (auto split: if_splits)

lemma add_report_log_cases:
  assumes "labels_inv D m" "\<forall>ld\<in>set lds. set (log_labels ld) \<subseteq> D"
  shows "add_report_log ls lds name (s, m) =
    (case List.find (\<lambda>ld. log_name ld = name) lds of None \<Rightarrow> (s, m)
     | Some ld \<Rightarrow> (insert name s, fold (insert_label_descriptor ls) (log_labels ld) m))"
proof (cases "List.find (\<lambda>ld. log_name ld = name) lds")
  case (Some ld)
  then have "AddLabels ls (log_labels ld) m = (Status_OK, fold (insert_label_descriptor ls) (log_labels ld) m)"
    using assms find_Some_in [OF Some] AddLabels_consistent [OF assms(1)] by blast
  then show ?thesis by (simp add: add_report_log_def AddLogLabels_def Some)
qed (simp add: add_report_log_def AddLogLabels_def)

lemma add_report_log_adds:
  assumes "labels_inv D m" "log_fine D (ls, lds)"
  shows "fst (add_report_log ls lds name (s, m)) = s \<union> log_names (ls, lds) name"
    and "fst ` set (snd (add_report_log ls lds name (s, m))) = fst ` set m \<union> log_adds (ls, lds) name"
    and "labels_inv D (snd (add_report_log ls lds name (s, m)))"
proof -
  have fine: "\<forall>ld\<in>set lds. set (log_labels ld) \<subseteq> D" using assms(2) by (simp add: log_fine_def)
  note eq = add_report_log_cases [OF assms(1) fine, of ls name s]
  show "fst (add_report_log ls lds name (s, m)) = s \<union> log_names (ls, lds) name"
    by (simp add: eq log_names_def split: option.split)
  show "fst ` set (snd (add_report_log ls lds name (s, m))) = fst ` set m \<union> log_adds (ls, lds) name"
    by (simp add: eq log_adds_def insert_labels_keys split: option.split)
  show "labels_inv D (snd (add_report_log ls lds name (s, m)))"
    using assms(1) fine by (auto simp: eq intro!: insert_labels_inv split: option.split dest!: find_Some_in)
qed

interpretation log_loop: loader_step "\<lambda>D (ls, lds). add_report_log ls lds" log_fine log_names log_adds
  by (unfold_locales; simp only: split_paired_all case_prod_conv; erule (1) add_report_log_adds)

definition metric_fine :: "label_descriptor set \<Rightarrow> (label_descriptor \<Rightarrow> bool) \<times> (metric_descriptor \<Rightarrow> bool) \<times> metric_descriptor list \<Rightarrow> bool" where
  "metric_fine D = (\<lambda>(ls, msup, mds). \<forall>md\<in>set mds. set (md_labels md) \<subseteq> D)"

definition metric_names :: "(label_descriptor \<Rightarrow> bool) \<times> (metric_descriptor \<Rightarrow> bool) \<times> metric_descriptor list \<Rightarrow> string \<Rightarrow> string set" where
  "metric_names = (\<lambda>(ls, msup, mds) name.
     case FindMetricDescriptor mds name of None \<Rightarrow> {} | Some md \<Rightarrow> if msup md then {name} else {})"

definition metric_adds :: "(label_descriptor \<Rightarrow> bool) \<times> (metric_descriptor \<Rightarrow> bool) \<times> metric_descriptor list \<Rightarrow> string \<Rightarrow> string set" where
  "metric_adds = (\<lambda>(ls, msup, mds) name.
     case FindMetricDescriptor mds name of None \<Rightarrow> {} | Some md \<Rightarrow> if msup md then supported_keys ls (md_labels md) else {})"

lemma add_metric_cases:
  assumes "labels_inv D m" "\<forall>md\<in>set mds. set (md_labels md) \<subseteq> D"
  shows "add_metric ls msup mds name (s, m) =
    (case FindMetricDescriptor mds name of None \<Rightarrow> (s, m)
     | Some md \<Rightarrow> if msup md then (insert name s, fold (insert_label_descriptor ls) (md_labels md) m) else (s, m))"
proof (cases "FindMetricDescriptor mds name")
  case (Some md)
  then have "AddLabels ls (md_labels md) m = (Status_OK, fold (insert_label_descriptor ls) (md_labels md) m)"
    using assms find_Some_in [of _ mds md] AddLabels_consistent [OF assms(1)] unfolding FindMetricDescriptor_def by blast
  then show ?thesis by (simp add: add_metric_def Some)
qed (simp add: add_metric_def)

lemma add_metric_adds:
  assumes "labels_inv D m" "metric_fine D (ls, msup, mds)"
  shows "fst (add_metric ls msup mds name (s, m)) = s \<union> metric_names (ls, msup, mds) name"
    and "fst ` set (snd (add_metric ls msup mds name (s, m))) = fst ` set m \<union> metric_adds (ls, msup, mds) name"
    and "labels_inv D (snd (add_metric ls msup mds name (s, m)))"
proof -
  have fine: "\<forall>md\<in>set mds. set (md_labels md) \<subseteq> D" using assms(2) by (simp add: metric_fine_def)
  note eq = add_metric_cases [OF assms(1) fine, of ls msup name s]
  show "fst (add_metric ls msup mds name (s, m)) = s \<union> metric_names (ls, msup, mds) name"
    by (simp add: eq metric_names_def split: option.split)
  show "fst ` set (snd (add_metric ls msup mds name (s, m))) = fst ` set m \<union> metric_adds (ls, msup, mds) name"
    by (simp add: eq metric_adds_def insert_labels_keys split: option.split)
  show "labels_inv D (snd (add_metric ls msup mds name (s, m)))"
    using assms(1) fine
    by (auto simp: eq FindMetricDescriptor_def intro!: insert_labels_inv split: option.split dest!: find_Some_in)
qed

interpretation metric_loop: loader_step "\<lambda>D (ls, msup, mds). add_metric ls msup mds" metric_fine metric_names metric_adds
  by (unfold_locales; simp only: split_paired_all case_prod_conv; erule (1) add_metric_adds)

text \<open>The monitored resource of a destination.\<close>

definition resource_keys :: "(label_descriptor \<Rightarrow> bool) \<Rightarrow> monitored_resource list \<Rightarrow> string \<Rightarrow> string set" where
  "resource_keys ls resources name =
     (case List.find (\<lambda>mr. mr_type mr = name) resources of None \<Rightarrow> {} | Some mr \<Rightarrow> supported_keys ls (mr_labels mr))"

lemma AddMonitoredResourceLabels_adds:
  assumes "labels_inv D m" "\<forall>mr\<in>set resources. set (mr_labels mr) \<subseteq> D"
  shows "ok (fst (AddMonitoredResourceLabels ls resources name m)) \<longleftrightarrow> name \<in> mr_type ` set resources" (is ?found)
    and "fst ` set (snd (AddMonitoredResourceLabels ls resources name m)) = fst ` set m \<union> resource_keys ls resources name" (is ?keys)
    and "labels_inv D (snd (AddMonitoredResourceLabels ls resources name m))" (is ?inv)
proof -
  have "?found \<and> ?keys \<and> ?inv"
  proof (cases "List.find (\<lambda>mr. mr_type mr = name) resources")
    case None
    then have "name \<notin> mr_type ` set resources" by (auto simp: find_None_iff)
    then show ?thesis using assms(1) by (simp add: AddMonitoredResourceLabels_def resource_keys_def None)
  next
    case (Some mr)
    then have mr: "mr \<in> set resources" "mr_type mr = name" using find_Some_in [OF Some] by simp_all
    then have sub: "set (mr_labels mr) \<subseteq> D" using assms(2) by blast
    have "name \<in> mr_type ` set resources" using mr by blast
    then show ?thesis
      using insert_labels_inv [OF assms(1) sub] AddLabels_consistent [OF assms(1) sub]
      by (simp add: AddMonitoredResourceLabels_def resource_keys_def Some insert_labels_keys)
  qed
  then show ?found ?keys ?inv by simp_all
qed

text \<open>A destination: nothing when its monitored resource is unknown.\<close>

definition logging_fine ::
    "label_descriptor set \<Rightarrow> (label_descriptor \<Rightarrow> bool) \<times> monitored_resource list \<times> log_descriptor list \<Rightarrow> bool" where
  "logging_fine D = (\<lambda>(ls, rs, lds). (\<forall>mr\<in>set rs. set (mr_labels mr) \<subseteq> D) \<and> log_fine D (ls, lds))"

definition logging_names ::
    "(label_descriptor \<Rightarrow> bool) \<times> monitored_resource list \<times> log_descriptor list \<Rightarrow> logging_destination \<Rightarrow> string set" where
  "logging_names = (\<lambda>(ls, rs, lds) d.
     if lgd_monitored_resource d \<in> mr_type ` set rs then (\<Union>l\<in>set (lgd_logs d). log_names (ls, lds) l) else {})"

definition logging_adds ::
    "(label_descriptor \<Rightarrow> bool) \<times> monitored_resource list \<times> log_descriptor list \<Rightarrow> logging_destination \<Rightarrow> string set" where
  "logging_adds = (\<lambda>(ls, rs, lds) d. resource_keys ls rs (lgd_monitored_resource d) \<union>
     (if lgd_monitored_resource d \<in> mr_type ` set rs then (\<Union>l\<in>set (lgd_logs d). log_adds (ls, lds) l) else {}))"

lemma add_logging_destination_adds:
  assumes "labels_inv D m" "logging_fine D (ls, rs, lds)"
  shows "fst (add_logging_destination ls rs lds d (s, m)) = s \<union> logging_names (ls, rs, lds) d" (is ?names)
    and "fst ` set (snd (add_logging_destination ls rs lds d (s, m))) = fst ` set m \<union> logging_adds (ls, rs, lds) d" (is ?keys)
    and "labels_inv D (snd (add_logging_destination ls rs lds d (s, m)))" (is ?inv)
proof -
  obtain st m' where r: "AddMonitoredResourceLabels ls rs (lgd_monitored_resource d) m = (st, m')" by fastforce
  have fine: "\<forall>mr\<in>set rs. set (mr_labels mr) \<subseteq> D" "log_fine D (ls, lds)" using assms(2) by (simp_all add: logging_fine_def)
  note a = AddMonitoredResourceLabels_adds [OF assms(1) fine(1), of ls "lgd_monitored_resource d", unfolded r fst_conv snd_conv]
  note l = log_loop.loop_names [OF a(3) fine(2), unfolded case_prod_conv]
    log_loop.loop_keys [OF a(3) fine(2), unfolded case_prod_conv] log_loop.loop_inv [OF a(3) fine(2), unfolded case_prod_conv]
  have eq: "add_logging_destination ls rs lds d (s, m) =
      (if lgd_monitored_resource d \<in> mr_type ` set rs then fold (add_report_log ls lds) (lgd_logs d) (s, m') else (s, m'))"
    by (simp add: add_logging_destination_def r a(1))
  show ?names by (simp add: eq l(1) logging_names_def)
  show ?keys by (simp add: eq l(2) a(2) logging_adds_def Un_assoc)
  show ?inv by (simp add: eq l(3) a(3))
qed

interpretation logging_loop: loader_step "\<lambda>D (ls, rs, lds). add_logging_destination ls rs lds" logging_fine logging_names logging_adds
  by (unfold_locales; simp only: split_paired_all case_prod_conv; erule (1) add_logging_destination_adds)

definition monitoring_fine ::
    "label_descriptor set \<Rightarrow> (label_descriptor \<Rightarrow> bool) \<times> (metric_descriptor \<Rightarrow> bool) \<times> monitored_resource list \<times> metric_descriptor list \<Rightarrow> bool" where
  "monitoring_fine D = (\<lambda>(ls, msup, rs, mds). (\<forall>mr\<in>set rs. set (mr_labels mr) \<subseteq> D) \<and> metric_fine D (ls, msup, mds))"

definition monitoring_names ::
    "(label_descriptor \<Rightarrow> bool) \<times> (metric_descriptor \<Rightarrow> bool) \<times> monitored_resource list \<times> metric_descriptor list \<Rightarrow>
     monitoring_destination \<Rightarrow> string set" where
  "monitoring_names = (\<lambda>(ls, msup, rs, mds) d.
     if mnd_monitored_resource d \<in> mr_type ` set rs then (\<Union>l\<in>set (mnd_metrics d). metric_names (ls, msup, mds) l) else {})"

definition monitoring_adds ::
    "(label_descriptor \<Rightarrow> bool) \<times> (metric_descriptor \<Rightarrow> bool) \<times> monitored_resource list \<times> metric_descriptor list \<Rightarrow>
     monitoring_destination \<Rightarrow> string set" where
  "monitoring_adds = (\<lambda>(ls, msup, rs, mds) d. resource_keys ls rs (mnd_monitored_resource d) \<union>
     (if mnd_monitored_resource d \<in> mr_type ` set rs then (\<Union>l\<in>set (mnd_metrics d). metric_adds (ls, msup, mds) l) else {}))"

lemma add_monitoring_destination_adds:
  assumes "labels_inv D m" "monitoring_fine D (ls, msup, rs, mds)"
  shows "fst (add_monitoring_destination ls msup rs mds d (s, m)) = s \<union> monitoring_names (ls, msup, rs, mds) d" (is ?names)
    and "fst ` set (snd (add_monitoring_destination ls msup rs mds d (s, m))) = fst ` set m \<union> monitoring_adds (ls, msup, rs, mds) d" (is ?keys)
    and "labels_inv D (snd (add_monitoring_destination ls msup rs mds d (s, m)))" (is ?inv)
proof -
  obtain st m' where r: "AddMonitoredResourceLabels ls rs (mnd_monitored_resource d) m = (st, m')" by fastforce
  have fine: "\<forall>mr\<in>set rs. set (mr_labels mr) \<subseteq> D" "metric_fine D (ls, msup, mds)"
    using assms(2) by (simp_all add: monitoring_fine_def)
  note a = AddMonitoredResourceLabels_adds [OF assms(1) fine(1), of ls "mnd_monitored_resource d", unfolded r fst_conv snd_conv]
  note l = metric_loop.loop_names [OF a(3) fine(2), unfolded case_prod_conv]
    metric_loop.loop_keys [OF a(3) fine(2), unfolded case_prod_conv] metric_loop.loop_inv [OF a(3) fine(2), unfolded case_prod_conv]
  have eq: "add_monitoring_destination ls msup rs mds d (s, m) =
      (if mnd_monitored_resource d \<in> mr_type ` set rs then fold (add_metric ls msup mds) (mnd_metrics d) (s, m') else (s, m'))"
    by (simp add: add_monitoring_destination_def r a(1))
  show ?names by (simp add: eq l(1) monitoring_names_def)
  show ?keys by (simp add: eq l(2) a(2) monitoring_adds_def Un_assoc)
  show ?inv by (simp add: eq l(3) a(3))
qed

interpretation monitoring_loop: loader_step "\<lambda>D (ls, msup, rs, mds). add_monitoring_destination ls msup rs mds"
    monitoring_fine monitoring_names monitoring_adds
  by (unfold_locales; simp only: split_paired_all case_prod_conv; erule (1) add_monitoring_destination_adds)

text \<open>What a service asks to be loaded, without the loops.\<close>

definition destination_metrics :: "monitoring_service \<Rightarrow> monitoring_destination set" where
  "destination_metrics service = set (ms_monitoring_producer service) \<union> set (ms_monitoring_consumer service)"

definition loaded_logs :: "monitoring_service \<Rightarrow> string set" where
  "loaded_logs service = {name. \<exists>d \<in> set (ms_logging_producer service).
     lgd_monitored_resource d \<in> mr_type ` set (ms_monitored_resources service) \<and>
     name \<in> set (lgd_logs d) \<and> name \<in> log_name ` set (ms_logs service)}"

definition loaded_metrics :: "(metric_descriptor \<Rightarrow> bool) \<Rightarrow> monitoring_service \<Rightarrow> string set" where
  "loaded_metrics msup service = {name. \<exists>d \<in> destination_metrics service.
     mnd_monitored_resource d \<in> mr_type ` set (ms_monitored_resources service) \<and>
     name \<in> set (mnd_metrics d) \<and> (\<exists>md. FindMetricDescriptor (ms_metrics service) name = Some md \<and> msup md)}"

definition used_resources :: "monitoring_service \<Rightarrow> string set" where
  "used_resources service =
     lgd_monitored_resource ` set (ms_logging_producer service) \<union> mnd_monitored_resource ` destination_metrics service"

definition used_labels :: "(metric_descriptor \<Rightarrow> bool) \<Rightarrow> monitoring_service \<Rightarrow> label_descriptor set" where
  "used_labels msup service =
     {ld. (\<exists>name \<in> used_resources service. \<exists>mr.
             List.find (\<lambda>mr. mr_type mr = name) (ms_monitored_resources service) = Some mr \<and> ld \<in> set (mr_labels mr)) \<or>
          (\<exists>name \<in> loaded_logs service. \<exists>lg.
             List.find (\<lambda>lg. log_name lg = name) (ms_logs service) = Some lg \<and> ld \<in> set (log_labels lg)) \<or>
          (\<exists>name \<in> loaded_metrics msup service. \<exists>md.
             FindMetricDescriptor (ms_metrics service) name = Some md \<and> ld \<in> set (md_labels md))}"

definition loaded_labels :: "(label_descriptor \<Rightarrow> bool) \<Rightarrow> (metric_descriptor \<Rightarrow> bool) \<Rightarrow> monitoring_service \<Rightarrow> string set" where
  "loaded_labels ls msup service = ld_key ` {ld \<in> used_labels msup service. ls ld}"

lemma logging_names_eq:
  "(\<Union>d\<in>set (ms_logging_producer service). logging_names (ls, ms_monitored_resources service, ms_logs service) d) = loaded_logs service"
proof -
  have "log_names (ls, ms_logs service) name = (if name \<in> log_name ` set (ms_logs service) then {name} else {})" for name
    by (auto simp: log_names_def find_None_iff)
  then show ?thesis by (auto simp: logging_names_def loaded_logs_def split: if_splits)
qed

lemma metric_name_iff:
  "l \<in> metric_names (ls, msup, mds) name \<longleftrightarrow> l = name \<and> (\<exists>md. FindMetricDescriptor mds name = Some md \<and> msup md)"
  by (simp add: metric_names_def split: option.split)

lemma monitoring_names_eq:
  "(\<Union>d\<in>destination_metrics service.
      monitoring_names (ls, msup, ms_monitored_resources service, ms_metrics service) d) = loaded_metrics msup service"
  by (auto simp: monitoring_names_def loaded_metrics_def metric_name_iff split: if_splits)

lemma log_adds_iff:
  "k \<in> log_adds (ls, lds) name \<longleftrightarrow>
     (\<exists>lg ld. List.find (\<lambda>lg. log_name lg = name) lds = Some lg \<and> ld \<in> set (log_labels lg) \<and> ls ld \<and> k = ld_key ld)"
  by (auto simp: log_adds_def supported_keys_def split: option.split)

lemma metric_adds_iff:
  "k \<in> metric_adds (ls, msup, mds) name \<longleftrightarrow>
     (\<exists>md ld. FindMetricDescriptor mds name = Some md \<and> msup md \<and> ld \<in> set (md_labels md) \<and> ls ld \<and> k = ld_key ld)"
  by (auto simp: metric_adds_def supported_keys_def split: option.split)

lemma resource_keys_iff:
  "k \<in> resource_keys ls rs name \<longleftrightarrow>
     (\<exists>mr ld. List.find (\<lambda>mr. mr_type mr = name) rs = Some mr \<and> ld \<in> set (mr_labels mr) \<and> ls ld \<and> k = ld_key ld)"
  by (auto simp: resource_keys_def supported_keys_def split: option.split)

lemma find_log_name: "List.find (\<lambda>lg. log_name lg = name) lds = Some lg \<Longrightarrow> name \<in> log_name ` set lds"
  using find_Some_in [of _ lds lg] by blast

lemma logging_adds_iff:
  "(\<exists>d\<in>set (ms_logging_producer service). k \<in> logging_adds (ls, ms_monitored_resources service, ms_logs service) d) \<longleftrightarrow>
     (\<exists>name \<in> lgd_monitored_resource ` set (ms_logging_producer service). k \<in> resource_keys ls (ms_monitored_resources service) name) \<or>
     (\<exists>name \<in> loaded_logs service. k \<in> log_adds (ls, ms_logs service) name)"
proof -
  have "k \<in> log_adds (ls, ms_logs service) name \<Longrightarrow> name \<in> log_name ` set (ms_logs service)" for name
    using find_log_name unfolding log_adds_iff by blast
  then show ?thesis unfolding logging_adds_def loaded_logs_def by (simp split: if_splits) blast
qed

lemma monitoring_adds_iff:
  "(\<exists>d\<in>destination_metrics service. k \<in> monitoring_adds (ls, msup, ms_monitored_resources service, ms_metrics service) d) \<longleftrightarrow>
     (\<exists>name \<in> mnd_monitored_resource ` destination_metrics service. k \<in> resource_keys ls (ms_monitored_resources service) name) \<or>
     (\<exists>name \<in> loaded_metrics msup service. k \<in> metric_adds (ls, msup, ms_metrics service) name)"
proof -
  have "k \<in> metric_adds (ls, msup, ms_metrics service) name \<Longrightarrow>
      \<exists>md. FindMetricDescriptor (ms_metrics service) name = Some md \<and> msup md" for name
    unfolding metric_adds_iff by blast
  then show ?thesis unfolding monitoring_adds_def loaded_metrics_def by (simp split: if_splits) blast
qed

lemma loaded_metrics_supported:
  "name \<in> loaded_metrics msup service \<Longrightarrow> FindMetricDescriptor (ms_metrics service) name = Some md \<Longrightarrow> msup md"
  by (auto simp: loaded_metrics_def)

lemma loaded_labels_eq:
  "(\<Union>d\<in>set (ms_logging_producer service). logging_adds (ls, ms_monitored_resources service, ms_logs service) d) \<union>
   (\<Union>d\<in>destination_metrics service. monitoring_adds (ls, msup, ms_monitored_resources service, ms_metrics service) d) =
   loaded_labels ls msup service" (is "?L \<union> ?M = _")
proof (rule set_eqI)
  fix k
  have "k \<in> ?L \<union> ?M \<longleftrightarrow>
      (\<exists>name \<in> used_resources service. k \<in> resource_keys ls (ms_monitored_resources service) name) \<or>
      (\<exists>name \<in> loaded_logs service. k \<in> log_adds (ls, ms_logs service) name) \<or>
      (\<exists>name \<in> loaded_metrics msup service. k \<in> metric_adds (ls, msup, ms_metrics service) name)"
    unfolding Un_iff UN_iff logging_adds_iff monitoring_adds_iff used_resources_def bex_Un by blast
  also have "\<dots> \<longleftrightarrow> (\<exists>ld. ld \<in> used_labels msup service \<and> ls ld \<and> k = ld_key ld)"
    unfolding used_labels_def resource_keys_iff log_adds_iff metric_adds_iff mem_Collect_eq
    using loaded_metrics_supported by blast
  finally show "k \<in> ?L \<union> ?M \<longleftrightarrow> k \<in> loaded_labels ls msup service" unfolding loaded_labels_def by blast
qed

text \<open>
  C21: when descriptors of the same key agree on the type, the loader finds exactly the logs and
  metrics of the destinations whose monitored resource is known, the metrics only when they are
  supported, and the supported labels of those resources, logs and metrics.
\<close>

theorem LoadLogsMetrics_exact:
  assumes "consistent_labels (service_labels service)"
  shows "LoadLogsMetrics ls msup service (L, M, B) =
    (Status_OK, L \<union> loaded_logs service, M \<union> loaded_metrics msup service, B \<union> loaded_labels ls msup service)"
proof -
  let ?D = "service_labels service" and ?rs = "ms_monitored_resources service"
  have fine: "logging_fine ?D (ls, ?rs, ms_logs service)" "monitoring_fine ?D (ls, msup, ?rs, ms_metrics service)"
    by (auto simp: logging_fine_def monitoring_fine_def log_fine_def metric_fine_def service_labels_def)
  have inv: "labels_inv ?D []" using assms by simp
  obtain s1 m1 where e1: "fold (add_logging_destination ls ?rs (ms_logs service)) (ms_logging_producer service) (L, []) = (s1, m1)" by fastforce
  obtain s2 m2 where e2: "fold (add_monitoring_destination ls msup ?rs (ms_metrics service)) (ms_monitoring_producer service) ({}, m1) = (s2, m2)" by fastforce
  obtain s3 m3 where e3: "fold (add_monitoring_destination ls msup ?rs (ms_metrics service)) (ms_monitoring_consumer service) (s2, m2) = (s3, m3)" by fastforce
  note a1 = logging_loop.loop_adds [OF inv fine(1), unfolded case_prod_conv, of "ms_logging_producer service" L, unfolded e1 fst_conv snd_conv]
  note i1 = a1 [THEN conjunct2, THEN conjunct2]
  note a2 = monitoring_loop.loop_adds [OF i1 fine(2), unfolded case_prod_conv, of "ms_monitoring_producer service" "{}", unfolded e2 fst_conv snd_conv]
  note i2 = a2 [THEN conjunct2, THEN conjunct2]
  note a3 = monitoring_loop.loop_adds [OF i2 fine(2), unfolded case_prod_conv, of "ms_monitoring_consumer service" s2, unfolded e3 fst_conv snd_conv]
  have "s1 = L \<union> loaded_logs service" using a1 logging_names_eq [of ls service] by simp
  moreover have "s3 = loaded_metrics msup service"
    using a2 a3 unfolding monitoring_names_eq [of ls msup service, symmetric] destination_metrics_def by auto
  moreover have "fst ` set m3 = loaded_labels ls msup service"
    using a1 a2 a3 unfolding loaded_labels_eq [symmetric] destination_metrics_def UN_Un by (simp only: Un_assoc) simp
  ultimately show ?thesis
    unfolding LoadLogsMetrics_def AddLoggingDestinations_def AddMonitoringDestinations_def by (simp add: e1 e2 e3)
qed

definition example_monitoring :: monitoring_service where
  "example_monitoring =
     \<lparr>ms_monitored_resources = [\<lparr>mr_type = ''api'', mr_labels = [\<lparr>ld_key = ''cloud/location'', ld_value_type = VT_STRING\<rparr>]\<rparr>],
      ms_logs = [\<lparr>log_name = ''endpoints_log'', log_labels = []\<rparr>],
      ms_metrics = [\<lparr>md_name = ''requests'', md_metric_kind = DELTA, md_value_type = VT_INT64,
                      md_labels = [\<lparr>ld_key = ''cloud/location'', ld_value_type = VT_STRING\<rparr>, \<lparr>ld_key = ''other'', ld_value_type = VT_INT64\<rparr>]\<rparr>],
      ms_logging_producer = [\<lparr>lgd_monitored_resource = ''api'', lgd_logs = [''endpoints_log'', ''unknown_log'']\<rparr>],
      ms_monitoring_producer = [\<lparr>mnd_monitored_resource = ''api'', mnd_metrics = [''requests'']\<rparr>],
      ms_monitoring_consumer = [\<lparr>mnd_monitored_resource = ''unknown'', mnd_metrics = [''requests'']\<rparr>]\<rparr>"

theorem LoadLogsMetrics_exact_witness:
  "consistent_labels (service_labels example_monitoring) \<and>
   LoadLogsMetrics (\<lambda>ld. ld_key ld = ''cloud/location'') (\<lambda>md. True) example_monitoring ({}, {}, {}) =
     (Status_OK, {} \<union> loaded_logs example_monitoring, {} \<union> loaded_metrics (\<lambda>md. True) example_monitoring,
      {} \<union> loaded_labels (\<lambda>ld. ld_key ld = ''cloud/location'') (\<lambda>md. True) example_monitoring)"
proof -
  have "consistent_labels (service_labels example_monitoring)"
    by (simp add: consistent_labels_def service_labels_def example_monitoring_def)
  from LoadLogsMetrics_exact [OF this] this show ?thesis by blast
qed

end
