(* ===== verification/Service_Control.thy ===== *)
theory Service_Control
  imports Logs_Metrics_Loader Service_Account_Token
begin

text \<open>
  The client of the service control server (\<^verbatim>\<open>src/api_manager/service_control/url.cc\<close> and
  \<^verbatim>\<open>aggregated.cc\<close>).  The aggregating client library is not part of the repository: a call on it
  is an effect, and its answer an argument of the callback that the source hands to it.
  Parsing and printing of messages are the record \<open>sc_lib\<close>.  The calls on the callbacks
  of the caller are effects too.
\<close>

section \<open>Configuration\<close>

record check_aggregator_config =
  cac_cache_entries :: int
  cac_flush_interval_ms :: int
  cac_response_expiration_ms :: int

record quota_aggregator_config =
  qac_cache_entries :: int
  qac_refresh_interval_ms :: int

record report_aggregator_config =
  rac_cache_entries :: int
  rac_flush_interval_ms :: int

record service_control_config =
  scc_force_disable :: bool
  scc_url_override :: string
  scc_check_aggregator :: "check_aggregator_config option"
  scc_report_aggregator :: "report_aggregator_config option"
  scc_quota_aggregator :: "quota_aggregator_config option"
  scc_check_timeout_ms :: int
  scc_report_timeout_ms :: int
  scc_quota_timeout_ms :: int
  scc_check_retries :: int
  scc_report_retries :: int
  scc_quota_retries :: int
  scc_network_fail_open :: bool
  scc_intermediate_report_min_interval :: int
  scc_log_request_header :: "string list"
  scc_log_response_header :: "string list"
  scc_log_jwt_payload :: "string list"

text \<open>The server configuration may be missing, and its service control part too.\<close>

type_synonym sc_server_config = "service_control_config option option"

record control_service = monitoring_service +
  cs_name :: string
  cs_id :: string
  cs_environment :: string

definition kQuotaAggregationEntries :: int where "kQuotaAggregationEntries = 10000"
definition kQuotaAggregationRefreshMs :: int where "kQuotaAggregationRefreshMs = 1000"
definition kCheckAggregationEntries :: int where "kCheckAggregationEntries = 10000"
definition kCheckAggregationFlushIntervalMs :: int where "kCheckAggregationFlushIntervalMs = 60000"
definition kCheckAggregationExpirationMs :: int where "kCheckAggregationExpirationMs = 300000"
definition kReportAggregationEntries :: int where "kReportAggregationEntries = 10000"
definition kReportAggregationFlushIntervalMs :: int where "kReportAggregationFlushIntervalMs = 1000"
definition kCheckDefaultTimeoutInMs :: int where "kCheckDefaultTimeoutInMs = 1500"
definition kAllocateQuotaDefaultTimeoutInMs :: int where "kAllocateQuotaDefaultTimeoutInMs = 1500"
definition kReportDefaultTimeoutInMs :: int where "kReportDefaultTimeoutInMs = 3500"
definition kCheckDefaultNumberOfRetries :: int where "kCheckDefaultNumberOfRetries = 3"
definition kReportDefaultNumberOfRetries :: int where "kReportDefaultNumberOfRetries = 5"
definition kAllocateQuotaDefaultNumberOfRetries :: int where "kAllocateQuotaDefaultNumberOfRetries = 1"
definition kProtoPoolMaxSize :: nat where "kProtoPoolMaxSize = 100"
definition application_proto :: string where "application_proto = ''application/x-protobuf''"
definition servicecontrol_service :: string where
  "servicecontrol_service = ''/google.api.servicecontrol.v1.ServiceController''"
definition quotacontrol_service :: string where
  "quotacontrol_service = ''/google.api.servicecontrol.v1.QuotaController''"

lemmas sc_constants = kCheckDefaultTimeoutInMs_def kAllocateQuotaDefaultTimeoutInMs_def kReportDefaultTimeoutInMs_def
  kCheckDefaultNumberOfRetries_def kReportDefaultNumberOfRetries_def kAllocateQuotaDefaultNumberOfRetries_def
  kProtoPoolMaxSize_def

definition StatusCodeIs5xxHttpCode :: "int \<Rightarrow> bool" where
  "StatusCodeIs5xxHttpCode c \<longleftrightarrow> c = UNAVAILABLE \<or> c = INTERNAL_CODE \<or> c = UNIMPLEMENTED \<or> c = DEADLINE_EXCEEDED"

text \<open>The arguments of the constructors of the options.\<close>

definition GetCheckAggregationOptions :: "sc_server_config \<Rightarrow> int \<times> int \<times> int" where
  "GetCheckAggregationOptions server_config =
     (case Option.bind (Option.bind server_config id) scc_check_aggregator of
        Some c \<Rightarrow> (cac_cache_entries c, cac_flush_interval_ms c, cac_response_expiration_ms c)
      | None \<Rightarrow> (kCheckAggregationEntries, kCheckAggregationFlushIntervalMs, kCheckAggregationExpirationMs))"

definition GetQuotaAggregationOptions :: "sc_server_config \<Rightarrow> int \<times> int" where
  "GetQuotaAggregationOptions server_config =
     (case Option.bind (Option.bind server_config id) scc_quota_aggregator of
        Some c \<Rightarrow> (qac_cache_entries c, qac_refresh_interval_ms c)
      | None \<Rightarrow> (kQuotaAggregationEntries, kQuotaAggregationRefreshMs))"

definition GetReportAggregationOptions :: "sc_server_config \<Rightarrow> int \<times> int" where
  "GetReportAggregationOptions server_config =
     (case Option.bind (Option.bind server_config id) scc_report_aggregator of
        Some c \<Rightarrow> (rac_cache_entries c, rac_flush_interval_ms c)
      | None \<Rightarrow> (kReportAggregationEntries, kReportAggregationFlushIntervalMs))"

section \<open>The addresses\<close>

record url =
  url_service_control :: string
  check_url :: string
  quota_url :: string
  report_url :: string

definition GetServiceControlAddress :: "'a control_service_scheme \<Rightarrow> sc_server_config \<Rightarrow> string" where
  "GetServiceControlAddress service server_config =
     (case Option.bind server_config id of
        Some scc \<Rightarrow> if scc_url_override scc \<noteq> [] then scc_url_override scc else cs_environment service
      | None \<Rightarrow> cs_environment service)"

definition Url :: "'a control_service_scheme option \<Rightarrow> sc_server_config \<Rightarrow> url" where
  "Url service server_config =
     (case service of
        None \<Rightarrow> \<lparr>url_service_control = [], check_url = [], quota_url = [], report_url = []\<rparr>
      | Some service \<Rightarrow>
          let address = GetServiceControlAddress service server_config
          in if address \<noteq> [] then
               let address = (if take 7 address \<noteq> ''http://'' \<and> take 8 address \<noteq> ''https://''
                              then ''https://'' @ address else address);
                   path = address @ ''/v1/services/'' @ cs_name service
               in \<lparr>url_service_control = address, check_url = path @ '':check'', quota_url = path @ '':allocateQuota'',
                   report_url = path @ '':report''\<rparr>
             else \<lparr>url_service_control = [], check_url = [], quota_url = [], report_url = []\<rparr>)"

section \<open>The object\<close>

text \<open>
  What the model takes from protobuf and the client library: parsing gives what was read even when
  it fails, and the constructors of the options give their fields.
\<close>

record report_response =
  rresp_service_rollout_id :: string
  rresp_service_config_id :: string

record 'd sc_lib =
  sl_parse_check :: "string \<Rightarrow> bool \<times> check_response"
  sl_parse_report :: "string \<Rightarrow> bool \<times> report_response"
  sl_parse_quota :: "string \<Rightarrow> bool \<times> quota_response"
  sl_serialize_check :: "'d check_request \<Rightarrow> string"
  sl_serialize_report :: "'d report_request \<Rightarrow> string"
  sl_serialize_quota :: "quota_request \<Rightarrow> string"
  sl_status_string :: "proto_status \<Rightarrow> string"
  sl_check_options :: "int \<times> int \<times> int \<Rightarrow> int \<times> int \<times> int"
  sl_quota_options :: "int \<times> int \<Rightarrow> int \<times> int"
  sl_report_options :: "int \<times> int \<Rightarrow> int \<times> int"

datatype 'd sc_request = CheckMessage "'d check_request" | ReportMessage "'d report_request" | QuotaMessage quota_request

datatype sc_response = CheckAnswer check_response | ReportAnswer report_response | QuotaAnswer quota_response

datatype 'd sc_effect =
    ScEnv env_effect | SetRolloutId string
  | CreateClient string string "(int \<times> int \<times> int) \<times> (int \<times> int) \<times> (int \<times> int)" | DestroyClient
  | ClientReport "'d report_request" | ClientCheck "'d check_request" | ClientQuota quota_request
  | CheckDone status check_response_info | QuotaDone status | TransportDone proto_status

record 'd aggregated =
  ag_service_name :: string
  ag_service_id :: string
  ag_server_config :: sc_server_config
  ag_sa_token :: "service_account_token option"
  ag_proto :: "'d proto"
  ag_url :: url
  ag_client :: bool
  quota_pool :: "quota_request list"
  check_pool :: "'d check_request list"
  report_pool :: "'d report_request list"
  mismatched_check_config_id :: string
  mismatched_report_config_id :: string
  ag_max_report_size :: nat
  check_timeout_ms :: int
  report_timeout_ms :: int
  quota_timeout_ms :: int
  check_retries :: int
  report_retries :: int
  quota_retries :: int
  network_fail_open :: bool
  ag_set_rollout_id_func :: bool

text \<open>A message of the pool is cleared before it is used again.\<close>

definition ProtoPool_Alloc :: "'m \<Rightarrow> 'm list \<Rightarrow> 'm \<times> 'm list" where
  "ProtoPool_Alloc cleared pool = (case pool of [] \<Rightarrow> (cleared, []) | item # rest \<Rightarrow> (cleared, rest))"

definition ProtoPool_Free :: "'m \<Rightarrow> 'm list \<Rightarrow> 'm list" where
  "ProtoPool_Free item pool = (if length pool < kProtoPoolMaxSize then pool @ [item] else pool)"

definition empty_quota_request :: quota_request where
  "empty_quota_request = \<lparr>qr_service_name = [], qr_service_config_id = [],
     qr_allocate_operation = \<lparr>qo_operation_id = [], qo_method_name = [], qo_consumer_id = [], qo_best_effort = False,
       qo_labels = [], qo_quota_metrics = []\<rparr>\<rparr>"

definition empty_check_request :: "'d check_request" where
  "empty_check_request = \<lparr>cr_service_name = [], cr_service_config_id = [], cr_operation = new_Operation\<rparr>"

definition empty_report_request :: "'d report_request" where
  "empty_report_request = \<lparr>rr_service_name = [], rr_service_config_id = [], rr_operations = []\<rparr>"

text \<open>The timeouts and retries have no value (\<open>garbage\<close>) before \<^verbatim>\<open>Init\<close>.\<close>

definition Aggregated ::
    "('k, 'd) proto_lib \<Rightarrow> int \<Rightarrow> int \<Rightarrow> 'a control_service_scheme \<Rightarrow> sc_server_config \<Rightarrow> service_account_token option \<Rightarrow>
     string set \<Rightarrow> string set \<Rightarrow> string set \<Rightarrow> bool \<Rightarrow> 'd aggregated" where
  "Aggregated lib garbage now service server_config sa_token logs metrics labels set_rollout_id_func =
     (let url = Url (Some service) server_config
      in \<lparr>ag_service_name = cs_name service, ag_service_id = cs_id service, ag_server_config = server_config,
          ag_sa_token = map_option
            (SetAudience now JWT_TOKEN_FOR_QUOTA_CONTROL (url_service_control url @ quotacontrol_service) \<circ>
             SetAudience now JWT_TOKEN_FOR_SERVICE_CONTROL (url_service_control url @ servicecontrol_service)) sa_token,
          ag_proto = Proto lib logs metrics labels (cs_name service) (cs_id service), ag_url = url, ag_client = False,
          quota_pool = [], check_pool = [], report_pool = [],
          mismatched_check_config_id = cs_id service, mismatched_report_config_id = cs_id service,
          ag_max_report_size = 0, check_timeout_ms = garbage, report_timeout_ms = garbage, quota_timeout_ms = garbage,
          check_retries = garbage, report_retries = garbage, quota_retries = garbage, network_fail_open = False,
          ag_set_rollout_id_func = set_rollout_id_func\<rparr>)"

definition positive_or :: "int \<Rightarrow> int \<Rightarrow> int" where
  "positive_or v default_value = (if v > 0 then v else default_value)"

definition InitHttpRequestTimeoutRetries :: "'d aggregated \<Rightarrow> 'd aggregated" where
  "InitHttpRequestTimeoutRetries ag =
     (let ag = ag\<lparr>check_timeout_ms := kCheckDefaultTimeoutInMs, report_timeout_ms := kReportDefaultTimeoutInMs,
                  quota_timeout_ms := kAllocateQuotaDefaultTimeoutInMs, check_retries := kCheckDefaultNumberOfRetries,
                  report_retries := kReportDefaultNumberOfRetries, quota_retries := kAllocateQuotaDefaultNumberOfRetries,
                  network_fail_open := False\<rparr>
      in case Option.bind (ag_server_config ag) id of
           None \<Rightarrow> ag
         | Some config \<Rightarrow>
             ag\<lparr>check_timeout_ms := positive_or (scc_check_timeout_ms config) (check_timeout_ms ag),
                report_timeout_ms := positive_or (scc_report_timeout_ms config) (report_timeout_ms ag),
                quota_timeout_ms := positive_or (scc_quota_timeout_ms config) (quota_timeout_ms ag),
                check_retries := positive_or (scc_check_retries config) (check_retries ag),
                report_retries := positive_or (scc_report_retries config) (report_retries ag),
                quota_retries := positive_or (scc_quota_retries config) (quota_retries ag),
                network_fail_open := scc_network_fail_open config\<rparr>)"

definition Aggregated_Init :: "'d sc_lib \<Rightarrow> 'd aggregated \<Rightarrow> status \<times> 'd aggregated \<times> 'd sc_effect list" where
  "Aggregated_Init lib ag =
     (if ag_client ag then (Status_OK, ag, [])
      else
        let ag = InitHttpRequestTimeoutRetries ag;
            check = sl_check_options lib (GetCheckAggregationOptions (ag_server_config ag));
            quota = sl_quota_options lib (GetQuotaAggregationOptions (ag_server_config ag));
            report = sl_report_options lib (GetReportAggregationOptions (ag_server_config ag));
            msg = ''Check_aggregation_options: num_entries: '' @ show_int (fst check) @
                  '', flush_interval_ms: '' @ show_int (fst (snd check)) @ '', expiration_ms: '' @ show_int (snd (snd check)) @
                  '', Report_aggregation_options: num_entries: '' @ show_int (fst report) @
                  '', flush_interval_ms: '' @ show_int (snd report)
        in (Status_OK, ag\<lparr>ag_client := True\<rparr>,
            [ScEnv (LogInfo msg), CreateClient (ag_service_name ag) (ag_service_id ag) (check, quota, report)]))"

definition Aggregated_Close :: "'d aggregated \<Rightarrow> status \<times> 'd aggregated \<times> 'd sc_effect list" where
  "Aggregated_Close ag = (Status_OK, ag\<lparr>ag_client := False\<rparr>, if ag_client ag then [DestroyClient] else [])"

section \<open>HTTP calls\<close>

fun GetApiRequestUrl :: "'d sc_request \<Rightarrow> 'd aggregated \<Rightarrow> string" where
  "GetApiRequestUrl (CheckMessage _) ag = check_url (ag_url ag)"
| "GetApiRequestUrl (ReportMessage _) ag = report_url (ag_url ag)"
| "GetApiRequestUrl (QuotaMessage _) ag = quota_url (ag_url ag)"

fun GetHttpRequestTimeout :: "'d sc_request \<Rightarrow> 'd aggregated \<Rightarrow> int" where
  "GetHttpRequestTimeout (CheckMessage _) ag = check_timeout_ms ag"
| "GetHttpRequestTimeout (ReportMessage _) ag = report_timeout_ms ag"
| "GetHttpRequestTimeout (QuotaMessage _) ag = quota_timeout_ms ag"

fun GetHttpRequestRetries :: "'d sc_request \<Rightarrow> 'd aggregated \<Rightarrow> int" where
  "GetHttpRequestRetries (CheckMessage _) ag = check_retries ag"
| "GetHttpRequestRetries (ReportMessage _) ag = report_retries ag"
| "GetHttpRequestRetries (QuotaMessage _) ag = quota_retries ag"

fun request_token_type :: "'d sc_request \<Rightarrow> jwt_token_type" where
  "request_token_type (CheckMessage _) = JWT_TOKEN_FOR_SERVICE_CONTROL"
| "request_token_type (ReportMessage _) = JWT_TOKEN_FOR_SERVICE_CONTROL"
| "request_token_type (QuotaMessage _) = JWT_TOKEN_FOR_QUOTA_CONTROL"

definition Aggregated_GetAuthToken ::
    "(int \<Rightarrow> string \<Rightarrow> string \<Rightarrow> string option option) \<Rightarrow> int \<Rightarrow> 'd sc_request \<Rightarrow> 'd aggregated \<Rightarrow>
     (string \<times> 'd aggregated \<times> env_effect list) option" where
  "Aggregated_GetAuthToken get_auth_token now request ag =
     (case ag_sa_token ag of
        None \<Rightarrow> Some ([], ag, [])
      | Some t \<Rightarrow> do {
          (tok, t, effects) \<leftarrow> GetAuthToken get_auth_token now (request_token_type request) t;
          Some (tok, ag\<lparr>ag_sa_token := Some t\<rparr>, effects)
        })"

fun SerializeToString :: "'d sc_lib \<Rightarrow> 'd sc_request \<Rightarrow> string" where
  "SerializeToString lib (CheckMessage r) = sl_serialize_check lib r"
| "SerializeToString lib (ReportMessage r) = sl_serialize_report lib r"
| "SerializeToString lib (QuotaMessage r) = sl_serialize_quota lib r"

fun is_report :: "'d sc_request \<Rightarrow> bool" where
  "is_report (ReportMessage _) = True"
| "is_report _ = False"

text \<open>\<open>traced\<close>: the parent span is not null.\<close>

definition Call ::
    "'d sc_lib \<Rightarrow> (int \<Rightarrow> string \<Rightarrow> string \<Rightarrow> string option option) \<Rightarrow> int \<Rightarrow> bool \<Rightarrow> 'd sc_request \<Rightarrow> 'd aggregated \<Rightarrow>
     ('d aggregated \<times> 'd sc_effect list) option" where
  "Call lib get_auth_token now traced request ag =
     (let url = GetApiRequestUrl request ag;
          trace = (if traced then [StartSpan ''Call ServiceControl server'', TraceMessage (''Http request URL: '' @ url)] else []);
          request_body = SerializeToString lib request;
          ag = (if is_report request \<and> length request_body > ag_max_report_size ag
                then ag\<lparr>ag_max_report_size := length request_body\<rparr> else ag)
      in do {
        (tok, ag, effects) \<leftarrow> Aggregated_GetAuthToken get_auth_token now request ag;
        (let http_request = set_body request_body (set_header ''Content-Type'' application_proto
                              (set_auth_token tok (set_method ''POST'' (set_url url new_HTTPRequest))));
             http_request = set_timeout_ms (GetHttpRequestTimeout request ag) http_request;
             http_request = set_max_retries (GetHttpRequestRetries request ag) http_request
         in Some (ag, map ScEnv (trace @ effects @ [RunHTTPRequest http_request])))
      })"

fun empty_answer :: "'d sc_request \<Rightarrow> sc_response" where
  "empty_answer (CheckMessage _) = CheckAnswer \<lparr>cresp_project_number = 0, cresp_check_errors = [],
     cresp_service_rollout_id = [], cresp_service_config_id = []\<rparr>"
| "empty_answer (ReportMessage _) = ReportAnswer \<lparr>rresp_service_rollout_id = [], rresp_service_config_id = []\<rparr>"
| "empty_answer (QuotaMessage _) = QuotaAnswer []"

fun ParseFromString :: "'d sc_lib \<Rightarrow> 'd sc_request \<Rightarrow> string \<Rightarrow> bool \<times> sc_response" where
  "ParseFromString lib (CheckMessage _) body = map_prod id CheckAnswer (sl_parse_check lib body)"
| "ParseFromString lib (ReportMessage _) body = map_prod id ReportAnswer (sl_parse_report lib body)"
| "ParseFromString lib (QuotaMessage _) body = map_prod id QuotaAnswer (sl_parse_quota lib body)"

definition rollout_effects :: "string \<Rightarrow> 'd aggregated \<Rightarrow> 'd sc_effect list" where
  "rollout_effects rollout_id ag = (if ag_set_rollout_id_func ag \<and> rollout_id \<noteq> [] then [SetRolloutId rollout_id] else [])"

fun HandleResponse :: "sc_response \<Rightarrow> 'd aggregated \<Rightarrow> 'd aggregated \<times> 'd sc_effect list" where
  "HandleResponse (CheckAnswer r) ag =
     (let rollout = rollout_effects (cresp_service_rollout_id r) ag; config_id = cresp_service_config_id r
      in if config_id \<noteq> [] \<and> p_service_config_id (ag_proto ag) \<noteq> config_id \<and> mismatched_check_config_id ag \<noteq> config_id
         then (ag\<lparr>mismatched_check_config_id := config_id\<rparr>,
               rollout @ [ScEnv (LogDebug (''Received non-matching check response service config ID: '' @ [CHR 0x27] @ config_id @
                 [CHR 0x27] @ '', requested: '' @ [CHR 0x27] @ p_service_config_id (ag_proto ag) @ [CHR 0x27]))])
         else (ag, rollout))"
| "HandleResponse (ReportAnswer r) ag =
     (let rollout = rollout_effects (rresp_service_rollout_id r) ag; config_id = rresp_service_config_id r
      in if config_id \<noteq> [] \<and> p_service_config_id (ag_proto ag) \<noteq> config_id \<and> mismatched_report_config_id ag \<noteq> config_id
         then (ag\<lparr>mismatched_report_config_id := config_id\<rparr>,
               rollout @ [ScEnv (LogDebug (''Received non-matching report response service config ID: '' @ [CHR 0x27] @ config_id @
                 [CHR 0x27] @ '', requested: '' @ [CHR 0x27] @ p_service_config_id (ag_proto ag) @ [CHR 0x27]))])
         else (ag, rollout))"
| "HandleResponse (QuotaAnswer r) ag = (ag, [])"

text \<open>
  The callback of the HTTP request: the answer that \<^verbatim>\<open>response\<close> holds when the callback of the
  transport is called with the last effect.
\<close>

definition call_response ::
    "'d sc_lib \<Rightarrow> bool \<Rightarrow> 'd sc_request \<Rightarrow> string \<Rightarrow> status \<Rightarrow> string \<Rightarrow> 'd aggregated \<Rightarrow>
     sc_response \<times> 'd aggregated \<times> 'd sc_effect list" where
  "call_response lib traced request url status body ag =
     (let trace = (if traced then [ScEnv (TraceMessage (''HTTP response status: '' @ ToString status))] else [])
      in if ok status then
           let (parsed, response) = ParseFromString lib request body;
               status = (if \<not> parsed then Status INVALID_ARGUMENT ''Invalid response'' else status);
               (ag, effects) = HandleResponse response ag
           in (response, ag, trace @ effects @ [TransportDone (ToProto status)])
         else
           let log = ScEnv (LogError (''Failed to call '' @ url @ '', Error: '' @ ToString status @ '', Response body: '' @ body));
               status =
                 (if code status < 0 then Status UNAVAILABLE ''Failed to connect to service control''
                  else Status (code status)
                    (if body = [] then ''Service control request failed with HTTP response code '' @ show_int (code status) else body))
           in (empty_answer request, ag, trace @ [log, TransportDone (ToProto status)]))"

definition SendEmptyReport ::
    "'d sc_lib \<Rightarrow> (int \<Rightarrow> string \<Rightarrow> string \<Rightarrow> string option option) \<Rightarrow> int \<Rightarrow> 'd aggregated \<Rightarrow> ('d aggregated \<times> 'd sc_effect list) option" where
  "SendEmptyReport lib get_auth_token now ag = Call lib get_auth_token now False (ReportMessage empty_report_request) ag"

section \<open>Report, check and quota\<close>

definition missing_client :: status where
  "missing_client = Status INTERNAL_CODE ''Missing service control client''"

definition Aggregated_Report ::
    "('k, 'd) proto_lib \<Rightarrow> int \<Rightarrow> report_request_info \<Rightarrow> 'd aggregated \<Rightarrow> (status \<times> 'd aggregated \<times> 'd sc_effect list) option" where
  "Aggregated_Report plib now info ag =
     (if \<not> ag_client ag then Some (missing_client, ag, [])
      else
        let (request, pool) = ProtoPool_Alloc empty_report_request (report_pool ag)
        in do {
          (status, request) \<leftarrow> FillReportRequest plib now (ag_proto ag) info;
          (let ag = ag\<lparr>report_pool := ProtoPool_Free request pool\<rparr>
           in Some (if \<not> ok status then (status, ag, []) else (Status_OK, ag, [ClientReport request])))
        })"

definition report_on_done :: "'d sc_lib \<Rightarrow> proto_status \<Rightarrow> 'd sc_effect list" where
  "report_on_done lib status =
     (if error_code status \<noteq> OK_CODE then [ScEnv (LogError (''Service control report failed. '' @ sl_status_string lib status))] else [])"

definition Aggregated_Check ::
    "('k, 'd) proto_lib \<Rightarrow> int \<Rightarrow> bool \<Rightarrow> check_request_info \<Rightarrow> 'd aggregated \<Rightarrow> 'd aggregated \<times> 'd sc_effect list" where
  "Aggregated_Check plib now traced info ag =
     (let trace = (if traced then [ScEnv (StartSpan ''CheckServiceControlCache'')] else [])
      in if \<not> ag_client ag then (ag, trace @ [CheckDone missing_client CheckResponseInfo])
         else
           let (request, pool) = ProtoPool_Alloc empty_check_request (check_pool ag)
           in case FillCheckRequest plib now (ag_proto ag) info of
                Inl status \<Rightarrow> (ag\<lparr>check_pool := ProtoPool_Free request pool\<rparr>, trace @ [CheckDone status CheckResponseInfo])
              | Inr request \<Rightarrow> (ag\<lparr>check_pool := ProtoPool_Free request pool\<rparr>, trace @ [ClientCheck request]))"

definition check_on_done ::
    "'d sc_lib \<Rightarrow> bool \<Rightarrow> proto_status \<Rightarrow> check_response \<Rightarrow> 'd aggregated \<Rightarrow> 'd sc_effect list" where
  "check_on_done lib traced status response ag =
     (if traced then [ScEnv (TraceMessage (''Check returned with status: '' @ sl_status_string lib status))] else []) @
     (if error_code status = OK_CODE then
        let (st, info) = ConvertCheckResponse response (p_service_name (ag_proto ag)) CheckResponseInfo
        in [CheckDone st info]
      else if network_fail_open ag \<and> StatusCodeIs5xxHttpCode (error_code status) then
        [ScEnv (LogError (''With network fail open policy, the request is allowed even the service control check failed with: '' @
           sl_status_string lib status)),
         CheckDone Status_OK CheckResponseInfo]
      else
        let c = (if StatusCodeIs5xxHttpCode (error_code status) then error_code status else INTERNAL_CODE)
        in [CheckDone (Status3 c (error_message status) SERVICE_CONTROL) CheckResponseInfo])"

definition Aggregated_Quota ::
    "('k, 'd) proto_lib \<Rightarrow> bool \<Rightarrow> quota_request_info \<Rightarrow> 'd aggregated \<Rightarrow> 'd aggregated \<times> 'd sc_effect list" where
  "Aggregated_Quota plib traced info ag =
     (let trace = (if traced then [ScEnv (StartSpan ''QuotaServiceControlCache'')] else [])
      in if \<not> ag_client ag then (ag, trace @ [QuotaDone missing_client])
         else
           let (request, pool) = ProtoPool_Alloc empty_quota_request (quota_pool ag);
               (status, request) = FillAllocateQuotaRequest plib (ag_proto ag) info;
               ag = ag\<lparr>quota_pool := ProtoPool_Free request pool\<rparr>
           in if \<not> ok status then (ag, trace @ [QuotaDone status]) else (ag, trace @ [ClientQuota request]))"

definition quota_on_done ::
    "'d sc_lib \<Rightarrow> bool \<Rightarrow> proto_status \<Rightarrow> quota_response \<Rightarrow> 'd aggregated \<Rightarrow> 'd sc_effect list" where
  "quota_on_done lib traced status response ag =
     (if traced then [ScEnv (TraceMessage (''AllocateQuotaRequst returned with status: '' @ sl_status_string lib status))] else []) @
     (if error_code status = OK_CODE then [QuotaDone (ConvertAllocateQuotaResponse response (p_service_name (ag_proto ag)))]
      else [QuotaDone (Status3 (error_code status) (error_message status) SERVICE_CONTROL)])"

text \<open>The answer of the client library is an argument.\<close>

definition Aggregated_GetStatistics :: "proto_status \<times> statistics \<Rightarrow> 'd aggregated \<Rightarrow> statistics \<Rightarrow> status \<times> statistics" where
  "Aggregated_GetStatistics answer ag esp_stat =
     (if \<not> ag_client ag then (missing_client, esp_stat)
      else if error_code (fst answer) \<noteq> OK_CODE then (FromProto (fst answer), esp_stat)
      else
        let client_stat = snd answer
        in (Status_OK, esp_stat\<lparr>total_called_checks := total_called_checks client_stat,
              send_checks_by_flush := send_checks_by_flush client_stat,
              send_checks_in_flight := send_checks_in_flight client_stat,
              total_called_reports := total_called_reports client_stat,
              send_reports_by_flush := send_reports_by_flush client_stat,
              send_reports_in_flight := send_reports_in_flight client_stat,
              send_report_operations := send_report_operations client_stat,
              max_report_size := int (ag_max_report_size ag)\<rparr>))"

definition Aggregated_Create ::
    "('k, 'd) proto_lib \<Rightarrow> int \<Rightarrow> int \<Rightarrow> control_service \<Rightarrow> sc_server_config \<Rightarrow> service_account_token option \<Rightarrow> bool \<Rightarrow>
     'd aggregated option \<times> env_effect list" where
  "Aggregated_Create plib garbage now service server_config sa_token set_rollout_id_func =
     (if (case Option.bind server_config id of Some scc \<Rightarrow> scc_force_disable scc | None \<Rightarrow> False) then
        (None, [LogError ''Service control is disabled.''])
      else if url_service_control (Url (Some service) server_config) = [] then
        (None, [LogError ''Service control address is not specified. Disabling API management.''])
      else
        let (s, logs, metrics, labels) = LogsMetricsLoader_Load plib (monitoring_service.truncate service) ({}, {}, {})
        in (Some (Aggregated plib garbage now service server_config sa_token logs metrics labels set_rollout_id_func), []))"

section \<open>What is sent to the server\<close>

text \<open>
  The steps of an object that was created and initialised: the operations in any order, the calls
  of the client library on the transport, the answers of the server, and the use of the
  shared token store for other audiences.
\<close>

definition other_token_call :: "token_call \<Rightarrow> bool" where
  "other_token_call c \<longleftrightarrow> (case c of CallSetAudience _ type _ \<Rightarrow> type | CallGetAuthToken _ type _ \<Rightarrow> type)
     \<notin> {JWT_TOKEN_FOR_SERVICE_CONTROL, JWT_TOKEN_FOR_QUOTA_CONTROL}"

inductive agg_step ::
    "('k, 'd) proto_lib \<Rightarrow> 'd sc_lib \<Rightarrow> (int \<Rightarrow> string \<Rightarrow> string \<Rightarrow> string option option) \<Rightarrow>
     'd aggregated \<Rightarrow> 'd sc_effect list \<Rightarrow> 'd aggregated \<Rightarrow> bool"
  for plib lib gat where
  init: "Aggregated_Init lib ag = (st, ag', es) \<Longrightarrow> agg_step plib lib gat ag es ag'"
| close: "Aggregated_Close ag = (st, ag', es) \<Longrightarrow> agg_step plib lib gat ag es ag'"
| report: "Aggregated_Report plib now rinfo ag = Some (st, ag', es) \<Longrightarrow> agg_step plib lib gat ag es ag'"
| check: "Aggregated_Check plib now traced cinfo ag = (ag', es) \<Longrightarrow> agg_step plib lib gat ag es ag'"
| quota: "Aggregated_Quota plib traced qinfo ag = (ag', es) \<Longrightarrow> agg_step plib lib gat ag es ag'"
| call: "Call lib gat now traced request ag = Some (ag', es) \<Longrightarrow> agg_step plib lib gat ag es ag'"
| response: "call_response lib traced request u st body ag = (answer, ag', es) \<Longrightarrow> agg_step plib lib gat ag es ag'"
| tokens: "ag_sa_token ag = Some t \<Longrightarrow> list_all other_token_call cs \<Longrightarrow> run_calls gat cs t = Some t' \<Longrightarrow>
    agg_step plib lib gat ag [] (ag\<lparr>ag_sa_token := Some t'\<rparr>)"

inductive agg_run ::
    "('k, 'd) proto_lib \<Rightarrow> 'd sc_lib \<Rightarrow> (int \<Rightarrow> string \<Rightarrow> string \<Rightarrow> string option option) \<Rightarrow>
     control_service \<Rightarrow> sc_server_config \<Rightarrow> service_account_token option \<Rightarrow> 'd sc_effect list \<Rightarrow> 'd aggregated \<Rightarrow> bool"
  for plib lib gat service server_config sa_token where
  created: "Aggregated_Create plib garbage now service server_config sa_token f = (Some ag0, logs) \<Longrightarrow> Aggregated_Init lib ag0 = (st, ag, es) \<Longrightarrow>
    agg_run plib lib gat service server_config sa_token es ag"
| stepped: "agg_run plib lib gat service server_config sa_token es ag \<Longrightarrow> agg_step plib lib gat ag es' ag' \<Longrightarrow>
    agg_run plib lib gat service server_config sa_token (es @ es') ag'"

definition sc_requests :: "'d sc_effect list \<Rightarrow> http_request list" where
  "sc_requests es = concat (map (\<lambda>e. case e of ScEnv (RunHTTPRequest r) \<Rightarrow> [r] | _ \<Rightarrow> []) es)"

definition sc_address :: "control_service \<Rightarrow> sc_server_config \<Rightarrow> string" where
  "sc_address service server_config = url_service_control (Url (Some service) server_config)"

definition sc_path :: "control_service \<Rightarrow> sc_server_config \<Rightarrow> string" where
  "sc_path service server_config = sc_address service server_config @ ''/v1/services/'' @ cs_name service"

definition report_sizes :: "control_service \<Rightarrow> sc_server_config \<Rightarrow> 'd sc_effect list \<Rightarrow> nat list" where
  "report_sizes service server_config es =
     map (length \<circ> req_body) (filter (\<lambda>r. req_url r = sc_path service server_config @ '':report'') (sc_requests es))"

text \<open>A request is a POST of a message to one of the three methods, with a token signed for it.\<close>

definition sc_methods :: "(string \<times> string) list" where
  "sc_methods = [('':check'', servicecontrol_service), ('':report'', servicecontrol_service), ('':allocateQuota'', quotacontrol_service)]"

definition signed_header ::
    "(int \<Rightarrow> string \<Rightarrow> string \<Rightarrow> string option option) \<Rightarrow> string \<Rightarrow> string \<Rightarrow> http_request \<Rightarrow> bool" where
  "signed_header gat secret aud r \<longleftrightarrow> (\<forall>h. map_of (req_headers r) ''Authorization'' = Some h \<longrightarrow>
     (\<exists>tok signed. h = ''Bearer '' @ tok \<and> gat signed (c_string secret) (c_string aud) = Some (Some tok)))"

definition sc_request_good ::
    "(int \<Rightarrow> string \<Rightarrow> string \<Rightarrow> string option option) \<Rightarrow> control_service \<Rightarrow> sc_server_config \<Rightarrow> service_account_token option \<Rightarrow>
     http_request \<Rightarrow> bool" where
  "sc_request_good gat service server_config sa_token r \<longleftrightarrow>
     req_method r = ''POST'' \<and> map_of (req_headers r) ''Content-Type'' = Some ''application/x-protobuf'' \<and>
     req_timeout_ms r > 0 \<and> req_max_retries r > 0 \<and>
     (\<exists>(verb, suffix) \<in> set sc_methods. req_url r = sc_path service server_config @ verb \<and>
        (case sa_token of
           None \<Rightarrow> map_of (req_headers r) ''Authorization'' = None
         | Some t \<Rightarrow> has_client_secret t \<longrightarrow>
             signed_header gat (client_auth_secret t) (sc_address service server_config @ suffix) r))"

section \<open>The invariant\<close>

definition token_inv ::
    "(int \<Rightarrow> string \<Rightarrow> string \<Rightarrow> string option option) \<Rightarrow> string \<Rightarrow> service_account_token \<Rightarrow> service_account_token \<Rightarrow> bool" where
  "token_inv gat address t0 t \<longleftrightarrow> tokens_signed gat t \<and> client_auth_secret t = client_auth_secret t0 \<and>
     audience (jwt_tokens t JWT_TOKEN_FOR_SERVICE_CONTROL) = address @ servicecontrol_service \<and>
     audience (jwt_tokens t JWT_TOKEN_FOR_QUOTA_CONTROL) = address @ quotacontrol_service"

definition agg_inv ::
    "(int \<Rightarrow> string \<Rightarrow> string \<Rightarrow> string option option) \<Rightarrow> control_service \<Rightarrow> sc_server_config \<Rightarrow> service_account_token option \<Rightarrow>
     'd aggregated \<Rightarrow> bool" where
  "agg_inv gat service server_config sa_token ag \<longleftrightarrow>
     ag_url ag = Url (Some service) server_config \<and> sc_address service server_config \<noteq> [] \<and>
     rel_option (token_inv gat (sc_address service server_config)) sa_token (ag_sa_token ag) \<and>
     check_timeout_ms ag > 0 \<and> report_timeout_ms ag > 0 \<and> quota_timeout_ms ag > 0 \<and>
     check_retries ag > 0 \<and> report_retries ag > 0 \<and> quota_retries ag > 0 \<and>
     length (quota_pool ag) \<le> kProtoPoolMaxSize \<and> length (check_pool ag) \<le> kProtoPoolMaxSize \<and>
     length (report_pool ag) \<le> kProtoPoolMaxSize"

lemma ProtoPool_bound:
  "length pool \<le> kProtoPoolMaxSize \<Longrightarrow> length (ProtoPool_Free item (snd (ProtoPool_Alloc cleared pool))) \<le> kProtoPoolMaxSize"
  by (auto simp: ProtoPool_Free_def ProtoPool_Alloc_def split: list.split)

lemma GetAuthToken_for_audience:
  "GetAuthToken_for g now type (audience (jwt_tokens t type)) t = Some (tok, t', logs) \<Longrightarrow>
     audience (jwt_tokens t' ty) = audience (jwt_tokens t ty)"
  by (auto simp: GetAuthToken_for_def SetAudience_def GenerateJwtToken_def set_token_def put_jwt_token_def bind_eq_Some_conv Let_def
      split: if_splits option.splits)

lemma GetAuthToken_for_other:
  "GetAuthToken_for g now type aud t = Some (tok, t', logs) \<Longrightarrow> ty \<noteq> type \<Longrightarrow> jwt_tokens t' ty = jwt_tokens t ty"
  by (auto simp: GetAuthToken_for_def SetAudience_def put_jwt_token_def bind_eq_Some_conv Let_def split: if_splits option.splits)

lemma run_calls_other:
  "run_calls g cs t = Some t' \<Longrightarrow> list_all other_token_call cs \<Longrightarrow>
     ty \<in> {JWT_TOKEN_FOR_SERVICE_CONTROL, JWT_TOKEN_FOR_QUOTA_CONTROL} \<Longrightarrow> jwt_tokens t' ty = jwt_tokens t ty"
proof (induction g cs t rule: run_calls.induct)
  case (2 g now type aud cs t)
  then show ?case by (auto simp: other_token_call_def SetAudience_def put_jwt_token_def)
next
  case (3 g now type aud cs t)
  obtain tok t1 logs where 1: "GetAuthToken_for g now type aud t = Some (tok, t1, logs)"
    using "3.prems"(1) by (auto simp: bind_eq_Some_conv)
  have "ty \<noteq> type" using "3.prems"(2,3) by (auto simp: other_token_call_def)
  then show ?case using "3.IH" [OF 1 refl refl] "3.prems" 1 GetAuthToken_for_other [OF 1] by simp
qed simp

lemma token_inv_run_calls:
  "token_inv g address t0 t \<Longrightarrow> list_all other_token_call cs \<Longrightarrow> run_calls g cs t = Some t' \<Longrightarrow> token_inv g address t0 t'"
  using run_calls_signed [of g t cs t'] run_calls_other [of g cs t t'] by (simp add: token_inv_def)

lemma token_inv_created:
  assumes "tokens_signed g t"
  shows "token_inv g address t (SetAudience now JWT_TOKEN_FOR_QUOTA_CONTROL (address @ quotacontrol_service)
    (SetAudience now JWT_TOKEN_FOR_SERVICE_CONTROL (address @ servicecontrol_service) t))"
  using assms unfolding token_inv_def
  by (intro conjI tokens_signed_SetAudience) (simp_all add: SetAudience_def put_jwt_token_def)

lemma InitHttpRequestTimeoutRetries_inv:
  "check_timeout_ms (InitHttpRequestTimeoutRetries ag) > 0 \<and> report_timeout_ms (InitHttpRequestTimeoutRetries ag) > 0 \<and>
   quota_timeout_ms (InitHttpRequestTimeoutRetries ag) > 0 \<and> check_retries (InitHttpRequestTimeoutRetries ag) > 0 \<and>
   report_retries (InitHttpRequestTimeoutRetries ag) > 0 \<and> quota_retries (InitHttpRequestTimeoutRetries ag) > 0"
  by (cases "Option.bind (ag_server_config ag) id")
    (simp_all add: InitHttpRequestTimeoutRetries_def Let_def positive_or_def sc_constants)

lemma InitHttpRequestTimeoutRetries_keeps [simp]:
  "ag_url (InitHttpRequestTimeoutRetries ag) = ag_url ag"
  "ag_sa_token (InitHttpRequestTimeoutRetries ag) = ag_sa_token ag"
  "ag_max_report_size (InitHttpRequestTimeoutRetries ag) = ag_max_report_size ag"
  "quota_pool (InitHttpRequestTimeoutRetries ag) = quota_pool ag"
  "check_pool (InitHttpRequestTimeoutRetries ag) = check_pool ag"
  "report_pool (InitHttpRequestTimeoutRetries ag) = report_pool ag"
  by (cases "Option.bind (ag_server_config ag) id"; simp add: InitHttpRequestTimeoutRetries_def Let_def)+

lemma sc_requests_simps [simp]:
  "sc_requests [] = []"
  "sc_requests (es @ es') = sc_requests es @ sc_requests es'"
  "sc_requests (e # es) = (case e of ScEnv (RunHTTPRequest r) \<Rightarrow> [r] | _ \<Rightarrow> []) @ sc_requests es"
  by (simp_all add: sc_requests_def)

lemma GetAuthToken_env: "GetAuthToken_for g now type aud t = Some (tok, t', logs) \<Longrightarrow> sc_requests (map ScEnv logs) = []"
  by (auto simp: GetAuthToken_for_def bind_eq_Some_conv Let_def split: if_splits)

lemma GetAuthToken_token_inv:
  assumes "GetAuthToken g now type t = Some (tok, t', logs)" "token_inv g address t0 t"
  shows "token_inv g address t0 t'"
    and "has_client_secret t0 \<Longrightarrow> tok \<noteq> [] \<Longrightarrow>
      \<exists>signed. g signed (c_string (client_auth_secret t0)) (c_string (audience (jwt_tokens t type))) = Some (Some tok)"
proof -
  have f: "GetAuthToken_for g now type (audience (jwt_tokens t type)) t = Some (tok, t', logs)"
    using assms(1) by (simp add: GetAuthToken_def)
  have "tokens_signed g t" "client_auth_secret t = client_auth_secret t0" using assms(2) by (simp_all add: token_inv_def)
  note s = GetAuthToken_for_signed [OF f this(1)] this(2)
  show "token_inv g address t0 t'"
    using assms(2) s GetAuthToken_for_audience [OF f] by (simp add: token_inv_def)
  show "\<exists>signed. g signed (c_string (client_auth_secret t0)) (c_string (audience (jwt_tokens t type))) = Some (Some tok)"
    if "has_client_secret t0" "tok \<noteq> []"
    using s that by (auto simp: has_client_secret_def)
qed

text \<open>The token that goes with a request, and the state of the token store after it.\<close>

definition request_audience :: "'d sc_request \<Rightarrow> string" where
  "request_audience request = (case request of QuotaMessage _ \<Rightarrow> quotacontrol_service | _ \<Rightarrow> servicecontrol_service)"

lemma token_inv_audience:
  "token_inv g address t0 t \<Longrightarrow> audience (jwt_tokens t (request_token_type request)) = address @ request_audience request"
  by (cases request) (simp_all add: token_inv_def request_audience_def)

lemma Aggregated_GetAuthToken_inv:
  fixes ag :: "'d aggregated"
  assumes "Aggregated_GetAuthToken g now request ag = Some (tok, ag', logs)"
    and "rel_option (token_inv g address) sa_token (ag_sa_token ag)"
  shows "\<exists>sa. ag' = ag\<lparr>ag_sa_token := sa\<rparr> \<and> rel_option (token_inv g address) sa_token sa \<and>
    sc_requests (map ScEnv logs :: 'd sc_effect list) = [] \<and>
    (case sa_token of None \<Rightarrow> tok = []
     | Some t0 \<Rightarrow> has_client_secret t0 \<longrightarrow> tok \<noteq> [] \<longrightarrow>
         (\<exists>signed. g signed (c_string (client_auth_secret t0)) (c_string (address @ request_audience request)) = Some (Some tok)))"
proof (cases "ag_sa_token ag")
  case None
  then have "sa_token = None" "tok = []" "logs = []" "ag' = ag" using assms by (simp_all add: Aggregated_GetAuthToken_def)
  then show ?thesis using None by (intro exI [of _ None]) simp
next
  case (Some t)
  then obtain t0 where t0: "sa_token = Some t0" "token_inv g address t0 t" using assms(2) by (cases sa_token) simp_all
  obtain t' where t': "GetAuthToken g now (request_token_type request) t = Some (tok, t', logs)" "ag' = ag\<lparr>ag_sa_token := Some t'\<rparr>"
    using assms(1) Some by (auto simp: Aggregated_GetAuthToken_def bind_eq_Some_conv)
  have "sc_requests (map ScEnv logs :: 'd sc_effect list) = []" using t'(1) GetAuthToken_env unfolding GetAuthToken_def by blast
  then show ?thesis
    using GetAuthToken_token_inv [OF t'(1) t0(2)] t0(1) t'(2) token_inv_audience [OF t0(2), of request]
    by (intro exI [of _ "Some t'"]) simp
qed

lemma Url_paths:
  assumes "sc_address service server_config \<noteq> []"
  shows "check_url (Url (Some service) server_config) = sc_path service server_config @ '':check''"
    and "report_url (Url (Some service) server_config) = sc_path service server_config @ '':report''"
    and "quota_url (Url (Some service) server_config) = sc_path service server_config @ '':allocateQuota''"
  using assms by (simp_all add: sc_path_def sc_address_def Url_def Let_def split: if_splits)

definition request_verb :: "'d sc_request \<Rightarrow> string" where
  "request_verb request = (case request of CheckMessage _ \<Rightarrow> '':check'' | ReportMessage _ \<Rightarrow> '':report'' | QuotaMessage _ \<Rightarrow> '':allocateQuota'')"

lemma request_verb_method: "(request_verb request, request_audience request) \<in> set sc_methods"
  by (cases request) (simp_all add: request_verb_def request_audience_def sc_methods_def)

definition sc_http_request :: "string \<Rightarrow> string \<Rightarrow> string \<Rightarrow> int \<Rightarrow> int \<Rightarrow> http_request" where
  "sc_http_request u tok body timeout retries = set_max_retries retries (set_timeout_ms timeout
     (set_body body (set_header ''Content-Type'' application_proto (set_auth_token tok (set_method ''POST'' (set_url u new_HTTPRequest))))))"

lemma sc_http_request_fields:
  "map_of (req_headers (sc_http_request u tok body timeout retries)) ''Authorization'' = (if tok = [] then None else Some (''Bearer '' @ tok))"
  "map_of (req_headers (sc_http_request u tok body timeout retries)) ''Content-Type'' = Some application_proto"
  "req_method (sc_http_request u tok body timeout retries) = ''POST''"
  "req_body (sc_http_request u tok body timeout retries) = body"
  "req_url (sc_http_request u tok body timeout retries) = u"
  "req_timeout_ms (sc_http_request u tok body timeout retries) = timeout"
  "req_max_retries (sc_http_request u tok body timeout retries) = retries"
  by (simp_all add: sc_http_request_def http_request_setters update_conv')

text \<open>A call sends one request, and the largest report is remembered.\<close>

lemma Call_sends:
  fixes ag :: "'d aggregated"
  assumes "Call lib g now traced request ag = Some (ag', es)" and "agg_inv g service server_config sa_token ag"
  obtains r where "sc_requests es = [r]" "sc_request_good g service server_config sa_token r"
    "agg_inv g service server_config sa_token ag'" "req_url r = sc_path service server_config @ request_verb request"
    "ag_max_report_size ag' = (if is_report request then max (ag_max_report_size ag) (length (req_body r)) else ag_max_report_size ag)"
proof -
  define body where "body = SerializeToString lib request"
  define ag1 where "ag1 = (if is_report request \<and> length body > ag_max_report_size ag then ag\<lparr>ag_max_report_size := length body\<rparr> else ag)"
  have same: "ag_url ag1 = ag_url ag" "ag_sa_token ag1 = ag_sa_token ag" "agg_inv g service server_config sa_token ag1"
    using assms(2) by (simp_all add: ag1_def agg_inv_def)
  obtain tok ag2 logs where tok: "Aggregated_GetAuthToken g now request ag1 = Some (tok, ag2, logs)"
    using assms(1) unfolding Call_def Let_def body_def [symmetric] ag1_def [symmetric] by (auto simp: bind_eq_Some_conv)
  have "rel_option (token_inv g (sc_address service server_config)) sa_token (ag_sa_token ag1)"
    using same(3) by (simp add: agg_inv_def)
  from Aggregated_GetAuthToken_inv [OF tok this] obtain sa where
    sa: "ag2 = ag1\<lparr>ag_sa_token := sa\<rparr>" "rel_option (token_inv g (sc_address service server_config)) sa_token sa"
      "sc_requests (map ScEnv logs :: 'd sc_effect list) = []" and good_tok: "case sa_token of None \<Rightarrow> tok = []
        | Some t0 \<Rightarrow> has_client_secret t0 \<longrightarrow> tok \<noteq> [] \<longrightarrow> (\<exists>signed. g signed (c_string (client_auth_secret t0))
            (c_string (sc_address service server_config @ request_audience request)) = Some (Some tok))" by blast
  define r where "r = sc_http_request (GetApiRequestUrl request ag) tok body (GetHttpRequestTimeout request ag2) (GetHttpRequestRetries request ag2)"
  have e: "ag' = ag2" "sc_requests es = [r]"
    using assms(1) tok sa(3) unfolding Call_def Let_def body_def [symmetric] ag1_def [symmetric] r_def sc_http_request_def by auto
  have inv: "agg_inv g service server_config sa_token ag2" using same(3) sa by (simp add: agg_inv_def)
  have times: "GetHttpRequestTimeout request ag2 > 0" "GetHttpRequestRetries request ag2 > 0"
    using inv by (cases request; simp add: agg_inv_def)+
  have url: "GetApiRequestUrl request ag = sc_path service server_config @ request_verb request"
    using assms(2) Url_paths [of service server_config] by (cases request; simp add: agg_inv_def request_verb_def)
  note hdr = sc_http_request_fields [of "GetApiRequestUrl request ag" tok body "GetHttpRequestTimeout request ag2"
      "GetHttpRequestRetries request ag2", folded r_def]
  have tokens: "case sa_token of None \<Rightarrow> map_of (req_headers r) ''Authorization'' = None
      | Some t \<Rightarrow> has_client_secret t \<longrightarrow>
          signed_header g (client_auth_secret t) (sc_address service server_config @ request_audience request) r"
    using good_tok by (auto simp: signed_header_def hdr split: option.splits)
  have "sc_request_good g service server_config sa_token r"
    unfolding sc_request_good_def using hdr times url tokens request_verb_method [of request]
    by (auto simp: application_proto_def intro!: bexI [of _ "(request_verb request, request_audience request)"])
  moreover have "ag_max_report_size ag2 = (if is_report request then max (ag_max_report_size ag) (length (req_body r)) else ag_max_report_size ag)"
    by (auto simp: sa(1) ag1_def hdr)
  ultimately show thesis using that [of r] e inv hdr(5) url by simp
qed

lemma HandleResponse_inv:
  assumes "HandleResponse response ag = (ag', es)" "agg_inv g service server_config sa_token ag"
  shows "agg_inv g service server_config sa_token ag'" "sc_requests es = []" "ag_max_report_size ag' = ag_max_report_size ag"
  using assms by (cases response; auto simp: agg_inv_def rollout_effects_def Let_def split: if_splits)+

lemma call_response_inv:
  assumes "call_response lib traced request u st body ag = (answer, ag', es)" "agg_inv g service server_config sa_token ag"
  shows "agg_inv g service server_config sa_token ag' \<and> sc_requests es = [] \<and> ag_max_report_size ag' = ag_max_report_size ag"
proof (cases "ok st")
  case True
  obtain parsed resp where p: "ParseFromString lib request body = (parsed, resp)" by fastforce
  obtain ag1 es1 where h: "HandleResponse resp ag = (ag1, es1)" by fastforce
  show ?thesis using assms(1) True HandleResponse_inv [OF h assms(2)] by (auto simp: call_response_def p h Let_def)
next
  case False
  then show ?thesis using assms by (auto simp: call_response_def Let_def)
qed

lemma Aggregated_Init_inv:
  assumes "Aggregated_Init lib ag = (st, ag', es)" "agg_inv g service server_config sa_token ag"
  shows "agg_inv g service server_config sa_token ag' \<and> sc_requests es = [] \<and> ag_max_report_size ag' = ag_max_report_size ag"
  using assms InitHttpRequestTimeoutRetries_inv [of ag] by (auto simp: Aggregated_Init_def Let_def agg_inv_def split: if_splits)

lemma Aggregated_Report_inv:
  assumes "Aggregated_Report plib now info ag = Some (st, ag', es)" "agg_inv g service server_config sa_token ag"
  shows "agg_inv g service server_config sa_token ag' \<and> sc_requests es = [] \<and> ag_max_report_size ag' = ag_max_report_size ag"
proof (cases "ag_client ag")
  case True
  then obtain s r where "FillReportRequest plib now (ag_proto ag) info = Some (s, r)"
    using assms(1) by (auto simp: Aggregated_Report_def Let_def bind_eq_Some_conv split: prod.splits)
  then have "ag' = ag\<lparr>report_pool := ProtoPool_Free r (snd (ProtoPool_Alloc empty_report_request (report_pool ag)))\<rparr>" "sc_requests es = []"
    using assms(1) True by (auto simp: Aggregated_Report_def Let_def split: prod.splits if_splits)
  then show ?thesis using assms(2) by (simp add: agg_inv_def ProtoPool_bound)
qed (use assms in \<open>simp add: Aggregated_Report_def\<close>)

lemma Aggregated_Check_inv:
  assumes "Aggregated_Check plib now traced info ag = (ag', es)" "agg_inv g service server_config sa_token ag"
  shows "agg_inv g service server_config sa_token ag' \<and> sc_requests es = [] \<and> ag_max_report_size ag' = ag_max_report_size ag"
proof -
  have "(\<exists>r. ag' = ag\<lparr>check_pool := ProtoPool_Free r (snd (ProtoPool_Alloc empty_check_request (check_pool ag)))\<rparr>) \<or> ag' = ag"
    using assms(1) by (auto simp: Aggregated_Check_def Let_def split: if_splits sum.splits prod.splits)
  moreover have "sc_requests es = []" using assms(1) by (auto simp: Aggregated_Check_def Let_def split: if_splits sum.splits prod.splits)
  ultimately show ?thesis using assms(2) by (auto simp: agg_inv_def ProtoPool_bound)
qed

lemma Aggregated_Quota_inv:
  assumes "Aggregated_Quota plib traced info ag = (ag', es)" "agg_inv g service server_config sa_token ag"
  shows "agg_inv g service server_config sa_token ag' \<and> sc_requests es = [] \<and> ag_max_report_size ag' = ag_max_report_size ag"
proof -
  have "(\<exists>r. ag' = ag\<lparr>quota_pool := ProtoPool_Free r (snd (ProtoPool_Alloc empty_quota_request (quota_pool ag)))\<rparr>) \<or> ag' = ag"
    using assms(1) by (auto simp: Aggregated_Quota_def Let_def split: if_splits prod.splits)
  moreover have "sc_requests es = []" using assms(1) by (auto simp: Aggregated_Quota_def Let_def split: if_splits prod.splits)
  ultimately show ?thesis using assms(2) by (auto simp: agg_inv_def ProtoPool_bound)
qed

text \<open>What a run has sent so far and remembers of it.\<close>

definition run_good ::
    "(int \<Rightarrow> string \<Rightarrow> string \<Rightarrow> string option option) \<Rightarrow> control_service \<Rightarrow> sc_server_config \<Rightarrow> service_account_token option \<Rightarrow>
     'd sc_effect list \<Rightarrow> 'd aggregated \<Rightarrow> bool" where
  "run_good g service server_config sa_token es ag \<longleftrightarrow>
     agg_inv g service server_config sa_token ag \<and>
     list_all (sc_request_good g service server_config sa_token) (sc_requests es) \<and>
     ag_max_report_size ag = fold max (report_sizes service server_config es) 0"

lemma run_good_inv: "run_good g service server_config sa_token es ag \<Longrightarrow> agg_inv g service server_config sa_token ag"
  by (simp add: run_good_def)

lemma run_good_silent:
  assumes "run_good g service server_config sa_token es ag" "agg_inv g service server_config sa_token ag'"
    "sc_requests es' = []" "ag_max_report_size ag' = ag_max_report_size ag"
  shows "run_good g service server_config sa_token (es @ es') ag'"
  using assms by (simp add: run_good_def report_sizes_def)

lemma run_good_Call:
  assumes "run_good g service server_config sa_token es ag" "Call lib g now traced request ag = Some (ag', es')"
  shows "run_good g service server_config sa_token (es @ es') ag'"
proof -
  have "agg_inv g service server_config sa_token ag" using assms(1) by (simp add: run_good_def)
  from Call_sends [OF assms(2) this] obtain r where
    r: "sc_requests es' = [r]" "sc_request_good g service server_config sa_token r" "agg_inv g service server_config sa_token ag'"
      "req_url r = sc_path service server_config @ request_verb request"
      "ag_max_report_size ag' = (if is_report request then max (ag_max_report_size ag) (length (req_body r)) else ag_max_report_size ag)"
    by blast
  have "report_sizes service server_config es' = (if is_report request then [length (req_body r)] else [])"
    using r(1,4) by (cases request) (simp_all add: report_sizes_def request_verb_def)
  then have "report_sizes service server_config (es @ es') =
      report_sizes service server_config es @ (if is_report request then [length (req_body r)] else [])"
    by (simp add: report_sizes_def)
  then show ?thesis using assms(1) r by (simp add: run_good_def max.commute)
qed

lemma agg_step_good:
  assumes "agg_step plib lib g ag es' ag'" "run_good g service server_config sa_token es ag"
  shows "run_good g service server_config sa_token (es @ es') ag'"
  using assms
proof (induction rule: agg_step.induct)
  case (tokens ag t cs t')
  then have "agg_inv g service server_config sa_token (ag\<lparr>ag_sa_token := Some t'\<rparr>)"
    using token_inv_run_calls by (cases sa_token) (auto simp: run_good_def agg_inv_def)
  then show ?case using run_good_silent [OF tokens.prems, of _ "[]"] by simp
next
  case (close ag st ag' es)
  then have "agg_inv g service server_config sa_token ag'" "sc_requests es = []" "ag_max_report_size ag' = ag_max_report_size ag"
    by (auto simp: Aggregated_Close_def run_good_def agg_inv_def split: if_splits)
  then show ?case using run_good_silent [OF close.prems] by blast
next
  case (call now traced request ag ag' es)
  then show ?case using run_good_Call by blast
next
  case (init ag st ag' es)
  show ?case using run_good_silent [OF init.prems] Aggregated_Init_inv [OF init.hyps run_good_inv [OF init.prems]] by blast
next
  case (report now rinfo ag st ag' es)
  show ?case using run_good_silent [OF report.prems] Aggregated_Report_inv [OF report.hyps run_good_inv [OF report.prems]] by blast
next
  case (check now traced cinfo ag ag' es)
  show ?case using run_good_silent [OF check.prems] Aggregated_Check_inv [OF check.hyps run_good_inv [OF check.prems]] by blast
next
  case (quota traced qinfo ag ag' es)
  show ?case using run_good_silent [OF quota.prems] Aggregated_Quota_inv [OF quota.hyps run_good_inv [OF quota.prems]] by blast
next
  case (response traced request u st body ag answer ag' es)
  show ?case using run_good_silent [OF response.prems] call_response_inv [OF response.hyps run_good_inv [OF response.prems]] by blast
qed

lemma created_good:
  assumes "Aggregated_Create plib garbage now service server_config sa_token f = (Some ag0, logs)" "Aggregated_Init lib ag0 = (st, ag, es)"
    and "pred_option (tokens_signed g) sa_token"
  shows "run_good g service server_config sa_token es ag"
proof -
  obtain L M B where ag0: "ag0 = Aggregated plib garbage now service server_config sa_token L M B f"
      and addr: "sc_address service server_config \<noteq> []"
    using assms(1) by (auto simp: Aggregated_Create_def sc_address_def split: if_splits prod.splits)
  have tok: "rel_option (token_inv g (sc_address service server_config)) sa_token (ag_sa_token ag0)"
    using assms(3) token_inv_created by (cases sa_token) (auto simp: ag0 Aggregated_def Let_def sc_address_def)
  have f: "ag_url ag0 = Url (Some service) server_config" "\<not> ag_client ag0" "quota_pool ag0 = []" "check_pool ag0 = []"
      "report_pool ag0 = []" "ag_max_report_size ag0 = 0"
    by (simp_all add: ag0 Aggregated_def Let_def)
  then show ?thesis
    using assms(2) tok addr InitHttpRequestTimeoutRetries_inv [of ag0]
    by (auto simp: run_good_def agg_inv_def Aggregated_Init_def Let_def report_sizes_def)
qed


definition example_gat :: "int \<Rightarrow> string \<Rightarrow> string \<Rightarrow> string option option" where
  "example_gat now secret aud = Some (Some (secret @ ''.'' @ aud))"

definition example_sc_lib :: "rat list sc_lib" where
  "example_sc_lib = \<lparr>sl_parse_check = (\<lambda>body. (body \<noteq> ''garbage'', \<lparr>cresp_project_number = 0, cresp_check_errors = [],
       cresp_service_rollout_id = [], cresp_service_config_id = []\<rparr>)),
     sl_parse_report = (\<lambda>body. (True, \<lparr>rresp_service_rollout_id = [], rresp_service_config_id = []\<rparr>)),
     sl_parse_quota = (\<lambda>body. (True, [])), sl_serialize_check = cr_service_name, sl_serialize_report = (\<lambda>_. ''report''),
     sl_serialize_quota = qr_service_name, sl_status_string = error_message, sl_check_options = id, sl_quota_options = id,
     sl_report_options = id\<rparr>"

definition example_control_service :: control_service where
  "example_control_service = \<lparr>ms_monitored_resources = [], ms_logs = [], ms_metrics = [], ms_logging_producer = [],
     ms_monitoring_producer = [], ms_monitoring_consumer = [], cs_name = ''books'', cs_id = ''2024'', cs_environment = ''control''\<rparr>"

definition example_store :: service_account_token where
  "example_store = (ServiceAccountToken 0)\<lparr>client_auth_secret := ''key''\<rparr>"

definition example_http_request :: http_request where
  "example_http_request = sc_http_request ''https://control/v1/services/books:report''
     ''key.https://control/google.api.servicecontrol.v1.ServiceController'' ''report'' 3500 5"

lemma example_created:
  obtains ag es ag' es' where
    "agg_run example_proto_lib example_sc_lib example_gat example_control_service None (Some example_store) es ag"
    "SendEmptyReport example_sc_lib example_gat 0 ag = Some (ag', es')" "sc_requests es' = [example_http_request]"
    "ag_max_report_size ag' = 6"
proof -
  obtain st L M B where load: "LogsMetricsLoader_Load example_proto_lib (monitoring_service.truncate example_control_service) ({}, {}, {}) = (st, L, M, B)"
    by (metis prod_cases4)
  define ag0 where "ag0 = Aggregated example_proto_lib 0 0 example_control_service None (Some example_store) L M B True"
  have url: "Url (Some example_control_service) None = \<lparr>url_service_control = ''https://control'',
      check_url = ''https://control/v1/services/books:check'', quota_url = ''https://control/v1/services/books:allocateQuota'',
      report_url = ''https://control/v1/services/books:report''\<rparr>"
    by (simp add: Url_def GetServiceControlAddress_def example_control_service_def)
  have c: "Aggregated_Create example_proto_lib 0 0 example_control_service None (Some example_store) True = (Some ag0, [])"
    by (simp add: Aggregated_Create_def url load ag0_def)
  have ag0: "ag_sa_token ag0 = Some (SetAudience 0 JWT_TOKEN_FOR_QUOTA_CONTROL (''https://control'' @ quotacontrol_service)
        (SetAudience 0 JWT_TOKEN_FOR_SERVICE_CONTROL (''https://control'' @ servicecontrol_service) example_store))"
      "ag_url ag0 = Url (Some example_control_service) None" "ag_client ag0 = False" "ag_max_report_size ag0 = 0" "ag_server_config ag0 = None"
    by (simp_all add: ag0_def Aggregated_def url)
  obtain ag es where i: "Aggregated_Init example_sc_lib ag0 = (Status_OK, ag, es)" and ag: "ag_sa_token ag = ag_sa_token ag0" "ag_url ag = ag_url ag0"
      "ag_max_report_size ag = 0" "report_timeout_ms ag = 3500" "report_retries ag = 5"
    using ag0 by (simp add: Aggregated_Init_def Let_def InitHttpRequestTimeoutRetries_def sc_constants)
  obtain ag' es' where s: "SendEmptyReport example_sc_lib example_gat 0 ag = Some (ag', es')" "sc_requests es' = [example_http_request]"
      "ag_max_report_size ag' = 6"
    using ag ag0(1,2) url
    by (simp add: SendEmptyReport_def Call_def Let_def Aggregated_GetAuthToken_def GetAuthToken_def GetAuthToken_for_def has_client_secret_def
        example_store_def example_sc_lib_def ServiceAccountToken_def SetAudience_def put_jwt_token_def set_token_def is_valid_def
        GenerateJwtToken_def example_gat_def example_http_request_def sc_http_request_def c_string_def
        servicecontrol_service_def quotacontrol_service_def)
  show thesis using that [OF agg_run.created [OF c i] s] .
qed


section \<open>When a check lets a request pass\<close>

lemma canonical_5xx:
  assumes "c \<ge> 100"
  shows "StatusCodeIs5xxHttpCode (CanonicalCode (Status c msg)) \<longleftrightarrow> 500 \<le> c \<and> c < 600"
    and "CanonicalCode (Status c msg) = 0 \<longleftrightarrow> 200 \<le> c \<and> c < 300"
proof -
  have "list_all (\<lambda>(k, v). (StatusCodeIs5xxHttpCode v \<longleftrightarrow> 500 \<le> k \<and> k < 600) \<and> v \<noteq> 0 \<and> \<not> (200 \<le> k \<and> k < 300)) http_canonical_codes"
    unfolding http_canonical_codes_def list.pred_inject by (simp add: StatusCodeIs5xxHttpCode_def)
  then have t: "map_of http_canonical_codes c = Some v \<Longrightarrow>
      (StatusCodeIs5xxHttpCode v \<longleftrightarrow> 500 \<le> c \<and> c < 600) \<and> v \<noteq> 0 \<and> \<not> (200 \<le> c \<and> c < 300)" for v
    using map_of_list_all [where t = http_canonical_codes and k = c and v = v] by blast
  show "StatusCodeIs5xxHttpCode (CanonicalCode (Status c msg)) \<longleftrightarrow> 500 \<le> c \<and> c < 600"
    using assms t by (cases "map_of http_canonical_codes c")
      (auto simp: CanonicalCode_def Status_def Status3_def StatusCodeIs5xxHttpCode_def)
  show "CanonicalCode (Status c msg) = 0 \<longleftrightarrow> 200 \<le> c \<and> c < 300"
    using assms t by (cases "map_of http_canonical_codes c") (auto simp: CanonicalCode_def Status_def Status3_def)
qed

text \<open>The code that reaches the callback of the check for an answer of the server.\<close>

definition transport_status :: "status \<Rightarrow> bool \<Rightarrow> string \<Rightarrow> status" where
  "transport_status st parsed body =
     (if ok st then if parsed then st else Status INVALID_ARGUMENT ''Invalid response''
      else if code st < 0 then Status UNAVAILABLE ''Failed to connect to service control''
      else Status (code st) (if body = [] then ''Service control request failed with HTTP response code '' @ show_int (code st) else body))"

lemma transport_code:
  assumes "code st \<le> 0 \<or> code st \<ge> 100"
  shows "(error_code (ToProto (transport_status st parsed body)) = 0 \<longleftrightarrow> ok st \<and> parsed \<or> 200 < code st \<and> code st < 300) \<and>
    (StatusCodeIs5xxHttpCode (error_code (ToProto (transport_status st parsed body))) \<longleftrightarrow> code st < 0 \<or> 500 \<le> code st \<and> code st < 600)"
proof -
  have low: "CanonicalCode (Status 3 m) = 3" "CanonicalCode (Status 14 m) = 14" for m by (simp_all add: CanonicalCode_def status_defs)
  consider (ok) "ok st" | (conn) "\<not> ok st" "code st < 0" | (http) "\<not> ok st" "code st \<ge> 100"
    using assms by (fastforce simp: ok_def)
  then show ?thesis
  proof cases
    case ok
    then have c: "code st = 0 \<or> code st = 200" by (simp add: ok_def)
    have "CanonicalCode st = 0" using c by (elim disjE) (simp_all add: CanonicalCode_def http_canonical_codes_def)
    then show ?thesis using ok c low by (elim disjE; cases parsed; simp add: transport_status_def ToProto_def StatusCodeIs5xxHttpCode_def)
  next
    case conn
    then show ?thesis using low by (simp add: transport_status_def ToProto_def StatusCodeIs5xxHttpCode_def)
  next
    case http
    then have ps: "\<exists>m. error_code (ToProto (transport_status st parsed body)) = CanonicalCode (Status (code st) m)" "code st \<noteq> 200"
      by (auto simp: transport_status_def ToProto_def ok_def)
    then show ?thesis using http canonical_5xx [OF http(2)] by auto
  qed
qed

lemma call_response_check:
  assumes "call_response lib traced (CheckMessage request) u st body ag = (CheckAnswer response, ag', es @ [TransportDone ps])"
  shows "network_fail_open ag' = network_fail_open ag \<and> ag_proto ag' = ag_proto ag"
    and "ps = ToProto (transport_status st (fst (sl_parse_check lib body)) body)"
    and "response = (if ok st then snd (sl_parse_check lib body)
       else \<lparr>cresp_project_number = 0, cresp_check_errors = [], cresp_service_rollout_id = [], cresp_service_config_id = []\<rparr>)"
proof -
  obtain parsed r where p: "sl_parse_check lib body = (parsed, r)" by fastforce
  obtain ag1 es1 where h: "HandleResponse (CheckAnswer r) ag = (ag1, es1)" by fastforce
  have h1: "network_fail_open ag1 = network_fail_open ag \<and> ag_proto ag1 = ag_proto ag"
    using h by (auto simp: Let_def split: if_splits)
  show "network_fail_open ag' = network_fail_open ag \<and> ag_proto ag' = ag_proto ag"
    using assms h1 by (cases "ok st") (simp_all add: call_response_def Let_def p h del: HandleResponse.simps)
  show "ps = ToProto (transport_status st (fst (sl_parse_check lib body)) body)"
    using assms by (cases "ok st"; cases parsed) (simp_all add: call_response_def transport_status_def Let_def p h del: HandleResponse.simps)
  show "response = (if ok st then snd (sl_parse_check lib body)
       else \<lparr>cresp_project_number = 0, cresp_check_errors = [], cresp_service_rollout_id = [], cresp_service_config_id = []\<rparr>)"
    using assms by (cases "ok st") (simp_all add: call_response_def Let_def p h del: HandleResponse.simps)
qed


definition example_agg :: "rat list aggregated" where
  "example_agg = Aggregated example_proto_lib 0 0 example_control_service None None {} {} {} False"


end
