(* ===== verification/Request_Context.thy ===== *)
theory Request_Context
  imports Check_Auth Cloud_Trace Service_Control
begin

text \<open>
  The contexts of the proxy: what all services share (\<^verbatim>\<open>src/api_manager/context/global_context.cc\<close>),
  a service (\<^verbatim>\<open>service_context.cc\<close>) and a request (\<^verbatim>\<open>request_context.cc\<close>).  The interfaces
  \<^verbatim>\<open>Request\<close> and \<^verbatim>\<open>Response\<close> of the server are records of what their methods return.
  Byte counts and times are mathematical integers.  \<open>None\<close> as the result of an operation is the
  dereference of a null pointer or a failed \<^verbatim>\<open>GOOGLE_CHECK\<close>.
\<close>

section \<open>The server configuration\<close>

record cloud_tracing_config =
  ctc_force_disable :: bool
  ctc_url_override :: string
  ctc_aggregation :: "(int \<times> int) option"
  ctc_sampling :: "rat option"

record metadata_attributes =
  ma_project_id :: string
  ma_zone :: string
  ma_gae_server_software :: string
  ma_kube_env :: string
  ma_access_token :: "(string \<times> int) option"

record service_management_config =
  smc_url :: string
  smc_fetch_throttle_window_s :: int
  smc_detect_rollout_interval_s :: int

record service_config_rollout =
  scr_traffic_percentages :: "(string \<times> rat) list"
  scr_rollout_id :: string

record server_config =
  sv_service_control :: "service_control_config option"
  sv_metadata_server :: "(bool \<times> string) option"
  sv_google_authentication_secret :: string
  sv_cloud_tracing :: "cloud_tracing_config option"
  sv_api_authentication :: "(bool \<times> int) option"
  sv_client_ip_extraction :: "(string \<times> int) option"
  sv_rollout_strategy :: string
  sv_experimental :: "(bool \<times> bool \<times> bool) option"
  sv_metadata_attributes :: "metadata_attributes option"
  sv_compute_platform_override :: string
  sv_firebase_server :: "string option"
  sv_service_management :: "service_management_config option"
  sv_service_config_rollout :: "service_config_rollout option"
  sv_rewrite :: "string list option"

section \<open>The global context\<close>

definition kCloudTraceUrl :: string where "kCloudTraceUrl = ''https://cloudtrace.googleapis.com''"
definition kDefaultAggregateTimeMillisec :: int where "kDefaultAggregateTimeMillisec = 1000"
definition kDefaultTraceCacheMaxSize :: int where "kDefaultTraceCacheMaxSize = 100"
definition kDefaultTraceSampleQps :: rat where "kDefaultTraceSampleQps = 1 / 10"
definition kIntermediateReportInterval :: int where "kIntermediateReportInterval = 10"
definition kPubKeyCacheDurationInSecond :: int where "kPubKeyCacheDurationInSecond = 300"

definition kGaeFlex :: string where "kGaeFlex = ''GAE Flex''"
definition kGce :: string where "kGce = ''GCE''"
definition kGke :: string where "kGke = ''GKE''"
definition kUnknown :: string where "kUnknown = ''unknown''"

record global_context =
  gx_server_config :: "server_config option"
  gx_service_name :: string
  gx_tokens :: token_context
  gx_aggregator :: "aggregator option"
  gx_rollout_strategy :: string
  gx_is_auth_force_disabled :: bool
  gx_disable_log_status :: bool
  gx_always_print_primitive_fields :: bool
  gx_preserve_proto_field_names :: bool
  gx_intermediate_report_interval :: int
  gx_platform :: string
  gx_project_id :: string
  gx_location :: string
  gx_jwks_cache_duration_in_s :: int
  gx_rollout_id_func :: bool

definition CreateCloudTraceAggregator :: "(rat \<Rightarrow> rat) \<Rightarrow> server_config option \<Rightarrow> aggregator option \<times> env_effect list" where
  "CreateCloudTraceAggregator fl sv =
     (let tracing = Option.bind sv sv_cloud_tracing
      in if (case tracing of Some c \<Rightarrow> ctc_force_disable c | None \<Rightarrow> False)
         then (None, [LogInfo ''Cloud Trace is force disabled. There will be no trace written.''])
         else
           let u = (case tracing of Some c \<Rightarrow> if ctc_url_override c \<noteq> [] then ctc_url_override c else kCloudTraceUrl
                    | None \<Rightarrow> kCloudTraceUrl);
               (time, size) = (case Option.bind tracing ctc_aggregation of Some a \<Rightarrow> a
                               | None \<Rightarrow> (kDefaultAggregateTimeMillisec, kDefaultTraceCacheMaxSize));
               qps = (case Option.bind tracing ctc_sampling of Some q \<Rightarrow> q | None \<Rightarrow> fl kDefaultTraceSampleQps)
           in (Some (new_Aggregator fl u time size qps), []))"

definition compute_platform_of :: "metadata_attributes \<Rightarrow> string" where
  "compute_platform_of metadata =
     (if ma_gae_server_software metadata \<noteq> [] then kGaeFlex else if ma_kube_env metadata \<noteq> [] then kGke else kGce)"

text \<open>The configuration that \<^verbatim>\<open>LoadServerConfig\<close> read, if it did, is an argument.\<close>

definition GlobalContext ::
    "(rat \<Rightarrow> rat) \<Rightarrow> (int \<Rightarrow> string \<Rightarrow> string \<Rightarrow> string option option) \<Rightarrow> int \<Rightarrow> int \<Rightarrow> server_config option \<Rightarrow>
     (global_context \<times> env_effect list) option" where
  "GlobalContext fl get_auth_token garbage now sv =
     (let (agg, logs) = CreateCloudTraceAggregator fl sv;
          gx = \<lparr>gx_server_config = sv, gx_service_name = [],
                gx_tokens = \<lparr>metadata_server = [], tc_service_account_token = ServiceAccountToken garbage,
                             instance_identity_token_map = []\<rparr>,
                gx_aggregator = agg, gx_rollout_strategy = [], gx_is_auth_force_disabled = False,
                gx_disable_log_status = False, gx_always_print_primitive_fields = False,
                gx_preserve_proto_field_names = False, gx_intermediate_report_interval = kIntermediateReportInterval,
                gx_platform = kUnknown, gx_project_id = [], gx_location = [],
                gx_jwks_cache_duration_in_s = kPubKeyCacheDurationInSecond, gx_rollout_id_func = False\<rparr>
      in case sv of
           None \<Rightarrow> Some (gx, logs)
         | Some sv \<Rightarrow> do {
             (st, t, more) \<leftarrow> SetClientAuthSecret get_auth_token now (sv_google_authentication_secret sv)
                                (tc_service_account_token (gx_tokens gx));
             (let metadata = (case sv_metadata_server sv of Some (True, u) \<Rightarrow> u | _ \<Rightarrow> []);
                  t = (case Option.bind (sv_metadata_attributes sv) ma_access_token of
                         Some (tok, expires_in) \<Rightarrow> set_access_token now tok (expires_in - 50) (set_state FETCHED t)
                       | None \<Rightarrow> t);
                  interval = (case sv_service_control sv of
                                Some scc \<Rightarrow> if scc_intermediate_report_min_interval scc \<noteq> 0
                                            then scc_intermediate_report_min_interval scc else kIntermediateReportInterval
                              | None \<Rightarrow> kIntermediateReportInterval);
                  platform = (case sv_metadata_attributes sv of Some ma \<Rightarrow> compute_platform_of ma | None \<Rightarrow> kUnknown)
              in Some
                (gx\<lparr>gx_tokens := \<lparr>metadata_server = metadata, tc_service_account_token = t, instance_identity_token_map = []\<rparr>,
                    gx_rollout_strategy := sv_rollout_strategy sv,
                    gx_is_auth_force_disabled := (case sv_api_authentication sv of Some (disable, _) \<Rightarrow> disable | None \<Rightarrow> False),
                    gx_jwks_cache_duration_in_s := (case sv_api_authentication sv of
                        Some (_, d) \<Rightarrow> if d > 0 then d else kPubKeyCacheDurationInSecond
                      | None \<Rightarrow> kPubKeyCacheDurationInSecond),
                    gx_intermediate_report_interval := interval,
                    gx_platform := (if sv_compute_platform_override sv \<noteq> [] then sv_compute_platform_override sv else platform),
                    gx_location := (case sv_metadata_attributes sv of Some ma \<Rightarrow> ma_zone ma | None \<Rightarrow> []),
                    gx_project_id := (case sv_metadata_attributes sv of Some ma \<Rightarrow> ma_project_id ma | None \<Rightarrow> []),
                    gx_disable_log_status := (case sv_experimental sv of Some (d, _, _) \<Rightarrow> d | None \<Rightarrow> False),
                    gx_always_print_primitive_fields := (case sv_experimental sv of Some (_, a, _) \<Rightarrow> a | None \<Rightarrow> False),
                    gx_preserve_proto_field_names := (case sv_experimental sv of Some (_, _, p) \<Rightarrow> p | None \<Rightarrow> False)\<rparr>,
                 logs @ more))
           })"

section \<open>The service context\<close>

text \<open>The parts of the service that the configuration does not keep are fields of their own.\<close>

record service_context =
  sx_global :: global_context
  sx_config :: config
  sx_control :: control_service
  sx_producer_project_id :: string
  sx_id :: string
  sx_has_authentication :: bool
  sx_api_versions :: "string list"

definition ServiceContext_GetMethodCallInfo ::
    "string \<Rightarrow> string \<Rightarrow> string \<Rightarrow> config option \<Rightarrow> unit + string match_result option" where
  "ServiceContext_GetMethodCallInfo verb url query_params cfg =
     (case cfg of
        None \<Rightarrow> Inr None
      | Some cfg \<Rightarrow>
          (case GetMethodCallInfo verb url query_params cfg of
             Inr None \<Rightarrow> if verb = ''HEAD'' then GetMethodCallInfo ''GET'' url query_params cfg else Inr None
           | r \<Rightarrow> r))"

definition ServiceContext_project_id :: "service_context \<Rightarrow> string" where
  "ServiceContext_project_id sx =
     (if gx_project_id (sx_global sx) \<noteq> [] then gx_project_id (sx_global sx) else sx_producer_project_id sx)"

definition CreateInterface ::
    "('k, 'd) proto_lib \<Rightarrow> int \<Rightarrow> int \<Rightarrow> service_context \<Rightarrow> 'd aggregated option \<times> env_effect list" where
  "CreateInterface plib garbage now sx =
     Aggregated_Create plib garbage now (sx_control sx) (map_option sv_service_control (gx_server_config (sx_global sx)))
       (Some (tc_service_account_token (gx_tokens (sx_global sx)))) (gx_rollout_id_func (sx_global sx))"

section \<open>The request context\<close>

record request =
  GetRequestHTTPMethod :: string
  GetQueryParameters :: string
  GetRequestPath :: string
  GetUnparsedRequestPath :: string
  GetClientIP :: string
  GetClientHost :: string
  FindQuery :: "string \<Rightarrow> string option"
  FindHeader :: "string \<Rightarrow> string option"
  GetFrontendProtocol :: Protocol
  GetBackendProtocol :: Protocol
  add_header_status :: "string \<Rightarrow> string \<Rightarrow> status"

text \<open>What the request has counted when a report is made.\<close>

record grpc_stats =
  GetGrpcRequestBytes :: int
  GetGrpcResponseBytes :: int
  GetGrpcRequestMessageCounts :: int
  GetGrpcResponseMessageCounts :: int

record response =
  GetResponseStatus :: status
  GetRequestSize :: nat
  GetResponseSize :: nat
  GetLatencyInfo :: "latency_info \<Rightarrow> latency_info"
  response_FindHeader :: "string \<Rightarrow> string option"

record request_context =
  rx_request :: request
  rx_check_continuation :: bool
  rx_method :: "method_info option"
  rx_variable_bindings :: "variable_binding list"
  rx_operation_id :: string
  rx_api_key :: string
  rx_check_response_info :: check_response_info
  rx_http_referer :: string
  rx_auth_issuer :: string
  rx_auth_audience :: string
  rx_auth_authorized_party :: string
  rx_auth_claims :: string
  rx_cloud_trace :: "cloud_trace option"
  rx_backend_span :: "cloud_trace_span option"
  rx_start_time :: int
  rx_is_first_report :: bool
  rx_last_report_time :: int
  rx_last_request_bytes :: int
  rx_last_response_bytes :: int
  rx_auth_token :: string
  rx_api_key_from_query :: bool

text \<open>The libraries: floating point rounding, Abseil, the version of the proxy and the JSON parser.\<close>

record context_lib =
  xl_fl :: "rat \<Rightarrow> rat"
  xl_absl :: absl_api
  xl_version :: string
  xl_parse_json :: "string \<Rightarrow> grpc_json option"

definition kCloudTraceContextHeader :: string where "kCloudTraceContextHeader = ''X-Cloud-Trace-Context''"
definition kGRpcTraceContextHeader :: string where "kGRpcTraceContextHeader = ''grpc-trace-bin''"
definition kAuthorizationHeader :: string where "kAuthorizationHeader = ''Authorization''"
definition kXForwardedAuthorizationHeader :: string where "kXForwardedAuthorizationHeader = ''X-Forwarded-Authorization''"
definition kBearerPrefix :: string where "kBearerPrefix = ''Bearer ''"
definition kHttpMethodOverrideHeader :: string where "kHttpMethodOverrideHeader = ''X-HTTP-Method-Override''"
definition kMessage :: string where "kMessage = ''Method: ''"
definition kIgnoredMessage :: string where
  "kIgnoredMessage = ''Endpoints management skipped for an unrecognized HTTP call: ''"
definition kUnknownHttpVerb :: string where "kUnknownHttpVerb = ''<Unknown HTTP Verb>''"
definition kUnrecognizedOperation :: string where "kUnrecognizedOperation = ''<Unknown Operation Name>''"
definition kDefaultApiKeyQueryName1 :: string where "kDefaultApiKeyQueryName1 = ''key''"
definition kDefaultApiKeyQueryName2 :: string where "kDefaultApiKeyQueryName2 = ''api_key''"
definition kDefaultApiKeyHeaderName :: string where "kDefaultApiKeyHeaderName = ''x-api-key''"
definition kClientIPHeaderDelimeter :: char where "kClientIPHeaderDelimeter = CHR '',''"
definition kXAndroidPackage :: string where "kXAndroidPackage = ''x-android-package''"
definition kXAndroidCert :: string where "kXAndroidCert = ''x-android-cert''"
definition kXIosBundleId :: string where "kXIosBundleId = ''x-ios-bundle-identifier''"

definition GetRequestHTTPMethodWithOverride :: "request \<Rightarrow> string \<times> env_effect list" where
  "GetRequestHTTPMethodWithOverride rq =
     (let verb = (case FindHeader rq kHttpMethodOverrideHeader of Some v \<Rightarrow> v | None \<Rightarrow> GetRequestHTTPMethod rq)
      in (verb, [LogDebug (''Request method SET TO: '' @ verb)]))"

fun first_found :: "(string \<Rightarrow> string option) \<Rightarrow> string list \<Rightarrow> string option" where
  "first_found get [] = None"
| "first_found get (name # names) = (case get name of Some v \<Rightarrow> Some v | None \<Rightarrow> first_found get names)"

text \<open>The key and whether it comes from the query.\<close>

definition ExtractApiKey :: "request \<Rightarrow> method_info \<Rightarrow> string \<times> bool" where
  "ExtractApiKey rq m =
     (let url_queries = api_key_url_query_parameters m; headers = api_key_http_headers m
      in case Option.bind url_queries (first_found (FindQuery rq)) of
           Some key \<Rightarrow> (key, True)
         | None \<Rightarrow>
             (case Option.bind headers (first_found (FindHeader rq)) of
                Some key \<Rightarrow> (key, False)
              | None \<Rightarrow>
                  if url_queries = None \<and> headers = None then
                    (case FindQuery rq kDefaultApiKeyQueryName1 of
                       Some key \<Rightarrow> (key, True)
                     | None \<Rightarrow>
                         (case FindQuery rq kDefaultApiKeyQueryName2 of
                            Some key \<Rightarrow> (key, True)
                          | None \<Rightarrow> (case FindHeader rq kDefaultApiKeyHeaderName of Some key \<Rightarrow> (key, False) | None \<Rightarrow> ([], False))))
                  else ([], False)))"

definition set_aggregator :: "aggregator option \<Rightarrow> service_context \<Rightarrow> service_context" where
  "set_aggregator agg sx = sx\<lparr>sx_global := (sx_global sx)\<lparr>gx_aggregator := agg\<rparr>\<rparr>"

text \<open>
  \<open>uuid\<close> and \<open>rnds\<close> are the generated numbers, \<open>now\<close> and \<open>steady\<close> the two clocks.  The trace is
  created with the sampler of the aggregator of the global context.
\<close>

definition RequestContext ::
    "context_lib \<Rightarrow> string \<Rightarrow> 64 word \<times> 64 word \<times> 64 word \<Rightarrow> int \<Rightarrow> int \<Rightarrow> service_context \<Rightarrow> request \<Rightarrow>
     (request_context \<times> service_context \<times> env_effect list) option" where
  "RequestContext lib uuid rnds now steady sx rq =
     (let (verb, logs) = GetRequestHTTPMethodWithOverride rq
      in case ServiceContext_GetMethodCallInfo verb (GetUnparsedRequestPath rq) (GetQueryParameters rq) (Some (sx_config sx)) of
           Inl _ \<Rightarrow> None
         | Inr call \<Rightarrow>
             let m = Option.bind call (\<lambda>r. map_of (method_map (sx_config sx)) (mr_method r));
                 (key, from_query) = (case m of Some m \<Rightarrow> if \<not> allow_unregistered_calls m then ExtractApiKey rq m else ([], False)
                                      | None \<Rightarrow> ([], False));
                 referer = (case FindHeader rq ''referer'' of Some r \<Rightarrow> r | None \<Rightarrow> []);
                 (ct, agg) = (case gx_aggregator (sx_global sx) of
                     None \<Rightarrow> (None, None)
                   | Some agg \<Rightarrow>
                       let (header, type) = (case FindHeader rq kGRpcTraceContextHeader of
                               Some h \<Rightarrow> (h, GRPC_TRACE_CONTEXT)
                             | None \<Rightarrow> (case FindHeader rq kCloudTraceContextHeader of Some h \<Rightarrow> h | None \<Rightarrow> [], CLOUD_TRACE_CONTEXT));
                           name = s_name (cfg_service (sx_config sx)) @ ''/'' @
                             (case m of Some m \<Rightarrow> selector m | None \<Rightarrow> kUnrecognizedOperation);
                           (ct, smp) = CreateCloudTrace (xl_fl lib) (xl_absl lib) (xl_version lib) rnds now header name type
                                         (Some (agg_sampler agg))
                       in (ct, Some (case smp of Some s \<Rightarrow> agg\<lparr>agg_sampler := s\<rparr> | None \<Rightarrow> agg)))
             in Some (\<lparr>rx_request = rq, rx_check_continuation = False, rx_method = m,
                       rx_variable_bindings = (case call of Some r \<Rightarrow> mr_bindings r | None \<Rightarrow> []),
                       rx_operation_id = uuid, rx_api_key = key, rx_check_response_info = CheckResponseInfo,
                       rx_http_referer = referer, rx_auth_issuer = [], rx_auth_audience = [], rx_auth_authorized_party = [],
                       rx_auth_claims = [], rx_cloud_trace = ct, rx_backend_span = None, rx_start_time = now,
                       rx_is_first_report = True, rx_last_report_time = steady, rx_last_request_bytes = 0,
                       rx_last_response_bytes = 0, rx_auth_token = [], rx_api_key_from_query = from_query\<rparr>,
                      set_aggregator agg sx, logs))"

definition SetApiKeyHeader :: "request_context \<Rightarrow> auth_effect list" where
  "SetApiKeyHeader rx = [AddHeaderToBackend kDefaultApiKeyHeaderName (rx_api_key rx)]"

definition set_check_continuation :: "request_context \<Rightarrow> request_context" where
  "set_check_continuation rx = rx\<lparr>rx_check_continuation := True\<rparr>"

text \<open>The continuation is called with the status: the result.\<close>

definition CompleteCheck :: "status \<Rightarrow> request_context \<Rightarrow> (status \<times> request_context) option" where
  "CompleteCheck st rx =
     (if \<not> rx_check_continuation rx then None else Some (st, rx\<lparr>rx_check_continuation := False\<rparr>))"

definition FindClientIPAddress :: "service_context \<Rightarrow> request_context \<Rightarrow> string option" where
  "FindClientIPAddress sx rx =
     (case gx_server_config (sx_global sx) of
        None \<Rightarrow> None
      | Some sv \<Rightarrow>
          Some (case sv_client_ip_extraction sv of
            Some (header, position) \<Rightarrow>
              (case if length header > 0 then FindHeader (rx_request rx) header else None of
                 Some client_ip_header \<Rightarrow>
                   let secments = split_string kClientIPHeaderDelimeter client_ip_header;
                       position = (if position < 0 then int (length secments) + position else position)
                   in if position \<ge> 0 \<and> position < int (length secments) then Trim (secments ! nat position)
                      else GetClientIP (rx_request rx)
               | None \<Rightarrow> GetClientIP (rx_request rx))
          | None \<Rightarrow> GetClientIP (rx_request rx)))"

definition FillOperationInfo ::
    "service_context \<Rightarrow> request_context \<Rightarrow> 'a operation_info_scheme \<Rightarrow> 'a operation_info_scheme option" where
  "FillOperationInfo sx rx info = do {
     ip \<leftarrow> FindClientIPAddress sx rx;
     Some (info\<lparr>oi_operation_name := (case rx_method rx of Some m \<Rightarrow> selector m | None \<Rightarrow> kUnrecognizedOperation),
                oi_operation_id := rx_operation_id rx,
                oi_api_key := (if is_api_key_valid (rx_check_response_info rx) \<and> service_is_activated (rx_check_response_info rx)
                               then rx_api_key rx else oi_api_key info),
                oi_producer_project_id := ServiceContext_project_id sx,
                oi_referer := rx_http_referer rx, oi_request_start_time := rx_start_time rx,
                oi_client_ip := ip, oi_client_host := GetClientHost (rx_request rx)\<rparr>)
   }"

section \<open>Information for service control\<close>

definition FillLocation :: "service_context \<Rightarrow> report_request_info \<Rightarrow> report_request_info" where
  "FillLocation sx info = info\<lparr>location := gx_location (sx_global sx)\<rparr>"

definition FillComputePlatform :: "service_context \<Rightarrow> report_request_info \<Rightarrow> report_request_info" where
  "FillComputePlatform sx info = info\<lparr>compute_platform := gx_platform (sx_global sx)\<rparr>"

definition FillLogMessage :: "request_context \<Rightarrow> report_request_info \<Rightarrow> report_request_info" where
  "FillLogMessage rx info =
     (case rx_method rx of
        Some m \<Rightarrow>
          info\<lparr>api_method := selector m, ri_api_name := api_name m, ri_api_version := api_version m,
               log_message := kMessage @ selector m @
                 (if response_code info \<ge> 400 then '' failed: '' @ ToString (ri_status info) else [])\<rparr>
      | None \<Rightarrow>
          info\<lparr>log_message := kIgnoredMessage @ (if http_method info = [] then kUnknownHttpVerb else http_method info) @ '' '' @
                 GetUnparsedRequestPath (rx_request rx)\<rparr>)"

fun log_headers :: "(string \<Rightarrow> string option) \<Rightarrow> string list \<Rightarrow> string \<Rightarrow> string" where
  "log_headers get [] acc = acc"
| "log_headers get (header # headers) acc =
     log_headers get headers (case get header of Some v \<Rightarrow> acc @ header @ ''='' @ v @ '';'' | None \<Rightarrow> acc)"

definition FillHttpHeaders ::
    "service_context \<Rightarrow> request_context \<Rightarrow> response \<Rightarrow> report_request_info \<Rightarrow> report_request_info option" where
  "FillHttpHeaders sx rx rsp info =
     (case gx_server_config (sx_global sx) of
        None \<Rightarrow> None
      | Some sv \<Rightarrow>
          Some (case sv_service_control sv of
            Some scc \<Rightarrow>
              info\<lparr>request_headers := log_headers (FindHeader (rx_request rx)) (scc_log_request_header scc) (request_headers info),
                   response_headers := log_headers (response_FindHeader rsp) (scc_log_response_header scc) (response_headers info)\<rparr>
          | None \<Rightarrow> info))"

fun log_payloads :: "(string \<Rightarrow> string option option) \<Rightarrow> string list \<Rightarrow> string \<Rightarrow> string option" where
  "log_payloads get [] acc = Some acc"
| "log_payloads get (path # paths) acc = do {
     v \<leftarrow> get path;
     log_payloads get paths (case v of Some v \<Rightarrow> acc @ path @ ''='' @ v @ '';'' | None \<Rightarrow> acc)
   }"

definition FillJwtPayloads ::
    "context_lib \<Rightarrow> service_context \<Rightarrow> request_context \<Rightarrow> report_request_info \<Rightarrow> report_request_info option" where
  "FillJwtPayloads lib sx rx info =
     (case gx_server_config (sx_global sx) of
        None \<Rightarrow> None
      | Some sv \<Rightarrow>
          (case sv_service_control sv of
             Some scc \<Rightarrow> do {
               s \<leftarrow> log_payloads (GetPrimitiveFieldValue (xl_parse_json lib) (rx_auth_claims rx)) (scc_log_jwt_payload scc)
                     (jwt_payloads info);
               Some (info\<lparr>jwt_payloads := s\<rparr>)
             }
           | None \<Rightarrow> Some info))"

definition found_or :: "string \<Rightarrow> string option \<Rightarrow> string" where
  "found_or old v = (case v of Some v \<Rightarrow> v | None \<Rightarrow> old)"

definition FillCheckRequestInfo ::
    "service_context \<Rightarrow> request_context \<Rightarrow> check_request_info \<Rightarrow> check_request_info option" where
  "FillCheckRequestInfo sx rx info = do {
     info \<leftarrow> FillOperationInfo sx rx info;
     (let get = FindHeader (rx_request rx)
      in Some (info\<lparr>android_package_name := found_or (android_package_name info) (get kXAndroidPackage),
                    android_cert_fingerprint := found_or (android_cert_fingerprint info) (get kXAndroidCert),
                    ios_bundle_id := found_or (ios_bundle_id info) (get kXIosBundleId)\<rparr>))
   }"

definition FillAllocateQuotaRequestInfo ::
    "service_context \<Rightarrow> request_context \<Rightarrow> quota_request_info \<Rightarrow> quota_request_info option" where
  "FillAllocateQuotaRequestInfo sx rx info = do {
     info \<leftarrow> FillOperationInfo sx rx info;
     m \<leftarrow> rx_method rx;
     Some (info\<lparr>method_name := mi_name m, qi_metric_cost_vector := Some (metric_cost_vector m)\<rparr>)
   }"

text \<open>The bytes since the last report: the difference, and at the end at least 0.\<close>

definition FillReportRequestInfo ::
    "context_lib \<Rightarrow> int \<Rightarrow> grpc_stats \<Rightarrow> service_context \<Rightarrow> response option \<Rightarrow> report_request_info \<Rightarrow> request_context \<Rightarrow>
     (report_request_info \<times> request_context \<times> env_effect list) option" where
  "FillReportRequestInfo lib now stats sx rsp info rx = do {
     info \<leftarrow> FillOperationInfo sx rx info;
     (let info = FillComputePlatform sx (FillLocation sx info);
          (verb, logs) = GetRequestHTTPMethodWithOverride (rx_request rx);
          info = info\<lparr>ri_url := GetUnparsedRequestPath (rx_request rx), http_method := verb,
                      frontend_protocol := GetFrontendProtocol (rx_request rx),
                      backend_protocol := GetBackendProtocol (rx_request rx),
                      ri_check_response_info := rx_check_response_info rx,
                      auth_issuer := rx_auth_issuer rx, auth_audience := rx_auth_audience rx\<rparr>
      in if \<not> is_final_report info then
           let info = info\<lparr>request_bytes := GetGrpcRequestBytes stats - rx_last_request_bytes rx,
                           response_bytes := GetGrpcResponseBytes stats - rx_last_response_bytes rx\<rparr>
           in Some (info, rx\<lparr>rx_last_request_bytes := rx_last_request_bytes rx + request_bytes info,
                             rx_last_response_bytes := rx_last_response_bytes rx + response_bytes info\<rparr>, logs)
         else do {
           rsp \<leftarrow> rsp;
           (let info = info\<lparr>request_size := int (GetRequestSize rsp), response_size := int (GetResponseSize rsp)\<rparr>;
                info = info\<lparr>request_bytes := max 0 (request_size info - rx_last_request_bytes rx),
                            response_bytes := max 0 (response_size info - rx_last_response_bytes rx),
                            streaming_request_message_counts := GetGrpcRequestMessageCounts stats,
                            streaming_response_message_counts := GetGrpcResponseMessageCounts stats,
                            streaming_durations := (now - rx_start_time rx) sdiv 1000,
                            ri_status := GetResponseStatus rsp,
                            response_code := HttpCode (GetResponseStatus rsp)\<rparr>;
                info = FillLogMessage rx info
            in do {
              info \<leftarrow> FillHttpHeaders sx rx rsp info;
              info \<leftarrow> FillJwtPayloads lib sx rx info;
              (let is_streaming = (case rx_method rx of Some m \<Rightarrow> request_streaming m \<or> response_streaming m | None \<Rightarrow> False)
               in Some (if \<not> is_streaming then info\<lparr>latency := GetLatencyInfo rsp (latency info)\<rparr> else info, rx, logs))
            })
         })
   }"

section \<open>The backend\<close>

definition StartBackendSpanAndSetTraceContext ::
    "context_lib \<Rightarrow> 64 word \<Rightarrow> int \<Rightarrow> request_context \<Rightarrow> (request_context \<times> auth_effect list) option" where
  "StartBackendSpanAndSetTraceContext lib rnd now rx =
     (case CreateSpan (xl_version lib) rnd now (rx_cloud_trace rx) ''Backend'' of
        (Some sp, Some ct) \<Rightarrow>
          let header = ToTraceContextHeader (xl_absl lib) ct (span_id (spans (ct_trace ct) ! span_index sp));
              name = (if ct_header_type ct = CLOUD_TRACE_CONTEXT then kCloudTraceContextHeader else kGRpcTraceContextHeader)
          in Some (rx\<lparr>rx_cloud_trace := Some ct, rx_backend_span := Some sp\<rparr>,
                   AddHeaderToBackend name header #
                   (if \<not> ok (add_header_status (rx_request rx) name header)
                    then [Env (LogError ''Failed to set trace context header to backend.'')] else []))
      | _ \<Rightarrow> None)"

definition EndBackendSpan :: "int \<Rightarrow> request_context \<Rightarrow> request_context" where
  "EndBackendSpan now rx =
     rx\<lparr>rx_backend_span := None,
        rx_cloud_trace := (case (rx_backend_span rx, rx_cloud_trace rx) of
            (Some sp, Some ct) \<Rightarrow> Some (ct\<lparr>ct_trace := delete_CloudTraceSpan now sp (ct_trace ct)\<rparr>)
          | (_, ct) \<Rightarrow> ct)\<rparr>"

definition GetAuthorizationUrl :: "request_context \<Rightarrow> string" where
  "GetAuthorizationUrl rx =
     (case rx_method rx of
        None \<Rightarrow> []
      | Some m \<Rightarrow> if rx_auth_issuer rx = [] then first_authorization_url m else authorization_url_by_issuer (rx_auth_issuer rx) m)"

text \<open>A field name in snake case is replaced by its JSON name if there is one.\<close>

definition backend_field :: "config \<Rightarrow> string \<Rightarrow> string" where
  "backend_field c f =
     (case str_find (CHR ''_'') f of
        Some _ \<Rightarrow> (case GetJsonName f c of Some n \<Rightarrow> n | None \<Rightarrow> f)
      | None \<Rightarrow> f)"

fun append_field_path :: "config \<Rightarrow> string list \<Rightarrow> string \<Rightarrow> string" where
  "append_field_path c [] params = params"
| "append_field_path c (f # fs) params = append_field_path c fs (params @ backend_field c f @ (if fs \<noteq> [] then ''.'' else []))"

fun append_bindings :: "config \<Rightarrow> variable_binding list \<Rightarrow> string \<Rightarrow> string" where
  "append_bindings c [] params = params"
| "append_bindings c (b # bs) params =
     append_bindings c bs (append_field_path c (vb_field_path b) params @ ''='' @ vb_value b @ (if bs \<noteq> [] then ''&'' else []))"

definition GetBackendPath :: "config \<Rightarrow> request_context \<Rightarrow> string" where
  "GetBackendPath c rx =
     (case rx_method rx of
        None \<Rightarrow> []
      | Some m \<Rightarrow>
          if backend_path_translation m = APPEND_PATH_TO_ADDRESS then
            if backend_path m \<noteq> [] then backend_path m @ GetUnparsedRequestPath (rx_request rx) else []
          else if backend_path_translation m = CONSTANT_ADDRESS then
            let parameters = append_bindings c (rx_variable_bindings rx) []
            in if parameters \<noteq> [] then backend_path m @ ''?'' @ parameters else backend_path m
          else [])"

definition ShouldOverrideBackend :: "request_context \<Rightarrow> bool" where
  "ShouldOverrideBackend rx =
     (case rx_method rx of None \<Rightarrow> False | Some m \<Rightarrow> backend_path_translation m \<noteq> PATH_TRANSLATION_UNSPECIFIED)"

definition AddInstanceIdentityToken ::
    "int \<Rightarrow> request_context \<Rightarrow> token_context \<Rightarrow> token_context \<times> auth_effect list" where
  "AddInstanceIdentityToken garbage rx ctx =
     (case rx_method rx of
        None \<Rightarrow> (ctx, [])
      | Some m \<Rightarrow>
          if backend_jwt_audience m = [] then (ctx, [])
          else
            let (t, ctx) = GetInstanceIdentityToken garbage (backend_jwt_audience m) ctx;
                tok = token (access_token t); rq = rx_request rx
            in if tok = [] then (ctx, [])
               else (ctx,
                 (case FindHeader rq kAuthorizationHeader of
                    Some origin \<Rightarrow>
                      AddHeaderToBackend kXForwardedAuthorizationHeader origin #
                      (if \<not> ok (add_header_status rq kXForwardedAuthorizationHeader origin)
                       then [Env (LogError ''Failed to set X-Forwarded-Authorization header to backend.'')] else [])
                  | None \<Rightarrow> []) @
                 AddHeaderToBackend kAuthorizationHeader (kBearerPrefix @ tok) #
                 (if \<not> ok (add_header_status rq kAuthorizationHeader (kBearerPrefix @ tok))
                  then [Env (LogError ''Failed to set authorization header to backend.'')] else [])))"

section \<open>The API key\<close>

text \<open>Where the key of a method is looked for, in this order; \<open>True\<close> marks a query parameter.\<close>

definition api_key_sources :: "method_info \<Rightarrow> (bool \<times> string) list" where
  "api_key_sources m =
     (case (api_key_url_query_parameters m, api_key_http_headers m) of
        (None, None) \<Rightarrow> [(True, ''key''), (True, ''api_key''), (False, ''x-api-key'')]
      | (qs, hs) \<Rightarrow> map (Pair True) (case qs of Some qs \<Rightarrow> qs | None \<Rightarrow> []) @
                    map (Pair False) (case hs of Some hs \<Rightarrow> hs | None \<Rightarrow> []))"

definition source_value :: "request \<Rightarrow> bool \<times> string \<Rightarrow> string option" where
  "source_value rq s = (if fst s then FindQuery rq (snd s) else FindHeader rq (snd s))"

fun first_source :: "request \<Rightarrow> (bool \<times> string) list \<Rightarrow> string \<times> bool" where
  "first_source rq [] = ([], False)"
| "first_source rq (s # ss) = (case source_value rq s of Some v \<Rightarrow> (v, fst s) | None \<Rightarrow> first_source rq ss)"

lemma first_source_append:
  "first_source rq (map (Pair b) names @ rest) =
     (case first_found (if b then FindQuery rq else FindHeader rq) names of Some v \<Rightarrow> (v, b) | None \<Rightarrow> first_source rq rest)"
  by (induction names) (auto simp: source_value_def split: option.split)

lemma ExtractApiKey_sources: "ExtractApiKey rq m = first_source rq (api_key_sources m)"
  using first_source_append [of rq False _ "[]"] first_source_append [of rq True _ "[]"]
  by (cases "api_key_url_query_parameters m"; cases "api_key_http_headers m")
    (simp_all add: ExtractApiKey_def api_key_sources_def first_source_append source_value_def kDefaultApiKeyQueryName1_def
      kDefaultApiKeyQueryName2_def kDefaultApiKeyHeaderName_def split: option.split)

lemma first_source_hit:
  "i < length ss \<Longrightarrow> source_value rq (ss ! i) = Some v \<Longrightarrow> \<forall>j < i. source_value rq (ss ! j) = None \<Longrightarrow>
     first_source rq ss = (v, fst (ss ! i))"
proof (induction ss arbitrary: i)
  case (Cons s ss)
  show ?case
  proof (cases i)
    case (Suc j)
    have "\<forall>k < j. source_value rq (ss ! k) = None" using Cons.prems(3) Suc by (metis Suc_mono nth_Cons_Suc)
    moreover have "source_value rq s = None" using Cons.prems(3) Suc by (metis nth_Cons_0 zero_less_Suc)
    ultimately show ?thesis using Cons.IH [of j] Cons.prems(1,2) Suc by simp
  qed (use Cons.prems in simp)
qed simp

lemma first_source_miss: "\<forall>s \<in> set ss. source_value rq s = None \<Longrightarrow> first_source rq ss = ([], False)"
  by (induction ss) auto

text \<open>
  the API key of a request is the value of the first of the configured query parameters, then
  of the configured headers, that the request has, and only without any configuration of the
  key the default names are tried; it is marked as coming from the query accordingly.
\<close>

theorem ExtractApiKey_first:
  "(i < length (api_key_sources m) \<and> source_value rq (api_key_sources m ! i) = Some v \<and>
      (\<forall>j < i. source_value rq (api_key_sources m ! j) = None) \<longrightarrow>
      ExtractApiKey rq m = (v, fst (api_key_sources m ! i))) \<and>
   ((\<forall>s \<in> set (api_key_sources m). source_value rq s = None) \<longrightarrow> ExtractApiKey rq m = ([], False))"
  unfolding ExtractApiKey_sources using first_source_hit first_source_miss by blast

definition example_request :: request where
  "example_request = \<lparr>GetRequestHTTPMethod = ''GET'', GetQueryParameters = [], GetRequestPath = ''/shelves'',
     GetUnparsedRequestPath = ''/shelves'', GetClientIP = ''10.0.0.1'', GetClientHost = [],
     FindQuery = (\<lambda>n. if n = ''api_key'' then Some ''k1'' else None),
     FindHeader = (\<lambda>n. if n = ''x-api-key'' then Some ''k2'' else None),
     GetFrontendProtocol = HTTP, GetBackendProtocol = HTTP, add_header_status = (\<lambda>_ _. Status_OK)\<rparr>"

theorem ExtractApiKey_first_witness: "ExtractApiKey example_request (MethodInfoImpl ''List'' ''Books'' ''v1'') = (''k1'', True)"
proof -
  let ?m = "MethodInfoImpl ''List'' ''Books'' ''v1''"
  have s: "api_key_sources ?m = [(True, ''key''), (True, ''api_key''), (False, ''x-api-key'')]"
    by (simp add: api_key_sources_def MethodInfoImpl_def)
  have "\<forall>j < 1. source_value example_request (api_key_sources ?m ! j) = None"
    by (simp add: s source_value_def example_request_def)
  then show ?thesis using ExtractApiKey_first [of 1 ?m example_request "''k1''"]
    by (simp add: s source_value_def example_request_def)
qed

section \<open>The client address\<close>

text \<open>
  with a server configuration the client address is found without an index out of range: the
  element of the configured header at the configured position, counted from the end when it is
  negative, without blanks, if there is one, and the address of the connection otherwise.
\<close>

theorem FindClientIPAddress_position:
  assumes "gx_server_config (sx_global sx) = Some sv" and "sv_client_ip_extraction sv = Some (header, position)" and "header \<noteq> []"
    and "FindHeader (rx_request rx) header = Some h"
  shows "FindClientIPAddress sx rx =
    Some (let ips = split_string CHR '','' h; n = int (length ips)
          in if - n \<le> position \<and> position < n then Trim (ips ! nat (position mod n)) else GetClientIP (rx_request rx))"
proof -
  let ?ips = "split_string CHR '','' h" and ?n = "int (length (split_string CHR '','' h))"
  have "position mod ?n = (if position < 0 then ?n + position else position)" if "- ?n \<le> position" "position < ?n"
  proof (cases "position < 0")
    case True
    then have "(position + ?n) mod ?n = position + ?n" using that by (intro mod_pos_pos_trivial) auto
    then show ?thesis using True by simp
  qed (use that in \<open>simp add: mod_pos_pos_trivial\<close>)
  then show ?thesis
    using assms by (simp add: FindClientIPAddress_def Let_def kClientIPHeaderDelimeter_def)
qed

section \<open>Bytes over the reports of a request\<close>

fun intermediate_reports ::
    "context_lib \<Rightarrow> service_context \<Rightarrow> (int \<times> grpc_stats) list \<Rightarrow> request_context \<Rightarrow> (report_request_info list \<times> request_context) option" where
  "intermediate_reports lib sx [] rx = Some ([], rx)"
| "intermediate_reports lib sx ((now, stats) # rest) rx = do {
     (info, rx, _) \<leftarrow> FillReportRequestInfo lib now stats sx None (ReportRequestInfo\<lparr>is_final_report := False\<rparr>) rx;
     (infos, rx) \<leftarrow> intermediate_reports lib sx rest rx;
     Some (info # infos, rx)
   }"

lemma FillOperationInfo_final: "FillOperationInfo sx rx info = Some info' \<Longrightarrow> is_final_report info' = is_final_report (info :: report_request_info)"
  by (auto simp: FillOperationInfo_def bind_eq_Some_conv)

lemma intermediate_bytes:
  assumes "FillReportRequestInfo lib now stats sx rsp info rx = Some (info', rx', logs)" "\<not> is_final_report info"
  shows "request_bytes info' = GetGrpcRequestBytes stats - rx_last_request_bytes rx \<and>
    response_bytes info' = GetGrpcResponseBytes stats - rx_last_response_bytes rx \<and>
    rx_last_request_bytes rx' = GetGrpcRequestBytes stats \<and> rx_last_response_bytes rx' = GetGrpcResponseBytes stats"
proof -
  obtain info1 where i1: "FillOperationInfo sx rx info = Some info1"
    using assms(1) by (cases "FillOperationInfo sx rx info") (simp_all add: FillReportRequestInfo_def)
  have "\<not> is_final_report info1" using FillOperationInfo_final [OF i1] assms(2) by simp
  then show ?thesis
    using assms(1) i1
    by (auto simp: FillReportRequestInfo_def Let_def GetRequestHTTPMethodWithOverride_def FillComputePlatform_def FillLocation_def)
qed

lemma filled_bytes:
  "FillHttpHeaders sx rx rsp info = Some info' \<Longrightarrow> request_bytes info' = request_bytes info \<and> response_bytes info' = response_bytes info"
  "FillJwtPayloads lib sx rx info = Some info' \<Longrightarrow> request_bytes info' = request_bytes info \<and> response_bytes info' = response_bytes info"
  "request_bytes (FillLogMessage rx info) = request_bytes info" "response_bytes (FillLogMessage rx info) = response_bytes info"
  by (auto simp: FillHttpHeaders_def FillJwtPayloads_def FillLogMessage_def bind_eq_Some_conv split: option.splits)

lemma final_bytes:
  assumes "FillReportRequestInfo lib now stats sx (Some rsp) info rx = Some (info', rx', logs)" "is_final_report info"
  shows "request_bytes info' = max 0 (int (GetRequestSize rsp) - rx_last_request_bytes rx) \<and>
    response_bytes info' = max 0 (int (GetResponseSize rsp) - rx_last_response_bytes rx)"
proof -
  obtain info1 where i1: "FillOperationInfo sx rx info = Some info1"
    using assms(1) by (cases "FillOperationInfo sx rx info") (simp_all add: FillReportRequestInfo_def)
  have f: "is_final_report info1" using FillOperationInfo_final [OF i1] assms(2) by simp
  show ?thesis
    using assms(1) i1 f
    by (auto simp: FillReportRequestInfo_def Let_def GetRequestHTTPMethodWithOverride_def FillComputePlatform_def FillLocation_def
        bind_eq_Some_conv filled_bytes(3,4) dest!: filled_bytes(1,2))
qed

lemma intermediate_reports_sum:
  "intermediate_reports lib sx xs rx = Some (infos, rx') \<Longrightarrow>
     rx_last_request_bytes rx' = rx_last_request_bytes rx + sum_list (map request_bytes infos) \<and>
     rx_last_response_bytes rx' = rx_last_response_bytes rx + sum_list (map response_bytes infos) \<and>
     (xs \<noteq> [] \<longrightarrow> rx_last_request_bytes rx' = GetGrpcRequestBytes (snd (last xs)) \<and>
        rx_last_response_bytes rx' = GetGrpcResponseBytes (snd (last xs)))"
proof (induction lib sx xs rx arbitrary: infos rule: intermediate_reports.induct)
  case (2 lib sx now stats rest rx)
  obtain info rx1 logs infos1 where
    1: "FillReportRequestInfo lib now stats sx None (ReportRequestInfo\<lparr>is_final_report := False\<rparr>) rx = Some (info, rx1, logs)"
      "intermediate_reports lib sx rest rx1 = Some (infos1, rx')" "infos = info # infos1"
    using "2.prems" by (auto simp: bind_eq_Some_conv)
  have "\<not> is_final_report (ReportRequestInfo\<lparr>is_final_report := False\<rparr>)" by simp
  note b = intermediate_bytes [OF 1(1) this]
  note ih = "2.IH" [OF 1(1) refl refl 1(2)]
  show ?case using b ih 1(2,3) by (cases "rest = []") auto
qed auto

text \<open>
  C36: over the reports of a streaming request, the intermediate ones and the final one, the bytes
  add up to the size of the request and of the response at the end, or to what the last
  intermediate report had counted when that is more: no byte is reported twice.
\<close>

theorem reported_bytes_total:
  assumes "RequestContext lib uuid rnds t0 steady sx0 rq = Some (rx0, sx1, logs0)"
    and "intermediate_reports lib sx xs rx0 = Some (infos, rx)"
    and "FillReportRequestInfo lib now stats sx (Some rsp) ReportRequestInfo rx = Some (info, rx', logs)"
  shows "sum_list (map request_bytes (infos @ [info])) =
      max (int (GetRequestSize rsp)) (if xs = [] then 0 else GetGrpcRequestBytes (snd (last xs))) \<and>
    sum_list (map response_bytes (infos @ [info])) =
      max (int (GetResponseSize rsp)) (if xs = [] then 0 else GetGrpcResponseBytes (snd (last xs)))"
proof -
  have zero: "rx_last_request_bytes rx0 = 0" "rx_last_response_bytes rx0 = 0"
    using assms(1) by (auto simp: RequestContext_def Let_def split: prod.splits sum.splits)
  have "is_final_report ReportRequestInfo" by (simp add: ReportRequestInfo_def)
  note f = final_bytes [OF assms(3) this]
  have "xs = [] \<Longrightarrow> infos = []" using assms(2) by simp
  then show ?thesis using intermediate_reports_sum [OF assms(2)] f zero by (cases "xs = []") auto
qed

section \<open>The parameters of the backend\<close>

text \<open>A binding as a query parameter.\<close>

definition binding_parameter :: "config \<Rightarrow> variable_binding \<Rightarrow> string" where
  "binding_parameter c b = join_string (CHR ''.'') (map (backend_field c) (vb_field_path b)) @ ''='' @ vb_value b"

lemma append_field_path_join: "append_field_path c fs params = params @ join_string (CHR ''.'') (map (backend_field c) fs)"
proof (induction c fs params rule: append_field_path.induct)
  case (2 c f fs params)
  then show ?case by (cases fs) simp_all
qed simp

lemma append_bindings_join: "append_bindings c bs params = params @ join_string (CHR ''&'') (map (binding_parameter c) bs)"
proof (induction c bs params rule: append_bindings.induct)
  case (2 c b bs params)
  then show ?case by (cases bs) (simp_all add: append_field_path_join binding_parameter_def)
qed simp

lemma binding_parameter_nonempty: "binding_parameter c b \<noteq> []"
  by (simp add: binding_parameter_def)


definition books_config :: config where
  "books_config = (new_Config \<lparr>s_name = ''books'', s_apis = [], s_http_rules = [], s_endpoints = [], s_providers = [],
       s_auth_rules = [], s_usage_rules = [], s_system_parameters = [], s_backend_rules = [], s_metric_rules = [], s_types = []\<rparr>)
     \<lparr>cfg_path_matcher := Some (register_all [(''GET'', ''/shelves/{shelf}'', [], ''ListBooks'')] PathMatcherBuilder),
      method_map := [(''ListBooks'', (MethodInfoImpl ''ListBooks'' [] [])\<lparr>selector := ''ListBooks'', backend_path := ''/list'',
        backend_path_translation := CONSTANT_ADDRESS\<rparr>)]\<rparr>"

definition books_server_config :: server_config where
  "books_server_config = \<lparr>sv_service_control = None, sv_metadata_server = None, sv_google_authentication_secret = [],
     sv_cloud_tracing = Some \<lparr>ctc_force_disable = True, ctc_url_override = [], ctc_aggregation = None, ctc_sampling = None\<rparr>,
     sv_api_authentication = None, sv_client_ip_extraction = Some (''X-Forwarded-For'', -2), sv_rollout_strategy = ''fixed'',
     sv_experimental = None, sv_metadata_attributes = None, sv_compute_platform_override = [],
     sv_firebase_server = None, sv_service_management = None, sv_service_config_rollout = None, sv_rewrite = None\<rparr>"

definition books_global :: global_context where
  "books_global = fst (the (GlobalContext id (\<lambda>_ _ _. None) 0 0 (Some books_server_config)))"

definition books_context :: service_context where
  "books_context = \<lparr>sx_global = books_global, sx_config = books_config, sx_control = example_control_service,
     sx_producer_project_id = ''project'', sx_id = ''books-1'', sx_has_authentication = False, sx_api_versions = []\<rparr>"

definition books_request :: "string \<Rightarrow> request" where
  "books_request path = \<lparr>GetRequestHTTPMethod = ''GET'', GetQueryParameters = [], GetRequestPath = path,
     GetUnparsedRequestPath = path, GetClientIP = ''10.0.0.1'', GetClientHost = [], FindQuery = (\<lambda>n. None),
     FindHeader = (\<lambda>n. if n = ''X-Forwarded-For'' then Some ''1.1.1.1, 2.2.2.2 ,3.3.3.3'' else None),
     GetFrontendProtocol = HTTP, GetBackendProtocol = HTTP, add_header_status = (\<lambda>_ _. Status_OK)\<rparr>"

lemma books_global_fields:
  "gx_server_config books_global = Some books_server_config" "gx_aggregator books_global = None"
  by (simp_all add: books_global_def GlobalContext_def books_server_config_def CreateCloudTraceAggregator_def
      SetClientAuthSecret_def Let_def)

lemma books_call:
  "ServiceContext_GetMethodCallInfo ''GET'' ''/shelves/a&role=admin'' [] (Some books_config) =
     Inr (Some \<lparr>mr_method = ''ListBooks'', mr_bindings = [\<lparr>vb_field_path = [''shelf''], vb_value = ''a&role=admin''\<rparr>],
       mr_body_field_path = []\<rparr>)"
  by code_simp

definition books_method :: method_info where
  "books_method = (MethodInfoImpl ''ListBooks'' [] [])\<lparr>selector := ''ListBooks'', backend_path := ''/list'',
     backend_path_translation := CONSTANT_ADDRESS\<rparr>"

lemma books_rx:
  obtains rx where "RequestContext lib uuid rnds now steady books_context (books_request ''/shelves/a&role=admin'') =
      Some (rx, books_context, [LogDebug ''Request method SET TO: GET''])"
    "rx_variable_bindings rx = [\<lparr>vb_field_path = [''shelf''], vb_value = ''a&role=admin''\<rparr>]"
    "rx_method rx = Some books_method" "rx_request rx = books_request ''/shelves/a&role=admin''"
proof -
  let ?rq = "books_request ''/shelves/a&role=admin''"
  have rq: "GetRequestHTTPMethodWithOverride ?rq = (''GET'', [LogDebug ''Request method SET TO: GET''])"
    "GetUnparsedRequestPath ?rq = ''/shelves/a&role=admin''" "GetQueryParameters ?rq = []"
    by (simp_all add: GetRequestHTTPMethodWithOverride_def books_request_def kHttpMethodOverrideHeader_def Let_def)
  have sx: "sx_config books_context = books_config" "gx_aggregator (sx_global books_context) = None"
    by (simp_all add: books_context_def books_global_fields)
  have m: "map_of (method_map books_config) ''ListBooks'' = Some books_method" "\<not> allow_unregistered_calls books_method"
    by (simp_all add: books_config_def books_method_def MethodInfoImpl_def)
  obtain key fq where k: "ExtractApiKey ?rq books_method = (key, fq)" by fastforce
  have same: "set_aggregator None books_context = books_context"
    using books_global_fields(2) by (simp add: set_aggregator_def books_context_def)
  show thesis using that by (simp add: RequestContext_def rq sx books_call same m k Let_def)
qed


lemma books_rx_ex: "\<exists>rx :: request_context. rx_method rx = Some books_method \<and> rx_request rx = books_request ''/shelves/a&role=admin''"
  by (rule books_rx [of undefined "[]" "(1, 2, 3)" 0 0]) auto


theorem FindClientIPAddress_position_witness:
  "\<exists>rx. rx_request rx = books_request ''/shelves/a&role=admin'' \<and> FindClientIPAddress books_context rx = Some ''2.2.2.2''"
proof -
  obtain rx :: request_context where rx: "rx_request rx = books_request ''/shelves/a&role=admin''"
    using books_rx_ex by auto
  have ips: "split_string CHR '','' ''1.1.1.1, 2.2.2.2 ,3.3.3.3'' = [''1.1.1.1'', '' 2.2.2.2 '', ''3.3.3.3'']" "Trim '' 2.2.2.2 '' = ''2.2.2.2''"
    by code_simp+
  have "gx_server_config (sx_global books_context) = Some books_server_config"
    by (simp add: books_context_def books_global_fields)
  note FindClientIPAddress_position [OF this, of "''X-Forwarded-For''" "-2" rx "''1.1.1.1, 2.2.2.2 ,3.3.3.3''"]
  then have "FindClientIPAddress books_context rx = Some ''2.2.2.2''"
    using rx by (simp add: books_server_config_def books_request_def ips)
  then show ?thesis using rx by blast
qed

lemma FillReportRequestInfo_defined:
  assumes "gx_server_config (sx_global sx) = Some sv" "sv_service_control sv = None" "is_final_report info \<longrightarrow> rsp \<noteq> None"
  shows "\<exists>info' rx' logs. FillReportRequestInfo lib now stats sx rsp info rx = Some (info', rx', logs)"
proof -
  obtain ip where ip: "FindClientIPAddress sx rx = Some ip" using assms(1) by (simp add: FindClientIPAddress_def)
  have f: "is_final_report info \<Longrightarrow> \<exists>r. rsp = Some r" using assms(3) by auto
  show ?thesis
    using assms(1,2) f
    by (cases "is_final_report info")
      (auto simp: FillReportRequestInfo_def FillOperationInfo_def ip Let_def GetRequestHTTPMethodWithOverride_def FillComputePlatform_def
        FillLocation_def FillHttpHeaders_def FillJwtPayloads_def)
qed

theorem reported_bytes_total_witness:
  "\<exists>rx0 infos rx info rx' logs.
     RequestContext undefined ''id'' (1, 2, 3) 7 7 books_context (books_request ''/shelves/a&role=admin'') =
       Some (rx0, books_context, [LogDebug ''Request method SET TO: GET'']) \<and>
     intermediate_reports undefined books_context [(9, \<lparr>GetGrpcRequestBytes = 100, GetGrpcResponseBytes = 40,
       GetGrpcRequestMessageCounts = 2, GetGrpcResponseMessageCounts = 1\<rparr>)] rx0 = Some (infos, rx) \<and>
     sum_list (map request_bytes (infos @ [info])) = 150 \<and> sum_list (map response_bytes (infos @ [info])) = 40"
proof -
  let ?s = "\<lparr>GetGrpcRequestBytes = 100, GetGrpcResponseBytes = 40, GetGrpcRequestMessageCounts = 2, GetGrpcResponseMessageCounts = 1\<rparr>"
  let ?r = "\<lparr>GetResponseStatus = Status_OK, GetRequestSize = 150, GetResponseSize = 30, GetLatencyInfo = id, response_FindHeader = (\<lambda>_. None)\<rparr>"
  obtain rx0 where 1: "RequestContext undefined ''id'' (1, 2, 3) 7 7 books_context (books_request ''/shelves/a&role=admin'') =
       Some (rx0, books_context, [LogDebug ''Request method SET TO: GET''])"
    using books_rx [of undefined "''id''" "(1, 2, 3)" 7 7] by blast
  have sv: "gx_server_config (sx_global books_context) = Some books_server_config" "sv_service_control books_server_config = None"
    by (simp_all add: books_context_def books_global_fields books_server_config_def)
  obtain i1 rx l1 where i1: "FillReportRequestInfo undefined 9 ?s books_context None (ReportRequestInfo\<lparr>is_final_report := False\<rparr>) rx0 = Some (i1, rx, l1)"
    using FillReportRequestInfo_defined [OF sv, of "ReportRequestInfo\<lparr>is_final_report := False\<rparr>" None undefined 9 ?s rx0] by auto
  then have 2: "intermediate_reports undefined books_context [(9, ?s)] rx0 = Some ([i1], rx)" by simp
  obtain info rx' l2 where 3: "FillReportRequestInfo undefined 10 ?s books_context (Some ?r) ReportRequestInfo rx = Some (info, rx', l2)"
    using FillReportRequestInfo_defined [OF sv, of ReportRequestInfo "Some ?r" undefined 10 ?s rx] by auto
  from reported_bytes_total [OF 1 2 3] 1 2 show ?thesis
    by (intro exI [of _ rx0] exI [of _ "[i1]"] exI [of _ rx] exI [of _ info]) simp
qed

end
