(* ===== verification/Esp_Marshalling.thy ===== *)
theory Esp_Marshalling
  imports Esp_Status
begin

text \<open>
  Messages to JSON and back (\<^verbatim>\<open>src/api_manager/utils/marshalling.cc\<close>).  The conversions between
  JSON and the binary form by type URL are those of protobuf, arguments of the model; a message
  type is its name, its parser and its serializer.  The overloads that read from or write to a
  stream do the same conversions.
\<close>

unbundle bit_operations_syntax

text \<open>JSON to binary, and binary to JSON with whitespace and with default values printed.\<close>

record json_util =
  JsonToBinaryString :: "string \<Rightarrow> string \<Rightarrow> proto_status \<times> string"
  BinaryToJsonString :: "string \<Rightarrow> string \<Rightarrow> bool \<Rightarrow> bool \<Rightarrow> proto_status \<times> string"

record 'm message_type =
  full_name :: string
  ParseFromString :: "string \<Rightarrow> bool \<times> 'm"
  SerializeAsString :: "'m \<Rightarrow> string"

definition kTypeUrlPrefix :: string where "kTypeUrlPrefix = ''type.googleapis.com''"
definition kRpcStatusTypeUrl :: string where "kRpcStatusTypeUrl = ''type.googleapis.com/google.rpc.Status''"

definition JSON_DEFAULT :: int where "JSON_DEFAULT = 0"
definition PRETTY_PRINT :: int where "PRETTY_PRINT = 1"
definition OUTPUT_DEFAULTS :: int where "OUTPUT_DEFAULTS = 2"

definition GetTypeUrl :: "'m message_type \<Rightarrow> string" where
  "GetTypeUrl mt = kTypeUrlPrefix @ ''/'' @ full_name mt"

definition ProtoToJson :: "json_util \<Rightarrow> 'm message_type \<Rightarrow> 'm \<Rightarrow> int \<Rightarrow> status \<times> string" where
  "ProtoToJson ju mt msg options =
     (case BinaryToJsonString ju (GetTypeUrl mt) (SerializeAsString mt msg)
             ((options AND PRETTY_PRINT) \<noteq> 0) ((options AND OUTPUT_DEFAULTS) \<noteq> 0) of
        (ps, result) \<Rightarrow> (FromProto ps, result))"

definition JsonToProto :: "json_util \<Rightarrow> 'm message_type \<Rightarrow> string \<Rightarrow> 'm \<Rightarrow> status \<times> 'm" where
  "JsonToProto ju mt json msg =
     (case JsonToBinaryString ju (GetTypeUrl mt) json of
        (ps, binary) \<Rightarrow>
          if error_code ps \<noteq> OK_CODE then (FromProto ps, msg)
          else (case ParseFromString mt binary of
                  (True, msg) \<Rightarrow> (Status_OK, msg)
                | (False, msg) \<Rightarrow>
                    (Status INTERNAL_CODE ''Unable to parse bytes generated from JsonToBinaryString as proto.'', msg)))"

definition BinStatusToJson :: "(rpc_status \<Rightarrow> status \<times> string) \<Rightarrow> json_util \<Rightarrow> string \<Rightarrow> string" where
  "BinStatusToJson print ju bin_status =
     (case BinaryToJsonString ju kRpcStatusTypeUrl bin_status True True of
        (ps, result) \<Rightarrow> if error_code ps \<noteq> OK_CODE then ToJson print (FromProto ps) else result)"

end
