(* ===== verification/Firebase_Request.thy ===== *)
theory Firebase_Request
  imports Request_Context Esp_Marshalling
begin

text \<open>
  The exchange with the Firebase rules service for one request
  (\<^verbatim>\<open>src/api_manager/firebase_rules/firebase_request.cc\<close>): the state machine that tells which
  HTTP request comes next, the test of the rules or a function call that the rules ask for, and
  that takes the responses.  The iterator over the function calls is an index, the pointer to the
  next request says which of the two requests it points to, and \<open>None\<close> is an access past the end
  of a repeated field.  The checks that only debug builds make are left out.
\<close>

section \<open>Messages\<close>

text \<open>\<^verbatim>\<open>google.protobuf.Value\<close>, with a number as a rational and a struct as its fields.\<close>

datatype pb_value =
  KindNotSet | NullValue | NumberValue rat | StringValue string | BoolValue bool
| StructValue "(string \<times> pb_value) list" | ListValue "pb_value list"

fun string_value :: "pb_value \<Rightarrow> string" where
  "string_value (StringValue s) = s"
| "string_value _ = []"

fun is_string_value :: "pb_value \<Rightarrow> bool" where
  "is_string_value (StringValue s) \<longleftrightarrow> True"
| "is_string_value _ \<longleftrightarrow> False"

fun mutable_fields :: "pb_value \<Rightarrow> (string \<times> pb_value) list" where
  "mutable_fields (StructValue fs) = fs"
| "mutable_fields _ = []"

datatype expectation = EXPECTATION_UNSPECIFIED | ALLOW | DENY

record function_mock =
  fm_function :: string
  fm_args :: "pb_value list"
  fm_result :: "pb_value option"

record test_case =
  tc_expectation :: expectation
  tc_request :: pb_value
  tc_function_mocks :: "function_mock list"

record test_ruleset_request =
  trq_test_cases :: "test_case list"

datatype test_state = STATE_UNSPECIFIED | SUCCESS | FAILURE | OTHER_STATE int

record function_call =
  fc_function :: string
  fc_args :: "pb_value list"

record test_result =
  tr_state :: test_state
  tr_debug_messages :: "string list"
  tr_function_calls :: "function_call list"

record test_ruleset_response =
  trs_test_results :: "test_result list"

text \<open>Protobuf's conversions and the equality of function calls by \<^verbatim>\<open>MessageDifferencer\<close>.\<close>

record firebase_lib =
  fb_json :: json_util
  fb_value :: "pb_value message_type"
  fb_request :: "test_ruleset_request message_type"
  fb_response :: "test_ruleset_response message_type"
  fb_equals :: "function_call \<Rightarrow> function_call \<Rightarrow> bool"

section \<open>State\<close>

record firebase_http_request =
  fh_url :: string
  fh_method :: string
  fh_body :: string
  fh_token_type :: jwt_token_type
  fh_audience :: string

text \<open>A value-initialized request: the first enumerator is the value 0.\<close>

definition new_HttpRequest :: firebase_http_request where
  "new_HttpRequest = \<lparr>fh_url = [], fh_method = [], fh_body = [], fh_token_type = JWT_TOKEN_FOR_SERVICE_CONTROL,
     fh_audience = []\<rparr>"

datatype next_request = NoRequest | FirebaseHttpRequest | ExternalHttpRequest

record firebase_request =
  fr_current_status :: status
  fr_is_done :: bool
  fr_funcs_with_result :: "(function_call \<times> string) list"
  fr_func_call_iter :: nat
  fr_response :: test_ruleset_response
  fr_next_request :: next_request
  fr_firebase_http_request :: firebase_http_request
  fr_external_http_request :: firebase_http_request

section \<open>Operations\<close>

definition SetProtoValue :: "string \<Rightarrow> pb_value \<Rightarrow> pb_value \<Rightarrow> pb_value" where
  "SetProtoValue key v head = StructValue (AList.update key v (mutable_fields head))"

definition GetOperation :: "string \<Rightarrow> string" where
  "GetOperation verb =
     (if verb = ''POST'' then ''create''
      else if verb = ''GET'' \<or> verb = ''HEAD'' \<or> verb = ''OPTIONS'' then ''get''
      else if verb = ''DELETE'' then ''delete''
      else ''update'')"

definition SetStatus :: "status \<Rightarrow> firebase_request \<Rightarrow> firebase_request" where
  "SetStatus st fr =
     (if \<not> ok st \<and> \<not> fr_is_done fr then fr\<lparr>fr_current_status := st, fr_is_done := True\<rparr> else fr)"

fun Find :: "firebase_lib \<Rightarrow> function_call \<Rightarrow> (function_call \<times> string) list \<Rightarrow> (function_call \<times> string) option" where
  "Find lib c [] = None"
| "Find lib c (item # items) = (if fb_equals lib (fst item) c then Some item else Find lib c items)"

definition add_function_mock :: "function_mock \<Rightarrow> test_ruleset_request \<Rightarrow> test_ruleset_request" where
  "add_function_mock mock rq =
     rq\<lparr>trq_test_cases := (trq_test_cases rq)
          [0 := (trq_test_cases rq ! 0)\<lparr>tc_function_mocks := tc_function_mocks (trq_test_cases rq ! 0) @ [mock]\<rparr>]\<rparr>"

definition AddFunctionMock ::
    "firebase_lib \<Rightarrow> firebase_request \<Rightarrow> function_call \<Rightarrow> test_ruleset_request \<Rightarrow>
     status \<times> test_ruleset_request \<times> env_effect list" where
  "AddFunctionMock lib fr c rq =
     (case Find lib c (fr_funcs_with_result fr) of
        None \<Rightarrow> (Status INTERNAL_CODE (''Cannot find body for function call'' @ fc_function c), rq, [])
      | Some (_, body) \<Rightarrow>
          let mock = \<lparr>fm_function = fc_function c, fm_args = fc_args c, fm_result = None\<rparr>
          in case JsonToProto (fb_json lib) (fb_value lib) body KindNotSet of
               (st, result) \<Rightarrow>
                 if \<not> ok st
                 then (st, add_function_mock mock rq, [LogError (''Error creating protobuf from request body'' @ ToString st)])
                 else (Status_OK, add_function_mock (mock\<lparr>fm_result := Some result\<rparr>) rq, []))"

fun add_function_mocks ::
    "firebase_lib \<Rightarrow> firebase_request \<Rightarrow> function_call list \<Rightarrow> test_ruleset_request \<Rightarrow>
     status \<times> test_ruleset_request \<times> env_effect list" where
  "add_function_mocks lib fr [] rq = (Status_OK, rq, [])"
| "add_function_mocks lib fr (c # cs) rq =
     (case AddFunctionMock lib fr c rq of
        (st, rq, es) \<Rightarrow>
          if \<not> ok st then (st, rq, es)
          else (case add_function_mocks lib fr cs rq of (st, rq, es') \<Rightarrow> (st, rq, es @ es')))"

definition test_request :: "pb_value \<Rightarrow> request \<Rightarrow> test_ruleset_request" where
  "test_request claims rq =
     \<lparr>trq_test_cases = [\<lparr>tc_expectation = ALLOW,
        tc_request = StructValue [(''path'', StringValue (GetRequestPath rq)),
          (''method'', StringValue (GetOperation (GetRequestHTTPMethod rq))),
          (''auth'', SetProtoValue ''token'' claims KindNotSet)],
        tc_function_mocks = []\<rparr>]\<rparr>"

definition UpdateRulesetRequestBody ::
    "firebase_lib \<Rightarrow> request_context \<Rightarrow> function_call list \<Rightarrow> firebase_request \<Rightarrow>
     status \<times> firebase_request \<times> env_effect list" where
  "UpdateRulesetRequestBody lib rx calls fr =
     (case JsonToProto (fb_json lib) (fb_value lib) (rx_auth_claims rx) KindNotSet of
        (st, claims) \<Rightarrow>
          if \<not> ok st then (st, fr, [])
          else case add_function_mocks lib fr calls (test_request claims (rx_request rx)) of
            (st, rq, es) \<Rightarrow>
              if \<not> ok st then (st, fr, es)
              else case ProtoToJson (fb_json lib) (fb_request lib) rq JSON_DEFAULT of
                (st, body) \<Rightarrow>
                  if ok st
                  then (st, fr\<lparr>fr_firebase_http_request := (fr_firebase_http_request fr)\<lparr>fh_body := body\<rparr>\<rparr>,
                        es @ [LogDebug (''FIREBASE REQUEST BODY = '' @ body)])
                  else (st, fr, es))"

text \<open>The iterator is not set before the first response with function calls.\<close>

definition FirebaseRequest ::
    "firebase_lib \<Rightarrow> nat \<Rightarrow> string option \<Rightarrow> string \<Rightarrow> request_context \<Rightarrow> firebase_request \<times> env_effect list" where
  "FirebaseRequest lib garbage firebase_server ruleset_name rx =
     (let fr = \<lparr>fr_current_status = Status_OK, fr_is_done = False, fr_funcs_with_result = [],
            fr_func_call_iter = garbage, fr_response = \<lparr>trs_test_results = []\<rparr>, fr_next_request = NoRequest,
            fr_firebase_http_request = \<lparr>fh_url = GetFirebaseServer firebase_server @ ''/v1'' @ ''/'' @ ruleset_name @ '':test?alt=json'',
              fh_method = ''POST'', fh_body = [], fh_token_type = JWT_TOKEN_FOR_FIREBASE,
              fh_audience = GetFirebaseAudience firebase_server\<rparr>,
            fr_external_http_request = new_HttpRequest\<lparr>fh_token_type := JWT_TOKEN_FOR_AUTHORIZATION_SERVICE\<rparr>\<rparr>
      in case UpdateRulesetRequestBody lib rx [] fr of
           (st, fr, es) \<Rightarrow>
             let fr = SetStatus st fr
             in if \<not> ok (fr_current_status fr) then (fr, es)
                else (fr\<lparr>fr_next_request := FirebaseHttpRequest\<rparr>, es))"

definition GetHttpRequest :: "firebase_request \<Rightarrow> firebase_http_request \<times> firebase_request" where
  "GetHttpRequest fr =
     (if fr_is_done fr then (new_HttpRequest, fr)
      else case fr_next_request fr of
             NoRequest \<Rightarrow> (new_HttpRequest, SetStatus (Status INTERNAL_CODE ''Internal state in error'') fr)
           | FirebaseHttpRequest \<Rightarrow> (fr_firebase_http_request fr, fr)
           | ExternalHttpRequest \<Rightarrow> (fr_external_http_request fr, fr))"

definition CheckFuncCallArgs :: "function_call \<Rightarrow> status" where
  "CheckFuncCallArgs f =
     (let n = length (fc_args f)
      in if fc_function f = [] then Status INVALID_ARGUMENT ''No function name provided''
         else if n < 3 \<or> n > 4
         then Status INVALID_ARGUMENT (fc_function f @ '' Require 3 or 4 arguments. But has '' @ show_nat n)
         else if \<not> is_string_value (fc_args f ! 0) \<or> \<not> is_string_value (fc_args f ! 1)
         then Status INVALID_ARGUMENT (fc_function f @ '' Arguments 1 and 2 should be strings'')
         else if \<not> is_string_value (fc_args f ! (n - 1))
         then Status INVALID_ARGUMENT (fc_function f @ ''The last argument should be a stringthat specifies audience'')
         else if \<not> IsHttpRequest (string_value (fc_args f ! 0))
         then Status INVALID_ARGUMENT (fc_function f @ '' The first argument should be a HTTP request'')
         else if string_value (fc_args f ! 1) = []
         then Status INVALID_ARGUMENT (fc_function f @ '' argument 2 [HTTP METHOD] cannot be empty'')
         else Status_OK)"

text \<open>The loop over the function calls: the first malformed one, or whether all have a response.\<close>

fun check_function_calls ::
    "firebase_lib \<Rightarrow> (function_call \<times> string) list \<Rightarrow> function_call list \<Rightarrow> status + bool" where
  "check_function_calls lib items [] = Inr True"
| "check_function_calls lib items (c # cs) =
     (if \<not> ok (CheckFuncCallArgs c) then Inl (CheckFuncCallArgs c)
      else case check_function_calls lib items cs of
             Inl st \<Rightarrow> Inl st
           | Inr processed \<Rightarrow> Inr (Find lib c items \<noteq> None \<and> processed))"

definition denied_message :: "test_result \<Rightarrow> string" where
  "denied_message r =
     (if tr_debug_messages r \<noteq> [] then concat (map (\<lambda>msg. msg @ '' '') (tr_debug_messages r)) else ''Unauthorized Access'')"

definition ProcessTestRulesetResponse ::
    "firebase_lib \<Rightarrow> string \<Rightarrow> firebase_request \<Rightarrow> (status \<times> firebase_request \<times> env_effect list) option" where
  "ProcessTestRulesetResponse lib body fr =
     (case JsonToProto (fb_json lib) (fb_response lib) body (fr_response fr) of
        (st, rsp) \<Rightarrow>
          let fr = fr\<lparr>fr_response := rsp\<rparr>
          in if \<not> ok st then Some (st, fr, [])
             else case trs_test_results rsp of
               [] \<Rightarrow> None
             | r # rs \<Rightarrow>
                 if tr_state r = SUCCESS then Some (Status_OK, fr\<lparr>fr_is_done := True, fr_next_request := NoRequest\<rparr>, [])
                 else if rs \<noteq> []
                 then Some (Status INTERNAL_CODE ''Unexpected TestResultsetResponse'', fr,
                        [LogError (''Received TestResultsetResponse with size = '' @ show_nat (length (r # rs)) @
                           '' expecting only 1 test result'')])
                 else case check_function_calls lib (fr_funcs_with_result fr) (tr_function_calls r) of
                        Inl st \<Rightarrow> Some (st, fr, [])
                      | Inr processed \<Rightarrow>
                          if processed then Some (Status PERMISSION_DENIED (denied_message r), fr, [])
                          else Some (Status_OK, fr\<lparr>fr_func_call_iter := 0\<rparr>, []))"

text \<open>\<^verbatim>\<open>response_.test_results(0).function_calls()\<close>\<close>

definition function_calls :: "firebase_request \<Rightarrow> function_call list option" where
  "function_calls fr = (case trs_test_results (fr_response fr) of [] \<Rightarrow> None | r # rs \<Rightarrow> Some (tr_function_calls r))"

definition AllFunctionCallsProcessed :: "firebase_request \<Rightarrow> bool option" where
  "AllFunctionCallsProcessed fr = map_option (\<lambda>cs. fr_func_call_iter fr = length cs) (function_calls fr)"

definition ProcessFunctionCallResponse ::
    "string \<Rightarrow> firebase_request \<Rightarrow> (status \<times> firebase_request \<times> env_effect list) option" where
  "ProcessFunctionCallResponse body fr = do {
     processed \<leftarrow> (if fr_is_done fr then Some True else AllFunctionCallsProcessed fr);
     (if processed
      then Some (Status INTERNAL_CODE ''No external function calls present. But received a response. Possible code bug'', fr, [])
      else do {
        cs \<leftarrow> function_calls fr;
        (if fr_func_call_iter fr < length cs
         then Some (Status_OK, fr\<lparr>fr_funcs_with_result := fr_funcs_with_result fr @ [(cs ! fr_func_call_iter fr, body)],
                fr_func_call_iter := fr_func_call_iter fr + 1\<rparr>, [])
         else None)
      })
   }"

text \<open>The loop of \<^verbatim>\<open>SetNextRequest\<close>: how far the iterator moves over calls that have a response.\<close>

fun skip_processed :: "firebase_lib \<Rightarrow> (function_call \<times> string) list \<Rightarrow> function_call list \<Rightarrow> nat" where
  "skip_processed lib items [] = 0"
| "skip_processed lib items (c # cs) = (if Find lib c items = None then 0 else Suc (skip_processed lib items cs))"

definition external_request :: "function_call \<Rightarrow> firebase_http_request \<Rightarrow> firebase_http_request" where
  "external_request c h = h\<lparr>fh_url := string_value (fc_args c ! 0), fh_method := string_value (fc_args c ! 1),
     fh_audience := string_value (fc_args c ! (length (fc_args c) - 1))\<rparr>"

definition SetNextRequest ::
    "firebase_lib \<Rightarrow> request_context \<Rightarrow> firebase_request \<Rightarrow> (status \<times> firebase_request \<times> env_effect list) option" where
  "SetNextRequest lib rx fr =
     (if fr_is_done fr then Some (fr_current_status fr, fr\<lparr>fr_next_request := NoRequest\<rparr>, [])
      else do {
        cs \<leftarrow> function_calls fr;
        (if fr_func_call_iter fr > length cs then None
         else
           let i = fr_func_call_iter fr + skip_processed lib (fr_funcs_with_result fr) (drop (fr_func_call_iter fr) cs);
               fr = fr\<lparr>fr_func_call_iter := i\<rparr>
           in if i < length cs then
                if length (fc_args (cs ! i)) < 3 then None
                else
                  let fr = fr\<lparr>fr_external_http_request := external_request (cs ! i) (fr_external_http_request fr)\<rparr>
                  in case ProtoToJson (fb_json lib) (fb_value lib) (fc_args (cs ! i) ! 2) JSON_DEFAULT of
                       (st, body) \<Rightarrow>
                         if ok st
                         then Some (st, fr\<lparr>fr_external_http_request := (fr_external_http_request fr)\<lparr>fh_body := body\<rparr>,
                                fr_next_request := ExternalHttpRequest\<rparr>, [])
                         else Some (st, fr, [])
              else Some (UpdateRulesetRequestBody lib rx cs (fr\<lparr>fr_next_request := FirebaseHttpRequest\<rparr>)))
      })"

definition UpdateResponse ::
    "firebase_lib \<Rightarrow> request_context \<Rightarrow> string \<Rightarrow> firebase_request \<Rightarrow> (firebase_request \<times> env_effect list) option" where
  "UpdateResponse lib rx body fr =
     (if fr_is_done fr \<or> fr_next_request fr = NoRequest
      then Some (SetStatus (Status INTERNAL_CODE ''Internal state error while processing Http request'') fr, [])
      else do {
        (st, fr, es) \<leftarrow> (if fr_next_request fr = FirebaseHttpRequest then ProcessTestRulesetResponse lib body fr
                        else ProcessFunctionCallResponse body fr);
        (st, fr, es) \<leftarrow> (if ok st
                        then map_option (\<lambda>(st, fr, es'). (st, fr, es @ es')) (SetNextRequest lib rx fr)
                        else Some (st, fr, es));
        Some (SetStatus st fr, es)
      })"

section \<open>Function calls and their responses\<close>

lemma Find_None_iff: "Find lib c items = None \<longleftrightarrow> (\<forall>it \<in> set items. \<not> fb_equals lib (fst it) c)"
  by (induction items) auto

lemma Find_append: "Find lib c (xs @ ys) = (case Find lib c xs of Some it \<Rightarrow> Some it | None \<Rightarrow> Find lib c ys)"
  by (induction xs) auto

lemma skip_processed_spec:
  "skip_processed lib items cs \<le> length cs \<and> (\<forall>j < skip_processed lib items cs. Find lib (cs ! j) items \<noteq> None) \<and>
   (skip_processed lib items cs < length cs \<longrightarrow> Find lib (cs ! skip_processed lib items cs) items = None)"
  by (induction cs) (auto simp: nth_Cons' less_Suc_eq_0_disj)

lemma check_function_calls_Inr:
  "check_function_calls lib items cs = Inr b \<Longrightarrow>
   (\<forall>c \<in> set cs. ok (CheckFuncCallArgs c)) \<and> (b \<longleftrightarrow> (\<forall>c \<in> set cs. Find lib c items \<noteq> None))"
  by (induction cs arbitrary: b) (auto split: if_splits sum.splits)

lemma check_function_calls_Inl:
  "check_function_calls lib items cs = Inl st \<Longrightarrow> \<not> ok st \<and> (\<exists>c \<in> set cs. st = CheckFuncCallArgs c)"
  by (induction cs) (auto split: if_splits sum.splits)

lemma CheckFuncCallArgs_ok:
  assumes "ok (CheckFuncCallArgs c)"
  shows "fc_function c \<noteq> [] \<and> length (fc_args c) \<in> {3, 4} \<and> IsHttpRequest (string_value (fc_args c ! 0)) \<and>
    string_value (fc_args c ! 1) \<noteq> []"
  using assms by (auto simp: CheckFuncCallArgs_def Let_def split: if_splits)

text \<open>What the mock of a call holds.\<close>

definition mock_of :: "firebase_lib \<Rightarrow> firebase_request \<Rightarrow> function_call \<Rightarrow> function_mock \<Rightarrow> bool" where
  "mock_of lib fr c mock \<longleftrightarrow> (\<exists>it v st. Find lib c (fr_funcs_with_result fr) = Some it \<and>
     JsonToProto (fb_json lib) (fb_value lib) (snd it) KindNotSet = (st, v) \<and> ok st \<and>
     mock = \<lparr>fm_function = fc_function c, fm_args = fc_args c, fm_result = Some v\<rparr>)"

lemma AddFunctionMock_ok:
  assumes "AddFunctionMock lib fr c rq = (st, rq', es)" "ok st"
  shows "\<exists>mock. mock_of lib fr c mock \<and> rq' = add_function_mock mock rq"
  using assms by (auto simp: AddFunctionMock_def mock_of_def Let_def split: option.splits prod.splits if_splits)

lemma add_function_mocks_ok:
  assumes "add_function_mocks lib fr cs \<lparr>trq_test_cases = [tc]\<rparr> = (st, rq', es)" "ok st"
  shows "\<exists>mocks. list_all2 (mock_of lib fr) cs mocks \<and>
    rq' = \<lparr>trq_test_cases = [tc\<lparr>tc_function_mocks := tc_function_mocks tc @ mocks\<rparr>]\<rparr>"
  using assms
proof (induction cs arbitrary: tc st rq' es)
  case (Cons c cs)
  obtain st1 rq1 es1 where 1: "AddFunctionMock lib fr c \<lparr>trq_test_cases = [tc]\<rparr> = (st1, rq1, es1)"
    by (metis prod_cases3)
  then have "ok st1" using Cons.prems by (auto split: if_splits)
  then obtain mock where m: "mock_of lib fr c mock" "rq1 = \<lparr>trq_test_cases = [tc\<lparr>tc_function_mocks := tc_function_mocks tc @ [mock]\<rparr>]\<rparr>"
    using AddFunctionMock_ok [OF 1] by (auto simp: add_function_mock_def)
  obtain es2 where "add_function_mocks lib fr cs rq1 = (st, rq', es2)"
    using Cons.prems 1 \<open>ok st1\<close> by (auto split: prod.splits)
  from Cons.IH [OF this [unfolded m(2)] Cons.prems(2)]
  obtain mocks where "list_all2 (mock_of lib fr) cs mocks"
      "rq' = \<lparr>trq_test_cases = [tc\<lparr>tc_function_mocks := tc_function_mocks tc @ mock # mocks\<rparr>]\<rparr>" by auto
  then show ?case using m(1) by (intro exI [of _ "mock # mocks"]) simp
qed simp

section \<open>The invariant of the exchange\<close>

text \<open>
  The request that is due: a well-formed call of the last response that has no response yet, all
  calls before it having one.
\<close>

definition external_due :: "firebase_lib \<Rightarrow> firebase_request \<Rightarrow> bool" where
  "external_due lib fr \<longleftrightarrow> (\<exists>cs. function_calls fr = Some cs \<and> fr_func_call_iter fr < length cs \<and>
     (\<forall>c \<in> set cs. ok (CheckFuncCallArgs c)) \<and>
     (\<forall>j < fr_func_call_iter fr. Find lib (cs ! j) (fr_funcs_with_result fr) \<noteq> None) \<and>
     Find lib (cs ! fr_func_call_iter fr) (fr_funcs_with_result fr) = None \<and>
     (\<exists>st. ProtoToJson (fb_json lib) (fb_value lib) (fc_args (cs ! fr_func_call_iter fr) ! 2) JSON_DEFAULT =
        (st, fh_body (fr_external_http_request fr))) \<and>
     external_request (cs ! fr_func_call_iter fr) (fr_external_http_request fr) = fr_external_http_request fr)"

definition fr_inv :: "firebase_lib \<Rightarrow> firebase_request \<Rightarrow> bool" where
  "fr_inv lib fr \<longleftrightarrow>
     (\<not> fr_is_done fr \<longrightarrow> fr_current_status fr = Status_OK \<and> fr_next_request fr \<noteq> NoRequest) \<and>
     (\<not> fr_is_done fr \<and> fr_next_request fr = ExternalHttpRequest \<longrightarrow> external_due lib fr) \<and>
     sorted_wrt (\<lambda>x y. \<not> fb_equals lib x y) (map fst (fr_funcs_with_result fr)) \<and>
     (\<forall>it \<in> set (fr_funcs_with_result fr). ok (CheckFuncCallArgs (fst it))) \<and>
     fh_token_type (fr_firebase_http_request fr) = JWT_TOKEN_FOR_FIREBASE \<and>
     fh_token_type (fr_external_http_request fr) = JWT_TOKEN_FOR_AUTHORIZATION_SERVICE"

text \<open>What an operation may not change.\<close>

definition same_exchange :: "firebase_request \<Rightarrow> firebase_request \<Rightarrow> bool" where
  "same_exchange fr fr' \<longleftrightarrow> fr_current_status fr' = fr_current_status fr \<and> fr_is_done fr' = fr_is_done fr \<and>
     fr_response fr' = fr_response fr \<and> fr_funcs_with_result fr' = fr_funcs_with_result fr \<and>
     (\<exists>b. fr_firebase_http_request fr' = (fr_firebase_http_request fr)\<lparr>fh_body := b\<rparr>) \<and>
     fh_token_type (fr_external_http_request fr') = fh_token_type (fr_external_http_request fr)"

lemma firebase_body_refl [simp]: "\<exists>b. h = (h :: firebase_http_request)\<lparr>fh_body := b\<rparr>"
  by (rule exI [of _ "fh_body h"]) simp

lemma UpdateRulesetRequestBody_same:
  assumes "UpdateRulesetRequestBody lib rx cs fr = (st, fr', es)"
  shows "same_exchange fr fr' \<and> fr_next_request fr' = fr_next_request fr \<and> fr_func_call_iter fr' = fr_func_call_iter fr"
  using assms by (auto simp: UpdateRulesetRequestBody_def same_exchange_def split: prod.splits if_splits)

lemma UpdateRulesetRequestBody_ok:
  assumes "UpdateRulesetRequestBody lib rx cs fr = (st, fr', es)" "ok st"
  shows "\<exists>claims mocks st1 st2.
    JsonToProto (fb_json lib) (fb_value lib) (rx_auth_claims rx) KindNotSet = (st1, claims) \<and> ok st1 \<and>
    list_all2 (mock_of lib fr) cs mocks \<and>
    ProtoToJson (fb_json lib) (fb_request lib) \<lparr>trq_test_cases = [(trq_test_cases (test_request claims (rx_request rx)) ! 0)
      \<lparr>tc_function_mocks := mocks\<rparr>]\<rparr> JSON_DEFAULT = (st2, fh_body (fr_firebase_http_request fr'))"
proof -
  obtain st1 claims where 1: "JsonToProto (fb_json lib) (fb_value lib) (rx_auth_claims rx) KindNotSet = (st1, claims)"
    by (metis surj_pair)
  obtain tc where tc: "test_request claims (rx_request rx) = \<lparr>trq_test_cases = [tc]\<rparr>" "tc_function_mocks tc = []"
    by (simp add: test_request_def)
  obtain st2 rq es2 where 2: "add_function_mocks lib fr cs (test_request claims (rx_request rx)) = (st2, rq, es2)"
    by (metis prod_cases3)
  have oks: "ok st1" "ok st2" using assms 1 2 by (auto simp: UpdateRulesetRequestBody_def split: if_splits)
  obtain mocks where m: "list_all2 (mock_of lib fr) cs mocks" "rq = \<lparr>trq_test_cases = [tc\<lparr>tc_function_mocks := mocks\<rparr>]\<rparr>"
    using add_function_mocks_ok [OF 2 [unfolded tc(1)] oks(2)] tc(2) by auto
  obtain st3 where "ProtoToJson (fb_json lib) (fb_request lib) rq JSON_DEFAULT = (st3, fh_body (fr_firebase_http_request fr'))"
    using assms 1 2 oks by (auto simp: UpdateRulesetRequestBody_def split: prod.splits if_splits)
  then show ?thesis using 1 oks(1) m tc(1) by auto
qed

lemma SetNextRequest_not_done:
  assumes "\<not> fr_is_done fr" "function_calls fr = Some cs" "fr_func_call_iter fr \<le> length cs"
    and "\<forall>j < fr_func_call_iter fr. Find lib (cs ! j) (fr_funcs_with_result fr) \<noteq> None"
    and "\<forall>c \<in> set cs. ok (CheckFuncCallArgs c)"
  shows "\<exists>st fr' es. SetNextRequest lib rx fr = Some (st, fr', es) \<and> same_exchange fr fr' \<and>
    (ok st \<longrightarrow>
       (fr_next_request fr' = ExternalHttpRequest \<and> external_due lib fr' \<and> fr_func_call_iter fr \<le> fr_func_call_iter fr') \<or>
       (fr_next_request fr' = FirebaseHttpRequest \<and> (\<forall>c \<in> set cs. Find lib c (fr_funcs_with_result fr) \<noteq> None)))"
proof -
  let ?items = "fr_funcs_with_result fr" and ?n = "fr_func_call_iter fr"
  define k where "k = skip_processed lib ?items (drop ?n cs)"
  define i where "i = ?n + k"
  have k: "i \<le> length cs" "\<forall>j < k. Find lib (cs ! (?n + j)) ?items \<noteq> None" "i < length cs \<Longrightarrow> Find lib (cs ! i) ?items = None"
    using skip_processed_spec [of lib ?items "drop ?n cs"] assms(3) by (auto simp: k_def i_def)
  have found: "\<forall>j < i. Find lib (cs ! j) ?items \<noteq> None"
  proof (intro allI impI)
    fix j assume "j < i"
    then show "Find lib (cs ! j) ?items \<noteq> None"
      using assms(4) k(2) [rule_format, of "j - ?n"] by (cases "j < ?n") (auto simp: i_def)
  qed
  show ?thesis
  proof (cases "i < length cs")
    case True
    let ?c = "cs ! i"
    have "\<not> length (fc_args ?c) < 3" using assms(5) True CheckFuncCallArgs_ok [of ?c] by auto
    moreover obtain st body where p: "ProtoToJson (fb_json lib) (fb_value lib) (fc_args ?c ! 2) JSON_DEFAULT = (st, body)"
      by (metis surj_pair)
    ultimately show ?thesis
      using True assms(1-3,5) k found
      by (auto simp: SetNextRequest_def i_def [symmetric] k_def [symmetric] Let_def same_exchange_def external_due_def
          function_calls_def external_request_def) (auto simp: i_def)
  next
    case False
    then have len: "i = length cs" using k(1) by simp
    obtain st fr' es where u: "UpdateRulesetRequestBody lib rx cs
        (fr\<lparr>fr_func_call_iter := i, fr_next_request := FirebaseHttpRequest\<rparr>) = (st, fr', es)"
      by (metis prod_cases3)
    have "\<forall>c \<in> set cs. Find lib c ?items \<noteq> None" using found len by (metis in_set_conv_nth)
    then show ?thesis
      using False assms(1-3) u UpdateRulesetRequestBody_same [OF u]
      by (auto simp: SetNextRequest_def i_def [symmetric] k_def [symmetric] Let_def same_exchange_def)
  qed
qed

lemma SetStatus_ok [simp]: "ok st \<Longrightarrow> SetStatus st fr = fr"
  by (simp add: SetStatus_def)

lemma SetStatus_not_ok: "\<not> ok st \<Longrightarrow> fr_is_done (SetStatus st fr)"
  by (simp add: SetStatus_def)

lemma fr_inv_SetStatus: "fr_inv lib fr \<Longrightarrow> fr_inv lib (SetStatus st fr)"
  by (auto simp: SetStatus_def fr_inv_def)

text \<open>Everything but the two conditions on a request that is still due.\<close>

definition fr_base :: "firebase_lib \<Rightarrow> firebase_request \<Rightarrow> bool" where
  "fr_base lib fr \<longleftrightarrow> sorted_wrt (\<lambda>x y. \<not> fb_equals lib x y) (map fst (fr_funcs_with_result fr)) \<and>
     (\<forall>it \<in> set (fr_funcs_with_result fr). ok (CheckFuncCallArgs (fst it))) \<and>
     fh_token_type (fr_firebase_http_request fr) = JWT_TOKEN_FOR_FIREBASE \<and>
     fh_token_type (fr_external_http_request fr) = JWT_TOKEN_FOR_AUTHORIZATION_SERVICE"

lemma fr_inv_base: "fr_inv lib fr \<longleftrightarrow> fr_base lib fr \<and> (\<not> fr_is_done fr \<longrightarrow> fr_current_status fr = Status_OK \<and>
    fr_next_request fr \<noteq> NoRequest \<and> (fr_next_request fr = ExternalHttpRequest \<longrightarrow> external_due lib fr))"
  by (auto simp: fr_inv_def fr_base_def)

lemma fr_base_same: "fr_base lib fr \<Longrightarrow> same_exchange fr fr' \<Longrightarrow> fr_base lib fr'"
  by (auto simp: fr_base_def same_exchange_def)

lemma fr_inv_failed: "fr_base lib fr \<Longrightarrow> \<not> ok st \<Longrightarrow> fr_inv lib (SetStatus st fr)"
  by (simp add: fr_inv_base SetStatus_def fr_base_def)

text \<open>The outcome of a response that leaves calls to make, from the state before its next request is set.\<close>

lemma after_SetNextRequest:
  assumes "fr_base lib fr" "\<not> fr_is_done fr" "fr_current_status fr = Status_OK"
    and "function_calls fr = Some cs" "fr_func_call_iter fr \<le> length cs"
    and "\<forall>j < fr_func_call_iter fr. Find lib (cs ! j) (fr_funcs_with_result fr) \<noteq> None"
    and "\<forall>c \<in> set cs. ok (CheckFuncCallArgs c)"
    and "SetNextRequest lib rx fr = Some (st, fr', es)"
  shows "fr_inv lib (SetStatus st fr')"
proof (cases "ok st")
  case True
  then show ?thesis
    using SetNextRequest_not_done [OF assms(2,4-7), of rx] fr_base_same [OF assms(1)] assms(2,3,8)
    by (auto simp: fr_inv_base same_exchange_def)
next
  case False
  then show ?thesis
    using SetNextRequest_not_done [OF assms(2,4-7), of rx] fr_base_same [OF assms(1)] assms(8) fr_inv_failed by auto
qed

text \<open>A response to the test of the rules.\<close>

lemma ProcessTestRulesetResponse_cases:
  assumes "ProcessTestRulesetResponse lib body fr = Some (st, fr1, es)"
  obtains (failed) "\<not> ok st" "\<exists>rsp. fr1 = fr\<lparr>fr_response := rsp\<rparr>"
  | (success) r rs st0 rsp where "JsonToProto (fb_json lib) (fb_response lib) body (fr_response fr) = (st0, rsp)" "ok st0"
      "trs_test_results rsp = r # rs" "tr_state r = SUCCESS" "st = Status_OK"
      "fr1 = fr\<lparr>fr_response := rsp, fr_is_done := True, fr_next_request := NoRequest\<rparr>"
  | (calls) r st0 rsp where "JsonToProto (fb_json lib) (fb_response lib) body (fr_response fr) = (st0, rsp)" "ok st0"
      "trs_test_results rsp = [r]" "tr_state r \<noteq> SUCCESS" "\<forall>c \<in> set (tr_function_calls r). ok (CheckFuncCallArgs c)"
      "\<exists>c \<in> set (tr_function_calls r). Find lib c (fr_funcs_with_result fr) = None" "st = Status_OK"
      "fr1 = fr\<lparr>fr_response := rsp, fr_func_call_iter := 0\<rparr>"
proof -
  obtain st0 rsp where j: "JsonToProto (fb_json lib) (fb_response lib) body (fr_response fr) = (st0, rsp)" by (metis surj_pair)
  show ?thesis
  proof (cases "ok st0")
    case False
    then show ?thesis using assms j failed by (auto simp: ProcessTestRulesetResponse_def)
  next
    case True
    then obtain r rs where r: "trs_test_results rsp = r # rs"
      using assms j by (cases "trs_test_results rsp") (auto simp: ProcessTestRulesetResponse_def)
    consider "tr_state r = SUCCESS" | "tr_state r \<noteq> SUCCESS" "rs \<noteq> []" | "tr_state r \<noteq> SUCCESS" "rs = []" by blast
    then show ?thesis
    proof cases
      case 1
      then show ?thesis using assms j r True by (intro success [of st0 rsp r rs]) (auto simp: ProcessTestRulesetResponse_def)
    next
      case 2
      then show ?thesis using assms j r True by (intro failed) (auto simp: ProcessTestRulesetResponse_def)
    next
      case 3
      show ?thesis
      proof (cases "check_function_calls lib (fr_funcs_with_result fr) (tr_function_calls r)")
        case (Inl st1)
        then show ?thesis using assms j r True 3 check_function_calls_Inl [OF Inl]
          by (intro failed) (auto simp: ProcessTestRulesetResponse_def)
      next
        case (Inr b)
        show ?thesis
        proof (cases b)
          case b: True
          then show ?thesis using assms j r True 3 Inr by (intro failed) (auto simp: ProcessTestRulesetResponse_def)
        next
          case False
          then have "st = Status_OK" "fr1 = fr\<lparr>fr_response := rsp, fr_func_call_iter := 0\<rparr>"
            using assms j r True 3 Inr by (auto simp: ProcessTestRulesetResponse_def Let_def)
          moreover have "\<forall>c \<in> set (tr_function_calls r). ok (CheckFuncCallArgs c)"
              "\<exists>c \<in> set (tr_function_calls r). Find lib c (fr_funcs_with_result fr) = None"
            using check_function_calls_Inr [OF Inr] False by (metis, metis)
          ultimately show ?thesis using j r True 3 by (intro calls [of st0 rsp r]) simp_all
        qed
      qed
    qed
  qed
qed

lemma ProcessFunctionCallResponse_due:
  assumes "external_due lib fr" "\<not> fr_is_done fr" "function_calls fr = Some cs"
  shows "ProcessFunctionCallResponse body fr = Some (Status_OK,
    fr\<lparr>fr_funcs_with_result := fr_funcs_with_result fr @ [(cs ! fr_func_call_iter fr, body)],
       fr_func_call_iter := fr_func_call_iter fr + 1\<rparr>, [])"
  using assms by (auto simp: ProcessFunctionCallResponse_def external_due_def AllFunctionCallsProcessed_def)

text \<open>After the response to a function call, with the calls compared by a reflexive relation.\<close>

lemma after_function_call:
  assumes "fr_base lib fr" "external_due lib fr" "function_calls fr = Some cs" "\<And>c. fb_equals lib c c"
    and "fr1 = fr\<lparr>fr_funcs_with_result := fr_funcs_with_result fr @ [(cs ! fr_func_call_iter fr, body)],
       fr_func_call_iter := fr_func_call_iter fr + 1\<rparr>"
  shows "fr_base lib fr1 \<and> function_calls fr1 = Some cs \<and> fr_func_call_iter fr1 \<le> length cs \<and>
    (\<forall>j < fr_func_call_iter fr1. Find lib (cs ! j) (fr_funcs_with_result fr1) \<noteq> None) \<and>
    (\<forall>c \<in> set cs. ok (CheckFuncCallArgs c))"
proof -
  let ?n = "fr_func_call_iter fr" and ?items = "fr_funcs_with_result fr"
  have due: "?n < length cs" "\<forall>c \<in> set cs. ok (CheckFuncCallArgs c)" "\<forall>j < ?n. Find lib (cs ! j) ?items \<noteq> None"
      "Find lib (cs ! ?n) ?items = None"
    using assms(2,3) by (auto simp: external_due_def)
  then have "fr_base lib fr1" using assms(1,5) by (auto simp: fr_base_def sorted_wrt_append Find_None_iff)
  moreover have "\<forall>j < fr_func_call_iter fr1. Find lib (cs ! j) (fr_funcs_with_result fr1) \<noteq> None"
    using due assms(4,5) by (auto simp: Find_append less_Suc_eq split: option.splits)
  ultimately show ?thesis using due assms(3,5) by (auto simp: function_calls_def)
qed

lemma UpdateResponse_firebase:
  assumes "\<not> fr_is_done fr" "fr_next_request fr = FirebaseHttpRequest"
    and "UpdateResponse lib rx body fr = Some (fr', es)"
  obtains st fr1 es1 where "ProcessTestRulesetResponse lib body fr = Some (st, fr1, es1)"
    "\<not> ok st \<Longrightarrow> fr' = SetStatus st fr1"
    "ok st \<Longrightarrow> \<exists>st2 fr2 es2. SetNextRequest lib rx fr1 = Some (st2, fr2, es2) \<and> fr' = SetStatus st2 fr2"
  using assms by (auto simp: UpdateResponse_def bind_eq_Some_conv split: if_splits)

lemma UpdateResponse_external:
  assumes "\<not> fr_is_done fr" "fr_next_request fr = ExternalHttpRequest" "external_due lib fr" "function_calls fr = Some cs"
    and "fr1 = fr\<lparr>fr_funcs_with_result := fr_funcs_with_result fr @ [(cs ! fr_func_call_iter fr, body)],
       fr_func_call_iter := fr_func_call_iter fr + 1\<rparr>"
  shows "UpdateResponse lib rx body fr =
    map_option (\<lambda>(st, fr2, es). (SetStatus st fr2, es)) (SetNextRequest lib rx fr1)"
  using assms(1,2) ProcessFunctionCallResponse_due [OF assms(3,1,4)] assms(5)
  by (cases "SetNextRequest lib rx fr1") (auto simp: UpdateResponse_def)

lemma fr_inv_UpdateResponse:
  assumes "fr_inv lib fr" "UpdateResponse lib rx body fr = Some (fr', es)" "\<not> fr_is_done fr" "\<And>c. fb_equals lib c c"
  shows "fr_inv lib fr'"
proof -
  have base: "fr_base lib fr" "fr_current_status fr = Status_OK" using assms(1,3) by (auto simp: fr_inv_base)
  consider "fr_next_request fr = FirebaseHttpRequest" | "fr_next_request fr = ExternalHttpRequest" "external_due lib fr"
    using assms(1,3) by (cases "fr_next_request fr") (auto simp: fr_inv_base)
  then show ?thesis
  proof cases
    case 1
    obtain st fr1 es1 where p: "ProcessTestRulesetResponse lib body fr = Some (st, fr1, es1)"
        "\<not> ok st \<Longrightarrow> fr' = SetStatus st fr1"
        "ok st \<Longrightarrow> \<exists>st2 fr2 es2. SetNextRequest lib rx fr1 = Some (st2, fr2, es2) \<and> fr' = SetStatus st2 fr2"
      using UpdateResponse_firebase [OF assms(3) 1 assms(2)] by blast
    from p(1) show ?thesis
    proof (cases rule: ProcessTestRulesetResponse_cases)
      case failed
      then show ?thesis using p(2) fr_inv_failed [of lib fr1 st] base(1) by (auto simp: fr_base_def)
    next
      case (success r rs st0 rsp)
      then show ?thesis using p(3) base by (auto simp: SetNextRequest_def fr_inv_base fr_base_def)
    next
      case (calls r st0 rsp)
      have "fr_base lib fr1" using base(1) calls(8) by (simp add: fr_base_def)
      then show ?thesis
        using p(3) after_SetNextRequest [of lib fr1 "tr_function_calls r" rx] base(2) assms(3) calls
        by (auto simp: function_calls_def)
    qed
  next
    case 2
    then obtain cs where cs: "function_calls fr = Some cs" by (auto simp: external_due_def)
    define fr1 where "fr1 = fr\<lparr>fr_funcs_with_result := fr_funcs_with_result fr @ [(cs ! fr_func_call_iter fr, body)],
       fr_func_call_iter := fr_func_call_iter fr + 1\<rparr>"
    have 1: "fr_base lib fr1 \<and> function_calls fr1 = Some cs \<and> fr_func_call_iter fr1 \<le> length cs \<and>
        (\<forall>j < fr_func_call_iter fr1. Find lib (cs ! j) (fr_funcs_with_result fr1) \<noteq> None) \<and>
        (\<forall>c \<in> set cs. ok (CheckFuncCallArgs c))"
      by (rule after_function_call [OF base(1) 2(2) cs assms(4) fr1_def])
    obtain st fr2 where "SetNextRequest lib rx fr1 = Some (st, fr2, es)" "fr' = SetStatus st fr2"
      using UpdateResponse_external [OF assms(3) 2 cs fr1_def, of rx] assms(2) by (cases "SetNextRequest lib rx fr1") auto
    then show ?thesis
      using after_SetNextRequest [of lib fr1 cs rx st fr2 es] 1 base(2) assms(3) by (simp add: fr1_def)
  qed
qed

section \<open>Runs\<close>

text \<open>The requests of an exchange with the bodies of their responses, and the state after them.\<close>

inductive fb_run ::
    "firebase_lib \<Rightarrow> string option \<Rightarrow> string \<Rightarrow> request_context \<Rightarrow> (firebase_http_request \<times> string) list \<Rightarrow>
     firebase_request \<Rightarrow> bool" for lib server ruleset_name rx where
  start: "FirebaseRequest lib garbage server ruleset_name rx = (fr, es) \<Longrightarrow> fb_run lib server ruleset_name rx [] fr"
| step: "\<lbrakk>fb_run lib server ruleset_name rx xs fr; \<not> fr_is_done fr; GetHttpRequest fr = (rq, fr1);
     UpdateResponse lib rx body fr1 = Some (fr', es)\<rbrakk> \<Longrightarrow> fb_run lib server ruleset_name rx (xs @ [(rq, body)]) fr'"

text \<open>The body of a test request: the claims, path and operation of the request with mocks of function calls.\<close>

definition test_body :: "firebase_lib \<Rightarrow> request_context \<Rightarrow> string \<Rightarrow> bool" where
  "test_body lib rx b \<longleftrightarrow> (\<exists>claims mocks st1 st2.
     JsonToProto (fb_json lib) (fb_value lib) (rx_auth_claims rx) KindNotSet = (st1, claims) \<and> ok st1 \<and>
     ProtoToJson (fb_json lib) (fb_request lib) \<lparr>trq_test_cases = [\<lparr>tc_expectation = ALLOW,
       tc_request = StructValue [(''path'', StringValue (GetRequestPath (rx_request rx))),
         (''method'', StringValue (GetOperation (GetRequestHTTPMethod (rx_request rx)))),
         (''auth'', StructValue [(''token'', claims)])],
       tc_function_mocks = mocks\<rparr>]\<rparr> JSON_DEFAULT = (st2, b))"

definition test_url :: "string option \<Rightarrow> string \<Rightarrow> string" where
  "test_url server ruleset_name = GetFirebaseServer server @ ''/v1/'' @ ruleset_name @ '':test?alt=json''"

text \<open>What holds of the test request along a run.\<close>

definition fb_fixed :: "firebase_lib \<Rightarrow> string option \<Rightarrow> string \<Rightarrow> request_context \<Rightarrow> firebase_request \<Rightarrow> bool" where
  "fb_fixed lib server ruleset_name rx fr \<longleftrightarrow>
     fh_url (fr_firebase_http_request fr) = test_url server ruleset_name \<and> fh_method (fr_firebase_http_request fr) = ''POST'' \<and>
     fh_audience (fr_firebase_http_request fr) = GetFirebaseAudience server \<and>
     (\<not> fr_is_done fr \<and> fr_next_request fr = FirebaseHttpRequest \<longrightarrow> test_body lib rx (fh_body (fr_firebase_http_request fr)))"

lemma UpdateRulesetRequestBody_test_body:
  assumes "UpdateRulesetRequestBody lib rx cs fr = (st, fr', es)" "ok st"
  shows "test_body lib rx (fh_body (fr_firebase_http_request fr'))"
  using UpdateRulesetRequestBody_ok [OF assms] by (auto simp: test_body_def test_request_def SetProtoValue_def)

lemma fb_fixed_UpdateRulesetRequestBody:
  assumes "UpdateRulesetRequestBody lib rx cs fr = (st, fr', es)"
  shows "fh_url (fr_firebase_http_request fr') = fh_url (fr_firebase_http_request fr) \<and>
    fh_method (fr_firebase_http_request fr') = fh_method (fr_firebase_http_request fr) \<and>
    fh_audience (fr_firebase_http_request fr') = fh_audience (fr_firebase_http_request fr)"
  using UpdateRulesetRequestBody_same [OF assms] by (auto simp: same_exchange_def)

lemma fb_fixed_SetNextRequest:
  assumes "SetNextRequest lib rx fr = Some (st, fr', es)"
    and "fh_url (fr_firebase_http_request fr) = test_url server ruleset_name" "fh_method (fr_firebase_http_request fr) = ''POST''"
      "fh_audience (fr_firebase_http_request fr) = GetFirebaseAudience server"
  shows "fb_fixed lib server ruleset_name rx (SetStatus st fr')"
proof (cases "fr_is_done fr")
  case True
  then show ?thesis using assms by (auto simp: SetNextRequest_def fb_fixed_def SetStatus_def)
next
  case False
  then obtain cs where cs: "function_calls fr = Some cs" using assms(1) by (auto simp: SetNextRequest_def bind_eq_Some_conv)
  define i where "i = fr_func_call_iter fr + skip_processed lib (fr_funcs_with_result fr) (drop (fr_func_call_iter fr) cs)"
  show ?thesis
  proof (cases "i < length cs")
    case True
    then show ?thesis
      using assms False cs
      by (auto simp: SetNextRequest_def i_def [symmetric] Let_def fb_fixed_def SetStatus_def split: if_splits prod.splits)
  next
    case i: False
    then have u: "UpdateRulesetRequestBody lib rx cs (fr\<lparr>fr_func_call_iter := i, fr_next_request := FirebaseHttpRequest\<rparr>) = (st, fr', es)"
      using assms(1) False cs by (auto simp: SetNextRequest_def i_def [symmetric] Let_def split: if_splits)
    show ?thesis
      using fb_fixed_UpdateRulesetRequestBody [OF u] UpdateRulesetRequestBody_test_body [OF u] assms(2-4)
      by (auto simp: fb_fixed_def SetStatus_def)
  qed
qed

lemma fb_fixed_UpdateResponse:
  assumes "fb_fixed lib server ruleset_name rx fr" "UpdateResponse lib rx body fr = Some (fr', es)" "\<not> fr_is_done fr"
  shows "fb_fixed lib server ruleset_name rx fr'"
proof -
  let ?same = "\<lambda>fr1. fr_firebase_http_request fr1 = fr_firebase_http_request fr"
  consider "fr_next_request fr = NoRequest" | st fr1 where "?same fr1" "\<not> ok st" "fr' = SetStatus st fr1"
    | st fr1 fr2 es2 where "?same fr1" "SetNextRequest lib rx fr1 = Some (st, fr2, es2)" "fr' = SetStatus st fr2"
  proof (cases "fr_next_request fr = NoRequest")
    case False
    let ?p = "if fr_next_request fr = FirebaseHttpRequest then ProcessTestRulesetResponse lib body fr
      else ProcessFunctionCallResponse body fr"
    obtain st fr1 es1 where p: "?p = Some (st, fr1, es1)"
      using assms(2,3) False by (auto simp: UpdateResponse_def bind_eq_Some_conv)
    have "?same fr1"
    proof (cases "fr_next_request fr = FirebaseHttpRequest")
      case True
      then have "ProcessTestRulesetResponse lib body fr = Some (st, fr1, es1)" using p by simp
      then show ?thesis by (cases rule: ProcessTestRulesetResponse_cases) auto
    next
      case False
      then show ?thesis using p by (auto simp: ProcessFunctionCallResponse_def bind_eq_Some_conv split: if_splits)
    qed
    then show ?thesis
      using that(2,3) [of fr1] assms(2,3) False p by (cases "ok st") (auto simp: UpdateResponse_def bind_eq_Some_conv)
  qed
  then show ?thesis
  proof cases
    case 1
    then show ?thesis using assms by (auto simp: UpdateResponse_def fb_fixed_def SetStatus_def)
  next
    case 2
    then show ?thesis using assms(1) by (auto simp: fb_fixed_def SetStatus_def)
  next
    case 3
    then show ?thesis using assms(1) fb_fixed_SetNextRequest [OF 3(2)] by (auto simp: fb_fixed_def)
  qed
qed

lemma FirebaseRequest_inv:
  assumes "FirebaseRequest lib garbage server ruleset_name rx = (fr, es)"
  shows "fr_inv lib fr \<and> fb_fixed lib server ruleset_name rx fr \<and> fr_funcs_with_result fr = [] \<and>
    (fr_is_done fr \<longrightarrow> \<not> ok (fr_current_status fr))"
proof -
  define fr0 :: firebase_request where "fr0 = \<lparr>fr_current_status = Status_OK, fr_is_done = False, fr_funcs_with_result = [],
            fr_func_call_iter = garbage, fr_response = \<lparr>trs_test_results = []\<rparr>, fr_next_request = NoRequest,
            fr_firebase_http_request = \<lparr>fh_url = GetFirebaseServer server @ ''/v1'' @ ''/'' @ ruleset_name @ '':test?alt=json'',
              fh_method = ''POST'', fh_body = [], fh_token_type = JWT_TOKEN_FOR_FIREBASE,
              fh_audience = GetFirebaseAudience server\<rparr>,
            fr_external_http_request = new_HttpRequest\<lparr>fh_token_type := JWT_TOKEN_FOR_AUTHORIZATION_SERVICE\<rparr>\<rparr>"
  obtain st fr1 es1 where u: "UpdateRulesetRequestBody lib rx [] fr0 = (st, fr1, es1)" by (metis prod_cases3)
  have fr: "fr = (let fr = SetStatus st fr1 in if \<not> ok (fr_current_status fr) then fr else fr\<lparr>fr_next_request := FirebaseHttpRequest\<rparr>)"
    using assms u unfolding FirebaseRequest_def fr0_def [symmetric] Let_def by (auto split: if_splits)
  show ?thesis
    using UpdateRulesetRequestBody_same [OF u] UpdateRulesetRequestBody_test_body [OF u]
    by (auto simp: fr fr0_def Let_def SetStatus_def same_exchange_def fr_inv_def fb_fixed_def test_url_def)
qed

lemma GetHttpRequest_inv:
  assumes "fr_inv lib fr" "\<not> fr_is_done fr" "GetHttpRequest fr = (rq, fr1)"
  shows "fr1 = fr \<and> rq = (if fr_next_request fr = FirebaseHttpRequest then fr_firebase_http_request fr else fr_external_http_request fr)"
  using assms by (auto simp: GetHttpRequest_def fr_inv_def split: next_request.splits)

lemma fb_run_inv:
  assumes "fb_run lib server ruleset_name rx xs fr" "\<And>c. fb_equals lib c c"
  shows "fr_inv lib fr \<and> fb_fixed lib server ruleset_name rx fr"
  using assms(1)
proof (induction rule: fb_run.induct)
  case (start garbage fr es)
  then show ?case using FirebaseRequest_inv by blast
next
  case (step xs fr rq fr1 body fr' es)
  then have "fr1 = fr" using GetHttpRequest_inv by blast
  then show ?case using step fr_inv_UpdateResponse [of lib fr rx body fr' es] assms(2) fb_fixed_UpdateResponse [of lib server ruleset_name rx fr body fr' es]
    by blast
qed

text \<open>A request that makes a function call, and one that tests the rules.\<close>

definition requests_call :: "function_call \<Rightarrow> firebase_http_request \<Rightarrow> bool" where
  "requests_call c rq \<longleftrightarrow> fh_url rq = string_value (fc_args c ! 0) \<and> IsHttpRequest (fh_url rq) \<and>
     fh_method rq = string_value (fc_args c ! 1) \<and> fh_method rq \<noteq> [] \<and>
     fh_audience rq = string_value (last (fc_args c)) \<and> fh_token_type rq = JWT_TOKEN_FOR_AUTHORIZATION_SERVICE"

definition tests_rules :: "firebase_lib \<Rightarrow> string option \<Rightarrow> string \<Rightarrow> request_context \<Rightarrow> firebase_http_request \<Rightarrow> bool" where
  "tests_rules lib server ruleset_name rx rq \<longleftrightarrow> fh_url rq = test_url server ruleset_name \<and> fh_method rq = ''POST'' \<and>
     fh_audience rq = GetFirebaseAudience server \<and> fh_token_type rq = JWT_TOKEN_FOR_FIREBASE \<and> test_body lib rx (fh_body rq)"

section \<open>What lets a request pass\<close>

lemma UpdateResponse_done_ok:
  assumes "UpdateResponse lib rx body fr = Some (fr', es)" "\<not> fr_is_done fr" "fr_is_done fr'" "ok (fr_current_status fr')"
  shows "fr_next_request fr = FirebaseHttpRequest \<and> (\<exists>st rsp r rs.
    JsonToProto (fb_json lib) (fb_response lib) body (fr_response fr) = (st, rsp) \<and> ok st \<and>
    trs_test_results rsp = r # rs \<and> tr_state r = SUCCESS)"
proof -
  have set_done: False if "\<not> fr_is_done fr1" "fr' = SetStatus st fr1" for st fr1
    using that assms(3,4) by (auto simp: SetStatus_def split: if_splits)
  have keep: "\<not> fr_is_done fr2" if "SetNextRequest lib rx fr1 = Some (st, fr2, es2)" "\<not> fr_is_done fr1" for fr1 st fr2 es2
    using that by (auto simp: SetNextRequest_def Let_def bind_eq_Some_conv split: if_splits prod.splits
        dest!: UpdateRulesetRequestBody_same simp: same_exchange_def)
  show ?thesis
  proof (cases "fr_next_request fr")
    case NoRequest
    then show ?thesis using assms set_done by (auto simp: UpdateResponse_def)
  next
    case FirebaseHttpRequest
    obtain st fr1 es1 where p: "ProcessTestRulesetResponse lib body fr = Some (st, fr1, es1)"
        "\<not> ok st \<Longrightarrow> fr' = SetStatus st fr1"
        "ok st \<Longrightarrow> \<exists>st2 fr2 es2. SetNextRequest lib rx fr1 = Some (st2, fr2, es2) \<and> fr' = SetStatus st2 fr2"
      using UpdateResponse_firebase [OF assms(2) FirebaseHttpRequest assms(1)] by blast
    from p(1) show ?thesis
    proof (cases rule: ProcessTestRulesetResponse_cases)
      case failed
      then show ?thesis using p(2) set_done [of fr1 st] assms(2) by auto
    next
      case (success r rs st0 rsp)
      then show ?thesis using FirebaseHttpRequest by blast
    next
      case (calls r st0 rsp)
      then obtain st2 fr2 es2 where n: "SetNextRequest lib rx fr1 = Some (st2, fr2, es2)" "fr' = SetStatus st2 fr2"
        using p(3) by auto
      show ?thesis using set_done [OF keep [OF n(1)] n(2)] assms(2) calls by simp
    qed
  next
    case ExternalHttpRequest
    obtain st fr1 es1 where p: "ProcessFunctionCallResponse body fr = Some (st, fr1, es1)"
      using assms(1,2) ExternalHttpRequest by (auto simp: UpdateResponse_def bind_eq_Some_conv)
    then have "\<not> fr_is_done fr1" using assms(2)
      by (auto simp: ProcessFunctionCallResponse_def bind_eq_Some_conv split: if_splits)
    then show ?thesis
    proof (cases "ok st")
      case True
      then obtain st2 fr2 es2 where n: "SetNextRequest lib rx fr1 = Some (st2, fr2, es2)" "fr' = SetStatus st2 fr2"
        using assms(1,2) ExternalHttpRequest p by (auto simp: UpdateResponse_def bind_eq_Some_conv)
      show ?thesis using set_done [OF keep [OF n(1)] n(2)] \<open>\<not> fr_is_done fr1\<close> by simp
    next
      case False
      then have "fr' = SetStatus st fr1" using assms(1,2) ExternalHttpRequest p by (auto simp: UpdateResponse_def)
      then show ?thesis using set_done \<open>\<not> fr_is_done fr1\<close> by blast
    qed
  qed
qed

text \<open>
  An exchange ends with permission only when the last request was a test of the ruleset, sent
  to the configured server with the path, the operation and the claims of the request, and its
  response says that the test succeeded.
\<close>

lemma allowed_only_by_success:
  assumes "fb_run lib server ruleset_name rx xs fr" and "\<And>c. fb_equals lib c c"
    and "fr_is_done fr" and "ok (fr_current_status fr)"
  shows "\<exists>ys rq body rsp0 st rsp r rs. xs = ys @ [(rq, body)] \<and> tests_rules lib server ruleset_name rx rq \<and>
    JsonToProto (fb_json lib) (fb_response lib) body rsp0 = (st, rsp) \<and> ok st \<and>
    trs_test_results rsp = r # rs \<and> tr_state r = SUCCESS"
  using assms(1)
proof cases
  case (start garbage es)
  then show ?thesis using FirebaseRequest_inv [OF start(2)] assms(3,4) by blast
next
  case (step ys fr0 rq fr1 body es)
  note inv = fb_run_inv [OF step(2) assms(2)]
  then have fr1: "fr1 = fr0" "rq = (if fr_next_request fr0 = FirebaseHttpRequest then fr_firebase_http_request fr0 else fr_external_http_request fr0)"
    using GetHttpRequest_inv [OF _ step(3,4)] by auto
  note u = UpdateResponse_done_ok [OF step(5) [unfolded fr1(1)] step(3) assms(3,4)]
  obtain st rsp r rs where r: "JsonToProto (fb_json lib) (fb_response lib) body (fr_response fr0) = (st, rsp)" "ok st"
      "trs_test_results rsp = r # rs" "tr_state r = SUCCESS" using u by blast
  have "rq = fr_firebase_http_request fr0" using fr1(2) u by simp
  then have "tests_rules lib server ruleset_name rx rq"
    using inv u step(3) by (auto simp: tests_rules_def fr_inv_def fb_fixed_def)
  then show ?thesis using step(1) r by blast
qed

section \<open>The requests of an exchange\<close>

lemma UpdateResponse_items:
  assumes "fr_inv lib fr" "\<not> fr_is_done fr" "UpdateResponse lib rx body fr = Some (fr', es)" "\<And>c. fb_equals lib c c"
  shows "if fr_next_request fr = FirebaseHttpRequest then fr_funcs_with_result fr' = fr_funcs_with_result fr
    else \<exists>c. fr_funcs_with_result fr' = fr_funcs_with_result fr @ [(c, body)] \<and>
      external_request c (fr_external_http_request fr) = fr_external_http_request fr \<and> ok (CheckFuncCallArgs c)"
proof -
  have same: "fr_funcs_with_result fr2 = fr_funcs_with_result fr1"
    if "SetNextRequest lib rx fr1 = Some (st, fr2, es2)" for fr1 st fr2 es2
    using that by (auto simp: SetNextRequest_def Let_def bind_eq_Some_conv split: if_splits prod.splits
        dest!: UpdateRulesetRequestBody_same simp: same_exchange_def)
  have status: "fr_funcs_with_result (SetStatus st fr1) = fr_funcs_with_result fr1" for st fr1
    by (simp add: SetStatus_def)
  show ?thesis
  proof (cases "fr_next_request fr = FirebaseHttpRequest")
    case True
    obtain st fr1 es1 where p: "ProcessTestRulesetResponse lib body fr = Some (st, fr1, es1)"
        "\<not> ok st \<Longrightarrow> fr' = SetStatus st fr1"
        "ok st \<Longrightarrow> \<exists>st2 fr2 es2. SetNextRequest lib rx fr1 = Some (st2, fr2, es2) \<and> fr' = SetStatus st2 fr2"
      using UpdateResponse_firebase [OF assms(2) True assms(3)] by blast
    from p(1) have "fr_funcs_with_result fr1 = fr_funcs_with_result fr"
      by (cases rule: ProcessTestRulesetResponse_cases) auto
    then show ?thesis using p(2,3) same status True by (cases "ok st") auto
  next
    case False
    then have ext: "fr_next_request fr = ExternalHttpRequest" "external_due lib fr"
      using assms(1,2) by (cases "fr_next_request fr"; auto simp: fr_inv_def)+
    then obtain cs where cs: "function_calls fr = Some cs" by (auto simp: external_due_def)
    let ?fr1 = "fr\<lparr>fr_funcs_with_result := fr_funcs_with_result fr @ [(cs ! fr_func_call_iter fr, body)],
       fr_func_call_iter := fr_func_call_iter fr + 1\<rparr>"
    obtain st fr2 where n: "SetNextRequest lib rx ?fr1 = Some (st, fr2, es)" "fr' = SetStatus st fr2"
      using UpdateResponse_external [OF assms(2) ext cs refl, of rx body] assms(3)
      by (cases "SetNextRequest lib rx ?fr1") auto
    have "fr_funcs_with_result fr' = fr_funcs_with_result fr @ [(cs ! fr_func_call_iter fr, body)]"
      using same [OF n(1)] n(2) status by simp
    moreover have "external_request (cs ! fr_func_call_iter fr) (fr_external_http_request fr) = fr_external_http_request fr"
        "ok (CheckFuncCallArgs (cs ! fr_func_call_iter fr))"
      using ext(2) cs by (auto simp: external_due_def)
    ultimately show ?thesis using False by auto
  qed
qed

lemma requests_call_external:
  assumes "external_request c rq = rq" "ok (CheckFuncCallArgs c)" "fh_token_type rq = JWT_TOKEN_FOR_AUTHORIZATION_SERVICE"
  shows "requests_call c rq"
proof -
  have "fh_url rq = string_value (fc_args c ! 0)" "fh_method rq = string_value (fc_args c ! 1)"
      "fh_audience rq = string_value (fc_args c ! (length (fc_args c) - 1))"
    by (subst assms(1) [symmetric], simp add: external_request_def)+
  moreover have "fc_args c \<noteq> []" using CheckFuncCallArgs_ok [OF assms(2)] by auto
  ultimately show ?thesis using CheckFuncCallArgs_ok [OF assms(2)] assms(3) by (simp add: requests_call_def last_conv_nth)
qed


section \<open>The function calls of a response come to an end\<close>

primrec answers :: "firebase_lib \<Rightarrow> request_context \<Rightarrow> string list \<Rightarrow> firebase_request \<Rightarrow> firebase_request option" where
  "answers lib rx [] fr = Some fr"
| "answers lib rx (b # bs) fr = (case UpdateResponse lib rx b fr of None \<Rightarrow> None | Some (fr, _) \<Rightarrow> answers lib rx bs fr)"

lemma external_step:
  assumes "fr_inv lib fr" "\<not> fr_is_done fr" "fr_next_request fr = ExternalHttpRequest" "\<And>c. fb_equals lib c c"
    and "function_calls fr = Some cs"
  shows "\<exists>fr' es. UpdateResponse lib rx b fr = Some (fr', es) \<and> fr_inv lib fr' \<and>
    (fr_is_done fr' \<or> (fr_next_request fr' = FirebaseHttpRequest \<and> (\<forall>c \<in> set cs. Find lib c (fr_funcs_with_result fr') \<noteq> None)) \<or>
     (fr_next_request fr' = ExternalHttpRequest \<and> function_calls fr' = Some cs \<and>
      fr_func_call_iter fr < fr_func_call_iter fr' \<and> fr_func_call_iter fr' < length cs))"
proof -
  have due: "external_due lib fr" and base: "fr_base lib fr" using assms(1-3) by (auto simp: fr_inv_base)
  define fr1 where "fr1 = fr\<lparr>fr_funcs_with_result := fr_funcs_with_result fr @ [(cs ! fr_func_call_iter fr, b)],
       fr_func_call_iter := fr_func_call_iter fr + 1\<rparr>"
  have 1: "fr_base lib fr1 \<and> function_calls fr1 = Some cs \<and> fr_func_call_iter fr1 \<le> length cs \<and>
      (\<forall>j < fr_func_call_iter fr1. Find lib (cs ! j) (fr_funcs_with_result fr1) \<noteq> None) \<and>
      (\<forall>c \<in> set cs. ok (CheckFuncCallArgs c))"
    by (rule after_function_call [OF base due assms(5,4) fr1_def])
  have "\<not> fr_is_done fr1" using assms(2) by (simp add: fr1_def)
  from SetNextRequest_not_done [OF this, of cs lib rx] 1
  obtain st fr2 es where s: "SetNextRequest lib rx fr1 = Some (st, fr2, es)" "same_exchange fr1 fr2"
      "ok st \<longrightarrow> (fr_next_request fr2 = ExternalHttpRequest \<and> external_due lib fr2 \<and> fr_func_call_iter fr1 \<le> fr_func_call_iter fr2) \<or>
       (fr_next_request fr2 = FirebaseHttpRequest \<and> (\<forall>c \<in> set cs. Find lib c (fr_funcs_with_result fr1) \<noteq> None))"
    by blast
  have u: "UpdateResponse lib rx b fr = Some (SetStatus st fr2, es)"
    using UpdateResponse_external [OF assms(2,3) due assms(5) fr1_def, of rx] s(1) by simp
  have "function_calls fr2 = Some cs" using s(2) 1 by (simp add: same_exchange_def function_calls_def)
  then show ?thesis
    using u fr_inv_UpdateResponse [OF assms(1) u assms(2,4)] s(2,3) SetStatus_not_ok [of st fr2]
    by (cases "ok st") (auto simp: fr1_def same_exchange_def external_due_def)
qed

text \<open>
  C7: once the rules ask for function calls, at most as many responses as there are calls left
  bring the exchange to an end or to the next test of the rules, when every call of the response
  has a result; no response makes the exchange fail to return.
\<close>

theorem function_calls_end:
  assumes "fb_run lib server ruleset_name rx xs fr" and "\<And>c. fb_equals lib c c"
    and "\<not> fr_is_done fr" and "fr_next_request fr = ExternalHttpRequest"
    and "function_calls fr = Some cs" and "length bodies = length cs - fr_func_call_iter fr"
  shows "\<exists>k fr'. 0 < k \<and> k \<le> length bodies \<and> answers lib rx (take k bodies) fr = Some fr' \<and>
    (fr_is_done fr' \<or> (fr_next_request fr' = FirebaseHttpRequest \<and> (\<forall>c \<in> set cs. Find lib c (fr_funcs_with_result fr') \<noteq> None)))"
proof -
  have main: "\<exists>k fr'. 0 < k \<and> k \<le> length bodies \<and> answers lib rx (take k bodies) fr = Some fr' \<and>
      (fr_is_done fr' \<or> (fr_next_request fr' = FirebaseHttpRequest \<and> (\<forall>c \<in> set cs. Find lib c (fr_funcs_with_result fr') \<noteq> None)))"
    if "fr_inv lib fr" "\<not> fr_is_done fr" "fr_next_request fr = ExternalHttpRequest" "function_calls fr = Some cs"
      "length bodies \<ge> length cs - fr_func_call_iter fr" for fr bodies
    using that
  proof (induction bodies arbitrary: fr)
    case Nil
    then have "fr_func_call_iter fr < length cs" by (auto simp: fr_inv_base external_due_def)
    then show ?case using Nil by simp
  next
    case (Cons b bs)
    obtain fr' es where u: "UpdateResponse lib rx b fr = Some (fr', es)" "fr_inv lib fr'"
      and c: "fr_is_done fr' \<or> (fr_next_request fr' = FirebaseHttpRequest \<and> (\<forall>c \<in> set cs. Find lib c (fr_funcs_with_result fr') \<noteq> None)) \<or>
     (fr_next_request fr' = ExternalHttpRequest \<and> function_calls fr' = Some cs \<and>
      fr_func_call_iter fr < fr_func_call_iter fr' \<and> fr_func_call_iter fr' < length cs)"
      using external_step [OF Cons.prems(1-3) assms(2) Cons.prems(4), of rx b] by blast
    show ?case
    proof (cases "fr_is_done fr' \<or> fr_next_request fr' = FirebaseHttpRequest")
      case True
      then show ?thesis using u(1) c by (intro exI [of _ 1] exI [of _ fr']) auto
    next
      case False
      then have "fr_next_request fr' = ExternalHttpRequest" "function_calls fr' = Some cs"
          "length cs - fr_func_call_iter fr' \<le> length bs" using c Cons.prems(5) by auto
      with False obtain k fr2 where "0 < k" "k \<le> length bs" "answers lib rx (take k bs) fr' = Some fr2"
          "fr_is_done fr2 \<or> (fr_next_request fr2 = FirebaseHttpRequest \<and> (\<forall>c \<in> set cs. Find lib c (fr_funcs_with_result fr2) \<noteq> None))"
        using Cons.IH [OF u(2)] by blast
      then show ?thesis using u(1) by (intro exI [of _ "Suc k"] exI [of _ fr2]) simp
    qed
  qed
  show ?thesis by (rule main [OF conjunct1 [OF fb_run_inv [OF assms(1,2)]] assms(3-5)]) (use assms(6) in simp)
qed


section \<open>An example\<close>

definition example_call :: function_call where
  "example_call = \<lparr>fc_function = ''check'', fc_args = [StringValue ''https://authz.example.com/check'', StringValue ''GET'',
     StringValue ''{}'', StringValue ''audience'']\<rparr>"

text \<open>A library in which the binary form of a message is its JSON, and three responses of the rules service.\<close>

definition example_firebase_lib :: firebase_lib where
  "example_firebase_lib = \<lparr>fb_json = \<lparr>JsonToBinaryString = (\<lambda>u j. (\<lparr>error_code = 0, error_message = []\<rparr>, j)),
       BinaryToJsonString = (\<lambda>u b w d. (\<lparr>error_code = 0, error_message = []\<rparr>, b))\<rparr>,
     fb_value = \<lparr>full_name = ''google.protobuf.Value'', ParseFromString = (\<lambda>b. (True, StringValue b)),
       SerializeAsString = string_value\<rparr>,
     fb_request = \<lparr>full_name = ''google.api_manager.proto.TestRulesetRequest'',
       ParseFromString = (\<lambda>b. (True, \<lparr>trq_test_cases = []\<rparr>)),
       SerializeAsString = (\<lambda>rq. concat (map (\<lambda>tc. concat (map fm_function (tc_function_mocks tc))) (trq_test_cases rq)))\<rparr>,
     fb_response = \<lparr>full_name = ''google.api_manager.proto.TestRulesetResponse'',
       ParseFromString = (\<lambda>b. (True, \<lparr>trs_test_results =
         (if b = ''allow'' then [\<lparr>tr_state = SUCCESS, tr_debug_messages = [], tr_function_calls = []\<rparr>]
          else if b = ''ask'' then [\<lparr>tr_state = FAILURE, tr_debug_messages = [], tr_function_calls = [example_call]\<rparr>]
          else [])\<rparr>)),
       SerializeAsString = (\<lambda>rsp. [])\<rparr>,
     fb_equals = (=)\<rparr>"

definition rules_rx :: request_context where
  "rules_rx = \<lparr>rx_request = books_request ''/shelves/a'', rx_check_continuation = True, rx_method = Some books_method,
     rx_variable_bindings = [], rx_operation_id = [], rx_api_key = [], rx_check_response_info = CheckResponseInfo,
     rx_http_referer = [], rx_auth_issuer = [], rx_auth_audience = [], rx_auth_authorized_party = [],
     rx_auth_claims = ''{}'', rx_cloud_trace = None, rx_backend_span = None, rx_start_time = 0, rx_is_first_report = True,
     rx_last_report_time = 0, rx_last_request_bytes = 0, rx_last_response_bytes = 0, rx_auth_token = ''token'',
     rx_api_key_from_query = False\<rparr>"

abbreviation "example_server \<equiv> Some ''https://firebaserules.googleapis.com''"

lemma example_equals: "fb_equals example_firebase_lib c c"
  by (simp add: example_firebase_lib_def)

text \<open>The rules ask for a function call, and allow the request with its response.\<close>

lemma example_exchange:
  obtains fr0 fr1 fr2 fr3 rq0 rq1 rq2 where
    "fb_run example_firebase_lib example_server ''rulesets/1'' rules_rx [] fr0" "\<not> fr_is_done fr0"
    "fr_next_request fr0 = FirebaseHttpRequest" "fr_response fr0 = \<lparr>trs_test_results = []\<rparr>"
    "fb_run example_firebase_lib example_server ''rulesets/1'' rules_rx [(rq0, ''ask'')] fr1" "\<not> fr_is_done fr1"
    "fr_next_request fr1 = ExternalHttpRequest" "function_calls fr1 = Some [example_call]" "fr_func_call_iter fr1 = 0"
    "fb_run example_firebase_lib example_server ''rulesets/1'' rules_rx [(rq0, ''ask''), (rq1, ''yes''), (rq2, ''allow'')] fr3"
    "fr_is_done fr3" "ok (fr_current_status fr3)" "fh_url rq1 = ''https://authz.example.com/check''" "fh_body rq2 = ''check''"
proof -
  let ?lib = example_firebase_lib
  let ?run = "fb_run ?lib example_server ''rulesets/1'' rules_rx"
  have 1: "case FirebaseRequest ?lib 0 example_server ''rulesets/1'' rules_rx of (fr0, _) \<Rightarrow>
      \<not> fr_is_done fr0 \<and> fr_next_request fr0 = FirebaseHttpRequest \<and> fr_response fr0 = \<lparr>trs_test_results = []\<rparr> \<and>
      snd (GetHttpRequest fr0) = fr0 \<and>
      (case UpdateResponse ?lib rules_rx ''ask'' fr0 of None \<Rightarrow> False | Some (fr1, _) \<Rightarrow>
        \<not> fr_is_done fr1 \<and> fr_next_request fr1 = ExternalHttpRequest \<and> function_calls fr1 = Some [example_call] \<and>
        fr_func_call_iter fr1 = 0 \<and> snd (GetHttpRequest fr1) = fr1 \<and>
        fh_url (fst (GetHttpRequest fr1)) = ''https://authz.example.com/check'' \<and>
        (case UpdateResponse ?lib rules_rx ''yes'' fr1 of None \<Rightarrow> False | Some (fr2, _) \<Rightarrow>
          \<not> fr_is_done fr2 \<and> snd (GetHttpRequest fr2) = fr2 \<and> fh_body (fst (GetHttpRequest fr2)) = ''check'' \<and>
          (case UpdateResponse ?lib rules_rx ''allow'' fr2 of None \<Rightarrow> False | Some (fr3, _) \<Rightarrow>
            fr_is_done fr3 \<and> ok (fr_current_status fr3))))"
    by code_simp
  obtain fr0 es0 where a: "FirebaseRequest ?lib 0 example_server ''rulesets/1'' rules_rx = (fr0, es0)" by (metis surj_pair)
  note 1 = 1 [unfolded a prod.case]
  obtain fr1 es1 where b: "UpdateResponse ?lib rules_rx ''ask'' fr0 = Some (fr1, es1)" using 1 by (auto split: option.splits)
  note 1 = 1 [unfolded b option.case prod.case]
  obtain fr2 es2 where c: "UpdateResponse ?lib rules_rx ''yes'' fr1 = Some (fr2, es2)" using 1 by (auto split: option.splits)
  note 1 = 1 [unfolded c option.case prod.case]
  obtain fr3 es3 where d: "UpdateResponse ?lib rules_rx ''allow'' fr2 = Some (fr3, es3)" using 1 by (auto split: option.splits)
  note 1 = 1 [unfolded d option.case prod.case]
  have r0: "?run [] fr0" by (rule fb_run.start [OF a])
  have r1: "?run [(fst (GetHttpRequest fr0), ''ask'')] fr1"
    using fb_run.step [OF r0, of "fst (GetHttpRequest fr0)" fr0 "''ask''"] b 1 by (simp add: prod_eq_iff)
  have r2: "?run [(fst (GetHttpRequest fr0), ''ask''), (fst (GetHttpRequest fr1), ''yes'')] fr2"
    using fb_run.step [OF r1, of "fst (GetHttpRequest fr1)" fr1 "''yes''"] c 1 by (simp add: prod_eq_iff)
  have r3: "?run [(fst (GetHttpRequest fr0), ''ask''), (fst (GetHttpRequest fr1), ''yes''), (fst (GetHttpRequest fr2), ''allow'')] fr3"
    using fb_run.step [OF r2, of "fst (GetHttpRequest fr2)" fr2 "''allow''"] d 1 by (simp add: prod_eq_iff)
  show ?thesis using that [OF r0 _ _ _ r1 _ _ _ _ r3] 1 by simp
qed


theorem function_calls_end_witness:
  "\<exists>fr fr'. fr_next_request fr = ExternalHttpRequest \<and> answers example_firebase_lib rules_rx [''yes''] fr = Some fr' \<and>
     (fr_is_done fr' \<or> fr_next_request fr' = FirebaseHttpRequest)"
proof -
  obtain rq0 fr1 where e: "fb_run example_firebase_lib example_server ''rulesets/1'' rules_rx [(rq0, ''ask'')] fr1" "\<not> fr_is_done fr1"
    "fr_next_request fr1 = ExternalHttpRequest" "function_calls fr1 = Some [example_call]" "fr_func_call_iter fr1 = 0"
    by (rule example_exchange) blast
  have "length [''yes''] = length [example_call] - fr_func_call_iter fr1" using e(5) by simp
  from function_calls_end [OF e(1) example_equals e(2-4) this]
  obtain k fr' where "0 < k" "k \<le> 1" "answers example_firebase_lib rules_rx (take k [''yes'']) fr1 = Some fr'"
      "fr_is_done fr' \<or> fr_next_request fr' = FirebaseHttpRequest" by auto
  moreover from this(1,2) have "k = 1" by simp
  ultimately show ?thesis using e(3) by auto
qed


end
