(* ===== verification/Security_Rules.thy ===== *)
theory Security_Rules
  imports Firebase_Request
begin

text \<open>
  The check of the Firebase rules (\<^verbatim>\<open>src/api_manager/check_security_rules.cc\<close>).  The decisions
  are cached by token, path and method; the cache of decisions and the tokens of the service
  account are the state that requests share.  A request that waits for a response is resumed by
  \<open>release_response\<close> or \<open>test_response\<close>.  The clock is read in seconds for the tokens and in
  nanoseconds for the cache.  \<open>None\<close> is an access past the end of a repeated field.
\<close>

section \<open>State\<close>

record 'c rules_env =
  re_lru :: "(authz_value, 'c) lru_api"
  re_md5 :: "string \<Rightarrow> string"
  re_parse_json :: "string \<Rightarrow> grpc_json option"
  re_firebase :: firebase_lib
  re_get_auth_token :: "int \<Rightarrow> string \<Rightarrow> string \<Rightarrow> string option option"

record 'c rules_state =
  rs_authz_cache :: 'c
  rs_sa_token :: service_account_token

datatype rules_outcome = RulesDone status | AwaitRelease | AwaitTest firebase_request

type_synonym 'c rules_result = "(rules_outcome \<times> 'c rules_state \<times> env_effect list) option"

definition kFailedFirebaseReleaseFetch :: string where "kFailedFirebaseReleaseFetch = ''Failed to fetch Firebase Release''"
definition kFailedFirebaseTest :: string where "kFailedFirebaseTest = ''Failed to execute Firebase Test''"
definition kInvalidResponse :: string where "kInvalidResponse = ''Invalid JSON response from Firebase Service''"
definition kFailedTokenRetrieve :: string where "kFailedTokenRetrieve = ''Failure to retrieve auth token from RequestContext.''"

section \<open>The service\<close>

definition firebase_server_of :: "service_context \<Rightarrow> string option" where
  "firebase_server_of sx = Option.bind (gx_server_config (sx_global sx)) sv_firebase_server"

definition ServiceContext_RequireAuth :: "service_context \<Rightarrow> bool" where
  "ServiceContext_RequireAuth sx \<longleftrightarrow> \<not> gx_is_auth_force_disabled (sx_global sx) \<and> sx_has_authentication sx"

definition IsRulesCheckEnabled :: "service_context \<Rightarrow> bool" where
  "IsRulesCheckEnabled sx \<longleftrightarrow> ServiceContext_RequireAuth sx \<and> length (sx_api_versions sx) > 0 \<and>
     GetFirebaseServer (firebase_server_of sx) \<noteq> []"

definition GetReleaseName :: "service_context \<Rightarrow> string option" where
  "GetReleaseName sx =
     (case sx_api_versions sx of [] \<Rightarrow> None | version # _ \<Rightarrow> Some (s_name (cfg_service (sx_config sx)) @ '':'' @ version))"

definition GetReleaseUrl :: "service_context \<Rightarrow> string option" where
  "GetReleaseUrl sx = do {
     name \<leftarrow> GetReleaseName sx;
     Some (GetFirebaseServer (firebase_server_of sx) @ ''/v1'' @ ''/projects'' @ ''/'' @ ServiceContext_project_id sx @
           ''/releases'' @ ''/'' @ name)
   }"

section \<open>The checker\<close>

text \<open>The key of a decision.\<close>

definition authz_key :: "'c rules_env \<Rightarrow> request_context \<Rightarrow> string" where
  "authz_key env rx = ComposeAuthzCacheKey (re_md5 env) (rx_auth_token rx) (GetRequestPath (rx_request rx))
     (GetRequestHTTPMethod (rx_request rx))"

definition CheckCache :: "'c rules_env \<Rightarrow> int \<Rightarrow> request_context \<Rightarrow> 'c rules_state \<Rightarrow> status option \<times> 'c rules_state" where
  "CheckCache env now rx rs =
     (case AuthzCache_Lookup (re_lru env) (authz_key env rx) now (rs_authz_cache rs) of
        (val, cache) \<Rightarrow>
          (case val of
             None \<Rightarrow> None
           | Some val \<Rightarrow> Some (if if_success val then Status_OK
                              else Status PERMISSION_DENIED ''Unauthorized access (cached).''),
           rs\<lparr>rs_authz_cache := cache\<rparr>))"

definition InsertCache :: "'c rules_env \<Rightarrow> int \<Rightarrow> request_context \<Rightarrow> int \<Rightarrow> 'c rules_state \<Rightarrow> 'c rules_state" where
  "InsertCache env now rx status_code rs =
     (if status_code = OK_CODE \<or> status_code = PERMISSION_DENIED
      then rs\<lparr>rs_authz_cache := AuthzCache_Add (re_lru env) (authz_key env rx) (status_code = OK_CODE) now (rs_authz_cache rs)\<rparr>
      else rs)"

definition rules_HttpFetch ::
    "'c rules_env \<Rightarrow> int \<Rightarrow> firebase_http_request \<Rightarrow> 'c rules_state \<Rightarrow> ('c rules_state \<times> env_effect list) option" where
  "rules_HttpFetch env now h rs = do {
     (tok, t, logs) \<leftarrow> GetAuthToken_for (re_get_auth_token env) now (fh_token_type h) (fh_audience h) (rs_sa_token rs);
     (let request = set_auth_token tok (set_url (fh_url h) (set_method (fh_method h) new_HTTPRequest));
          request = (if fh_body h \<noteq> [] then set_body (fh_body h) (set_header ''Content-Type'' ''application/json'' request)
                     else request)
      in Some (rs\<lparr>rs_sa_token := t\<rparr>,
               [LogDebug (''Issue HTTP Request to url :'' @ fh_url h @ '' method : '' @ fh_method h @ '' body: '' @ fh_body h)] @
               logs @ [RunHTTPRequest request]))
   }"

text \<open>The status and the ruleset; \<open>None\<close> is a crash of the search for the property.\<close>

definition ParseReleaseResponse :: "'c rules_env \<Rightarrow> string \<Rightarrow> (status \<times> string \<times> env_effect list) option" where
  "ParseReleaseResponse env json_str =
     (case re_parse_json env json_str of
        None \<Rightarrow> Some (Status INVALID_ARGUMENT kInvalidResponse, [], [])
      | Some json \<Rightarrow> do {
          ruleset \<leftarrow> GetStringValue (Some json) (Some ''rulesetName'');
          (let ruleset_id = (case ruleset of None \<Rightarrow> [] | Some s \<Rightarrow> c_string s)
           in Some (if ruleset_id = []
                    then (Status INTERNAL_CODE kInvalidResponse, ruleset_id,
                          [LogError ''Empty ruleset Id received from firebase service''])
                    else (Status_OK, ruleset_id, [LogDebug (''Received ruleset Id: '' @ ruleset_id)])))
        })"

definition CallNextRequest ::
    "'c rules_env \<Rightarrow> int \<Rightarrow> int \<Rightarrow> request_context \<Rightarrow> firebase_request \<Rightarrow> 'c rules_state \<Rightarrow> 'c rules_result" where
  "CallNextRequest env now now_ns rx fr rs =
     (if fr_is_done fr
      then Some (RulesDone (fr_current_status fr), InsertCache env now_ns rx (code (fr_current_status fr)) rs, [])
      else case GetHttpRequest fr of
             (h, fr) \<Rightarrow> do {
               (rs, es) \<leftarrow> rules_HttpFetch env now h rs;
               Some (AwaitTest fr, rs, es)
             })"

definition AuthzChecker_Check ::
    "'c rules_env \<Rightarrow> int \<Rightarrow> int \<Rightarrow> service_context \<Rightarrow> request_context \<Rightarrow> 'c rules_state \<Rightarrow> 'c rules_result" where
  "AuthzChecker_Check env now now_ns sx rx rs =
     (if \<not> IsRulesCheckEnabled sx \<or> (case rx_method rx of None \<Rightarrow> True | Some m \<Rightarrow> \<not> auth m)
      then Some (RulesDone Status_OK, rs, [LogInfo ''Skipping Firebase Rules checks since it is disabled.''])
      else if rx_auth_token rx = []
      then Some (RulesDone (Status INTERNAL_CODE kFailedTokenRetrieve), rs, [LogError kFailedTokenRetrieve])
      else case CheckCache env now_ns rx rs of
             (Some st, rs) \<Rightarrow> Some (RulesDone st, rs, [])
           | (None, rs) \<Rightarrow> do {
               url \<leftarrow> GetReleaseUrl sx;
               (rs, es) \<leftarrow> rules_HttpFetch env now
                 \<lparr>fh_url = url, fh_method = ''GET'', fh_body = [], fh_token_type = JWT_TOKEN_FOR_FIREBASE,
                  fh_audience = GetFirebaseAudience (firebase_server_of sx)\<rparr> rs;
               Some (AwaitRelease, rs, es)
             })"

text \<open>The continuation of the fetch of the release.\<close>

definition release_response ::
    "'c rules_env \<Rightarrow> nat \<Rightarrow> int \<Rightarrow> int \<Rightarrow> service_context \<Rightarrow> request_context \<Rightarrow> status \<Rightarrow> string \<Rightarrow> 'c rules_state \<Rightarrow> 'c rules_result" where
  "release_response env garbage now now_ns sx rx st body rs = do {
     (st, ruleset_id, es) \<leftarrow> (if ok st
        then map_option (\<lambda>(st, ruleset_id, es). (st, ruleset_id, LogDebug (''GetReleasName succeeded with '' @ body) # es))
               (ParseReleaseResponse env body)
        else do {
          url \<leftarrow> GetReleaseUrl sx;
          Some (Status INTERNAL_CODE kFailedFirebaseReleaseFetch, [],
                [LogError (''GetReleaseName for '' @ url @ '' with status '' @ ToString st)])
        });
     (if ok st
      then case FirebaseRequest (re_firebase env) garbage (firebase_server_of sx) ruleset_id rx of
             (fr, es') \<Rightarrow> map_option (\<lambda>(out, rs, es''). (out, rs, es @ es' @ es'')) (CallNextRequest env now now_ns rx fr rs)
      else Some (RulesDone st, rs, es))
   }"

text \<open>The continuation of a request of the exchange.\<close>

definition test_response ::
    "'c rules_env \<Rightarrow> int \<Rightarrow> int \<Rightarrow> request_context \<Rightarrow> status \<Rightarrow> string \<Rightarrow> firebase_request \<Rightarrow> 'c rules_state \<Rightarrow> 'c rules_result" where
  "test_response env now now_ns rx st body fr rs =
     (if ok st \<and> body \<noteq> [] \<and> body \<noteq> ''{}''
      then do {
        (fr, es) \<leftarrow> UpdateResponse (re_firebase env) rx body fr;
        map_option (\<lambda>(out, rs, es'). (out, rs, LogInfo (''Response Body = '' @ body) # es @ es')) (CallNextRequest env now now_ns rx fr rs)
      }
      else Some (RulesDone (Status INTERNAL_CODE kFailedFirebaseTest), rs,
             [LogInfo (''Response Body = '' @ body),
              LogError (''Test API failed with '' @ (if ok st then ''Empty Response'' else ToString st))]))"

definition CheckSecurityRules ::
    "'c rules_env \<Rightarrow> int \<Rightarrow> int \<Rightarrow> service_context \<Rightarrow> request_context \<Rightarrow> 'c rules_state \<Rightarrow> 'c rules_result" where
  "CheckSecurityRules env now now_ns sx rx rs = AuthzChecker_Check env now now_ns sx rx rs"

section \<open>The cache of decisions\<close>

lemma AuthzCache_Lookup_entry:
  assumes "AuthzCache_Lookup lru k now c = (Some v, c')"
  shows "fst (lru_find lru k c) = Some v \<and> now \<le> az_exp v"
  using assms by (auto simp: AuthzCache_Lookup_def split: prod.splits option.splits if_splits)

lemma AuthzCache_Lookup_keeps:
  assumes "AuthzCache_Lookup lru k now c = (r, c')" "lru_laws lru" "fst (lru_find lru k' c') = Some v"
  shows "fst (lru_find lru k' c) = Some v"
proof -
  have "c' = snd (lru_find lru k c) \<or> c' = lru_remove lru k (snd (lru_find lru k c))"
    using assms(1) by (auto simp: AuthzCache_Lookup_def split: prod.splits option.splits if_splits)
  then show ?thesis using assms(2,3) unfolding lru_laws_def by metis
qed

lemma AuthzCache_Add_entry:
  assumes "lru_laws lru" "fst (lru_find lru k' (AuthzCache_Add lru k b now c)) = Some v"
  shows "(k' = k \<and> v = \<lparr>if_success = b, az_exp = now + Check_Auth.seconds kAuthzCacheTimeout\<rparr>) \<or> fst (lru_find lru k' c) = Some v"
  using assms unfolding lru_laws_def AuthzCache_Add_def by metis

section \<open>Requests that share the cache\<close>

text \<open>
  A request, the time of its last step, where it stands, and the ruleset and the exchange so far.
  The history holds every exchange that got a response, with the time of the response.  The
  tokens of the service account are also used and replaced by other components.
\<close>

type_synonym rules_request = "request_context \<times> int \<times> rules_outcome \<times> string \<times> (firebase_http_request \<times> string) list"
type_synonym rules_history = "(request_context \<times> string \<times> (firebase_http_request \<times> string) list \<times> int) set"

inductive rules_reachable ::
    "'c rules_env \<Rightarrow> service_context \<Rightarrow> 'c rules_state \<Rightarrow> (nat \<Rightarrow> rules_request option) \<Rightarrow> rules_history \<Rightarrow> bool"
    for env sx where
  start: "(\<And>k. fst (lru_find (re_lru env) k (rs_authz_cache rs)) = None) \<Longrightarrow> rules_reachable env sx rs (\<lambda>_. None) {}"
| arrive: "\<lbrakk>rules_reachable env sx rs p H; p i = None; CheckSecurityRules env now now_ns sx rx rs = Some (out, rs', es)\<rbrakk> \<Longrightarrow>
    rules_reachable env sx rs' (p(i \<mapsto> (rx, now_ns, out, [], []))) H"
| release: "\<lbrakk>rules_reachable env sx rs p H; p i = Some (rx, t, AwaitRelease, [], []);
    release_response env garbage now now_ns sx rx st body rs = Some (out, rs', es);
    out = RulesDone st' \<or> ParseReleaseResponse env body = Some (st', ruleset, es')\<rbrakk> \<Longrightarrow>
    rules_reachable env sx rs' (p(i \<mapsto> (rx, now_ns, out, ruleset, []))) H"
| test: "\<lbrakk>rules_reachable env sx rs p H; p i = Some (rx, t, AwaitTest fr, ruleset, xs);
    test_response env now now_ns rx st body fr rs = Some (out, rs', es); xs' = xs @ [(fst (GetHttpRequest fr), body)]\<rbrakk> \<Longrightarrow>
    rules_reachable env sx rs' (p(i \<mapsto> (rx, now_ns, out, ruleset, xs'))) (insert (rx, ruleset, xs', now_ns) H)"
| tokens: "rules_reachable env sx rs p H \<Longrightarrow> rules_reachable env sx (rs\<lparr>rs_sa_token := tok\<rparr>) p H"

text \<open>An exchange whose last request was a test of the rules for the request, which succeeded.\<close>

definition success_exchange ::
    "firebase_lib \<Rightarrow> string option \<Rightarrow> string \<Rightarrow> request_context \<Rightarrow> (firebase_http_request \<times> string) list \<Rightarrow> bool" where
  "success_exchange lib server ruleset rx xs \<longleftrightarrow> (\<exists>ys rq body rsp0 st rsp r rs. xs = ys @ [(rq, body)] \<and>
     tests_rules lib server ruleset rx rq \<and>
     JsonToProto (fb_json lib) (fb_response lib) body rsp0 = (st, rsp) \<and> ok st \<and>
     trs_test_results rsp = r # rs \<and> tr_state r = SUCCESS)"

text \<open>A test that succeeded for the same key, not more than five minutes before.\<close>

definition rules_allowed :: "'c rules_env \<Rightarrow> service_context \<Rightarrow> rules_history \<Rightarrow> string \<Rightarrow> int \<Rightarrow> bool" where
  "rules_allowed env sx H k t \<longleftrightarrow> (\<exists>rx ruleset xs t0. (rx, ruleset, xs, t0) \<in> H \<and> authz_key env rx = k \<and>
     t \<le> t0 + Check_Auth.seconds kAuthzCacheTimeout \<and> success_exchange (re_firebase env) (firebase_server_of sx) ruleset rx xs)"

lemma rules_allowed_mono: "rules_allowed env sx H k t \<Longrightarrow> rules_allowed env sx (insert h H) k t"
  by (fastforce simp: rules_allowed_def)

lemma rules_allowed_less: "rules_allowed env sx H k t \<Longrightarrow> t' \<le> t \<Longrightarrow> rules_allowed env sx H k t'"
  by (fastforce simp: rules_allowed_def)

definition cache_ok :: "'c rules_env \<Rightarrow> service_context \<Rightarrow> rules_history \<Rightarrow> 'c \<Rightarrow> bool" where
  "cache_ok env sx H c \<longleftrightarrow> (\<forall>k v. fst (lru_find (re_lru env) k c) = Some v \<and> if_success v \<longrightarrow> rules_allowed env sx H k (az_exp v))"

definition rules_request_ok :: "'c rules_env \<Rightarrow> service_context \<Rightarrow> rules_history \<Rightarrow> rules_request \<Rightarrow> bool" where
  "rules_request_ok env sx H r \<longleftrightarrow> (case r of (rx, t, out, ruleset, xs) \<Rightarrow>
     case out of
       RulesDone st \<Rightarrow> ok st \<and> IsRulesCheckEnabled sx \<and> (\<exists>m. rx_method rx = Some m \<and> auth m) \<longrightarrow>
         rules_allowed env sx H (authz_key env rx) t
     | AwaitRelease \<Rightarrow> True
     | AwaitTest fr \<Rightarrow> fb_run (re_firebase env) (firebase_server_of sx) ruleset rx xs fr \<and> \<not> fr_is_done fr)"

lemma rules_request_ok_mono: "rules_request_ok env sx H r \<Longrightarrow> rules_request_ok env sx (insert h H) r"
  by (auto simp: rules_request_ok_def rules_allowed_mono split: prod.splits rules_outcome.splits)

lemma cache_ok_mono: "cache_ok env sx H c \<Longrightarrow> cache_ok env sx (insert h H) c"
  by (auto simp: cache_ok_def intro: rules_allowed_mono)

lemma rules_HttpFetch_cache:
  "rules_HttpFetch env now h rs = Some (rs', es) \<Longrightarrow> rs_authz_cache rs' = rs_authz_cache rs"
  by (auto simp: rules_HttpFetch_def Let_def bind_eq_Some_conv)

lemma CheckSecurityRules_ok:
  assumes "CheckSecurityRules env now now_ns sx rx rs = Some (out, rs', es)" "cache_ok env sx H (rs_authz_cache rs)" "lru_laws (re_lru env)"
  shows "cache_ok env sx H (rs_authz_cache rs') \<and> rules_request_ok env sx H (rx, now_ns, out, [], [])"
proof (cases "\<not> IsRulesCheckEnabled sx \<or> (case rx_method rx of None \<Rightarrow> True | Some m \<Rightarrow> \<not> auth m) \<or> rx_auth_token rx = []")
  case True
  then show ?thesis using assms(1,2)
    by (auto simp: CheckSecurityRules_def AuthzChecker_Check_def rules_request_ok_def split: if_splits option.splits)
next
  case False
  obtain val c where l: "AuthzCache_Lookup (re_lru env) (authz_key env rx) now_ns (rs_authz_cache rs) = (val, c)" by (metis surj_pair)
  have c: "cache_ok env sx H c"
    using assms(2) AuthzCache_Lookup_keeps [OF l assms(3)] by (auto simp: cache_ok_def)
  show ?thesis
  proof (cases val)
    case None
    then have "\<exists>h es'. out = AwaitRelease \<and> rules_HttpFetch env now h (rs\<lparr>rs_authz_cache := c\<rparr>) = Some (rs', es')"
      using assms(1) False l by (auto simp: CheckSecurityRules_def AuthzChecker_Check_def CheckCache_def bind_eq_Some_conv split: option.splits)
    then show ?thesis using c rules_HttpFetch_cache by (fastforce simp: rules_request_ok_def)
  next
    case (Some v)
    then have "out = RulesDone (if if_success v then Status_OK else Status PERMISSION_DENIED ''Unauthorized access (cached).'')"
        "rs' = rs\<lparr>rs_authz_cache := c\<rparr>"
      using assms(1) False l by (auto simp: CheckSecurityRules_def AuthzChecker_Check_def CheckCache_def split: option.splits)
    moreover have "rules_allowed env sx H (authz_key env rx) now_ns" if "if_success v"
      using assms(2) AuthzCache_Lookup_entry [of "re_lru env" "authz_key env rx" now_ns "rs_authz_cache rs" v c] l Some that
        rules_allowed_less [of env sx H "authz_key env rx" "az_exp v" now_ns] by (auto simp: cache_ok_def)
    ultimately show ?thesis using c by (auto simp: rules_request_ok_def)
  qed
qed

text \<open>The next step of an exchange, given what its end means.\<close>

lemma CallNextRequest_ok:
  assumes "CallNextRequest env now now_ns rx fr rs = Some (out, rs', es)" "cache_ok env sx H (rs_authz_cache rs)" "lru_laws (re_lru env)"
    and "fb_run (re_firebase env) (firebase_server_of sx) ruleset rx xs fr" "\<And>c. fb_equals (re_firebase env) c c"
    and "fr_is_done fr \<and> ok (fr_current_status fr) \<Longrightarrow> (rx, ruleset, xs, now_ns) \<in> H"
  shows "cache_ok env sx H (rs_authz_cache rs') \<and> rules_request_ok env sx H (rx, now_ns, out, ruleset, xs)"
proof (cases "fr_is_done fr")
  case True
  then have out: "out = RulesDone (fr_current_status fr)" "rs' = InsertCache env now_ns rx (code (fr_current_status fr)) rs"
    using assms(1) by (auto simp: CallNextRequest_def)
  have al: "rules_allowed env sx H (authz_key env rx) t" if "ok (fr_current_status fr)" "t \<le> now_ns + Check_Auth.seconds kAuthzCacheTimeout" for t
  proof -
    have "success_exchange (re_firebase env) (firebase_server_of sx) ruleset rx xs"
      using allowed_only_by_success [OF assms(4,5) True that(1)] unfolding success_exchange_def by blast
    then show ?thesis using assms(6) True that by (auto simp: rules_allowed_def)
  qed
  have "cache_ok env sx H (rs_authz_cache rs')"
    unfolding cache_ok_def
  proof (intro allI impI, elim conjE)
    fix k v assume v: "fst (lru_find (re_lru env) k (rs_authz_cache rs')) = Some v" "if_success v"
    consider "fst (lru_find (re_lru env) k (rs_authz_cache rs)) = Some v"
      | "k = authz_key env rx" "v = \<lparr>if_success = code (fr_current_status fr) = OK_CODE, az_exp = now_ns + Check_Auth.seconds kAuthzCacheTimeout\<rparr>"
      using v(1) AuthzCache_Add_entry [OF assms(3), of k "authz_key env rx" "code (fr_current_status fr) = OK_CODE" now_ns
          "rs_authz_cache rs" v]
      unfolding out(2) InsertCache_def by (auto split: if_splits)
    then show "rules_allowed env sx H k (az_exp v)"
    proof cases
      case 1
      then show ?thesis using assms(2) v(2) by (auto simp: cache_ok_def)
    next
      case 2
      then show ?thesis using al v(2) by (auto simp: ok_def)
    qed
  qed
  then show ?thesis using al [of now_ns] out(1) by (auto simp: rules_request_ok_def Check_Auth.seconds_def kAuthzCacheTimeout_def)
next
  case False
  obtain h fr1 where h: "GetHttpRequest fr = (h, fr1)" by (metis surj_pair)
  then have "fr1 = fr" using GetHttpRequest_inv [OF conjunct1 [OF fb_run_inv [OF assms(4,5)]] False] by blast
  then obtain es' where f: "out = AwaitTest fr" "rules_HttpFetch env now h rs = Some (rs', es')"
    using assms(1) False h by (auto simp: CallNextRequest_def bind_eq_Some_conv)
  show ?thesis using assms(2,4) False f(1) rules_HttpFetch_cache [OF f(2)] by (simp add: rules_request_ok_def)
qed

lemma release_response_ok:
  assumes "release_response env garbage now now_ns sx rx st body rs = Some (out, rs', es)"
    and "cache_ok env sx H (rs_authz_cache rs)" "lru_laws (re_lru env)" "\<And>c. fb_equals (re_firebase env) c c"
    and "out = RulesDone st' \<or> ParseReleaseResponse env body = Some (st', ruleset, es')"
  shows "cache_ok env sx H (rs_authz_cache rs') \<and> rules_request_ok env sx H (rx, now_ns, out, ruleset, [])"
proof (cases "\<exists>fr. out = AwaitTest fr \<or> (\<exists>st1 id es1. ok st \<and> ParseReleaseResponse env body = Some (st1, id, es1) \<and> ok st1)")
  case False
  then have "\<exists>st. out = RulesDone st \<and> \<not> ok st \<and> rs' = rs"
    using assms(1) by (auto simp: release_response_def bind_eq_Some_conv split: if_splits)
  then show ?thesis using assms(2) by (auto simp: rules_request_ok_def)
next
  case True
  then obtain st1 id es1 fr es2 es3 where f: "ok st" "ParseReleaseResponse env body = Some (st1, id, es1)" "ok st1"
      "FirebaseRequest (re_firebase env) garbage (firebase_server_of sx) id rx = (fr, es2)"
      "CallNextRequest env now now_ns rx fr rs = Some (out, rs', es3)"
    using assms(1) by (auto simp: release_response_def bind_eq_Some_conv split: if_splits prod.splits)
  have run: "fb_run (re_firebase env) (firebase_server_of sx) id rx [] fr" by (rule fb_run.start [OF f(4)])
  have "fr_is_done fr \<Longrightarrow> \<not> ok (fr_current_status fr)" using FirebaseRequest_inv [OF f(4)] by blast
  then have "cache_ok env sx H (rs_authz_cache rs') \<and> rules_request_ok env sx H (rx, now_ns, out, id, [])"
    using CallNextRequest_ok [OF f(5) assms(2,3) run assms(4)] by blast
  then show ?thesis using assms(5) f(2) by (auto simp: rules_request_ok_def)
qed

lemma test_response_ok:
  assumes "test_response env now now_ns rx st body fr rs = Some (out, rs', es)"
    and "cache_ok env sx H (rs_authz_cache rs)" "lru_laws (re_lru env)" "\<And>c. fb_equals (re_firebase env) c c"
    and "fb_run (re_firebase env) (firebase_server_of sx) ruleset rx xs fr" "\<not> fr_is_done fr"
    and "xs' = xs @ [(fst (GetHttpRequest fr), body)]" "(rx, ruleset, xs', now_ns) \<in> H"
  shows "cache_ok env sx H (rs_authz_cache rs') \<and> rules_request_ok env sx H (rx, now_ns, out, ruleset, xs')"
proof (cases "ok st \<and> body \<noteq> [] \<and> body \<noteq> ''{}''")
  case False
  then have "out = RulesDone (Status INTERNAL_CODE kFailedFirebaseTest) \<and> rs' = rs"
    using assms(1) by (auto simp: test_response_def)
  then show ?thesis using assms(2) by (auto simp: rules_request_ok_def)
next
  case True
  then obtain fr1 es1 es2 where u: "UpdateResponse (re_firebase env) rx body fr = Some (fr1, es1)"
      "CallNextRequest env now now_ns rx fr1 rs = Some (out, rs', es2)"
    using assms(1) by (auto simp: test_response_def bind_eq_Some_conv)
  obtain h fr2 where h: "GetHttpRequest fr = (h, fr2)" by (metis surj_pair)
  then have "fr2 = fr" using GetHttpRequest_inv [OF conjunct1 [OF fb_run_inv [OF assms(5,4)]] assms(6)] by blast
  then have "fb_run (re_firebase env) (firebase_server_of sx) ruleset rx xs' fr1"
    using fb_run.step [OF assms(5,6) h] u(1) h assms(7) by simp
  then show ?thesis using CallNextRequest_ok [OF u(2) assms(2,3) _ assms(4)] assms(8) by blast
qed

lemma rules_reachable_ok:
  assumes "rules_reachable env sx rs p H" "lru_laws (re_lru env)" "\<And>c. fb_equals (re_firebase env) c c"
  shows "cache_ok env sx H (rs_authz_cache rs) \<and> (\<forall>i r. p i = Some r \<longrightarrow> rules_request_ok env sx H r)"
  using assms(1)
proof (induction rule: rules_reachable.induct)
  case (start rs)
  then show ?case by (simp add: cache_ok_def)
next
  case (arrive rs p H i now now_ns rx out rs' es)
  then show ?case using CheckSecurityRules_ok [OF arrive(3) _ assms(2), of H] by auto
next
  case (release rs p H i rx t garbage now now_ns st body out rs' es st' ruleset es')
  then show ?case using release_response_ok [OF release(3) conjunct1 [OF release(5)] assms(2,3) release(4)] by auto
next
  case (test rs p H i rx t fr ruleset xs now now_ns st body out rs' es xs')
  have c: "cache_ok env sx (insert (rx, ruleset, xs', now_ns) H) (rs_authz_cache rs)"
    by (rule cache_ok_mono [OF conjunct1 [OF test(5)]])
  have run: "fb_run (re_firebase env) (firebase_server_of sx) ruleset rx xs fr" "\<not> fr_is_done fr"
    using conjunct2 [OF test(5), rule_format, OF test(2)] by (simp_all add: rules_request_ok_def)
  show ?case
    using test_response_ok [OF test(3) c assms(2,3) run test(4) insertI1] test(5) by (auto intro: rules_request_ok_mono)
next
  case (tokens rs p H tok)
  then show ?case by simp
qed

text \<open>
  C4: however requests interleave, a request of a method with authentication passes the rules
  check only when a test of a ruleset for its token, path and method, sent to the configured
  rules server with the claims of the request, answered that it succeeded, not more than five
  minutes before; a decision cached for another request has the digest of the same token, path
  and method.
\<close>

theorem rules_check_sound:
  assumes "rules_reachable env sx rs p H" and "lru_laws (re_lru env)" and "\<And>c. fb_equals (re_firebase env) c c"
    and "p i = Some (rx, t, RulesDone st, ruleset, xs)" and "ok st"
    and "IsRulesCheckEnabled sx" and "rx_method rx = Some m" and "auth m"
  shows "\<exists>rx' ruleset' ys rq body t' rsp0 st' rsp r rs.
    (rx', ruleset', ys @ [(rq, body)], t') \<in> H \<and> t \<le> t' + Check_Auth.seconds 300 \<and>
    re_md5 env (rx_auth_token rx' @ GetRequestPath (rx_request rx') @ GetRequestHTTPMethod (rx_request rx')) =
      re_md5 env (rx_auth_token rx @ GetRequestPath (rx_request rx) @ GetRequestHTTPMethod (rx_request rx)) \<and>
    tests_rules (re_firebase env) (firebase_server_of sx) ruleset' rx' rq \<and>
    JsonToProto (fb_json (re_firebase env)) (fb_response (re_firebase env)) body rsp0 = (st', rsp) \<and> ok st' \<and>
    trs_test_results rsp = r # rs \<and> tr_state r = SUCCESS"
proof -
  have "rules_request_ok env sx H (rx, t, RulesDone st, ruleset, xs)"
    using rules_reachable_ok [OF assms(1-3)] assms(4) by blast
  then have "rules_allowed env sx H (authz_key env rx) t" using assms(5-8) by (auto simp: rules_request_ok_def)
  then obtain rx' ruleset' xs' t' where h: "(rx', ruleset', xs', t') \<in> H" "authz_key env rx' = authz_key env rx"
      "t \<le> t' + Check_Auth.seconds 300" "success_exchange (re_firebase env) (firebase_server_of sx) ruleset' rx' xs'"
    by (auto simp: rules_allowed_def kAuthzCacheTimeout_def)
  obtain ys rq body rsp0 st' rsp r rs' where "xs' = ys @ [(rq, body)]"
      "tests_rules (re_firebase env) (firebase_server_of sx) ruleset' rx' rq"
      "JsonToProto (fb_json (re_firebase env)) (fb_response (re_firebase env)) body rsp0 = (st', rsp)" "ok st'"
      "trs_test_results rsp = r # rs'" "tr_state r = SUCCESS"
    using h(4) unfolding success_exchange_def by blast
  then show ?thesis using h(1-3) unfolding authz_key_def ComposeAuthzCacheKey_def by blast
qed

lemma RequestContext_method:
  assumes "RequestContext lib uuid rnds now steady sx rq = Some (rx, sx', logs)"
  shows "rx_request rx = rq \<and> (\<exists>call. ServiceContext_GetMethodCallInfo (fst (GetRequestHTTPMethodWithOverride rq))
      (GetUnparsedRequestPath rq) (GetQueryParameters rq) (Some (sx_config sx)) = Inr call \<and>
    rx_method rx = Option.bind call (\<lambda>r. map_of (method_map (sx_config sx)) (mr_method r)))"
  using assms by (auto simp: RequestContext_def Let_def split: prod.splits sum.splits)


text \<open>An enabled check reads the version of the first API, which is there.\<close>

lemma GetReleaseUrl_enabled: "IsRulesCheckEnabled sx \<Longrightarrow> \<exists>url. GetReleaseUrl sx = Some url"
  by (auto simp: IsRulesCheckEnabled_def GetReleaseUrl_def GetReleaseName_def split: list.splits)

section \<open>An example\<close>

definition example_rules_env :: "(string \<times> authz_value) list rules_env" where
  "example_rules_env = \<lparr>re_lru = list_lru, re_md5 = id,
     re_parse_json = (\<lambda>s. Some (Json JSON_OBJECT None None [Json JSON_STRING (Some ''rulesetName'') (Some ''rulesets/1'') []])),
     re_firebase = example_firebase_lib, re_get_auth_token = (\<lambda>_ _ _. Some (Some ''jwt''))\<rparr>"

definition rules_context :: service_context where
  "rules_context = books_context\<lparr>sx_global := books_global\<lparr>gx_server_config :=
      Some (books_server_config\<lparr>sv_firebase_server := Some ''https://firebaserules.googleapis.com''\<rparr>)\<rparr>,
     sx_has_authentication := True, sx_api_versions := [''v1'']\<rparr>"

definition rules_request_rx :: request_context where
  "rules_request_rx = rules_rx\<lparr>rx_method := Some (books_method\<lparr>auth := True\<rparr>)\<rparr>"

definition rules_start :: "(string \<times> authz_value) list rules_state" where
  "rules_start = \<lparr>rs_authz_cache = [], rs_sa_token = ServiceAccountToken 0\<rparr>"

theorem rules_check_sound_witness:
  "\<exists>rx' ruleset' ys rq body t'. GetRequestPath (rx_request rx') @ GetRequestHTTPMethod (rx_request rx') = ''/shelves/aGET'' \<and>
     tests_rules example_firebase_lib (firebase_server_of rules_context) ruleset' rx' rq \<and>
     (\<exists>rs p H. rules_reachable example_rules_env rules_context rs p H \<and> (rx', ruleset', ys @ [(rq, body)], t') \<in> H \<and>
        p 0 \<noteq> None)"
proof -
  let ?env = example_rules_env and ?rx = rules_request_rx
  have 1: "case CheckSecurityRules ?env 0 0 rules_context ?rx rules_start of None \<Rightarrow> False | Some (out0, rs0, _) \<Rightarrow>
      out0 = AwaitRelease \<and>
      (case release_response ?env 0 0 0 rules_context ?rx Status_OK ''r'' rs0 of None \<Rightarrow> False | Some (out1, rs1, _) \<Rightarrow>
        (case out1 of AwaitTest fr \<Rightarrow>
           (case test_response ?env 0 0 ?rx Status_OK ''allow'' fr rs1 of None \<Rightarrow> False | Some (out2, rs2, _) \<Rightarrow>
              (case out2 of RulesDone st \<Rightarrow> ok st | _ \<Rightarrow> False))
         | _ \<Rightarrow> False))"
    by code_simp
  have 2: "IsRulesCheckEnabled rules_context" by code_simp
  have 3: "map_option (\<lambda>(st, id, es). id) (ParseReleaseResponse ?env ''r'') = Some ''rulesets/1''" by code_simp
  have eq: "\<And>c. fb_equals (re_firebase ?env) c c" by (simp add: example_rules_env_def example_equals)
  have lru: "lru_laws (re_lru ?env)" by (simp add: example_rules_env_def list_lru_laws)
  obtain rs0 es0 where a: "CheckSecurityRules ?env 0 0 rules_context ?rx rules_start = Some (AwaitRelease, rs0, es0)"
    using 1 by (auto split: option.splits)
  note 1 = 1 [unfolded a option.case prod.case]
  obtain fr rs1 es1 where b: "release_response ?env 0 0 0 rules_context ?rx Status_OK ''r'' rs0 = Some (AwaitTest fr, rs1, es1)"
    using 1 by (auto split: option.splits rules_outcome.splits)
  note 1 = 1 [unfolded b option.case prod.case rules_outcome.case]
  obtain st rs2 es2 where c: "test_response ?env 0 0 ?rx Status_OK ''allow'' fr rs1 = Some (RulesDone st, rs2, es2)" "ok st"
    using 1 by (auto split: option.splits rules_outcome.splits)
  obtain st' es' where d: "ParseReleaseResponse ?env ''r'' = Some (st', ''rulesets/1'', es')" using 3 by auto
  let ?p0 = "(\<lambda>_. None)(0 \<mapsto> (?rx, 0, AwaitRelease, [], []))"
  let ?p1 = "?p0(0 \<mapsto> (?rx, 0, AwaitTest fr, ''rulesets/1'', []))"
  let ?xs = "[] @ [(fst (GetHttpRequest fr), ''allow'')]"
  have "rules_reachable ?env rules_context rules_start (\<lambda>_. None) {}"
    by (rule rules_reachable.start) (simp add: example_rules_env_def rules_start_def list_lru_def)
  from rules_reachable.arrive [OF this refl a]
  have "rules_reachable ?env rules_context rs0 ?p0 {}" .
  from rules_reachable.release [OF this, of 0 ?rx 0 0 0 0 Status_OK "''r''" "AwaitTest fr" rs1 es1 st' "''rulesets/1''" es'] b d
  have "rules_reachable ?env rules_context rs1 ?p1 {}" by simp
  from rules_reachable.test [OF this, of 0 ?rx 0 fr "''rulesets/1''" "[]" 0 0 Status_OK "''allow''" "RulesDone st" rs2 es2 ?xs] c(1)
  have r: "rules_reachable ?env rules_context rs2 (?p1(0 \<mapsto> (?rx, 0, RulesDone st, ''rulesets/1'', ?xs)))
      (insert (?rx, ''rulesets/1'', ?xs, 0) {})" by simp
  have m: "rx_method ?rx = Some (books_method\<lparr>auth := True\<rparr>)" "auth (books_method\<lparr>auth := True\<rparr>)" by (simp_all add: rules_request_rx_def)
  have p: "(?p1(0 \<mapsto> (?rx, 0, RulesDone st, ''rulesets/1'', ?xs))) 0 = Some (?rx, 0, RulesDone st, ''rulesets/1'', ?xs)" by simp
  from rules_check_sound [OF r lru eq p c(2) 2 m]
  obtain rx' ruleset' ys rq body t' where "(rx', ruleset', ys @ [(rq, body)], t') \<in> insert (?rx, ''rulesets/1'', ?xs, 0) {}"
      "tests_rules (re_firebase ?env) (firebase_server_of rules_context) ruleset' rx' rq" by blast
  moreover have "GetRequestPath (rx_request ?rx) @ GetRequestHTTPMethod (rx_request ?rx) = ''/shelves/aGET''"
    by (simp add: rules_request_rx_def rules_rx_def books_request_def)
  ultimately show ?thesis using r by (fastforce simp: example_rules_env_def)
qed

definition delete_context :: service_context where
  "delete_context = books_context\<lparr>sx_config := books_config\<lparr>cfg_path_matcher :=
      Some (register_all [(''GET'', ''/shelves/{shelf}'', [], ''ListBooks''), (''DELETE'', ''/shelves/{shelf}'', [], ''DeleteShelf'')]
        PathMatcherBuilder),
     method_map := [(''DeleteShelf'', books_method\<lparr>selector := ''DeleteShelf''\<rparr>)]\<rparr>\<rparr>"

definition delete_request :: request where
  "delete_request = (books_request ''/shelves/a'')
     \<lparr>FindHeader := (\<lambda>n. if n = ''X-HTTP-Method-Override'' then Some ''DELETE'' else None)\<rparr>"

lemma delete_rx:
  obtains rx where "RequestContext lib uuid rnds now steady delete_context delete_request =
      Some (rx, delete_context, [LogDebug ''Request method SET TO: DELETE''])"
proof -
  have rq: "GetRequestHTTPMethodWithOverride delete_request = (''DELETE'', [LogDebug ''Request method SET TO: DELETE''])"
    "GetUnparsedRequestPath delete_request = ''/shelves/a''" "GetQueryParameters delete_request = []"
    by (simp_all add: GetRequestHTTPMethodWithOverride_def delete_request_def books_request_def kHttpMethodOverrideHeader_def Let_def)
  have call: "case ServiceContext_GetMethodCallInfo ''DELETE'' ''/shelves/a'' [] (Some (sx_config delete_context)) of
      Inr (Some r) \<Rightarrow> mr_method r = ''DeleteShelf'' | _ \<Rightarrow> False" by code_simp
  then obtain r where r: "ServiceContext_GetMethodCallInfo ''DELETE'' ''/shelves/a'' [] (Some (sx_config delete_context)) = Inr (Some r)"
      "mr_method r = ''DeleteShelf''" by (auto split: sum.splits option.splits)
  have sx: "gx_aggregator (sx_global delete_context) = None" "set_aggregator None delete_context = delete_context"
    using books_global_fields(2) by (simp_all add: delete_context_def books_context_def set_aggregator_def)
  obtain key fq where k: "(case map_of (method_map (sx_config delete_context)) ''DeleteShelf'' of None \<Rightarrow> ([], False)
      | Some m \<Rightarrow> if \<not> allow_unregistered_calls m then ExtractApiKey delete_request m else ([], False)) = (key, fq)"
    by (rule that [OF prod.collapse [symmetric]])
  show thesis using that by (simp add: RequestContext_def rq r sx k Let_def)
qed


end
