(* ===== verification/Check_Workflow.thy ===== *)
theory Check_Workflow
  imports Security_Rules
begin

text \<open>
  The checks of a request in their order and the handler of a request
  (\<^verbatim>\<open>src/api_manager/check_workflow.cc\<close>, \<^verbatim>\<open>check_service_control.cc\<close>, \<^verbatim>\<open>quota_control.cc\<close> and
  \<^verbatim>\<open>request_handler.cc\<close>).  A check calls its continuation, or waits for a response and is resumed
  by it; the continuation starts the next check.  What the requests of a service share is one
  record: the contexts with the tokens, the key documents, the two caches and the service control
  client.  \<open>None\<close> is the use of a null pointer, an index out of range or a failed
  \<^verbatim>\<open>GOOGLE_CHECK\<close>.
\<close>

section \<open>State\<close>

record ('c, 'e, 'd) service_shared =
  sh_context :: service_context
  sh_certs :: certs
  sh_jwt_cache :: 'c
  sh_authz_cache :: 'e
  sh_service_control :: "'d aggregated option"

text \<open>The libraries of the components, and the clocks and uninitialised values a step reads.\<close>

record ('v, 'c, 'e, 'k, 'd) check_lib =
  cl_auth :: "('v, 'c) auth_env"
  cl_rules :: "'e rules_env"
  cl_proto :: "('k, 'd) proto_lib"
  cl_control :: "'d sc_lib"
  cl_context :: context_lib

record check_clock =
  ck_now :: int
  ck_now_ns :: int
  ck_ticks :: ticks
  ck_garbage :: int
  ck_iter :: nat
  ck_rnd :: "64 word"

datatype 'd check_effect = AuthEffect auth_effect | ControlEffect "'d sc_effect"

abbreviation env_effects :: "env_effect list \<Rightarrow> 'd check_effect list" where
  "env_effects es \<equiv> map (\<lambda>e. AuthEffect (Env e)) es"

datatype 'v check_wait =
  WaitToken | WaitIdentity string | WaitJwksUri "'v auth_checker" | WaitPubKey "'v auth_checker"
| WaitRelease | WaitTest firebase_request | WaitCheck | WaitQuota

datatype check_event =
  HttpResponse status string | ClientCheckAnswer proto_status check_response | ClientQuotaAnswer proto_status quota_response

datatype 'v handler_outcome = Called status | Waits "'v check_wait" | Dropped

type_synonym ('v, 'c, 'e, 'd) handler_result =
  "('v handler_outcome \<times> ('c, 'e, 'd) service_shared \<times> request_context \<times> 'd check_effect list) option"

section \<open>The parts of the shared state\<close>

definition tokens_of :: "('c, 'e, 'd) service_shared \<Rightarrow> token_context" where
  "tokens_of sh = gx_tokens (sx_global (sh_context sh))"

definition put_tokens :: "token_context \<Rightarrow> ('c, 'e, 'd) service_shared \<Rightarrow> ('c, 'e, 'd) service_shared" where
  "put_tokens ctx sh = sh\<lparr>sh_context := (sh_context sh)\<lparr>sx_global := (sx_global (sh_context sh))\<lparr>gx_tokens := ctx\<rparr>\<rparr>\<rparr>"

definition auth_view :: "('c, 'e, 'd) service_shared \<Rightarrow> 'c service_state" where
  "auth_view sh = \<lparr>ss_force_disabled = gx_is_auth_force_disabled (sx_global (sh_context sh)),
     ss_has_authentication = sx_has_authentication (sh_context sh), ss_config = sx_config (sh_context sh),
     ss_certs = sh_certs sh, ss_jwt_cache = sh_jwt_cache sh,
     ss_jwks_cache_duration_in_s = gx_jwks_cache_duration_in_s (sx_global (sh_context sh))\<rparr>"

definition put_auth :: "'c service_state \<Rightarrow> ('c, 'e, 'd) service_shared \<Rightarrow> ('c, 'e, 'd) service_shared" where
  "put_auth s sh = sh\<lparr>sh_context := (sh_context sh)\<lparr>sx_config := ss_config s\<rparr>, sh_certs := ss_certs s,
     sh_jwt_cache := ss_jwt_cache s\<rparr>"

definition rules_view :: "('c, 'e, 'd) service_shared \<Rightarrow> 'e rules_state" where
  "rules_view sh = \<lparr>rs_authz_cache = sh_authz_cache sh, rs_sa_token = tc_service_account_token (tokens_of sh)\<rparr>"

definition put_rules :: "'e rules_state \<Rightarrow> ('c, 'e, 'd) service_shared \<Rightarrow> ('c, 'e, 'd) service_shared" where
  "put_rules rs sh = put_tokens ((tokens_of sh)\<lparr>tc_service_account_token := rs_sa_token rs\<rparr>) (sh\<lparr>sh_authz_cache := rs_authz_cache rs\<rparr>)"

text \<open>What the authentication leaves in the context of the request.\<close>

definition put_checker :: "'v auth_checker \<Rightarrow> request_context \<Rightarrow> request_context" where
  "put_checker ac rx = rx\<lparr>rx_auth_token := rc_auth_token ac, rx_auth_issuer := rc_auth_issuer ac,
     rx_auth_audience := rc_auth_audience ac, rx_auth_authorized_party := rc_auth_authorized_party ac,
     rx_auth_claims := rc_auth_claims ac\<rparr>"

section \<open>Service control\<close>

definition kConsumerProjecId :: string where "kConsumerProjecId = ''X-Endpoint-API-Project-ID''"

definition new_CheckRequestInfo :: check_request_info where
  "new_CheckRequestInfo = \<lparr>oi_operation_id = [], oi_operation_name = [], oi_producer_project_id = [], oi_api_key = [],
     oi_referer = [], oi_request_start_time = 0, oi_client_ip = [], oi_client_host = [],
     android_package_name = [], android_cert_fingerprint = [], ios_bundle_id = []\<rparr>"

definition new_QuotaRequestInfo :: quota_request_info where
  "new_QuotaRequestInfo = \<lparr>oi_operation_id = [], oi_operation_name = [], oi_producer_project_id = [], oi_api_key = [],
     oi_referer = [], oi_request_start_time = 0, oi_client_ip = [], oi_client_host = [],
     method_name = [], qi_metric_cost_vector = None\<rparr>"

definition trace_effects :: "request_context \<Rightarrow> env_effect list \<Rightarrow> 'd check_effect list" where
  "trace_effects rx es = (if rx_cloud_trace rx \<noteq> None then env_effects es else [])"

text \<open>The callbacks of the client.\<close>

definition check_done ::
    "status \<Rightarrow> check_response_info \<Rightarrow> request_context \<Rightarrow> status \<times> request_context \<times> 'd check_effect list" where
  "check_done st info rx =
     (st, rx\<lparr>rx_check_response_info := info\<rparr>,
      trace_effects rx [TraceMessage (''Check service control request returned with status '' @ ToString st)] @
      (if consumer_project_id info \<noteq> [] then [AuthEffect (AddHeaderToBackend kConsumerProjecId (consumer_project_id info))] else []))"

definition quota_done :: "status \<Rightarrow> request_context \<Rightarrow> status \<times> request_context \<times> 'd check_effect list" where
  "quota_done st rx =
     (if code st = UNAVAILABLE then Status_OK else st, rx,
      trace_effects rx [TraceMessage (''Quota service control request returned with status '' @ ToString st)])"

text \<open>The client may call back before it returns.\<close>

fun check_answered :: "'d sc_effect list \<Rightarrow> (status \<times> check_response_info) option" where
  "check_answered [] = None"
| "check_answered (CheckDone st info # es) = Some (st, info)"
| "check_answered (e # es) = check_answered es"

fun quota_answered :: "'d sc_effect list \<Rightarrow> status option" where
  "quota_answered [] = None"
| "quota_answered (QuotaDone st # es) = Some st"
| "quota_answered (e # es) = quota_answered es"

definition CheckServiceControl ::
    "('k, 'd) proto_lib \<Rightarrow> int \<Rightarrow> ('c, 'e, 'd) service_shared \<Rightarrow> request_context \<Rightarrow> ('v, 'c, 'e, 'd) handler_result" where
  "CheckServiceControl plib now sh rx =
     (let trace = (\<lambda>msg. trace_effects rx [StartSpan ''CheckServiceControl'', TraceMessage msg])
      in case rx_method rx of
           None \<Rightarrow>
             (case GetRequestHTTPMethodWithOverride (rx_request rx) of
                (verb, logs) \<Rightarrow>
                  if verb = ''OPTIONS''
                  then Some (Called (Status3 PERMISSION_DENIED ''The service does not allow CORS traffic.'' SERVICE_CONTROL), sh, rx,
                         env_effects logs @ trace ''OPTIONS request is rejected'')
                  else Some (Called (Status3 NOT_FOUND ''Method does not exist.'' SERVICE_CONTROL), sh, rx,
                         env_effects logs @ trace ''Method is not configured in the service config''))
         | Some m \<Rightarrow>
             (case (if skip_service_control m then None else sh_service_control sh) of
                None \<Rightarrow> Some (Called Status_OK, sh, rx, trace ''Service control check is not needed'')
              | Some ag \<Rightarrow>
                  if rx_api_key rx = [] then
                    if allow_unregistered_calls m
                    then Some (Called Status_OK, sh, rx, trace ''Service control check is not needed'')
                    else Some (Called (Status3 UNAUTHENTICATED ''Method doesn't allow unregistered callers (callers without established identity). Please use API Key or other form of API consumer identity to call this API.'' SERVICE_CONTROL),
                           sh, rx, trace ''Failed at checking caller identity.'')
                  else do {
                    info \<leftarrow> FillCheckRequestInfo (sh_context sh) rx new_CheckRequestInfo;
                    (case Aggregated_Check plib now (rx_cloud_trace rx \<noteq> None) info ag of
                       (ag, calls) \<Rightarrow>
                         let sh = sh\<lparr>sh_service_control := Some ag\<rparr>;
                             es = trace_effects rx [StartSpan ''CheckServiceControl''] @ map ControlEffect calls
                         in case check_answered calls of
                              None \<Rightarrow> Some (Waits WaitCheck, sh, rx, es)
                            | Some (st, info) \<Rightarrow>
                                (case check_done st info rx of (st, rx, es') \<Rightarrow> Some (Called st, sh, rx, es @ es')))
                  }))"

definition QuotaControl ::
    "('k, 'd) proto_lib \<Rightarrow> ('c, 'e, 'd) service_shared \<Rightarrow> request_context \<Rightarrow> ('v, 'c, 'e, 'd) handler_result" where
  "QuotaControl plib sh rx =
     (case rx_method rx of
        None \<Rightarrow> None
      | Some m \<Rightarrow>
          if length (metric_cost_vector m) = 0 \<or> skip_service_control m
          then Some (Called Status_OK, sh, rx,
                 trace_effects rx [StartSpan ''QuotaControl'', TraceMessage ''Quota control check is not needed''])
          else do {
            info \<leftarrow> FillAllocateQuotaRequestInfo (sh_context sh) rx new_QuotaRequestInfo;
            ag \<leftarrow> sh_service_control sh;
            (case Aggregated_Quota plib (rx_cloud_trace rx \<noteq> None) info ag of
               (ag, calls) \<Rightarrow>
                 let sh = sh\<lparr>sh_service_control := Some ag\<rparr>;
                     es = trace_effects rx [StartSpan ''QuotaControl''] @ map ControlEffect calls
                 in case quota_answered calls of
                      None \<Rightarrow> Some (Waits WaitQuota, sh, rx, es)
                    | Some st \<Rightarrow> (case quota_done st rx of (st, rx, es') \<Rightarrow> Some (Called st, sh, rx, es @ es')))
          })"

section \<open>The workflow\<close>

datatype check_handler =
  HandleFetchServiceAccountToken | HandleFetchInstanceIdentityToken | HandleCheckAuth | HandleCheckSecurityRules
| HandleCheckServiceControl | HandleQuotaControl

definition RegisterAll :: "check_handler list" where
  "RegisterAll = [HandleFetchServiceAccountToken, HandleFetchInstanceIdentityToken, HandleCheckAuth,
     HandleCheckSecurityRules, HandleCheckServiceControl, HandleQuotaControl]"

definition token_outcome ::
    "'v check_wait \<Rightarrow> fetch_outcome \<times> token_context \<times> env_effect list \<Rightarrow> ('c, 'e, 'd) service_shared \<Rightarrow> request_context \<Rightarrow>
     ('v, 'c, 'e, 'd) handler_result" where
  "token_outcome w r sh rx =
     (case r of (out, ctx, es) \<Rightarrow>
        Some (case out of Continue st \<Rightarrow> Called st | Await \<Rightarrow> Waits w, put_tokens ctx sh, rx, env_effects es))"

definition auth_outcome_of ::
    "('v, 'c) auth_result \<Rightarrow> ('c, 'e, 'd) service_shared \<Rightarrow> request_context \<Rightarrow> ('v, 'c, 'e, 'd) handler_result" where
  "auth_outcome_of r sh rx =
     map_option (\<lambda>(out, s, ac, es).
       (case out of AuthDone st \<Rightarrow> Called st | AwaitJwksUri \<Rightarrow> Waits (WaitJwksUri ac)
        | AwaitPubKey \<Rightarrow> Waits (WaitPubKey ac) | NoCallback \<Rightarrow> Dropped,
        put_auth s sh, put_checker ac rx, map AuthEffect es)) r"

definition rules_outcome_of ::
    "'e rules_result \<Rightarrow> ('c, 'e, 'd) service_shared \<Rightarrow> request_context \<Rightarrow> ('v, 'c, 'e, 'd) handler_result" where
  "rules_outcome_of r sh rx =
     map_option (\<lambda>(out, rs, es).
       (case out of RulesDone st \<Rightarrow> Called st | AwaitRelease \<Rightarrow> Waits WaitRelease | AwaitTest fr \<Rightarrow> Waits (WaitTest fr),
        put_rules rs sh, rx, env_effects es)) r"

text \<open>A handler is called with the context of the request.\<close>

fun start_handler ::
    "('v, 'c, 'e, 'k, 'd) check_lib \<Rightarrow> check_clock \<Rightarrow> check_handler \<Rightarrow> ('c, 'e, 'd) service_shared \<Rightarrow> request_context \<Rightarrow>
     ('v, 'c, 'e, 'd) handler_result" where
  "start_handler lib ck HandleFetchServiceAccountToken sh rx =
     token_outcome WaitToken (FetchServiceAccountToken (ck_garbage ck) (ck_now ck) (ck_now_ns ck) (tokens_of sh)) sh rx"
| "start_handler lib ck HandleFetchInstanceIdentityToken sh rx =
     (let aud = map_option backend_jwt_audience (rx_method rx)
      in token_outcome (WaitIdentity (case aud of Some a \<Rightarrow> a | None \<Rightarrow> []))
           (FetchInstanceIdentityToken (ck_garbage ck) (ck_now ck) (ck_now_ns ck) aud (tokens_of sh)) sh rx)"
| "start_handler lib ck HandleCheckAuth sh rx =
     auth_outcome_of (CheckAuth (cl_auth lib) (ck_ticks ck) (FindHeader (rx_request rx)) (FindQuery (rx_request rx)) (rx_method rx)
       (auth_view sh)) sh rx"
| "start_handler lib ck HandleCheckSecurityRules sh rx =
     rules_outcome_of (CheckSecurityRules (cl_rules lib) (ck_now ck) (ck_now_ns ck) (sh_context sh) rx (rules_view sh)) sh rx"
| "start_handler lib ck HandleCheckServiceControl sh rx = CheckServiceControl (cl_proto lib) (ck_now_ns ck) sh rx"
| "start_handler lib ck HandleQuotaControl sh rx = QuotaControl (cl_proto lib) sh rx"

text \<open>A response goes to the callback that waits for it.\<close>

fun resume_handler ::
    "('v, 'c, 'e, 'k, 'd) check_lib \<Rightarrow> check_clock \<Rightarrow> 'v check_wait \<Rightarrow> check_event \<Rightarrow> ('c, 'e, 'd) service_shared \<Rightarrow>
     request_context \<Rightarrow> ('v, 'c, 'e, 'd) handler_result" where
  "resume_handler lib ck WaitToken (HttpResponse st body) sh rx =
     map_option (\<lambda>(st, ctx, es). (Called st, put_tokens ctx sh, rx, env_effects es))
       (token_response (xl_parse_json (cl_context lib)) (ck_garbage ck) (ck_now ck) (ck_now_ns ck) [] st body (tokens_of sh))"
| "resume_handler lib ck (WaitIdentity aud) (HttpResponse st body) sh rx =
     map_option (\<lambda>(st, ctx, es). (Called st, put_tokens ctx sh, rx, env_effects es))
       (token_response (xl_parse_json (cl_context lib)) (ck_garbage ck) (ck_now ck) (ck_now_ns ck) aud st body (tokens_of sh))"
| "resume_handler lib ck (WaitJwksUri ac) (HttpResponse st body) sh rx =
     auth_outcome_of (PostFetchJwksUri (cl_auth lib) st body (auth_view sh) ac) sh rx"
| "resume_handler lib ck (WaitPubKey ac) (HttpResponse st body) sh rx =
     auth_outcome_of (PostFetchPubKey (cl_auth lib) (ck_ticks ck) st body (auth_view sh) ac) sh rx"
| "resume_handler lib ck WaitRelease (HttpResponse st body) sh rx =
     rules_outcome_of (release_response (cl_rules lib) (ck_iter ck) (ck_now ck) (ck_now_ns ck) (sh_context sh) rx st body
       (rules_view sh)) sh rx"
| "resume_handler lib ck (WaitTest fr) (HttpResponse st body) sh rx =
     rules_outcome_of (test_response (cl_rules lib) (ck_now ck) (ck_now_ns ck) rx st body fr (rules_view sh)) sh rx"
| "resume_handler lib ck WaitCheck (ClientCheckAnswer status response) sh rx = do {
     ag \<leftarrow> sh_service_control sh;
     (let calls = check_on_done (cl_control lib) (rx_cloud_trace rx \<noteq> None) status response ag
      in do {
        (st, info) \<leftarrow> check_answered calls;
        (case check_done st info rx of (st, rx, es) \<Rightarrow> Some (Called st, sh, rx, map ControlEffect calls @ es))
      })
   }"
| "resume_handler lib ck WaitQuota (ClientQuotaAnswer status response) sh rx = do {
     ag \<leftarrow> sh_service_control sh;
     (let calls = quota_on_done (cl_control lib) (rx_cloud_trace rx \<noteq> None) status response ag
      in do {
        st \<leftarrow> quota_answered calls;
        (case quota_done st rx of (st, rx, es) \<Rightarrow> Some (Called st, sh, rx, map ControlEffect calls @ es))
      })
   }"
| "resume_handler lib ck w e sh rx = None"

text \<open>
  Where a check stands: the continuation of the request was called; a handler waits; or a handler
  ended without calling its continuation.
\<close>

datatype 'v check_state = Completed status | Suspended nat "'v check_wait" | Lost

type_synonym ('v, 'c, 'e, 'd) check_result =
  "('v check_state \<times> ('c, 'e, 'd) service_shared \<times> request_context \<times> 'd check_effect list) option"

definition complete_check :: "status \<Rightarrow> ('c, 'e, 'd) service_shared \<Rightarrow> request_context \<Rightarrow> ('v, 'c, 'e, 'd) check_result" where
  "complete_check st sh rx = map_option (\<lambda>(st, rx). (Completed st, sh, rx, [])) (CompleteCheck st rx)"

definition after_effects :: "'d check_effect list \<Rightarrow> ('v, 'c, 'e, 'd) check_result \<Rightarrow> ('v, 'c, 'e, 'd) check_result" where
  "after_effects es r = map_option (\<lambda>(out, sh, rx, es'). (out, sh, rx, es @ es')) r"

function RunOneHandler ::
    "('v, 'c, 'e, 'k, 'd) check_lib \<Rightarrow> check_clock \<Rightarrow> check_handler list \<Rightarrow> nat \<Rightarrow> ('c, 'e, 'd) service_shared \<Rightarrow>
     request_context \<Rightarrow> ('v, 'c, 'e, 'd) check_result" where
  "RunOneHandler lib ck handlers index sh rx =
     (if index < length handlers then
        (case start_handler lib ck (handlers ! index) sh rx of
           None \<Rightarrow> None
         | Some (Called st, sh, rx, es) \<Rightarrow>
             after_effects es
               (if ok st \<and> index + 1 < length handlers then RunOneHandler lib ck handlers (index + 1) sh rx
                else complete_check st sh rx)
         | Some (Waits w, sh, rx, es) \<Rightarrow> Some (Suspended index w, sh, rx, es)
         | Some (Dropped, sh, rx, es) \<Rightarrow> Some (Lost, sh, rx, es))
      else None)"
  by pat_completeness auto
termination by (relation "measure (\<lambda>(lib, ck, handlers, index, sh, rx). length handlers - index)") auto

declare RunOneHandler.simps [simp del]

text \<open>The continuation a handler is given.\<close>

definition handler_continuation ::
    "('v, 'c, 'e, 'k, 'd) check_lib \<Rightarrow> check_clock \<Rightarrow> check_handler list \<Rightarrow> nat \<Rightarrow> status \<Rightarrow> ('c, 'e, 'd) service_shared \<Rightarrow>
     request_context \<Rightarrow> ('v, 'c, 'e, 'd) check_result" where
  "handler_continuation lib ck handlers index st sh rx =
     (if ok st \<and> index + 1 < length handlers then RunOneHandler lib ck handlers (index + 1) sh rx else complete_check st sh rx)"

definition handler_end ::
    "('v, 'c, 'e, 'k, 'd) check_lib \<Rightarrow> check_clock \<Rightarrow> check_handler list \<Rightarrow> nat \<Rightarrow> ('v, 'c, 'e, 'd) handler_result \<Rightarrow>
     ('v, 'c, 'e, 'd) check_result" where
  "handler_end lib ck handlers index r =
     (case r of
        None \<Rightarrow> None
      | Some (Called st, sh, rx, es) \<Rightarrow> after_effects es (handler_continuation lib ck handlers index st sh rx)
      | Some (Waits w, sh, rx, es) \<Rightarrow> Some (Suspended index w, sh, rx, es)
      | Some (Dropped, sh, rx, es) \<Rightarrow> Some (Lost, sh, rx, es))"

definition Run ::
    "('v, 'c, 'e, 'k, 'd) check_lib \<Rightarrow> check_clock \<Rightarrow> check_handler list \<Rightarrow> ('c, 'e, 'd) service_shared \<Rightarrow> request_context \<Rightarrow>
     ('v, 'c, 'e, 'd) check_result" where
  "Run lib ck handlers sh rx =
     (if handlers \<noteq> [] then RunOneHandler lib ck handlers 0 sh rx else complete_check Status_OK sh rx)"

definition resume ::
    "('v, 'c, 'e, 'k, 'd) check_lib \<Rightarrow> check_clock \<Rightarrow> check_handler list \<Rightarrow> nat \<Rightarrow> 'v check_wait \<Rightarrow> check_event \<Rightarrow>
     ('c, 'e, 'd) service_shared \<Rightarrow> request_context \<Rightarrow> ('v, 'c, 'e, 'd) check_result" where
  "resume lib ck handlers index w e sh rx = handler_end lib ck handlers index (resume_handler lib ck w e sh rx)"

lemma RunOneHandler_end:
  "index < length handlers \<Longrightarrow>
   RunOneHandler lib ck handlers index sh rx = handler_end lib ck handlers index (start_handler lib ck (handlers ! index) sh rx)"
  by (subst RunOneHandler.simps)
    (auto simp: handler_end_def handler_continuation_def split: option.splits handler_outcome.splits)

section \<open>The handler of a request\<close>

text \<open>The user information header of the client is replaced by an empty one.\<close>

definition new_RequestHandler ::
    "context_lib \<Rightarrow> string \<Rightarrow> 64 word \<times> 64 word \<times> 64 word \<Rightarrow> int \<Rightarrow> int \<Rightarrow> service_context \<Rightarrow> request \<Rightarrow>
     (request_context \<times> service_context \<times> auth_effect list) option" where
  "new_RequestHandler lib uuid rnds now steady sx rq =
     map_option (\<lambda>(rx, sx, logs).
       (rx, sx, map Env logs @
          (if FindHeader rq kEndpointApiUserInfo \<noteq> None then [AddHeaderToBackend kEndpointApiUserInfo []] else [])))
       (RequestContext lib uuid rnds now steady sx rq)"

text \<open>What the continuation of a check does before it hands the status on.\<close>

definition interception ::
    "('v, 'c, 'e, 'k, 'd) check_lib \<Rightarrow> check_clock \<Rightarrow> ('v, 'c, 'e, 'd) check_result \<Rightarrow> ('v, 'c, 'e, 'd) check_result" where
  "interception lib ck r =
     (case r of
        Some (Completed st, sh, rx, es) \<Rightarrow>
          if ok st then do {
            (rx, es1) \<leftarrow> (if rx_cloud_trace rx \<noteq> None
                         then StartBackendSpanAndSetTraceContext (cl_context lib) (ck_rnd ck) (ck_now_ns ck) rx
                         else Some (rx, []));
            (case AddInstanceIdentityToken (ck_garbage ck) rx (tokens_of sh) of
               (ctx, es2) \<Rightarrow> Some (Completed st, put_tokens ctx sh, rx, es @ map AuthEffect (es1 @ es2)))
          }
          else r
      | _ \<Rightarrow> r)"

definition RequestHandler_Check ::
    "('v, 'c, 'e, 'k, 'd) check_lib \<Rightarrow> check_clock \<Rightarrow> ('c, 'e, 'd) service_shared \<Rightarrow> request_context \<Rightarrow>
     ('v, 'c, 'e, 'd) check_result" where
  "RequestHandler_Check lib ck sh rx = interception lib ck (Run lib ck RegisterAll sh (set_check_continuation rx))"

text \<open>A callback of a handler, up to the continuation of the request.\<close>

definition RequestHandler_Resume ::
    "('v, 'c, 'e, 'k, 'd) check_lib \<Rightarrow> check_clock \<Rightarrow> nat \<Rightarrow> 'v check_wait \<Rightarrow> check_event \<Rightarrow> ('c, 'e, 'd) service_shared \<Rightarrow>
     request_context \<Rightarrow> ('v, 'c, 'e, 'd) check_result" where
  "RequestHandler_Resume lib ck index w e sh rx = interception lib ck (resume lib ck RegisterAll index w e sh rx)"

text \<open>
  The steady clock is read at the start and at the end.  The status of the report decides only
  whether the next report is still the first.
\<close>

definition AttemptIntermediateReport ::
    "('v, 'c, 'e, 'k, 'd) check_lib \<Rightarrow> int \<Rightarrow> int \<Rightarrow> int \<Rightarrow> grpc_stats \<Rightarrow> ('c, 'e, 'd) service_shared \<Rightarrow> request_context \<Rightarrow>
     (('c, 'e, 'd) service_shared \<times> request_context \<times> 'd check_effect list) option" where
  "AttemptIntermediateReport lib steady steady' now stats sh rx =
     (if (steady - rx_last_report_time rx) sdiv 1000000000 < gx_intermediate_report_interval (sx_global (sh_context sh))
      then Some (sh, rx, [])
      else do {
        (info, rx, logs) \<leftarrow> FillReportRequestInfo (cl_context lib) now stats (sh_context sh) None
          (ReportRequestInfo\<lparr>is_first_report := rx_is_first_report rx, is_final_report := False\<rparr>) rx;
        ag \<leftarrow> sh_service_control sh;
        (st, ag, es) \<leftarrow> Aggregated_Report (cl_proto lib) now info ag;
        Some (sh\<lparr>sh_service_control := Some ag\<rparr>,
              rx\<lparr>rx_is_first_report := (if \<not> ok st then rx_is_first_report rx else False), rx_last_report_time := steady'\<rparr>,
              env_effects logs @ map ControlEffect es @
              (if \<not> ok st then env_effects [LogError ''Failed to send intermediate report to service control.''] else []))
      })"

text \<open>
  The trace is handed over to the aggregator with the latest project; it asks for a token only
  when it sends.
\<close>

definition append_trace ::
    "(trace list \<Rightarrow> string) \<Rightarrow> (int \<Rightarrow> string \<Rightarrow> string \<Rightarrow> string option option) \<Rightarrow> int \<Rightarrow> trace \<Rightarrow> ('c, 'e, 'd) service_shared \<Rightarrow>
     (('c, 'e, 'd) service_shared \<times> env_effect list) option" where
  "append_trace to_json get_auth_token now tr sh = do {
     a \<leftarrow> gx_aggregator (sx_global (sh_context sh));
     (let a = a\<lparr>agg_project_id := ServiceContext_project_id (sh_context sh)\<rparr>;
          sending = int (length (agg_traces a) + 1) > cache_max_size a \<and> agg_project_id a \<noteq> [];
          put = (\<lambda>t a. sh\<lparr>sh_context := (sh_context sh)\<lparr>sx_global := (sx_global (sh_context sh))\<lparr>gx_aggregator := Some a,
                   gx_tokens := (tokens_of sh)\<lparr>tc_service_account_token := t\<rparr>\<rparr>\<rparr>\<rparr>);
          t = tc_service_account_token (tokens_of sh)
      in if sending then do {
           (tok, t, logs) \<leftarrow> GetAuthToken get_auth_token now JWT_TOKEN_FOR_CLOUD_TRACING t;
           (case AppendTrace to_json tok tr a of (es, a) \<Rightarrow> Some (put t a, logs @ es))
         }
         else (case AppendTrace to_json [] tr a of (es, a) \<Rightarrow> Some (put t a, es)))
   }"

text \<open>The calls of the client and the trace of the request in a report.\<close>

definition Report ::
    "('v, 'c, 'e, 'k, 'd) check_lib \<Rightarrow> (trace list \<Rightarrow> string) \<Rightarrow> int \<Rightarrow> int \<Rightarrow> grpc_stats \<Rightarrow> response \<Rightarrow>
     ('c, 'e, 'd) service_shared \<Rightarrow> request_context \<Rightarrow>
     (('c, 'e, 'd) service_shared \<times> request_context \<times> 'd check_effect list) option" where
  "Report lib to_json now now_ns stats rsp sh rx =
     (if (case rx_method rx of Some m \<Rightarrow> skip_service_control m | None \<Rightarrow> False) then Some (sh, rx, [])
      else do {
        (let rx = EndBackendSpan now_ns rx
         in do {
           (sh, rx, es) \<leftarrow>
             (case sh_service_control sh of
                None \<Rightarrow> Some (sh, rx, [])
              | Some ag \<Rightarrow> do {
                  (info, rx, logs) \<leftarrow> FillReportRequestInfo (cl_context lib) now_ns stats (sh_context sh) (Some rsp)
                    (ReportRequestInfo\<lparr>is_first_report := rx_is_first_report rx, is_final_report := True\<rparr>) rx;
                  (st, ag, es) \<leftarrow> Aggregated_Report (cl_proto lib) now_ns info ag;
                  Some (sh\<lparr>sh_service_control := Some ag\<rparr>, rx,
                        env_effects logs @ map ControlEffect es @
                        (if \<not> ok st then env_effects [LogError ''Failed to send report to service control.''] else []))
                });
           (case rx_cloud_trace rx of
              None \<Rightarrow> Some (sh, rx, es)
            | Some ct \<Rightarrow> do {
                (sh, es') \<leftarrow> append_trace to_json (re_get_auth_token (cl_rules lib)) now (ct_trace (EndRootSpan now_ns ct)) sh;
                Some (sh, rx\<lparr>rx_cloud_trace := None\<rparr>, es @ env_effects es')
              })
         })
      })"

definition GetServiceConfigId :: "('c, 'e, 'd) service_shared \<Rightarrow> string" where
  "GetServiceConfigId sh = sx_id (sh_context sh)"

definition GetBackendAddress :: "request_context \<Rightarrow> string" where
  "GetBackendAddress rx = (case rx_method rx of Some m \<Rightarrow> backend_address m | None \<Rightarrow> [])"

definition GetRpcMethodFullName :: "request_context \<Rightarrow> string" where
  "GetRpcMethodFullName rx =
     (case rx_method rx of Some m \<Rightarrow> if rpc_method_full_name m \<noteq> [] then rpc_method_full_name m else [] | None \<Rightarrow> [])"

definition TryAddApiKeyHeaderFromQuery :: "request_context \<Rightarrow> auth_effect list" where
  "TryAddApiKeyHeaderFromQuery rx = (if rx_api_key_from_query rx then SetApiKeyHeader rx else [])"

section \<open>What the authentication leaves alone\<close>

definition same_service :: "'c service_state \<Rightarrow> 'c service_state \<Rightarrow> bool" where
  "same_service s s' \<longleftrightarrow> ss_force_disabled s' = ss_force_disabled s \<and> ss_has_authentication s' = ss_has_authentication s \<and>
     ss_jwks_cache_duration_in_s s' = ss_jwks_cache_duration_in_s s \<and> cfg_service (ss_config s') = cfg_service (ss_config s)"

definition same_checker :: "'v auth_checker \<Rightarrow> 'v auth_checker \<Rightarrow> bool" where
  "same_checker ac ac' \<longleftrightarrow> ac_method ac' = ac_method ac \<and> ac_auth_token ac' = ac_auth_token ac \<and> rc_auth_token ac' = rc_auth_token ac \<and>
     ac_user_info ac' = ac_user_info ac \<and> rc_auth_issuer ac' = rc_auth_issuer ac \<and> rc_auth_claims ac' = rc_auth_claims ac"

definition frame :: "'c service_state \<Rightarrow> 'v auth_checker \<Rightarrow> ('v, 'c) auth_result \<Rightarrow> bool" where
  "frame s ac r \<longleftrightarrow> (case r of None \<Rightarrow> True | Some (out, s', ac', es) \<Rightarrow> same_service s s' \<and> same_checker ac ac')"

lemmas frame_defs = frame_def same_service_def same_checker_def

lemma frame_after [simp]: "frame s ac (after es r) \<longleftrightarrow> frame s ac r"
  by (auto simp: frame_def after_def split: option.splits)

lemma frame_end [simp]:
  "frame s ac (Unauthenticated e s' ac') \<longleftrightarrow> same_service s s' \<and> same_checker ac ac'"
  "frame s ac (Unauthorized e s' ac') \<longleftrightarrow> same_service s s' \<and> same_checker ac ac'"
  "frame s ac (FetchFailure e st s' ac') \<longleftrightarrow> same_service s s' \<and> same_checker ac ac'"
  "frame s ac (FetchPubKey u s' ac') \<longleftrightarrow> same_service s s' \<and> same_checker ac ac'"
  "frame s ac (DiscoverJwksUri u s' ac') \<longleftrightarrow> same_service s s' \<and> same_checker ac ac'"
  "frame s ac None"
  by (simp_all add: frame_def Unauthenticated_def Unauthorized_def FetchFailure_def FetchPubKey_def DiscoverJwksUri_def)

lemma frame_Pass: "same_service s s' \<Longrightarrow> same_checker ac ac' \<Longrightarrow> frame s ac (PassUserInfoOnSuccess env s' ac')"
  by (auto simp: frame_def PassUserInfoOnSuccess_def bind_eq_Some_conv split: option.splits)

lemma frame_VerifySignature:
  assumes "same_service s s'" "same_checker ac ac'"
  shows "frame s ac (AuthChecker_VerifySignature env ts s' ac')"
proof -
  have "same_service s (s'\<lparr>ss_jwt_cache := c\<rparr>)" "same_checker ac (ac'\<lparr>ac_validator := v\<rparr>)" for c v
    using assms by (simp_all add: same_service_def same_checker_def)
  then show ?thesis using assms frame_Pass [of s _ ac _ env]
    by (auto simp: AuthChecker_VerifySignature_def Let_def split: option.splits prod.splits)
qed

lemma frame_PostFetchPubKey:
  assumes "same_service s s'" "same_checker ac ac'"
  shows "frame s ac (PostFetchPubKey env ts st body s' ac')"
proof -
  have "same_service s (s'\<lparr>ss_certs := c\<rparr>)" for c using assms by (simp add: same_service_def)
  then show ?thesis using assms by (auto simp: PostFetchPubKey_def intro: frame_VerifySignature)
qed

lemma frame_InitKey: "same_service s s' \<Longrightarrow> same_checker ac ac' \<Longrightarrow> frame s ac (InitKey env ts s' ac')"
  using frame_VerifySignature [of s s' ac ac' env ts] by (auto simp: InitKey_def Let_def split: prod.splits)

lemma frame_PostFetchJwksUri:
  assumes "same_service s s'" "same_checker ac ac'"
  shows "frame s ac (PostFetchJwksUri env st body s' ac')"
proof -
  have "same_service s (put_jwks_uri i u b s')" for i u b
    using assms by (simp add: same_service_def put_jwks_uri_def)
  then show ?thesis using assms by (auto simp: PostFetchJwksUri_def Let_def split: option.splits)
qed

text \<open>The fields of the request context agree with the token and the user information of the checker.\<close>

definition synced :: "'v auth_checker \<Rightarrow> bool" where
  "synced ac \<longleftrightarrow> rc_auth_token ac = ac_auth_token ac \<and> rc_auth_issuer ac = ui_issuer (ac_user_info ac) \<and>
     rc_auth_claims ac = ui_claims (ac_user_info ac)"

lemma synced_same: "same_checker ac ac' \<Longrightarrow> synced ac \<Longrightarrow> synced ac'"
  by (simp add: same_checker_def synced_def)

definition sync_frame :: "'c service_state \<Rightarrow> method_info option \<Rightarrow> ('v, 'c) auth_result \<Rightarrow> bool" where
  "sync_frame s mo r \<longleftrightarrow> (case r of None \<Rightarrow> True | Some (out, s', ac, es) \<Rightarrow> same_service s s' \<and> ac_method ac = mo \<and>
     (synced ac \<or> (case out of AuthDone st \<Rightarrow> \<not> ok st | _ \<Rightarrow> False)))"

lemma sync_frame_after [simp]: "sync_frame s mo (after es r) \<longleftrightarrow> sync_frame s mo r"
  by (auto simp: sync_frame_def after_def split: option.splits)

lemma sync_frame_of_frame: "frame s ac r \<Longrightarrow> synced ac \<Longrightarrow> ac_method ac = mo \<Longrightarrow> sync_frame s mo r"
  using synced_same by (fastforce simp: frame_def sync_frame_def same_checker_def split: option.splits)

lemma sync_frame_Unauthenticated:
  "same_service s s' \<Longrightarrow> ac_method ac = mo \<Longrightarrow> sync_frame s mo (Unauthenticated e s' ac)"
  by (simp add: sync_frame_def Unauthenticated_def)

lemma sync_frame_CheckAudience:
  assumes "same_service s s'" "ac_method ac = mo" "rc_auth_token ac = ac_auth_token ac"
  shows "sync_frame s mo (CheckAudience env ts hit m s' ac)"
proof -
  define ac1 where "ac1 = ac\<lparr>rc_auth_issuer := ui_issuer (ac_user_info ac),
      rc_auth_audience := (if ui_audiences (ac_user_info ac) = {} then [] else AudiencesAsString (ac_user_info ac)),
      rc_auth_authorized_party := ui_authorized_party (ac_user_info ac), rc_auth_claims := ui_claims (ac_user_info ac)\<rparr>"
  have ac1: "synced ac1" "ac_method ac1 = mo" "same_checker ac1 ac1"
    using assms by (simp_all add: synced_def ac1_def same_checker_def)
  have "frame s ac1 (CheckAudience env ts hit m s' ac)"
    using assms(1) ac1(3) frame_Pass [OF assms(1) ac1(3)] frame_InitKey [OF assms(1) ac1(3)]
    unfolding CheckAudience_def Let_def ac1_def [symmetric] by (auto split: option.splits)
  then show ?thesis using sync_frame_of_frame ac1 by blast
qed

lemma sync_frame_ParseJwt:
  assumes "same_service s s'" "ac_method ac = mo" "rc_auth_token ac = ac_auth_token ac"
  shows "sync_frame s mo (ParseJwt env ts m s' ac)"
proof -
  have "sync_frame s mo (CheckAudience env ts False m s' (ac\<lparr>ac_validator := v, ac_user_info := ui\<rparr>))"
      "sync_frame s mo (Unauthenticated e s' (ac\<lparr>ac_validator := v, ac_user_info := ui\<rparr>))" for v ui e
    using assms by (auto intro!: sync_frame_CheckAudience sync_frame_Unauthenticated)
  then show ?thesis
    using sync_frame_Unauthenticated [OF assms(1,2)]
    by (auto simp: ParseJwt_def Let_def sync_frame_def [of s mo None] split: option.splits)
qed

lemma sync_frame_CheckAuth:
  fixes env :: "('v, 'c) auth_env"
  shows "sync_frame s mo (CheckAuth env ts fh fq mo s)"
proof -
  define ac :: "'v auth_checker" where "ac = AuthChecker fh fq mo"
  define tok where "tok = AuthChecker_GetAuthToken ac"
  have s: "same_service s s" "same_service s (s\<lparr>ss_jwt_cache := c\<rparr>)" for c by (simp_all add: same_service_def)
  define ac2 where "ac2 = ac\<lparr>ac_auth_token := tok, rc_auth_token := tok\<rparr>"
  have ac: "ac_method ac = mo" "synced ac" "ac_method (ac\<lparr>ac_auth_token := tok\<rparr>) = mo" "ac_method ac2 = mo"
      "rc_auth_token ac2 = ac_auth_token ac2"
    by (simp_all add: ac_def ac2_def AuthChecker_def synced_def new_UserInfo_def)
  have hit: "sync_frame s mo (CheckAudience env ts True m (s\<lparr>ss_jwt_cache := c\<rparr>) (ac2\<lparr>ac_user_info := ui\<rparr>))" for m c ui
    by (rule sync_frame_CheckAudience) (use s ac in simp_all)
  have "sync_frame s mo (LookupJwtCache env ts m s ac2)" for m
    using hit sync_frame_ParseJwt [OF s(2) ac(4,5)]
    by (auto simp: LookupJwtCache_def Let_def split: prod.splits option.splits)
  moreover have "sync_frame s mo (Some (AuthDone Status_OK, s, ac, es))" for es using s(1) ac(1,2) by (simp add: sync_frame_def)
  ultimately show ?thesis
    using sync_frame_Unauthenticated [OF s(1) ac(3)]
    unfolding CheckAuth_def AuthChecker_Check_def Let_def ac_def [symmetric] tok_def [symmetric]
    by (auto simp: ac2_def split: option.splits)
qed

section \<open>The views of the shared state\<close>

definition rules_same :: "service_context \<Rightarrow> service_context \<Rightarrow> bool" where
  "rules_same sx sx' \<longleftrightarrow> IsRulesCheckEnabled sx' = IsRulesCheckEnabled sx \<and> GetReleaseUrl sx' = GetReleaseUrl sx \<and>
     firebase_server_of sx' = firebase_server_of sx"

lemma rules_same_refl [simp]: "rules_same sx sx"
  by (simp add: rules_same_def)

lemma rules_same_trans: "rules_same sx sx' \<Longrightarrow> rules_same sx' sx'' \<Longrightarrow> rules_same sx sx''"
  by (simp add: rules_same_def)

lemma rules_same_steps:
  assumes "rules_same sx sx'"
  shows "CheckSecurityRules env now now_ns sx' rx rs = CheckSecurityRules env now now_ns sx rx rs"
    and "release_response env g now now_ns sx' rx st body rs = release_response env g now now_ns sx rx st body rs"
proof -
  have e: "IsRulesCheckEnabled sx' = IsRulesCheckEnabled sx" "GetReleaseUrl sx' = GetReleaseUrl sx"
      "firebase_server_of sx' = firebase_server_of sx" using assms by (simp_all add: rules_same_def)
  show "CheckSecurityRules env now now_ns sx' rx rs = CheckSecurityRules env now now_ns sx rx rs"
    unfolding CheckSecurityRules_def AuthzChecker_Check_def e ..
  show "release_response env g now now_ns sx' rx st body rs = release_response env g now now_ns sx rx st body rs"
    unfolding release_response_def e ..
qed

lemma auth_view_put [simp]:
  "auth_view (put_tokens ctx sh) = auth_view sh"
  "auth_view (put_rules rs sh) = auth_view sh"
  "auth_view (sh\<lparr>sh_service_control := c\<rparr>) = auth_view sh"
  by (simp_all add: auth_view_def put_tokens_def put_rules_def)

lemma auth_view_put_auth: "same_service (auth_view sh) s \<Longrightarrow> auth_view (put_auth s sh) = s"
  by (simp add: auth_view_def put_auth_def same_service_def)

lemma rules_view_put [simp]:
  "rules_view (put_rules rs sh) = rs"
  "rules_view (put_auth s sh) = rules_view sh"
  "rules_view (sh\<lparr>sh_service_control := c\<rparr>) = rules_view sh"
  "rules_view (put_tokens ctx sh) = (rules_view sh)\<lparr>rs_sa_token := tc_service_account_token ctx\<rparr>"
  by (simp_all add: rules_view_def put_tokens_def put_rules_def put_auth_def tokens_of_def)

lemma rules_same_fields:
  assumes "gx_is_auth_force_disabled (sx_global sx') = gx_is_auth_force_disabled (sx_global sx)"
    "sx_has_authentication sx' = sx_has_authentication sx" "sx_api_versions sx' = sx_api_versions sx"
    "gx_server_config (sx_global sx') = gx_server_config (sx_global sx)" "gx_project_id (sx_global sx') = gx_project_id (sx_global sx)"
    "sx_producer_project_id sx' = sx_producer_project_id sx" "cfg_service (sx_config sx') = cfg_service (sx_config sx)"
  shows "rules_same sx sx'"
  unfolding rules_same_def IsRulesCheckEnabled_def ServiceContext_RequireAuth_def firebase_server_of_def GetReleaseUrl_def
    GetReleaseName_def ServiceContext_project_id_def assms by simp

lemma rules_same_put:
  "rules_same (sh_context sh) (sh_context (put_tokens ctx sh))"
  "rules_same (sh_context sh) (sh_context (put_rules rs sh))"
  by (rule rules_same_fields; simp add: put_tokens_def put_rules_def)+

lemma rules_same_put_auth:
  "same_service (auth_view sh) s \<Longrightarrow> rules_same (sh_context sh) (sh_context (put_auth s sh))"
  by (rule rules_same_fields) (simp_all add: put_auth_def same_service_def auth_view_def)

lemma sh_service_control_put [simp]:
  "sh_service_control (put_tokens ctx sh) = sh_service_control sh"
  "sh_service_control (put_rules rs sh) = sh_service_control sh"
  "sh_service_control (put_auth s sh) = sh_service_control sh"
  by (simp_all add: put_tokens_def put_rules_def put_auth_def)

lemma put_tokens_same [simp]: "put_tokens (tokens_of sh) sh = sh"
  by (simp add: put_tokens_def tokens_of_def)

text \<open>What later steps keep of a request that was checked.\<close>

definition same_request :: "request_context \<Rightarrow> request_context \<Rightarrow> bool" where
  "same_request rx rx' \<longleftrightarrow> rx_request rx' = rx_request rx \<and> rx_method rx' = rx_method rx \<and> rx_auth_token rx' = rx_auth_token rx \<and>
     rx_auth_claims rx' = rx_auth_claims rx \<and> rx_auth_issuer rx' = rx_auth_issuer rx \<and> rx_api_key rx' = rx_api_key rx"

lemma same_request_refl [simp]: "same_request rx rx"
  by (simp add: same_request_def)

section \<open>The outcomes of the control checks\<close>

lemma CheckServiceControl_cases:
  assumes "CheckServiceControl plib now sh rx = Some (out, sh', rx', es)"
  obtains (refused) st where "out = Called st" "\<not> ok st" "sh' = sh" "rx' = rx"
  | (passed) m where "out = Called Status_OK" "sh' = sh" "rx' = rx" "rx_method rx = Some m"
      "skip_service_control m \<or> sh_service_control sh = None \<or> rx_api_key rx = [] \<and> allow_unregistered_calls m"
  | (asked) m ag info ag' calls where "rx_method rx = Some m" "sh_service_control sh = Some ag"
      "Aggregated_Check plib now (rx_cloud_trace rx \<noteq> None) info ag = (ag', calls)" "sh' = sh\<lparr>sh_service_control := Some ag'\<rparr>"
      "(check_answered calls = None \<and> out = Waits WaitCheck \<and> rx' = rx) \<or>
       (\<exists>st info. check_answered calls = Some (st, info) \<and> out = Called st \<and> rx' = rx\<lparr>rx_check_response_info := info\<rparr>)"
proof (cases "rx_method rx")
  case None
  then show thesis using assms refused
    by (auto simp: CheckServiceControl_def Let_def Status3_def ok_def split: prod.splits if_splits)
next
  case (Some m)
  show thesis
  proof (cases "skip_service_control m \<or> sh_service_control sh = None \<or> rx_api_key rx = []")
    case True
    then show thesis using assms Some refused passed
      by (auto simp: CheckServiceControl_def Let_def Status3_def ok_def split: option.splits if_splits)
  next
    case False
    then obtain ag where ag: "sh_service_control sh = Some ag" by auto
    then obtain info where info: "FillCheckRequestInfo (sh_context sh) rx new_CheckRequestInfo = Some info"
      using assms Some False by (auto simp: CheckServiceControl_def Let_def bind_eq_Some_conv)
    obtain ag' calls where a: "Aggregated_Check plib now (rx_cloud_trace rx \<noteq> None) info ag = (ag', calls)" by (metis surj_pair)
    show thesis
    proof (rule asked [OF Some ag a])
      show "sh' = sh\<lparr>sh_service_control := Some ag'\<rparr>"
        using assms Some False ag info a by (auto simp: CheckServiceControl_def Let_def check_done_def split: option.splits)
      show "(check_answered calls = None \<and> out = Waits WaitCheck \<and> rx' = rx) \<or>
       (\<exists>st info. check_answered calls = Some (st, info) \<and> out = Called st \<and> rx' = rx\<lparr>rx_check_response_info := info\<rparr>)"
        using assms Some False ag info a by (auto simp: CheckServiceControl_def Let_def check_done_def split: option.splits)
    qed
  qed
qed

lemma QuotaControl_cases:
  assumes "QuotaControl plib sh rx = Some (out, sh', rx', es)"
  obtains (passed) m where "out = Called Status_OK" "sh' = sh" "rx' = rx" "rx_method rx = Some m"
      "metric_cost_vector m = [] \<or> skip_service_control m"
  | (asked) m ag info ag' calls where "rx_method rx = Some m" "sh_service_control sh = Some ag"
      "Aggregated_Quota plib (rx_cloud_trace rx \<noteq> None) info ag = (ag', calls)" "sh' = sh\<lparr>sh_service_control := Some ag'\<rparr>" "rx' = rx"
      "(quota_answered calls = None \<and> out = Waits WaitQuota) \<or>
       (\<exists>st. quota_answered calls = Some st \<and> out = Called (if code st = UNAVAILABLE then Status_OK else st))"
proof (cases "rx_method rx")
  case None
  then show thesis using assms by (simp add: QuotaControl_def)
next
  case (Some m)
  show thesis
  proof (cases "metric_cost_vector m = [] \<or> skip_service_control m")
    case True
    then show thesis using assms Some passed by (auto simp: QuotaControl_def split: if_splits)
  next
    case False
    then obtain info ag where i: "FillAllocateQuotaRequestInfo (sh_context sh) rx new_QuotaRequestInfo = Some info"
        "sh_service_control sh = Some ag"
      using assms Some by (auto simp: QuotaControl_def bind_eq_Some_conv)
    obtain ag' calls where a: "Aggregated_Quota plib (rx_cloud_trace rx \<noteq> None) info ag = (ag', calls)" by (metis surj_pair)
    define es0 :: "'d check_effect list" where "es0 = trace_effects rx [StartSpan ''QuotaControl''] @ map ControlEffect calls"
    have r: "(case quota_answered calls of
        None \<Rightarrow> Some (Waits WaitQuota, sh\<lparr>sh_service_control := Some ag'\<rparr>, rx, es0)
      | Some st \<Rightarrow> (case quota_done st rx of (st, rx, es') \<Rightarrow> Some (Called st, sh\<lparr>sh_service_control := Some ag'\<rparr>, rx, es0 @ es'))) =
      Some (out, sh', rx', es)"
      using assms Some False i a unfolding QuotaControl_def Let_def es0_def by simp
    show thesis
      by (rule asked [OF Some i(2) a]) (use r in \<open>auto simp: quota_done_def split: option.splits\<close>)
  qed
qed

lemma check_answered_env [simp]: "check_answered (ScEnv e # es) = check_answered es" "quota_answered (ScEnv e # es) = quota_answered es"
  by simp_all

lemma FillCheckRequest_refuses: "FillCheckRequest plib now p info = Inl st \<Longrightarrow> \<not> ok st"
  by (auto simp: FillCheckRequest_def Let_def split: if_splits)

lemma Aggregated_Check_refuses:
  assumes "Aggregated_Check plib now traced info ag = (ag', calls)"
  shows "ag_proto ag' = ag_proto ag \<and> network_fail_open ag' = network_fail_open ag \<and>
    (\<forall>st info'. check_answered calls = Some (st, info') \<longrightarrow> \<not> ok st)"
proof (cases "ag_client ag")
  case False
  then show ?thesis using assms by (cases traced) (auto simp: Aggregated_Check_def missing_client_def)
next
  case True
  obtain r pool where p: "ProtoPool_Alloc (empty_check_request :: 'a check_request) (check_pool ag) = (r, pool)" by (metis surj_pair)
  show ?thesis
    using assms True p FillCheckRequest_refuses [of plib now "ag_proto ag" info]
    by (cases "FillCheckRequest plib now (ag_proto ag) info"; cases traced) (auto simp: Aggregated_Check_def)
qed

lemma Aggregated_Quota_refuses:
  assumes "Aggregated_Quota plib traced info ag = (ag', calls)"
  shows "ag_proto ag' = ag_proto ag \<and> network_fail_open ag' = network_fail_open ag \<and>
    (\<forall>st. quota_answered calls = Some st \<longrightarrow> st = missing_client)"
proof (cases "ag_client ag")
  case False
  then show ?thesis using assms by (cases traced) (auto simp: Aggregated_Quota_def)
next
  case True
  obtain r pool where p: "ProtoPool_Alloc empty_quota_request (quota_pool ag) = (r, pool)" by (metis surj_pair)
  have "fst (FillAllocateQuotaRequest plib (ag_proto ag) info) = Status_OK" by (simp add: FillAllocateQuotaRequest_def Let_def)
  then show ?thesis
    using assms True p by (cases "FillAllocateQuotaRequest plib (ag_proto ag) info"; cases traced) (auto simp: Aggregated_Quota_def)
qed

end
