(* ===== verification/Request_Handling.thy ===== *)
theory Request_Handling
  imports Check_Workflow
begin

text \<open>
  The requests of a service from their arrival to their report, in any order, and what a check that
  completed means: the property of each of the checks is established by an interpretation of one
  interface, and holds in every state that the requests reach.
\<close>

section \<open>Interleaved requests\<close>

text \<open>
  A step of a request: its number, its context before, the clocks, and the response that resumed
  it, for a step that is not its first.
\<close>

type_synonym 'v check_step = "nat \<times> request_context \<times> check_clock \<times> ('v check_wait \<times> check_event) option"

text \<open>\<open>K\<close> gives the key documents that the key servers of an issuer send.\<close>

definition event_ok :: "(string \<Rightarrow> string set) \<Rightarrow> 'v check_wait \<Rightarrow> check_event \<Rightarrow> bool" where
  "event_ok K w e \<longleftrightarrow> (\<forall>ac st body. w = WaitPubKey ac \<and> e = HttpResponse st body \<and> ok st \<longrightarrow> body \<in> K (ui_issuer (ac_user_info ac)))"

text \<open>
  The requests of a service from \<open>sh0\<close> on, in any order: a request arrives and is checked; a response
  resumes its check; it is reported on while it is served and at its end.
\<close>

inductive requests_reachable ::
    "('v, 'c, 'e, 'k, 'd) check_lib \<Rightarrow> (string \<Rightarrow> string set) \<Rightarrow> ('c, 'e, 'd) service_shared \<Rightarrow> ('c, 'e, 'd) service_shared \<Rightarrow>
     (nat \<Rightarrow> (request_context \<times> 'v check_state) option) \<Rightarrow> 'v check_step list \<Rightarrow> bool" for lib K sh0 where
  start: "requests_reachable lib K sh0 sh0 (\<lambda>_. None) []"
| arrive: "\<lbrakk>requests_reachable lib K sh0 sh p L; p i = None;
    new_RequestHandler (cl_context lib) uuid rnds now steady (sh_context sh) rq = Some (rx, sx, es0);
    RequestHandler_Check lib ck (sh\<lparr>sh_context := sx\<rparr>) rx = Some (out, sh', rx', es)\<rbrakk> \<Longrightarrow>
    requests_reachable lib K sh0 sh' (p(i \<mapsto> (rx', out))) (L @ [(i, rx, ck, None)])"
| resume: "\<lbrakk>requests_reachable lib K sh0 sh p L; p i = Some (rx, Suspended n w); event_ok K w e;
    RequestHandler_Resume lib ck n w e sh rx = Some (out, sh', rx', es)\<rbrakk> \<Longrightarrow>
    requests_reachable lib K sh0 sh' (p(i \<mapsto> (rx', out))) (L @ [(i, rx, ck, Some (w, e))])"
| progress: "\<lbrakk>requests_reachable lib K sh0 sh p L; p i = Some (rx, Completed st);
    AttemptIntermediateReport lib steady steady' now stats sh rx = Some (sh', rx', es)\<rbrakk> \<Longrightarrow>
    requests_reachable lib K sh0 sh' (p(i \<mapsto> (rx', Completed st))) L"
| report: "\<lbrakk>requests_reachable lib K sh0 sh p L; p i = Some (rx, Completed st);
    Report lib to_json now now_ns stats rsp sh rx = Some (sh', rx', es)\<rbrakk> \<Longrightarrow>
    requests_reachable lib K sh0 sh' (p(i \<mapsto> (rx', Completed st))) L"

text \<open>What the steps outside the checks leave alone.\<close>

definition client_view :: "('c, 'e, 'd) service_shared \<Rightarrow> (string \<times> bool) option" where
  "client_view sh = map_option (\<lambda>ag. (p_service_name (ag_proto ag), network_fail_open ag)) (sh_service_control sh)"

definition same_shared :: "('c, 'e, 'd) service_shared \<Rightarrow> ('c, 'e, 'd) service_shared \<Rightarrow> bool" where
  "same_shared sh sh' \<longleftrightarrow> auth_view sh' = auth_view sh \<and> sh_authz_cache sh' = sh_authz_cache sh \<and>
     rules_same (sh_context sh) (sh_context sh') \<and> client_view sh' = client_view sh"

lemma same_shared_refl [simp]: "same_shared sh sh"
  by (simp add: same_shared_def)

lemma same_shared_tokens [simp]: "same_shared sh (put_tokens ctx sh)"
  using rules_same_put(1) [of sh ctx] by (simp add: same_shared_def client_view_def) (simp add: put_tokens_def)

lemma same_shared_arrive:
  assumes "new_RequestHandler lib uuid rnds now steady (sh_context sh) rq = Some (rx, sx, es)"
  shows "same_shared sh (sh\<lparr>sh_context := sx\<rparr>)"
proof -
  have "\<exists>agg. sx = set_aggregator agg (sh_context sh)"
    using assms by (auto simp: new_RequestHandler_def RequestContext_def Let_def split: prod.splits sum.splits)
  then have "rules_same (sh_context sh) sx \<and> auth_view (sh\<lparr>sh_context := sx\<rparr>) = auth_view sh"
    by (auto simp: set_aggregator_def auth_view_def intro!: rules_same_fields)
  then show ?thesis by (simp add: same_shared_def client_view_def)
qed

lemma Aggregated_Report_keeps:
  "Aggregated_Report plib now info ag = Some (st, ag', es) \<Longrightarrow> ag_proto ag' = ag_proto ag \<and> network_fail_open ag' = network_fail_open ag"
  by (auto simp: Aggregated_Report_def Let_def bind_eq_Some_conv split: if_splits prod.splits sum.splits)

lemma same_shared_control:
  "sh_service_control sh = Some ag \<Longrightarrow> ag_proto ag' = ag_proto ag \<Longrightarrow> network_fail_open ag' = network_fail_open ag \<Longrightarrow>
   same_shared sh (sh\<lparr>sh_service_control := Some ag'\<rparr>)"
  by (simp add: same_shared_def client_view_def)

lemma FillReportRequestInfo_request:
  assumes "FillReportRequestInfo lib now stats sx rsp info rx = Some (info', rx', es)"
  shows "same_request rx rx'"
proof -
  obtain verb logs where v: "GetRequestHTTPMethodWithOverride (rx_request rx) = (verb, logs)" by (metis surj_pair)
  obtain info1 where i1: "FillOperationInfo sx rx info = Some info1"
    using assms(1) by (cases "FillOperationInfo sx rx info") (simp_all add: FillReportRequestInfo_def)
  show ?thesis
  proof (cases "is_final_report info1")
    case False
    then show ?thesis using assms i1 v
      by (auto simp: FillReportRequestInfo_def Let_def FillComputePlatform_def FillLocation_def same_request_def)
  next
    case True
    then have "rx' = rx" using assms i1 v
      by (auto simp: FillReportRequestInfo_def Let_def FillComputePlatform_def FillLocation_def bind_eq_Some_conv)
    then show ?thesis by simp
  qed
qed

lemma bind_SomeE:
  assumes "Option.bind x f = Some y"
  obtains z where "x = Some z" "f z = Some y"
  using assms by (auto simp: bind_eq_Some_conv)

lemma AttemptIntermediateReport_keeps:
  assumes "AttemptIntermediateReport lib steady steady' now stats sh rx = Some (sh', rx', es)"
  shows "same_shared sh sh' \<and> same_request rx rx'"
proof (cases "(steady - rx_last_report_time rx) sdiv 1000000000 < gx_intermediate_report_interval (sx_global (sh_context sh))")
  case True
  then show ?thesis using assms by (simp add: AttemptIntermediateReport_def)
next
  case False
  note a = assms [unfolded AttemptIntermediateReport_def if_not_P [OF False]]
  from a obtain r1 where r1: "FillReportRequestInfo (cl_context lib) now stats (sh_context sh) None
      (ReportRequestInfo\<lparr>is_first_report := rx_is_first_report rx, is_final_report := False\<rparr>) rx = Some r1" by (rule bind_SomeE)
  obtain info rx1 logs where p1: "r1 = (info, rx1, logs)" by (metis prod_cases3)
  note a = a [unfolded r1 p1 Option.bind.bind_lunit prod.case]
  from a obtain ag where ag: "sh_service_control sh = Some ag" by (rule bind_SomeE)
  note a = a [unfolded ag Option.bind.bind_lunit]
  from a obtain r2 where r2: "Aggregated_Report (cl_proto lib) now info ag = Some r2" by (rule bind_SomeE)
  obtain st ag' es1 where p2: "r2 = (st, ag', es1)" by (metis prod_cases3)
  note a = a [unfolded r2 p2 Option.bind.bind_lunit prod.case]
  have "same_shared sh (sh\<lparr>sh_service_control := Some ag'\<rparr>)"
    using Aggregated_Report_keeps [OF r2 [unfolded p2]] same_shared_control [OF ag] by blast
  moreover have "same_request rx rx1" by (rule FillReportRequestInfo_request [OF r1 [unfolded p1]])
  ultimately show ?thesis using a by (auto simp: same_request_def)
qed

lemma append_trace_keeps: "append_trace to_json tok now tr sh = Some (sh', es) \<Longrightarrow> same_shared sh sh'"
proof -
  assume a: "append_trace to_json tok now tr sh = Some (sh', es)"
  define put where "put = (\<lambda>t a. sh\<lparr>sh_context := (sh_context sh)\<lparr>sx_global := (sx_global (sh_context sh))\<lparr>gx_aggregator := Some a,
    gx_tokens := (tokens_of sh)\<lparr>tc_service_account_token := t\<rparr>\<rparr>\<rparr>\<rparr>)"
  obtain t a where "sh' = put t a"
    using a unfolding append_trace_def Let_def put_def [symmetric] by (auto simp: bind_eq_Some_conv case_prod_beta split: if_splits)
  moreover have "same_shared sh (put t a)"
    by (auto simp: same_shared_def auth_view_def client_view_def put_def intro!: rules_same_fields)
  ultimately show ?thesis by simp
qed

lemma same_shared_trans: "same_shared sh sh' \<Longrightarrow> same_shared sh' sh'' \<Longrightarrow> same_shared sh sh''"
  by (auto simp: same_shared_def intro: rules_same_trans)

lemma same_request_trans: "same_request rx rx' \<Longrightarrow> same_request rx' rx'' \<Longrightarrow> same_request rx rx''"
  by (simp add: same_request_def)

lemma Report_keeps:
  assumes "Report lib to_json now now_ns stats rsp sh rx = Some (sh', rx', es)"
  shows "same_shared sh sh' \<and> same_request rx rx'"
proof (cases "sh' = sh \<and> rx' = rx")
  case True
  then show ?thesis by (simp add: same_shared_def)
next
  case False
  define rx0 where "rx0 = EndBackendSpan now_ns rx"
  have rx0: "same_request rx rx0" by (auto simp: rx0_def EndBackendSpan_def same_request_def split: option.splits)
  define sent where "sent = (case sh_service_control sh of
                None \<Rightarrow> Some (sh, rx0, [])
              | Some ag \<Rightarrow> do {
                  (info, rx, logs) \<leftarrow> FillReportRequestInfo (cl_context lib) now_ns stats (sh_context sh) (Some rsp)
                    (ReportRequestInfo\<lparr>is_first_report := rx_is_first_report rx0, is_final_report := True\<rparr>) rx0;
                  (st, ag, es) \<leftarrow> Aggregated_Report (cl_proto lib) now_ns info ag;
                  Some (sh\<lparr>sh_service_control := Some ag\<rparr>, rx,
                        env_effects logs @ map ControlEffect es @
                        (if \<not> ok st then env_effects [LogError ''Failed to send report to service control.''] else []))
                })"
  obtain sh1 rx1 es1 where 1: "sent = Some (sh1, rx1, es1)"
    and 2: "(case rx_cloud_trace rx1 of
              None \<Rightarrow> Some (sh1, rx1, es1)
            | Some ct \<Rightarrow> do {
                (sh, es') \<leftarrow> append_trace to_json (re_get_auth_token (cl_rules lib)) now (ct_trace (EndRootSpan now_ns ct)) sh1;
                Some (sh, rx1\<lparr>rx_cloud_trace := None\<rparr>, es1 @ env_effects es')
              }) = Some (sh', rx', es)"
    using assms False unfolding Report_def Let_def rx0_def [symmetric] sent_def [symmetric]
    by (auto simp: bind_eq_Some_conv split: if_splits)
  have "same_shared sh sh1 \<and> same_request rx0 rx1"
    using 1 unfolding sent_def
    by (auto simp: bind_eq_Some_conv split: option.splits
        dest: FillReportRequestInfo_request Aggregated_Report_keeps intro!: same_shared_control)
  moreover have "same_shared sh1 sh' \<and> same_request rx1 rx'"
    using 2 by (auto simp: bind_eq_Some_conv same_request_def split: option.splits
        dest: append_trace_keeps)
  ultimately show ?thesis using rx0 by (blast intro: same_shared_trans same_request_trans)
qed

section \<open>Chains of checks\<close>

text \<open>
  A property of the requests that the handlers establish in their order, as an interface: what is
  known of the shared state, of a request whose handlers before the \<open>n\<close>-th have passed, and of one
  whose \<open>n\<close>-th handler waits.  The steps taken so far are known as well.
\<close>

definition handler_post ::
    "(('c, 'e, 'd) service_shared \<Rightarrow> bool) \<Rightarrow> (nat \<Rightarrow> request_context \<Rightarrow> bool) \<Rightarrow> (nat \<Rightarrow> 'v check_wait \<Rightarrow> request_context \<Rightarrow> bool) \<Rightarrow>
     nat \<Rightarrow> 'v handler_outcome \<Rightarrow> ('c, 'e, 'd) service_shared \<Rightarrow> request_context \<Rightarrow> bool" where
  "handler_post Shared Passed Waiting n out sh rx \<longleftrightarrow> Shared sh \<and> (case out of
     Called st \<Rightarrow> ok st \<longrightarrow> Passed (n + 1) rx
   | Waits w \<Rightarrow> Waiting n w rx
   | Dropped \<Rightarrow> True)"

definition check_post ::
    "(nat \<Rightarrow> request_context \<Rightarrow> bool) \<Rightarrow> (nat \<Rightarrow> 'v check_wait \<Rightarrow> request_context \<Rightarrow> bool) \<Rightarrow> request_context \<times> 'v check_state \<Rightarrow> bool" where
  "check_post Passed Waiting r \<longleftrightarrow> (case r of (rx, out) \<Rightarrow> (case out of
     Completed st \<Rightarrow> ok st \<longrightarrow> Passed (length RegisterAll) rx
   | Suspended n w \<Rightarrow> n < length RegisterAll \<and> Waiting n w rx
   | Lost \<Rightarrow> True))"

locale check_chain =
  fixes lib :: "('v, 'c, 'e, 'k, 'd) check_lib"
    and K :: "string \<Rightarrow> string set"
    and Shared :: "'v check_step list \<Rightarrow> ('c, 'e, 'd) service_shared \<Rightarrow> bool"
    and Passed :: "'v check_step list \<Rightarrow> nat \<Rightarrow> nat \<Rightarrow> request_context \<Rightarrow> bool"
    and Waiting :: "'v check_step list \<Rightarrow> nat \<Rightarrow> nat \<Rightarrow> 'v check_wait \<Rightarrow> request_context \<Rightarrow> bool"
  assumes fresh: "Passed L i 0 rx"
    and start: "\<lbrakk>Shared L sh; Passed L i n rx; n < length RegisterAll; (i, rx0, ck, r) \<in> set L;
      start_handler lib ck (RegisterAll ! n) sh rx = Some (out, sh', rx', es)\<rbrakk> \<Longrightarrow>
      handler_post (Shared L) (Passed L i) (Waiting L i) n out sh' rx'"
    and callback: "\<lbrakk>Shared L sh; Waiting L i n w rx; event_ok K w e; (i, rx, ck, Some (w, e)) \<in> set L;
      resume_handler lib ck w e sh rx = Some (out, sh', rx', es)\<rbrakk> \<Longrightarrow>
      handler_post (Shared L) (Passed L i) (Waiting L i) n out sh' rx'"
    and same_passed: "\<lbrakk>Passed L i n rx; same_request rx rx'\<rbrakk> \<Longrightarrow> Passed L i n rx'"
    and same_state: "\<lbrakk>Shared L sh; same_shared sh sh'\<rbrakk> \<Longrightarrow> Shared L sh'"
    and shared_step: "Shared L sh \<Longrightarrow> Shared (L @ [s]) sh"
    and passed_step: "Passed L i n rx \<Longrightarrow> Passed (L @ [s]) i n rx"
    and waiting_step: "Waiting L i n w rx \<Longrightarrow> Waiting (L @ [s]) i n w rx"
begin

lemma complete_post:
  assumes "Passed L i n rx" "complete_check st sh rx = Some (out, sh', rx', es)"
  shows "out = Completed st" "sh' = sh" "Passed L i n rx'"
proof -
  have "out = Completed st" "sh' = sh" "rx' = rx\<lparr>rx_check_continuation := False\<rparr>"
    using assms(2) by (auto simp: complete_check_def CompleteCheck_def split: if_splits)
  then show "out = Completed st" "sh' = sh" "Passed L i n rx'" using same_passed [OF assms(1)] by (simp_all add: same_request_def)
qed

lemma end_post:
  assumes p: "handler_post (Shared L) (Passed L i) (Waiting L i) n o1 sh1 rx1" and n: "n < length RegisterAll"
    and e: "handler_end lib ck RegisterAll n (Some (o1, sh1, rx1, es1)) = Some (out, sh', rx', es)"
    and run: "\<And>es2. \<lbrakk>n + 1 < length RegisterAll; Passed L i (n + 1) rx1;
      RunOneHandler lib ck RegisterAll (n + 1) sh1 rx1 = Some (out, sh', rx', es2)\<rbrakk> \<Longrightarrow>
      Shared L sh' \<and> check_post (Passed L i) (Waiting L i) (rx', out)"
  shows "Shared L sh' \<and> check_post (Passed L i) (Waiting L i) (rx', out)"
proof (cases o1)
  case (Called st)
  then obtain es2 where c: "handler_continuation lib ck RegisterAll n st sh1 rx1 = Some (out, sh', rx', es2)"
    using e by (auto simp: handler_end_def after_effects_def)
  consider "ok st" "n + 1 < length RegisterAll" | "ok st" "n + 1 = length RegisterAll" | "\<not> ok st" using n by linarith
  then show ?thesis
  proof cases
    case 1
    then show ?thesis using run p Called c by (simp add: handler_post_def handler_continuation_def)
  next
    case 2
    then have "complete_check st sh1 rx1 = Some (out, sh', rx', es2)" "Passed L i (n + 1) rx1"
      using p Called c by (simp_all add: handler_post_def handler_continuation_def)
    from complete_post [OF this(2,1)] show ?thesis using p 2(2) by (simp add: check_post_def handler_post_def)
  next
    case 3
    then have "out = Completed st \<and> sh' = sh1"
      using c by (auto simp: handler_continuation_def complete_check_def CompleteCheck_def split: if_splits)
    then show ?thesis using 3 p by (simp add: check_post_def handler_post_def)
  qed
qed (use p n e in \<open>auto simp: handler_end_def handler_post_def check_post_def\<close>)

lemma run_post:
  assumes "(i, rx0, ck, r) \<in> set L" "n < length RegisterAll" "Shared L sh" "Passed L i n rx"
    "RunOneHandler lib ck RegisterAll n sh rx = Some (out, sh', rx', es)"
  shows "Shared L sh' \<and> check_post (Passed L i) (Waiting L i) (rx', out)"
  using assms(2-)
proof (induction "length RegisterAll - n" arbitrary: n sh rx out sh' rx' es rule: less_induct)
  case less
  obtain o1 sh1 rx1 es1 where s: "start_handler lib ck (RegisterAll ! n) sh rx = Some (o1, sh1, rx1, es1)"
    using less.prems(1,4) by (cases "start_handler lib ck (RegisterAll ! n) sh rx") (auto simp: RunOneHandler_end handler_end_def)
  have p: "handler_post (Shared L) (Passed L i) (Waiting L i) n o1 sh1 rx1"
    by (rule start [OF less.prems(2,3,1) assms(1) s])
  then have "Shared L sh1" by (simp add: handler_post_def)
  then show ?case
    using end_post [OF p less.prems(1), of ck es1 out sh' rx' es] less.prems(1,4) s less.hyps [of "n + 1" sh1 rx1 out sh' rx']
    by (simp add: RunOneHandler_end)
qed

lemma interception_post:
  assumes "interception lib ck (Some (out, sh, rx, es)) = Some (out', sh', rx', es')"
    and "Shared L sh" "check_post (Passed L i) (Waiting L i) (rx, out)"
  shows "Shared L sh' \<and> check_post (Passed L i) (Waiting L i) (rx', out')"
proof (cases "\<exists>st. out = Completed st \<and> ok st")
  case False
  then have "(out', sh', rx') = (out, sh, rx)" using assms(1) by (auto simp: interception_def split: check_state.splits if_splits)
  then show ?thesis using assms(2,3) by simp
next
  case True
  then obtain st where st: "out = Completed st" "ok st" by blast
  obtain ctx rx1 where i: "out' = Completed st" "sh' = put_tokens ctx sh" "rx' = rx1"
      "rx_cloud_trace rx = None \<and> rx1 = rx \<or>
       (\<exists>es1. StartBackendSpanAndSetTraceContext (cl_context lib) (ck_rnd ck) (ck_now_ns ck) rx = Some (rx1, es1))"
    using assms(1) st by (auto simp: interception_def bind_eq_Some_conv case_prod_beta split: if_splits)
  have "same_request rx rx1"
    using i(4) by (auto simp: StartBackendSpanAndSetTraceContext_def same_request_def Let_def split: prod.splits option.splits)
  then show ?thesis
    using assms(2,3) st i(1-3) same_passed same_state [OF assms(2) same_shared_tokens] by (auto simp: check_post_def)
qed

lemma check_starts:
  assumes "Shared L sh" "(i, rx, ck, None) \<in> set L" "RequestHandler_Check lib ck sh rx = Some (out, sh', rx', es)"
  shows "Shared L sh' \<and> check_post (Passed L i) (Waiting L i) (rx', out)"
proof -
  let ?rx = "set_check_continuation rx"
  have n: "0 < length RegisterAll" "RegisterAll \<noteq> []" by (simp_all add: RegisterAll_def)
  obtain o1 sh1 rx1 es1 where r: "RunOneHandler lib ck RegisterAll 0 sh ?rx = Some (o1, sh1, rx1, es1)"
    using assms(3) n(2) by (cases "RunOneHandler lib ck RegisterAll 0 sh ?rx")
      (auto simp: RequestHandler_Check_def Run_def interception_def)
  moreover have "interception lib ck (Some (o1, sh1, rx1, es1)) = Some (out, sh', rx', es)"
    using assms(3) r n(2) by (simp add: RequestHandler_Check_def Run_def)
  ultimately show ?thesis using run_post [OF assms(2) n(1) assms(1) fresh r] interception_post by blast
qed

lemma check_resumes:
  assumes "Shared L sh" "Waiting L i n w rx" "n < length RegisterAll" "event_ok K w e" "(i, rx, ck, Some (w, e)) \<in> set L"
    "RequestHandler_Resume lib ck n w e sh rx = Some (out, sh', rx', es)"
  shows "Shared L sh' \<and> check_post (Passed L i) (Waiting L i) (rx', out)"
proof -
  obtain o1 sh1 rx1 es1 where r: "resume lib ck RegisterAll n w e sh rx = Some (o1, sh1, rx1, es1)"
    using assms(6) by (cases "resume lib ck RegisterAll n w e sh rx") (auto simp: RequestHandler_Resume_def interception_def)
  have i: "interception lib ck (Some (o1, sh1, rx1, es1)) = Some (out, sh', rx', es)"
    using assms(6) r by (simp add: RequestHandler_Resume_def)
  obtain o2 sh2 rx2 es2 where h: "resume_handler lib ck w e sh rx = Some (o2, sh2, rx2, es2)"
    using r by (cases "resume_handler lib ck w e sh rx") (auto simp: resume_def handler_end_def)
  have p: "handler_post (Shared L) (Passed L i) (Waiting L i) n o2 sh2 rx2" by (rule callback [OF assms(1,2,4,5) h])
  have "Shared L sh1 \<and> check_post (Passed L i) (Waiting L i) (rx1, o1)"
  proof (rule end_post [OF p assms(3)])
    show "handler_end lib ck RegisterAll n (Some (o2, sh2, rx2, es2)) = Some (o1, sh1, rx1, es1)" using r h by (simp add: resume_def)
    show "Shared L sh1 \<and> check_post (Passed L i) (Waiting L i) (rx1, o1)" if "n + 1 < length RegisterAll" "Passed L i (n + 1) rx2"
      "RunOneHandler lib ck RegisterAll (n + 1) sh2 rx2 = Some (o1, sh1, rx1, es3)" for es3
      using run_post [OF assms(5) that(1) _ that(2,3)] p by (simp add: handler_post_def)
  qed
  then show ?thesis using interception_post [OF i] by blast
qed

lemma post_step: "check_post (Passed L i) (Waiting L i) r \<Longrightarrow> check_post (Passed (L @ [s]) i) (Waiting (L @ [s]) i) r"
  by (auto simp: check_post_def passed_step waiting_step split: prod.splits check_state.splits)

lemma reachable_post:
  assumes "requests_reachable lib K sh0 sh p L" "Shared [] sh0"
  shows "Shared L sh \<and> (\<forall>i r. p i = Some r \<longrightarrow> check_post (Passed L i) (Waiting L i) r)"
  using assms(1)
proof (induction rule: requests_reachable.induct)
  case start
  then show ?case using assms(2) by simp
next
  case (arrive sh p L i uuid rnds now steady rq rx sx es0 ck out sh' rx' es)
  let ?L = "L @ [(i, rx, ck, None)]"
  have "Shared ?L (sh\<lparr>sh_context := sx\<rparr>)" using arrive.IH shared_step same_state same_shared_arrive [OF arrive.hyps(3)] by blast
  from check_starts [OF this _ arrive.hyps(4)] show ?case using arrive.IH post_step by auto
next
  case (resume sh p L i rx n w e ck out sh' rx' es)
  let ?L = "L @ [(i, rx, ck, Some (w, e))]"
  have "check_post (Passed L i) (Waiting L i) (rx, Suspended n w)" using resume.IH resume.hyps(2) by blast
  then have w: "n < length RegisterAll" "Waiting L i n w rx" by (simp_all add: check_post_def)
  from check_resumes [OF _ waiting_step [OF w(2)] w(1) resume.hyps(3) _ resume.hyps(4)]
  show ?case using resume.IH post_step shared_step by auto
next
  case (progress sh p L i rx st steady steady' now stats sh' rx' es)
  then have "check_post (Passed L i) (Waiting L i) (rx', Completed st)"
    using AttemptIntermediateReport_keeps [OF progress.hyps(3)] same_passed by (fastforce simp: check_post_def)
  then show ?case using progress AttemptIntermediateReport_keeps [OF progress.hyps(3)] same_state by auto
next
  case (report sh p L i rx st to_json now now_ns stats rsp sh' rx' es)
  then have "check_post (Passed L i) (Waiting L i) (rx', Completed st)"
    using Report_keeps [OF report.hyps(3)] same_passed by (fastforce simp: check_post_def)
  then show ?case using report Report_keeps [OF report.hyps(3)] same_state by auto
qed

end

fun wait_index :: "'v check_wait \<Rightarrow> nat" where
  "wait_index WaitToken = 0"
| "wait_index (WaitIdentity _) = 1"
| "wait_index (WaitJwksUri _) = 2"
| "wait_index (WaitPubKey _) = 2"
| "wait_index WaitRelease = 3"
| "wait_index (WaitTest _) = 3"
| "wait_index WaitCheck = 4"
| "wait_index WaitQuota = 5"

lemma RegisterAll_nth:
  assumes "n < length RegisterAll"
  obtains "n = 0" "RegisterAll ! n = HandleFetchServiceAccountToken" | "n = 1" "RegisterAll ! n = HandleFetchInstanceIdentityToken"
  | "n = 2" "RegisterAll ! n = HandleCheckAuth" | "n = 3" "RegisterAll ! n = HandleCheckSecurityRules"
  | "n = 4" "RegisterAll ! n = HandleCheckServiceControl" | "n = 5" "RegisterAll ! n = HandleQuotaControl"
proof -
  have "n = 0 \<or> n = 1 \<or> n = 2 \<or> n = 3 \<or> n = 4 \<or> n = 5" using assms by (auto simp: RegisterAll_def)
  then show thesis using that by (auto simp: RegisterAll_def)
qed

text \<open>What the handlers of each kind leave alone.\<close>

lemma token_step:
  assumes "token_outcome w r sh rx = Some (out, sh', rx', es)"
  shows "same_shared sh sh' \<and> rx' = rx \<and> (out = Waits w \<or> (\<exists>st. out = Called st))"
  using assms by (auto simp: token_outcome_def split: prod.splits fetch_outcome.splits)

lemma auth_step:
  assumes "auth_outcome_of r sh rx = Some (out, sh', rx', es)"
  obtains o1 s1 ac es1 where "r = Some (o1, s1, ac, es1)" "sh' = put_auth s1 sh" "rx' = put_checker ac rx"
    "out = (case o1 of AuthDone st \<Rightarrow> Called st | AwaitJwksUri \<Rightarrow> Waits (WaitJwksUri ac)
        | AwaitPubKey \<Rightarrow> Waits (WaitPubKey ac) | NoCallback \<Rightarrow> Dropped)"
  using assms by (auto simp: auth_outcome_of_def)

lemma rules_step:
  assumes "rules_outcome_of r sh rx = Some (out, sh', rx', es)"
  obtains o1 rs es1 where "r = Some (o1, rs, es1)" "sh' = put_rules rs sh" "rx' = rx"
    "out = (case o1 of RulesDone st \<Rightarrow> Called st | AwaitRelease \<Rightarrow> Waits WaitRelease | AwaitTest fr \<Rightarrow> Waits (WaitTest fr))"
  using assms by (auto simp: rules_outcome_of_def)

lemma control_step:
  assumes "CheckServiceControl plib now sh rx = Some (out, sh', rx', es)"
  shows "same_shared sh sh' \<and> same_request rx rx' \<and> (out = Waits WaitCheck \<or> (\<exists>st. out = Called st))"
  using assms
proof (cases rule: CheckServiceControl_cases)
  case (asked m ag info ag' calls)
  then have "same_shared sh sh'" using Aggregated_Check_refuses [OF asked(3)] same_shared_control [OF asked(2)] by blast
  then show ?thesis using asked(5) by (auto simp: same_request_def)
qed simp_all

lemma quota_step:
  assumes "QuotaControl plib sh rx = Some (out, sh', rx', es)"
  shows "same_shared sh sh' \<and> rx' = rx \<and> (out = Waits WaitQuota \<or> (\<exists>st. out = Called st))"
  using assms
proof (cases rule: QuotaControl_cases)
  case (asked m ag info ag' calls)
  then have "same_shared sh sh'" using Aggregated_Quota_refuses [OF asked(3)] same_shared_control [OF asked(2)] by blast
  then show ?thesis using asked(5,6) by auto
qed simp

lemma answer_step:
  assumes "resume_handler lib ck w e sh rx = Some (out, sh', rx', es)" "wait_index w \<noteq> 2" "wait_index w \<noteq> 3"
  shows "same_shared sh sh' \<and> same_request rx rx' \<and> (\<exists>st. out = Called st)"
  using assms
  by (cases "(lib, ck, w, e, sh, rx)" rule: resume_handler.cases)
    (auto simp: Let_def bind_eq_Some_conv check_done_def quota_done_def same_request_def)

section \<open>Authentication\<close>

definition auth_passed :: "('v, 'c) auth_env \<Rightarrow> (string \<Rightarrow> string set) \<Rightarrow> string \<Rightarrow> bool \<Rightarrow> request_context \<Rightarrow> bool" where
  "auth_passed env K name required rx \<longleftrightarrow> (\<forall>m. rx_method rx = Some m \<and> required \<and> auth m \<longrightarrow>
     (\<exists>ui expiry. allowed name m ui \<and> verified env K (rx_auth_token rx) ui expiry \<and>
        rx_auth_issuer rx = ui_issuer ui \<and> rx_auth_claims rx = ui_claims ui))"

definition auth_shared ::
    "('v, 'c, 'e, 'k, 'd) check_lib \<Rightarrow> (string \<Rightarrow> string set) \<Rightarrow> string \<Rightarrow> bool \<Rightarrow> 'v check_step list \<Rightarrow> ('c, 'e, 'd) service_shared \<Rightarrow> bool" where
  "auth_shared lib K name required L sh \<longleftrightarrow> lru_laws (ae_lru (cl_auth lib)) \<and> caches_ok (cl_auth lib) K (auth_view sh) \<and>
     service_name_of (auth_view sh) = name \<and> RequireAuth (auth_view sh) = required"

definition auth_request ::
    "('v, 'c, 'e, 'k, 'd) check_lib \<Rightarrow> (string \<Rightarrow> string set) \<Rightarrow> string \<Rightarrow> bool \<Rightarrow> 'v check_step list \<Rightarrow> nat \<Rightarrow> nat \<Rightarrow> request_context \<Rightarrow> bool" where
  "auth_request lib K name required L i n rx \<longleftrightarrow> (2 < n \<longrightarrow> auth_passed (cl_auth lib) K name required rx)"

definition checker_ok ::
    "('v, 'c) auth_env \<Rightarrow> (string \<Rightarrow> string set) \<Rightarrow> string \<Rightarrow> bool \<Rightarrow> auth_outcome \<Rightarrow> 'v auth_checker \<Rightarrow> request_context \<Rightarrow> bool" where
  "checker_ok env K name required out ac rx \<longleftrightarrow> request_ok env K name required (out, ac) \<and> ac_method ac = rx_method rx \<and> synced ac"

definition auth_waiting ::
    "('v, 'c, 'e, 'k, 'd) check_lib \<Rightarrow> (string \<Rightarrow> string set) \<Rightarrow> string \<Rightarrow> bool \<Rightarrow> 'v check_step list \<Rightarrow> nat \<Rightarrow> nat \<Rightarrow> 'v check_wait \<Rightarrow>
     request_context \<Rightarrow> bool" where
  "auth_waiting lib K name required L i n w rx \<longleftrightarrow> n = wait_index w \<and> auth_request lib K name required L i n rx \<and> (case w of
     WaitJwksUri ac \<Rightarrow> checker_ok (cl_auth lib) K name required AwaitJwksUri ac rx
   | WaitPubKey ac \<Rightarrow> checker_ok (cl_auth lib) K name required AwaitPubKey ac rx
   | _ \<Rightarrow> True)"

lemma auth_shared_same: "auth_shared lib K name required L sh \<Longrightarrow> same_shared sh sh' \<Longrightarrow> auth_shared lib K name required L sh'"
  by (simp add: auth_shared_def same_shared_def)

lemma auth_request_same:
  "auth_request lib K name required L i n rx \<Longrightarrow> same_request rx rx' \<Longrightarrow> auth_request lib K name required L i n rx'"
  by (simp add: auth_request_def auth_passed_def same_request_def)

lemma auth_shared_rules: "auth_shared lib K name required L sh \<Longrightarrow> auth_shared lib K name required L (put_rules rs sh)"
  by (simp add: auth_shared_def)

lemma checker_passed:
  assumes "checker_ok env K name required (AuthDone st) ac rx" "ok st"
  shows "auth_passed env K name required (put_checker ac rx)"
  using assms by (auto simp: checker_ok_def request_ok_def auth_passed_def put_checker_def synced_def)

lemma auth_post:
  assumes "auth_shared lib K name required L sh" "same_service (auth_view sh) s1"
    and "caches_ok (cl_auth lib) K s1 \<and> service_name_of s1 = service_name_of (auth_view sh) \<and> RequireAuth s1 = RequireAuth (auth_view sh) \<and>
      request_ok (cl_auth lib) K (service_name_of (auth_view sh)) (RequireAuth (auth_view sh)) (o1, ac)"
    and "ac_method ac = rx_method rx" "synced ac \<or> (case o1 of AuthDone st \<Rightarrow> \<not> ok st | _ \<Rightarrow> False)"
    and "out = (case o1 of AuthDone st \<Rightarrow> Called st | AwaitJwksUri \<Rightarrow> Waits (WaitJwksUri ac)
        | AwaitPubKey \<Rightarrow> Waits (WaitPubKey ac) | NoCallback \<Rightarrow> Dropped)"
  shows "handler_post (auth_shared lib K name required L) (auth_request lib K name required L i) (auth_waiting lib K name required L i)
    2 out (put_auth s1 sh) (put_checker ac rx)"
proof -
  have v: "auth_view (put_auth s1 sh) = s1" by (rule auth_view_put_auth [OF assms(2)])
  have s: "auth_shared lib K name required L (put_auth s1 sh)" using assms(1,3) by (simp add: auth_shared_def v)
  have c: "checker_ok (cl_auth lib) K name required o1 ac rx" if "synced ac"
    using assms(1,3,4) that by (simp add: checker_ok_def auth_shared_def)
  then have c': "checker_ok (cl_auth lib) K name required o1 ac (put_checker ac rx)" if "synced ac"
    using that by (simp add: checker_ok_def put_checker_def)
  show ?thesis
    using s c c' assms(5,6) checker_passed
    by (cases o1) (auto simp: handler_post_def auth_waiting_def auth_request_def)
qed

lemma auth_other:
  assumes "auth_shared lib K name required L sh'" "auth_request lib K name required L i n rx" "same_request rx rx'"
    and "n \<noteq> 2" "case out of Waits w \<Rightarrow> wait_index w = n | _ \<Rightarrow> True"
  shows "handler_post (auth_shared lib K name required L) (auth_request lib K name required L i) (auth_waiting lib K name required L i)
    n out sh' rx'"
proof -
  have "auth_request lib K name required L i (n + 1) rx'" "auth_request lib K name required L i n rx'"
    using auth_request_same [OF assms(2,3)] assms(4) by (auto simp: auth_request_def)
  then show ?thesis
    using assms(1,4,5) by (auto simp: handler_post_def auth_waiting_def split: handler_outcome.splits check_wait.splits)
qed

lemma rules_answer_step:
  assumes "resume_handler lib ck w e sh rx = Some (out, sh', rx', es)" "wait_index w = 3"
  shows "(\<exists>rs. sh' = put_rules rs sh) \<and> rx' = rx \<and> (case out of Waits w \<Rightarrow> wait_index w = 3 | _ \<Rightarrow> True)"
proof -
  obtain r where "rules_outcome_of r sh rx = Some (out, sh', rx', es)"
    using assms by (cases w; cases e) auto
  then show ?thesis by (rule rules_step) (auto split: rules_outcome.splits)
qed

lemma auth_start:
  assumes "auth_shared lib K name required L sh" "auth_request lib K name required L i n rx" "n < length RegisterAll"
    and h: "start_handler lib ck (RegisterAll ! n) sh rx = Some (out, sh', rx', es)"
  shows "handler_post (auth_shared lib K name required L) (auth_request lib K name required L i) (auth_waiting lib K name required L i)
    n out sh' rx'"
  using assms(3)
proof (cases rule: RegisterAll_nth)
  case 1
  then have "same_shared sh sh' \<and> rx' = rx \<and> (out = Waits WaitToken \<or> (\<exists>st. out = Called st))"
    using h by (simp add: token_step)
  then show ?thesis using 1 auth_shared_same [OF assms(1)] assms(2) by (intro auth_other) auto
next
  case 2
  then obtain a r where "token_outcome (WaitIdentity a) r sh rx = Some (out, sh', rx', es)" using h by (auto simp: Let_def)
  from token_step [OF this] show ?thesis using 2 auth_shared_same [OF assms(1)] assms(2) by (intro auth_other) auto
next
  case 3
  then have a: "auth_outcome_of (CheckAuth (cl_auth lib) (ck_ticks ck) (FindHeader (rx_request rx)) (FindQuery (rx_request rx))
      (rx_method rx) (auth_view sh)) sh rx = Some (out, sh', rx', es)" using h by simp
  then obtain o1 s1 ac es1 where c: "CheckAuth (cl_auth lib) (ck_ticks ck) (FindHeader (rx_request rx)) (FindQuery (rx_request rx))
      (rx_method rx) (auth_view sh) = Some (o1, s1, ac, es1)" "sh' = put_auth s1 sh" "rx' = put_checker ac rx"
    "out = (case o1 of AuthDone st \<Rightarrow> Called st | AwaitJwksUri \<Rightarrow> Waits (WaitJwksUri ac)
        | AwaitPubKey \<Rightarrow> Waits (WaitPubKey ac) | NoCallback \<Rightarrow> Dropped)" by (rule auth_step)
  have f: "same_service (auth_view sh) s1" "ac_method ac = rx_method rx" "synced ac \<or> (case o1 of AuthDone st \<Rightarrow> \<not> ok st | _ \<Rightarrow> False)"
    using sync_frame_CheckAuth [of "auth_view sh" "rx_method rx" "cl_auth lib" "ck_ticks ck" "FindHeader (rx_request rx)" "FindQuery (rx_request rx)"]
    unfolding c(1) sync_frame_def by simp_all
  show ?thesis
    unfolding 3(1) c(2,3) by (rule auth_post [OF assms(1) f(1) CheckAuth_ok [OF c(1)] f(2,3) c(4)])
      (use assms(1) in \<open>simp_all add: auth_shared_def\<close>)
next
  case 4
  then have "rules_outcome_of (CheckSecurityRules (cl_rules lib) (ck_now ck) (ck_now_ns ck) (sh_context sh) rx (rules_view sh)) sh rx =
      Some (out, sh', rx', es)" using h by simp
  then obtain rs o1 where "sh' = put_rules rs sh" "rx' = rx"
    "out = (case o1 of RulesDone st \<Rightarrow> Called st | AwaitRelease \<Rightarrow> Waits WaitRelease | AwaitTest fr \<Rightarrow> Waits (WaitTest fr))"
    by (rule rules_step)
  then show ?thesis using 4 auth_shared_rules [OF assms(1)] assms(2) by (intro auth_other) (auto split: rules_outcome.splits)
next
  case 5
  then have "same_shared sh sh' \<and> same_request rx rx' \<and> (out = Waits WaitCheck \<or> (\<exists>st. out = Called st))"
    using h by (simp add: control_step)
  then show ?thesis using 5 auth_shared_same [OF assms(1)] assms(2) by (intro auth_other) auto
next
  case 6
  then have "same_shared sh sh' \<and> rx' = rx \<and> (out = Waits WaitQuota \<or> (\<exists>st. out = Called st))"
    using h by (simp add: quota_step)
  then show ?thesis using 6 auth_shared_same [OF assms(1)] assms(2) by (intro auth_other) auto
qed

lemma auth_answered:
  assumes "auth_shared lib K name required L sh" "checker_ok (cl_auth lib) K name required o0 ac rx" "frame (auth_view sh) ac r"
    and "auth_outcome_of r sh rx = Some (out, sh', rx', es)"
    and "\<And>o1 s1 ac1 es1. r = Some (o1, s1, ac1, es1) \<Longrightarrow>
      caches_ok (cl_auth lib) K s1 \<and> service_name_of s1 = service_name_of (auth_view sh) \<and> RequireAuth s1 = RequireAuth (auth_view sh) \<and>
      request_ok (cl_auth lib) K (service_name_of (auth_view sh)) (RequireAuth (auth_view sh)) (o1, ac1)"
  shows "handler_post (auth_shared lib K name required L) (auth_request lib K name required L i) (auth_waiting lib K name required L i)
    2 out sh' rx'"
proof -
  obtain o1 s1 ac1 es1 where c: "r = Some (o1, s1, ac1, es1)" "sh' = put_auth s1 sh" "rx' = put_checker ac1 rx"
      "out = (case o1 of AuthDone st \<Rightarrow> Called st | AwaitJwksUri \<Rightarrow> Waits (WaitJwksUri ac1)
          | AwaitPubKey \<Rightarrow> Waits (WaitPubKey ac1) | NoCallback \<Rightarrow> Dropped)"
    using assms(4) by (rule auth_step)
  have "same_service (auth_view sh) s1 \<and> synced ac1 \<and> ac_method ac1 = rx_method rx"
    using assms(2,3) c(1) synced_same [of ac ac1] by (simp add: frame_def same_checker_def checker_ok_def)
  then show ?thesis unfolding c(2,3) using auth_post [OF assms(1) _ assms(5) [OF c(1)] _ _ c(4)] by blast
qed

lemma auth_resume:
  assumes "auth_shared lib K name required L sh" "auth_waiting lib K name required L i n w rx" "event_ok K w e"
    and h: "resume_handler lib ck w e sh rx = Some (out, sh', rx', es)"
  shows "handler_post (auth_shared lib K name required L) (auth_request lib K name required L i) (auth_waiting lib K name required L i)
    n out sh' rx'"
proof -
  have n: "n = wait_index w" "auth_request lib K name required L i n rx" using assms(2) by (auto simp: auth_waiting_def)
  have sh: "lru_laws (ae_lru (cl_auth lib))" "caches_ok (cl_auth lib) K (auth_view sh)" "service_name_of (auth_view sh) = name"
      "RequireAuth (auth_view sh) = required" using assms(1) by (simp_all add: auth_shared_def)
  have refl: "same_service (auth_view sh) (auth_view sh)" "same_checker ac ac" for ac :: "'a auth_checker"
    by (simp_all add: same_service_def same_checker_def)
  consider (jwks) ac where "w = WaitJwksUri ac" | (pub) ac where "w = WaitPubKey ac" | (rules) "wait_index w = 3"
    | (other) "wait_index w \<noteq> 2" "wait_index w \<noteq> 3" by (cases w) auto
  then show ?thesis
  proof cases
    case (jwks ac)
    then obtain st body where e: "e = HttpResponse st body" using h by (cases e) auto
    have a: "auth_outcome_of (PostFetchJwksUri (cl_auth lib) st body (auth_view sh) ac) sh rx = Some (out, sh', rx', es)"
      using h jwks e by simp
    have w: "checker_ok (cl_auth lib) K name required AwaitJwksUri ac rx" using assms(2) jwks by (simp add: auth_waiting_def)
    show ?thesis unfolding n(1) jwks wait_index.simps
      by (rule auth_answered [OF assms(1) w frame_PostFetchJwksUri [OF refl] a], rule PostFetchJwksUri_ok)
        (use w sh in \<open>auto simp: checker_ok_def\<close>)
  next
    case (pub ac)
    then obtain st body where e: "e = HttpResponse st body" using h by (cases e) auto
    have a: "auth_outcome_of (PostFetchPubKey (cl_auth lib) (ck_ticks ck) st body (auth_view sh) ac) sh rx = Some (out, sh', rx', es)"
      using h pub e by simp
    have w: "checker_ok (cl_auth lib) K name required AwaitPubKey ac rx" using assms(2) pub by (simp add: auth_waiting_def)
    show ?thesis unfolding n(1) pub wait_index.simps
      by (rule auth_answered [OF assms(1) w frame_PostFetchPubKey [OF refl] a], rule PostFetchPubKey_ok)
        (use w sh assms(3) pub e in \<open>auto simp: checker_ok_def event_ok_def\<close>)
  next
    case rules
    then show ?thesis using n rules_answer_step [OF h rules] auth_shared_rules [OF assms(1)]
      by (intro auth_other) (auto split: handler_outcome.splits)
  next
    case other
    then show ?thesis using n answer_step [OF h other] auth_shared_same [OF assms(1)] by (intro auth_other) auto
  qed
qed

interpretation auth_chain: check_chain lib K "auth_shared lib K name required" "auth_request lib K name required"
    "auth_waiting lib K name required" for lib K name required
proof (unfold_locales, goal_cases)
  case 1
  then show ?case by (simp add: auth_request_def)
next
  case 2
  then show ?case by (blast intro: auth_start)
next
  case 3
  then show ?case by (blast intro: auth_resume)
next
  case 4
  then show ?case by (rule auth_request_same)
next
  case 5
  then show ?case by (rule auth_shared_same)
qed (auto simp: auth_shared_def auth_request_def auth_waiting_def)

section \<open>Security rules\<close>

text \<open>The exchanges with the rules service among the steps.\<close>

definition rules_exchanges :: "'v check_step list \<Rightarrow> rules_history" where
  "rules_exchanges L = {(rx, ruleset, xs @ [(fst (GetHttpRequest fr), body)], ck_now_ns ck) | i rx ruleset xs ck fr st body.
     (i, rx, ck, Some (WaitTest fr, HttpResponse st body)) \<in> set L}"

definition rules_passed :: "'e rules_env \<Rightarrow> service_context \<Rightarrow> 'v check_step list \<Rightarrow> nat \<Rightarrow> request_context \<Rightarrow> bool" where
  "rules_passed env sx L i rx \<longleftrightarrow> (\<forall>m. IsRulesCheckEnabled sx \<and> rx_method rx = Some m \<and> auth m \<longrightarrow>
     (\<exists>rx0 ck r. (i, rx0, ck, r) \<in> set L \<and> rules_allowed env sx (rules_exchanges L) (authz_key env rx) (ck_now_ns ck)))"

definition rules_shared ::
    "('v, 'c, 'e, 'k, 'd) check_lib \<Rightarrow> service_context \<Rightarrow> 'v check_step list \<Rightarrow> ('c, 'e, 'd) service_shared \<Rightarrow> bool" where
  "rules_shared lib sx L sh \<longleftrightarrow> lru_laws (re_lru (cl_rules lib)) \<and> (\<forall>c. fb_equals (re_firebase (cl_rules lib)) c c) \<and>
     cache_ok (cl_rules lib) sx (rules_exchanges L) (sh_authz_cache sh) \<and> rules_same sx (sh_context sh)"

definition rules_request_at ::
    "('v, 'c, 'e, 'k, 'd) check_lib \<Rightarrow> service_context \<Rightarrow> 'v check_step list \<Rightarrow> nat \<Rightarrow> nat \<Rightarrow> request_context \<Rightarrow> bool" where
  "rules_request_at lib sx L i n rx \<longleftrightarrow> (3 < n \<longrightarrow> rules_passed (cl_rules lib) sx L i rx)"

definition rules_waiting ::
    "('v, 'c, 'e, 'k, 'd) check_lib \<Rightarrow> service_context \<Rightarrow> 'v check_step list \<Rightarrow> nat \<Rightarrow> nat \<Rightarrow> 'v check_wait \<Rightarrow> request_context \<Rightarrow> bool" where
  "rules_waiting lib sx L i n w rx \<longleftrightarrow> n = wait_index w \<and> rules_request_at lib sx L i n rx \<and>
     (\<forall>fr. w = WaitTest fr \<longrightarrow> (\<exists>ruleset xs. fb_run (re_firebase (cl_rules lib)) (firebase_server_of sx) ruleset rx xs fr \<and>
        \<not> fr_is_done fr))"

lemma rules_exchanges_mono: "rules_exchanges L \<subseteq> rules_exchanges (L @ [s])"
  unfolding rules_exchanges_def set_append by blast

lemma rules_allowed_subset: "rules_allowed env sx H k t \<Longrightarrow> H \<subseteq> H' \<Longrightarrow> rules_allowed env sx H' k t"
  by (fastforce simp: rules_allowed_def)

lemma rules_passed_step: "rules_passed env sx L i rx \<Longrightarrow> rules_passed env sx (L @ [s]) i rx"
  using rules_allowed_subset [OF _ rules_exchanges_mono [of L s]] unfolding rules_passed_def by fastforce

lemma rules_request_at_same: "rules_request_at lib sx L i n rx \<Longrightarrow> same_request rx rx' \<Longrightarrow> rules_request_at lib sx L i n rx'"
  by (simp add: rules_request_at_def rules_passed_def same_request_def authz_key_def)

lemma rules_shared_same: "rules_shared lib sx L sh \<Longrightarrow> same_shared sh sh' \<Longrightarrow> rules_shared lib sx L sh'"
  using rules_same_trans by (auto simp: rules_shared_def same_shared_def)

lemma rules_shared_auth:
  "rules_shared lib sx L sh \<Longrightarrow> same_service (auth_view sh) s \<Longrightarrow> rules_shared lib sx L (put_auth s sh)"
  using rules_same_trans [OF _ rules_same_put_auth] by (auto simp: rules_shared_def put_auth_def)

lemma rules_other:
  assumes "rules_shared lib sx L sh'" "n < 3 \<or> n \<noteq> 3 \<and> rules_request_at lib sx L i n rx \<and> same_request rx rx'"
    and "case out of Waits w \<Rightarrow> wait_index w = n | _ \<Rightarrow> True"
  shows "handler_post (rules_shared lib sx L) (rules_request_at lib sx L i) (rules_waiting lib sx L i) n out sh' rx'"
proof -
  have "rules_request_at lib sx L i (n + 1) rx'" "rules_request_at lib sx L i n rx'"
    using rules_request_at_same [of lib sx L i n rx rx'] assms(2) by (auto simp: rules_request_at_def)
  then show ?thesis
    using assms by (auto simp: handler_post_def rules_waiting_def split: handler_outcome.splits)
qed

lemma rules_post:
  assumes "rules_shared lib sx L sh" "(i, rx0, ck, r) \<in> set L"
    and "cache_ok (cl_rules lib) sx (rules_exchanges L) (rs_authz_cache rs) \<and>
      rules_request_ok (cl_rules lib) sx (rules_exchanges L) (rx, ck_now_ns ck, o1, ruleset, xs)"
    and "out = (case o1 of RulesDone st \<Rightarrow> Called st | AwaitRelease \<Rightarrow> Waits WaitRelease | AwaitTest fr \<Rightarrow> Waits (WaitTest fr))"
  shows "handler_post (rules_shared lib sx L) (rules_request_at lib sx L i) (rules_waiting lib sx L i) 3 out (put_rules rs sh) rx"
proof -
  have "sh_authz_cache (put_rules rs sh) = rs_authz_cache rs" by (simp add: put_rules_def put_tokens_def)
  then have "rules_shared lib sx L (put_rules rs sh)"
    using assms(1,3) rules_same_trans [OF _ rules_same_put(2) [of sh rs]] by (auto simp: rules_shared_def)
  then show ?thesis
    using assms(2,3,4) by (cases o1)
      (auto simp: handler_post_def rules_waiting_def rules_request_at_def rules_request_ok_def rules_passed_def)
qed

lemma rules_start:
  assumes "rules_shared lib sx L sh" "rules_request_at lib sx L i n rx" "n < length RegisterAll" "(i, rx0, ck, r) \<in> set L"
    and h: "start_handler lib ck (RegisterAll ! n) sh rx = Some (out, sh', rx', es)"
  shows "handler_post (rules_shared lib sx L) (rules_request_at lib sx L i) (rules_waiting lib sx L i) n out sh' rx'"
  using assms(3)
proof (cases rule: RegisterAll_nth)
  case 1
  then have "same_shared sh sh' \<and> rx' = rx \<and> (out = Waits WaitToken \<or> (\<exists>st. out = Called st))"
    using h by (simp add: token_step)
  then show ?thesis using 1 rules_shared_same [OF assms(1)] assms(2) by (intro rules_other [where rx = rx]) auto
next
  case 2
  then obtain a r where "token_outcome (WaitIdentity a) r sh rx = Some (out, sh', rx', es)" using h by (auto simp: Let_def)
  from token_step [OF this] show ?thesis
    using 2 rules_shared_same [OF assms(1)] assms(2) by (intro rules_other [where rx = rx]) auto
next
  case 3
  then have "auth_outcome_of (CheckAuth (cl_auth lib) (ck_ticks ck) (FindHeader (rx_request rx)) (FindQuery (rx_request rx))
      (rx_method rx) (auth_view sh)) sh rx = Some (out, sh', rx', es)" using h by simp
  then obtain o1 s1 ac es1 where c: "CheckAuth (cl_auth lib) (ck_ticks ck) (FindHeader (rx_request rx)) (FindQuery (rx_request rx))
      (rx_method rx) (auth_view sh) = Some (o1, s1, ac, es1)" "sh' = put_auth s1 sh" "rx' = put_checker ac rx"
    "out = (case o1 of AuthDone st \<Rightarrow> Called st | AwaitJwksUri \<Rightarrow> Waits (WaitJwksUri ac)
        | AwaitPubKey \<Rightarrow> Waits (WaitPubKey ac) | NoCallback \<Rightarrow> Dropped)" by (rule auth_step)
  have "same_service (auth_view sh) s1"
    using sync_frame_CheckAuth [of "auth_view sh" "rx_method rx" "cl_auth lib" "ck_ticks ck" "FindHeader (rx_request rx)" "FindQuery (rx_request rx)"]
    unfolding c(1) sync_frame_def by simp
  then show ?thesis
    using 3 rules_shared_auth [OF assms(1)] c by (intro rules_other [where rx = rx]) (auto split: auth_outcome.splits)
next
  case 4
  then have "rules_outcome_of (CheckSecurityRules (cl_rules lib) (ck_now ck) (ck_now_ns ck) (sh_context sh) rx (rules_view sh)) sh rx =
      Some (out, sh', rx', es)" using h by simp
  then obtain o1 rs es1 where
      c: "CheckSecurityRules (cl_rules lib) (ck_now ck) (ck_now_ns ck) (sh_context sh) rx (rules_view sh) = Some (o1, rs, es1)"
        "sh' = put_rules rs sh" "rx' = rx"
        "out = (case o1 of RulesDone st \<Rightarrow> Called st | AwaitRelease \<Rightarrow> Waits WaitRelease | AwaitTest fr \<Rightarrow> Waits (WaitTest fr))"
    by (rule rules_step)
  have sx: "rules_same sx (sh_context sh)" using assms(1) by (simp add: rules_shared_def)
  note ok = CheckSecurityRules_ok [OF c(1) [unfolded rules_same_steps(1) [OF sx]]]
  show ?thesis unfolding 4(1) c(2,3)
    by (rule rules_post [OF assms(1,4) ok c(4)]) (use assms(1) in \<open>simp_all add: rules_shared_def rules_view_def\<close>)
next
  case 5
  then have "same_shared sh sh' \<and> same_request rx rx' \<and> (out = Waits WaitCheck \<or> (\<exists>st. out = Called st))"
    using h by (simp add: control_step)
  then show ?thesis using 5 rules_shared_same [OF assms(1)] assms(2) by (intro rules_other [where rx = rx]) auto
next
  case 6
  then have "same_shared sh sh' \<and> rx' = rx \<and> (out = Waits WaitQuota \<or> (\<exists>st. out = Called st))"
    using h by (simp add: quota_step)
  then show ?thesis using 6 rules_shared_same [OF assms(1)] assms(2) by (intro rules_other [where rx = rx]) auto
qed

lemma auth_answer_step:
  assumes "resume_handler lib ck w e sh rx = Some (out, sh', rx', es)" "wait_index w = 2"
  shows "(\<exists>s. sh' = put_auth s sh \<and> same_service (auth_view sh) s) \<and> (case out of Waits w \<Rightarrow> wait_index w = 2 | _ \<Rightarrow> True)"
proof -
  have refl: "same_service (auth_view sh) (auth_view sh)" "same_checker ac ac" for ac :: "'a auth_checker"
    by (simp_all add: same_service_def same_checker_def)
  consider ac st body where "w = WaitJwksUri ac" "e = HttpResponse st body" | ac st body where "w = WaitPubKey ac" "e = HttpResponse st body"
    using assms by (cases w; cases e) auto
  then have "\<exists>ac r. auth_outcome_of r sh rx = Some (out, sh', rx', es) \<and> frame (auth_view sh) ac r"
  proof cases
    case 1
    then have "auth_outcome_of (PostFetchJwksUri (cl_auth lib) st body (auth_view sh) ac) sh rx = Some (out, sh', rx', es)"
      using assms(1) by simp
    then show ?thesis using frame_PostFetchJwksUri [OF refl] by blast
  next
    case 2
    then have "auth_outcome_of (PostFetchPubKey (cl_auth lib) (ck_ticks ck) st body (auth_view sh) ac) sh rx = Some (out, sh', rx', es)"
      using assms(1) by simp
    then show ?thesis using frame_PostFetchPubKey [OF refl] by blast
  qed
  then obtain ac r where r: "auth_outcome_of r sh rx = Some (out, sh', rx', es)" "frame (auth_view sh) ac r" by blast
  from r(1) show ?thesis by (rule auth_step) (use r(2) in \<open>auto simp: frame_def split: auth_outcome.splits\<close>)
qed

lemma rules_resume:
  assumes "rules_shared lib sx L sh" "rules_waiting lib sx L i n w rx" "(i, rx, ck, Some (w, e)) \<in> set L"
    and h: "resume_handler lib ck w e sh rx = Some (out, sh', rx', es)"
  shows "handler_post (rules_shared lib sx L) (rules_request_at lib sx L i) (rules_waiting lib sx L i) n out sh' rx'"
proof -
  have n: "n = wait_index w" "rules_request_at lib sx L i n rx" using assms(2) by (auto simp: rules_waiting_def)
  have sh: "lru_laws (re_lru (cl_rules lib))" "\<And>c. fb_equals (re_firebase (cl_rules lib)) c c" "rules_same sx (sh_context sh)"
      "cache_ok (cl_rules lib) sx (rules_exchanges L) (rs_authz_cache (rules_view sh))"
    using assms(1) by (simp_all add: rules_shared_def rules_view_def)
  consider (auth) "wait_index w = 2" | (release) "w = WaitRelease" | (test) fr where "w = WaitTest fr"
    | (other) "wait_index w \<noteq> 2" "wait_index w \<noteq> 3" by (cases w) auto
  then show ?thesis
  proof cases
    case auth
    then show ?thesis using n auth_answer_step [OF h auth] rules_shared_auth [OF assms(1)]
      by (intro rules_other [where rx = rx]) (auto split: handler_outcome.splits)
  next
    case release
    then obtain st body where e: "e = HttpResponse st body" using h by (cases e) auto
    have "rules_outcome_of (release_response (cl_rules lib) (ck_iter ck) (ck_now ck) (ck_now_ns ck) (sh_context sh) rx st body
        (rules_view sh)) sh rx = Some (out, sh', rx', es)" using h release e by simp
    then obtain o1 rs es1 where c: "release_response (cl_rules lib) (ck_iter ck) (ck_now ck) (ck_now_ns ck) (sh_context sh) rx st body
        (rules_view sh) = Some (o1, rs, es1)" "sh' = put_rules rs sh" "rx' = rx"
        "out = (case o1 of RulesDone st \<Rightarrow> Called st | AwaitRelease \<Rightarrow> Waits WaitRelease | AwaitTest fr \<Rightarrow> Waits (WaitTest fr))"
      by (rule rules_step)
    have "\<exists>st' ruleset es'. o1 = RulesDone st' \<or> ParseReleaseResponse (cl_rules lib) body = Some (st', ruleset, es')"
      using c(1) by (auto simp: release_response_def bind_eq_Some_conv split: if_splits)
    then obtain st' ruleset es' where p: "o1 = RulesDone st' \<or> ParseReleaseResponse (cl_rules lib) body = Some (st', ruleset, es')" by blast
    note ok = release_response_ok [OF c(1) [unfolded rules_same_steps(2) [OF sh(3)]] sh(4,1,2) p]
    show ?thesis unfolding n(1) release wait_index.simps c(2,3) by (rule rules_post [OF assms(1,3) ok c(4)])
  next
    case (test fr)
    then obtain st body where e: "e = HttpResponse st body" using h by (cases e) auto
    have "rules_outcome_of (test_response (cl_rules lib) (ck_now ck) (ck_now_ns ck) rx st body fr (rules_view sh)) sh rx =
        Some (out, sh', rx', es)" using h test e by simp
    then obtain o1 rs es1 where c: "test_response (cl_rules lib) (ck_now ck) (ck_now_ns ck) rx st body fr (rules_view sh) =
        Some (o1, rs, es1)" "sh' = put_rules rs sh" "rx' = rx"
        "out = (case o1 of RulesDone st \<Rightarrow> Called st | AwaitRelease \<Rightarrow> Waits WaitRelease | AwaitTest fr \<Rightarrow> Waits (WaitTest fr))"
      by (rule rules_step)
    obtain ruleset xs where run: "fb_run (re_firebase (cl_rules lib)) (firebase_server_of sx) ruleset rx xs fr" "\<not> fr_is_done fr"
      using assms(2) test by (auto simp: rules_waiting_def)
    have "(rx, ruleset, xs @ [(fst (GetHttpRequest fr), body)], ck_now_ns ck) \<in> rules_exchanges L"
      using assms(3) test e unfolding rules_exchanges_def by blast
    note ok = test_response_ok [OF c(1) sh(4,1,2) run refl this]
    show ?thesis unfolding n(1) test wait_index.simps c(2,3) by (rule rules_post [OF assms(1,3) ok c(4)])
  next
    case other
    then show ?thesis using n answer_step [OF h other] rules_shared_same [OF assms(1)] by (intro rules_other [where rx = rx]) auto
  qed
qed

lemma rules_shared_step: "rules_shared lib sx L sh \<Longrightarrow> rules_shared lib sx (L @ [s]) sh"
  using rules_allowed_subset [OF _ rules_exchanges_mono [of L s]] by (fastforce simp: rules_shared_def cache_ok_def)

interpretation rules_chain: check_chain lib K "rules_shared lib sx" "rules_request_at lib sx" "rules_waiting lib sx" for lib K sx
proof (unfold_locales, goal_cases)
  case 1
  then show ?case by (simp add: rules_request_at_def)
next
  case 2
  then show ?case by (blast intro: rules_start)
next
  case 3
  then show ?case by (blast intro: rules_resume)
next
  case 4
  then show ?case by (rule rules_request_at_same)
next
  case 5
  then show ?case by (rule rules_shared_same)
next
  case 6
  then show ?case by (rule rules_shared_step)
qed (auto simp: rules_request_at_def rules_waiting_def rules_passed_step)

section \<open>Service control and quota\<close>

text \<open>
  The answers of the client: the name and the policy of the client decide what an answer means.
\<close>

definition check_allows :: "(string \<times> bool) option \<Rightarrow> proto_status \<Rightarrow> check_response \<Rightarrow> bool" where
  "check_allows client status response \<longleftrightarrow> (case client of
     None \<Rightarrow> False
   | Some (name, fail_open) \<Rightarrow>
       if error_code status = OK_CODE then ok (fst (ConvertCheckResponse response name CheckResponseInfo))
       else fail_open \<and> StatusCodeIs5xxHttpCode (error_code status))"

definition quota_allows :: "(string \<times> bool) option \<Rightarrow> proto_status \<Rightarrow> quota_response \<Rightarrow> bool" where
  "quota_allows client status response \<longleftrightarrow> (case client of
     None \<Rightarrow> False
   | Some (name, _) \<Rightarrow>
       let st = (if error_code status = OK_CODE then ConvertAllocateQuotaResponse response name
                 else Status3 (error_code status) (error_message status) SERVICE_CONTROL)
       in ok st \<or> code st = UNAVAILABLE)"

definition control_passed :: "(string \<times> bool) option \<Rightarrow> 'v check_step list \<Rightarrow> nat \<Rightarrow> request_context \<Rightarrow> bool" where
  "control_passed client L i rx \<longleftrightarrow> (\<exists>m. rx_method rx = Some m \<and> (client \<noteq> None \<and> \<not> skip_service_control m \<longrightarrow>
     (rx_api_key rx = [] \<and> allow_unregistered_calls m) \<or>
     (\<exists>rx0 ck status response. (i, rx0, ck, Some (WaitCheck, ClientCheckAnswer status response)) \<in> set L \<and>
        check_allows client status response)))"

definition quota_passed :: "(string \<times> bool) option \<Rightarrow> 'v check_step list \<Rightarrow> nat \<Rightarrow> request_context \<Rightarrow> bool" where
  "quota_passed client L i rx \<longleftrightarrow> (\<forall>m. rx_method rx = Some m \<and> metric_cost_vector m \<noteq> [] \<and> \<not> skip_service_control m \<longrightarrow>
     (\<exists>rx0 ck status response. (i, rx0, ck, Some (WaitQuota, ClientQuotaAnswer status response)) \<in> set L \<and>
        quota_allows client status response))"

definition control_shared :: "(string \<times> bool) option \<Rightarrow> 'v check_step list \<Rightarrow> ('c, 'e, 'd) service_shared \<Rightarrow> bool" where
  "control_shared client L sh \<longleftrightarrow> client_view sh = client"

definition control_request :: "(string \<times> bool) option \<Rightarrow> 'v check_step list \<Rightarrow> nat \<Rightarrow> nat \<Rightarrow> request_context \<Rightarrow> bool" where
  "control_request client L i n rx \<longleftrightarrow> (4 < n \<longrightarrow> control_passed client L i rx) \<and> (5 < n \<longrightarrow> quota_passed client L i rx)"

definition control_waiting ::
    "(string \<times> bool) option \<Rightarrow> 'v check_step list \<Rightarrow> nat \<Rightarrow> nat \<Rightarrow> 'v check_wait \<Rightarrow> request_context \<Rightarrow> bool" where
  "control_waiting client L i n w rx \<longleftrightarrow> n = wait_index w \<and> control_request client L i n rx \<and>
     (n = 4 \<longrightarrow> rx_method rx \<noteq> None)"

lemma client_view_put [simp]:
  "client_view (put_auth s sh) = client_view sh" "client_view (put_rules rs sh) = client_view sh"
  by (simp_all add: client_view_def)

lemma control_request_same: "control_request client L i n rx \<Longrightarrow> same_request rx rx' \<Longrightarrow> control_request client L i n rx'"
  by (simp add: control_request_def control_passed_def quota_passed_def same_request_def)

lemma control_other:
  assumes "control_shared client L sh'" "n < 4" "case out of Waits w \<Rightarrow> wait_index w = n | _ \<Rightarrow> True"
  shows "handler_post (control_shared client L) (control_request client L i) (control_waiting client L i) n out sh' rx'"
  using assms by (auto simp: handler_post_def control_waiting_def control_request_def split: handler_outcome.splits)

lemma control_start:
  assumes "control_shared client L sh" "control_request client L i n rx" "n < length RegisterAll"
    and h: "start_handler lib ck (RegisterAll ! n) sh rx = Some (out, sh', rx', es)"
  shows "handler_post (control_shared client L) (control_request client L i) (control_waiting client L i) n out sh' rx'"
  using assms(3)
proof (cases rule: RegisterAll_nth)
  case 1
  then obtain r where "token_outcome WaitToken r sh rx = Some (out, sh', rx', es)" using h by auto
  from token_step [OF this] show ?thesis using 1 assms(1) by (intro control_other) (auto simp: control_shared_def same_shared_def)
next
  case 2
  then obtain a r where "token_outcome (WaitIdentity a) r sh rx = Some (out, sh', rx', es)" using h by (auto simp: Let_def)
  from token_step [OF this] show ?thesis
    using 2 assms(1) by (intro control_other) (auto simp: control_shared_def same_shared_def)
next
  case 3
  then obtain r where "auth_outcome_of r sh rx = Some (out, sh', rx', es)" using h by simp
  then show ?thesis
    by (rule auth_step) (use 3 assms(1) in \<open>auto intro!: control_other simp: control_shared_def split: auth_outcome.splits\<close>)
next
  case 4
  then obtain r where "rules_outcome_of r sh rx = Some (out, sh', rx', es)" using h by simp
  then show ?thesis
    by (rule rules_step) (use 4 assms(1) in \<open>auto intro!: control_other simp: control_shared_def split: rules_outcome.splits\<close>)
next
  case 5
  then have c: "CheckServiceControl (cl_proto lib) (ck_now_ns ck) sh rx = Some (out, sh', rx', es)" using h by simp
  have s: "control_shared client L sh'" using control_step [OF c] assms(1) by (auto simp: control_shared_def same_shared_def)
  have e: "client = None \<longleftrightarrow> sh_service_control sh = None" using assms(1) by (auto simp: control_shared_def client_view_def)
  from c show ?thesis
  proof (cases rule: CheckServiceControl_cases)
    case (passed m)
    then have "control_passed client L i rx" using e by (auto simp: control_passed_def)
    then show ?thesis using 5 s passed by (simp add: handler_post_def control_request_def)
  next
    case (asked m ag info ag' calls)
    then show ?thesis using 5 s Aggregated_Check_refuses [OF asked(3)]
      by (auto simp: handler_post_def control_waiting_def control_request_def)
  qed (use s in \<open>simp add: handler_post_def\<close>)
next
  case 6
  then have c: "QuotaControl (cl_proto lib) sh rx = Some (out, sh', rx', es)" using h by simp
  have s: "control_shared client L sh'" using quota_step [OF c] assms(1) by (auto simp: control_shared_def same_shared_def)
  from c show ?thesis
  proof (cases rule: QuotaControl_cases)
    case (passed m)
    then have "quota_passed client L i rx" by (auto simp: quota_passed_def)
    then show ?thesis using 6 s passed assms(2) by (simp add: handler_post_def control_request_def)
  next
    case (asked m ag info ag' calls)
    have "\<not> ok missing_client" "code missing_client \<noteq> UNAVAILABLE" by (simp_all add: missing_client_def Status_def Status3_def ok_def)
    then show ?thesis using 6 s asked assms(2) Aggregated_Quota_refuses [OF asked(3)]
      by (auto simp: handler_post_def control_waiting_def)
  qed
qed

lemma check_answer:
  assumes "sh_service_control sh = Some ag" "check_answered (check_on_done lib traced status response ag) = Some (st, info)" "ok st"
  shows "check_allows (client_view sh) status response"
  using assms by (auto simp: check_allows_def client_view_def check_on_done_def Let_def StatusCodeIs5xxHttpCode_def split: if_splits prod.splits)

lemma quota_answer:
  assumes "sh_service_control sh = Some ag" "quota_answered (quota_on_done lib traced status response ag) = Some st"
    "ok st \<or> code st = UNAVAILABLE"
  shows "quota_allows (client_view sh) status response"
  using assms by (auto simp: quota_allows_def client_view_def quota_on_done_def Let_def split: if_splits)

lemma control_resume:
  assumes "control_shared client L sh" "control_waiting client L i n w rx" "(i, rx, ck, Some (w, e)) \<in> set L"
    and h: "resume_handler lib ck w e sh rx = Some (out, sh', rx', es)"
  shows "handler_post (control_shared client L) (control_request client L i) (control_waiting client L i) n out sh' rx'"
proof -
  have n: "n = wait_index w" "control_request client L i n rx" using assms(2) by (auto simp: control_waiting_def)
  consider (auth) "wait_index w = 2" | (rules) "wait_index w = 3" | (check) "w = WaitCheck" | (quota) "w = WaitQuota"
    | (other) "wait_index w < 2" by (cases w) auto
  then show ?thesis
  proof cases
    case auth
    then show ?thesis using n auth_answer_step [OF h auth] assms(1)
      by (intro control_other) (auto simp: control_shared_def split: handler_outcome.splits)
  next
    case rules
    then show ?thesis using n rules_answer_step [OF h rules] assms(1)
      by (intro control_other) (auto simp: control_shared_def split: handler_outcome.splits)
  next
    case check
    then obtain status response where e: "e = ClientCheckAnswer status response" using h by (cases e) auto
    obtain ag st info where a: "sh_service_control sh = Some ag" "out = Called st" "sh' = sh" "rx' = rx\<lparr>rx_check_response_info := info\<rparr>"
        "check_answered (check_on_done (cl_control lib) (rx_cloud_trace rx \<noteq> None) status response ag) = Some (st, info)"
      using h check e by (auto simp: Let_def bind_eq_Some_conv check_done_def)
    have "control_passed client L i rx'" if "ok st"
      using check_answer [OF a(1,5) that] assms(1-3) check e a(4)
      by (auto simp: control_passed_def control_shared_def control_waiting_def)
    then show ?thesis using n check a assms(1) by (simp add: handler_post_def control_request_def)
  next
    case quota
    then obtain status response where e: "e = ClientQuotaAnswer status response" using h by (cases e) auto
    obtain ag st where a: "sh_service_control sh = Some ag" "out = Called (if code st = UNAVAILABLE then Status_OK else st)"
        "sh' = sh" "rx' = rx"
        "quota_answered (quota_on_done (cl_control lib) (rx_cloud_trace rx \<noteq> None) status response ag) = Some st"
      using h quota e by (auto simp: Let_def bind_eq_Some_conv quota_done_def)
    have "quota_passed client L i rx" if "ok st \<or> code st = UNAVAILABLE"
      using quota_answer [OF a(1,5) that] assms(1,3) quota e by (auto simp: quota_passed_def control_shared_def)
    then show ?thesis using n quota a assms(1) by (auto simp: handler_post_def control_request_def)
  next
    case other
    then have "same_shared sh sh' \<and> (\<exists>st. out = Called st)" using answer_step [OF h] by auto
    then show ?thesis using n other assms(1) by (intro control_other) (auto simp: control_shared_def same_shared_def)
  qed
qed

lemma control_request_step: "control_request client L i n rx \<Longrightarrow> control_request client (L @ [s]) i n rx"
  unfolding control_request_def control_passed_def quota_passed_def set_append by blast

interpretation control_chain: check_chain lib K "control_shared client" "control_request client" "control_waiting client" for lib K client
proof (unfold_locales, goal_cases)
  case 1
  then show ?case by (simp add: control_request_def)
next
  case 2
  then show ?case by (blast intro: control_start)
next
  case 3
  then show ?case by (blast intro: control_resume)
next
  case 4
  then show ?case by (rule control_request_same)
next
  case 5
  then show ?case by (simp add: control_shared_def same_shared_def)
qed (auto simp: control_shared_def control_waiting_def control_request_step)

section \<open>What a completed check means\<close>

lemma requests_checked:
  assumes "requests_reachable lib K sh0 sh p L" "lru_laws (ae_lru (cl_auth lib))" "lru_laws (re_lru (cl_rules lib))"
    "\<And>c. fb_equals (re_firebase (cl_rules lib)) c c"
    "\<And>k. fst (lru_find (ae_lru (cl_auth lib)) k (sh_jwt_cache sh0)) = None" "sh_certs sh0 = []"
    "\<And>k. fst (lru_find (re_lru (cl_rules lib)) k (sh_authz_cache sh0)) = None"
    and "p i = Some (rx, Completed st)" "ok st"
  shows "auth_passed (cl_auth lib) K (service_name_of (auth_view sh0)) (RequireAuth (auth_view sh0)) rx \<and>
    rules_passed (cl_rules lib) (sh_context sh0) L i rx \<and>
    control_passed (client_view sh0) L i rx \<and> quota_passed (client_view sh0) L i rx"
proof -
  have n: "length RegisterAll = 6" by (simp add: RegisterAll_def)
  have "auth_shared lib K (service_name_of (auth_view sh0)) (RequireAuth (auth_view sh0)) [] sh0"
    using assms(2,5,6) by (simp add: auth_shared_def caches_ok_def GetCert_def auth_view_def)
  from auth_chain.reachable_post [OF assms(1) this] assms(8,9)
  have "auth_passed (cl_auth lib) K (service_name_of (auth_view sh0)) (RequireAuth (auth_view sh0)) rx"
    by (fastforce simp: check_post_def auth_request_def n)
  moreover have "rules_shared lib (sh_context sh0) [] sh0"
    using assms(3,4,7) by (simp add: rules_shared_def cache_ok_def)
  from rules_chain.reachable_post [OF assms(1) this] assms(8,9)
  have "rules_passed (cl_rules lib) (sh_context sh0) L i rx"
    by (fastforce simp: check_post_def rules_request_at_def n)
  moreover have "control_shared (client_view sh0) [] sh0" by (simp add: control_shared_def)
  from control_chain.reachable_post [OF assms(1) this] assms(8,9)
  have "control_passed (client_view sh0) L i rx \<and> quota_passed (client_view sh0) L i rx"
    by (fastforce simp: check_post_def control_request_def n)
  ultimately show ?thesis by blast
qed

text \<open>The responses to one request, in their order; \<open>keys\<close> are the key documents.\<close>

fun drive ::
    "('v, 'c, 'e, 'k, 'd) check_lib \<Rightarrow> check_clock \<Rightarrow> string list \<Rightarrow> check_event list \<Rightarrow> 'v check_state \<Rightarrow> ('c, 'e, 'd) service_shared \<Rightarrow>
     request_context \<Rightarrow> ('v check_state \<times> ('c, 'e, 'd) service_shared \<times> request_context) option" where
  "drive lib ck keys [] cs sh rx = Some (cs, sh, rx)"
| "drive lib ck keys (e # es) (Suspended n w) sh rx =
     (if (case w of WaitPubKey ac \<Rightarrow> (case e of HttpResponse st body \<Rightarrow> body \<in> set keys | _ \<Rightarrow> False) | _ \<Rightarrow> True)
      then (case RequestHandler_Resume lib ck n w e sh rx of
              None \<Rightarrow> None
            | Some (cs, sh, rx, _) \<Rightarrow> drive lib ck keys es cs sh rx)
      else None)"
| "drive lib ck keys (e # es) cs sh rx = None"

lemma drive_reachable:
  assumes "requests_reachable lib (\<lambda>_. set keys) sh0 sh p L" "p i = Some (rx, cs)" "drive lib ck keys es cs sh rx = Some (cs', sh', rx')"
  shows "\<exists>L'. requests_reachable lib (\<lambda>_. set keys) sh0 sh' (p(i \<mapsto> (rx', cs'))) (L @ L')"
  using assms
proof (induction lib ck keys es cs sh rx arbitrary: p L rule: drive.induct)
  case (1 lib ck keys cs sh rx)
  then show ?case by (metis append_Nil2 drive.simps(1) fun_upd_triv option.inject prod.inject)
next
  case (2 lib ck keys e es n w sh rx)
  define good where "good \<longleftrightarrow>
    (case w of WaitPubKey ac \<Rightarrow> (case e of HttpResponse st body \<Rightarrow> body \<in> set keys | _ \<Rightarrow> False) | _ \<Rightarrow> True)"
  have good: good using 2(4) unfolding drive.simps good_def [symmetric] by (metis option.distinct(1))
  obtain cs1 sh1 rx1 es1 where r: "RequestHandler_Resume lib ck n w e sh rx = Some (cs1, sh1, rx1, es1)"
    using 2(4) good unfolding drive.simps good_def [symmetric] by (cases "RequestHandler_Resume lib ck n w e sh rx") auto
  have d: "drive lib ck keys es cs1 sh1 rx1 = Some (cs', sh', rx')" using 2(4) good r unfolding drive.simps good_def [symmetric] by simp
  have "event_ok (\<lambda>_. set keys) w e" using good by (auto simp: event_ok_def good_def)
  from requests_reachable.resume [OF 2(2,3) this r]
  have "requests_reachable lib (\<lambda>_. set keys) sh0 sh1 (p(i \<mapsto> (rx1, cs1))) (L @ [(i, rx, ck, Some (w, e))])" .
  from 2(1) [OF good [unfolded good_def] r refl refl refl this _ d]
  have "\<exists>L'. requests_reachable lib (\<lambda>_. set keys) sh0 sh' (p(i \<mapsto> (rx1, cs1), i \<mapsto> (rx', cs')))
      ((L @ [(i, rx, ck, Some (w, e))]) @ L')" by (metis fun_upd_same)
  then show ?case by (metis append_assoc fun_upd_upd)
qed simp_all

section \<open>Progress\<close>

fun wait_rank :: "'v check_wait \<Rightarrow> nat" where
  "wait_rank WaitToken = 0"
| "wait_rank (WaitIdentity _) = 1"
| "wait_rank (WaitJwksUri _) = 2"
| "wait_rank (WaitPubKey _) = 3"
| "wait_rank WaitRelease = 4"
| "wait_rank (WaitTest _) = 5"
| "wait_rank WaitCheck = 6"
| "wait_rank WaitQuota = 7"

lemma wait_rank_index: "wait_index w < wait_index w' \<Longrightarrow> wait_rank w < wait_rank w'"
  by (cases w; cases w') auto

lemma start_handler_waits:
  assumes "n < length RegisterAll" "start_handler lib ck (RegisterAll ! n) sh rx = Some (Waits w, sh', rx', es)"
  shows "wait_index w = n"
  using assms(1)
proof (cases rule: RegisterAll_nth)
  case 1
  then show ?thesis using assms(2) token_step by fastforce
next
  case 2
  then obtain a r where "token_outcome (WaitIdentity a) r sh rx = Some (Waits w, sh', rx', es)" using assms(2) by (auto simp: Let_def)
  from token_step [OF this] 2 show ?thesis by simp
next
  case 3
  then obtain r where "auth_outcome_of r sh rx = Some (Waits w, sh', rx', es)" using assms(2) by simp
  then show ?thesis by (rule auth_step) (use 3 in \<open>auto split: auth_outcome.splits\<close>)
next
  case 4
  then obtain r where "rules_outcome_of r sh rx = Some (Waits w, sh', rx', es)" using assms(2) by simp
  then show ?thesis by (rule rules_step) (use 4 in \<open>auto split: rules_outcome.splits\<close>)
next
  case 5
  then have "CheckServiceControl (cl_proto lib) (ck_now_ns ck) sh rx = Some (Waits w, sh', rx', es)" using assms(2) by simp
  from control_step [OF this] 5 show ?thesis by simp
next
  case 6
  then have "QuotaControl (cl_proto lib) sh rx = Some (Waits w, sh', rx', es)" using assms(2) by simp
  from quota_step [OF this] 6 show ?thesis by simp
qed

lemma run_waits:
  assumes "n < length RegisterAll" "RunOneHandler lib ck RegisterAll n sh rx = Some (Suspended n' w, sh', rx', es)"
  shows "n \<le> n' \<and> wait_index w = n' \<and> n' < length RegisterAll"
  using assms
proof (induction "length RegisterAll - n" arbitrary: n sh rx es rule: less_induct)
  case less
  obtain o1 sh1 rx1 es1 where s: "start_handler lib ck (RegisterAll ! n) sh rx = Some (o1, sh1, rx1, es1)"
    using less.prems by (cases "start_handler lib ck (RegisterAll ! n) sh rx") (auto simp: RunOneHandler_end handler_end_def)
  show ?case
  proof (cases o1)
    case (Called st)
    then obtain es2 where c: "handler_continuation lib ck RegisterAll n st sh1 rx1 = Some (Suspended n' w, sh', rx', es2)"
      using less.prems s by (auto simp: RunOneHandler_end handler_end_def after_effects_def)
    then have more: "ok st" "n + 1 < length RegisterAll"
      by (auto simp: handler_continuation_def complete_check_def split: if_splits)
    have "length RegisterAll - (n + 1) < length RegisterAll - n" using less.prems(1) by simp
    from less.hyps [OF this more(2), of sh1 rx1 es2] show ?thesis using c more by (simp add: handler_continuation_def)
  next
    case (Waits w1)
    then show ?thesis using less.prems s start_handler_waits [OF less.prems(1)] by (auto simp: RunOneHandler_end handler_end_def)
  next
    case Dropped
    then show ?thesis using less.prems s by (simp add: RunOneHandler_end handler_end_def)
  qed
qed

lemma interception_suspended:
  "interception lib ck r = Some (Suspended n w, sh, rx, es) \<Longrightarrow> \<exists>sh rx es. r = Some (Suspended n w, sh, rx, es)"
  by (auto simp: interception_def bind_eq_Some_conv split: option.splits check_state.splits if_splits prod.splits)

lemma release_asked_once:
  "release_response env g now ns sx rx st body rs \<noteq> Some (AwaitRelease, rs', es)"
  "test_response env now ns rx st body fr rs \<noteq> Some (AwaitRelease, rs', es)"
  by (auto simp: release_response_def test_response_def CallNextRequest_def bind_eq_Some_conv split: if_splits prod.splits)

lemma resume_handler_waits:
  assumes "resume_handler lib ck w e sh rx = Some (Waits w', sh', rx', es)"
  shows "wait_index w' = wait_index w \<and> (wait_rank w < wait_rank w' \<or> (\<exists>fr fr'. w = WaitTest fr \<and> w' = WaitTest fr'))"
proof -
  have jwks: "ends_within env 1 (PostFetchJwksUri env st body s ac)" for env :: "('a, 'b) auth_env" and st body s ac
    by (simp add: FetchPubKey_ends [unfolded One_nat_def] PostFetchJwksUri_def Let_def split: option.splits)
  have pub: "ends_within env 0 (PostFetchPubKey env ts st body s ac)" for env :: "('a, 'b) auth_env" and ts st body s ac
    by (simp add: VerifySignature_ends PostFetchPubKey_def)
  consider (jwks) ac st body where "w = WaitJwksUri ac" "e = HttpResponse st body"
    | (pub) ac st body where "w = WaitPubKey ac" "e = HttpResponse st body"
    | (release) st body where "w = WaitRelease" "e = HttpResponse st body" | (test) fr st body where "w = WaitTest fr" "e = HttpResponse st body"
    | (other) "wait_index w \<noteq> 2" "wait_index w \<noteq> 3" using assms by (cases w; cases e) auto
  then show ?thesis
  proof cases
    case 1: (jwks ac st body)
    then have "auth_outcome_of (PostFetchJwksUri (cl_auth lib) st body (auth_view sh) ac) sh rx = Some (Waits w', sh', rx', es)"
      using assms by simp
    then show ?thesis using jwks [of "cl_auth lib" st body "auth_view sh" ac] 1
      by (rule_tac auth_step) (auto simp: ends_within_def split: auth_outcome.splits)
  next
    case 2: (pub ac st body)
    then have "auth_outcome_of (PostFetchPubKey (cl_auth lib) (ck_ticks ck) st body (auth_view sh) ac) sh rx = Some (Waits w', sh', rx', es)"
      using assms by simp
    then show ?thesis using pub [of "cl_auth lib" "ck_ticks ck" st body "auth_view sh" ac] 2
      by (rule_tac auth_step) (auto simp: ends_within_def split: auth_outcome.splits)
  next
    case (release st body)
    then have "rules_outcome_of (release_response (cl_rules lib) (ck_iter ck) (ck_now ck) (ck_now_ns ck) (sh_context sh) rx st body
       (rules_view sh)) sh rx = Some (Waits w', sh', rx', es)" using assms by simp
    then show ?thesis by (rule rules_step) (use release in \<open>auto simp: release_asked_once split: rules_outcome.splits\<close>)
  next
    case (test fr st body)
    then have "rules_outcome_of (test_response (cl_rules lib) (ck_now ck) (ck_now_ns ck) rx st body fr (rules_view sh)) sh rx =
      Some (Waits w', sh', rx', es)" using assms by simp
    then show ?thesis by (rule rules_step) (use test in \<open>auto simp: release_asked_once split: rules_outcome.splits\<close>)
  next
    case other
    then show ?thesis using answer_step [OF assms other] by auto
  qed
qed

text \<open>
  C6: a response brings a check forward: the check that it resumes completes, ends without its
  continuation, or waits for a later response in the order of the two tokens, the discovery
  document, the keys, the release, the test, the service control answer and the quota answer;
  only a test of the rules may be followed by another one.
\<close>

theorem check_progress:
  assumes "RequestHandler_Resume lib ck (wait_index w) w e sh rx = Some (Suspended n w', sh', rx', es)"
  shows "n = wait_index w' \<and> (wait_rank w < wait_rank w' \<or> (\<exists>fr fr'. w = WaitTest fr \<and> w' = WaitTest fr'))"
proof -
  obtain sh1 rx1 es1 where r: "resume lib ck RegisterAll (wait_index w) w e sh rx = Some (Suspended n w', sh1, rx1, es1)"
    using assms unfolding RequestHandler_Resume_def by (blast dest: interception_suspended)
  obtain o2 sh2 rx2 es2 where h: "resume_handler lib ck w e sh rx = Some (o2, sh2, rx2, es2)"
    using r by (cases "resume_handler lib ck w e sh rx") (auto simp: resume_def handler_end_def)
  show ?thesis
  proof (cases o2)
    case (Called st)
    then obtain es3 where c: "handler_continuation lib ck RegisterAll (wait_index w) st sh2 rx2 = Some (Suspended n w', sh1, rx1, es3)"
      using r h by (auto simp: resume_def handler_end_def after_effects_def)
    then have more: "ok st" "wait_index w + 1 < length RegisterAll"
      by (auto simp: handler_continuation_def complete_check_def split: if_splits)
    then have "RunOneHandler lib ck RegisterAll (wait_index w + 1) sh2 rx2 = Some (Suspended n w', sh1, rx1, es3)"
      using c by (simp add: handler_continuation_def)
    from run_waits [OF more(2) this] show ?thesis using wait_rank_index [of w w'] by simp
  next
    case (Waits w1)
    then show ?thesis using r h resume_handler_waits [of lib ck w e sh rx] by (auto simp: resume_def handler_end_def)
  next
    case Dropped
    then show ?thesis using r h by (simp add: resume_def handler_end_def)
  qed
qed

section \<open>Without a service control client\<close>

text \<open>
  C39: a service without a service control client lets a request with a method pass the service
  control check, but the quota check of a method with metric costs uses the missing client; an
  intermediate report that is due uses it as well.
\<close>

theorem missing_client_undefined:
  assumes "sh_service_control sh = None" and "rx_method rx = Some m" and "metric_cost_vector m \<noteq> []" and "\<not> skip_service_control m"
  shows "(\<exists>es. start_handler lib ck HandleCheckServiceControl sh rx = Some (Called Status_OK, sh, rx, es)) \<and>
    RunOneHandler lib ck RegisterAll 4 sh rx = None \<and>
    (gx_intermediate_report_interval (sx_global (sh_context sh)) \<le> (steady - rx_last_report_time rx) sdiv 1000000000 \<longrightarrow>
     AttemptIntermediateReport lib steady steady' now stats sh rx = None)"
proof (intro conjI impI)
  have q: "start_handler lib ck HandleQuotaControl sh rx = None"
    using assms by (simp add: QuotaControl_def bind_eq_None_conv split: option.splits)
  then have 5: "RunOneHandler lib ck RegisterAll 5 sh rx = None"
    by (simp add: RunOneHandler.simps [of lib ck RegisterAll 5]) (simp add: RegisterAll_def)
  show c: "\<exists>es. start_handler lib ck HandleCheckServiceControl sh rx = Some (Called Status_OK, sh, rx, es)"
    using assms by (simp add: CheckServiceControl_def Let_def)
  have "RegisterAll ! 4 = HandleCheckServiceControl" "length RegisterAll = 6" by (simp_all add: RegisterAll_def)
  then show "RunOneHandler lib ck RegisterAll 4 sh rx = None"
    using c 5 by (auto simp: RunOneHandler.simps [of lib ck RegisterAll 4] after_effects_def simp del: start_handler.simps)
  show "AttemptIntermediateReport lib steady steady' now stats sh rx = None"
    if "gx_intermediate_report_interval (sx_global (sh_context sh)) \<le> (steady - rx_last_report_time rx) sdiv 1000000000"
    using that assms(1) by (simp add: AttemptIntermediateReport_def bind_eq_None_conv split: option.splits)
qed

section \<open>An example\<close>

definition example_check_lib ::
    "('v, 'c) auth_env \<Rightarrow> ('v, 'c, (string \<times> authz_value) list, unit, rat list) check_lib" where
  "example_check_lib env = \<lparr>cl_auth = env, cl_rules = example_rules_env, cl_proto = example_proto_lib,
     cl_control = example_sc_lib,
     cl_context = \<lparr>xl_fl = id, xl_absl = plain_absl, xl_version = ''1'', xl_parse_json = (\<lambda>_. None)\<rparr>\<rparr>"

definition example_clock :: check_clock where
  "example_clock = \<lparr>ck_now = 0, ck_now_ns = 0, ck_ticks = example_ticks, ck_garbage = 0, ck_iter = 0, ck_rnd = 0\<rparr>"

definition metered_method :: method_info where
  "metered_method = books_method\<lparr>metric_cost_vector := [(''reads'', 2)]\<rparr>"

definition metered_rx :: request_context where
  "metered_rx = rules_rx\<lparr>rx_method := Some metered_method, rx_operation_id := ''id'', rx_api_key := ''key''\<rparr>"

definition metered_shared :: "((string \<times> jwt_value) list, (string \<times> authz_value) list, rat list) service_shared" where
  "metered_shared = \<lparr>sh_context = books_context, sh_certs = [], sh_jwt_cache = [], sh_authz_cache = [],
     sh_service_control = Some (example_agg\<lparr>ag_client := True\<rparr>)\<rparr>"

definition no_auth_env :: "(unit, (string \<times> jwt_value) list) auth_env" where
  "no_auth_env = \<lparr>ae_lru = list_lru, ae_Create = (\<lambda>_. None), ae_Parse = (\<lambda>_ _ _. None), ae_VerifySignature = (\<lambda>_ _. None),
     ae_GetExpirationTime = (\<lambda>_. 0), ae_parse_json = (\<lambda>_. None), ae_WriteUserInfoToJson = (\<lambda>_. None),
     ae_base64_encode = (\<lambda>_ _ _ _. None)\<rparr>"

definition good_check :: check_event where
  "good_check = ClientCheckAnswer \<lparr>error_code = 0, error_message = []\<rparr>
     \<lparr>cresp_project_number = 7, cresp_check_errors = [], cresp_service_rollout_id = [], cresp_service_config_id = []\<rparr>"

theorem check_progress_witness:
  "\<exists>sh rx es. RequestHandler_Resume (example_check_lib no_auth_env) example_clock 4 WaitCheck good_check metered_shared
      (set_check_continuation metered_rx) = Some (Suspended 5 WaitQuota, sh, rx, es) \<and>
    wait_rank (WaitCheck :: unit check_wait) < wait_rank (WaitQuota :: unit check_wait)"
proof -
  let ?r = "RequestHandler_Resume (example_check_lib no_auth_env) example_clock (wait_index (WaitCheck :: unit check_wait)) WaitCheck good_check
      metered_shared (set_check_continuation metered_rx)"
  have "case ?r of Some (Suspended n WaitQuota, _) \<Rightarrow> n = 5 | _ \<Rightarrow> False" by code_simp
  then obtain sh rx es where r: "?r = Some (Suspended 5 WaitQuota, sh, rx, es)"
    by (auto split: option.splits prod.splits check_state.splits check_wait.splits)
  from check_progress [OF this] r show ?thesis by simp
qed

theorem missing_client_undefined_witness:
  "RunOneHandler (example_check_lib no_auth_env) example_clock RegisterAll 4 (metered_shared\<lparr>sh_service_control := None\<rparr>) metered_rx = None"
proof -
  let ?sh = "metered_shared\<lparr>sh_service_control := None\<rparr>"
  have "sh_service_control ?sh = None" "rx_method metered_rx = Some metered_method" "metric_cost_vector metered_method \<noteq> []"
      "\<not> skip_service_control metered_method"
    by (simp_all add: metered_rx_def metered_method_def books_method_def MethodInfoImpl_def)
  from missing_client_undefined [OF this] show ?thesis by blast
qed

end
