(* ===== verification/Spec2Isabelle.thy ===== *)
theory Spec2Isabelle
  imports Esp_Config Weighted_Selector Rewrite_Rule Cloud_Trace Service_Account_Token Check_Auth Service_Control Request_Handling
begin

text \<open>
  A verification library of the Extensible Service Proxy.
\<close>

section \<open>Authentication with the JWT validator\<close>

text \<open>
  The environment of the authentication with the implementation of \<^verbatim>\<open>JwtValidator\<close>; the times of
  the validator are seconds.
\<close>

definition jwt_auth_env ::
    "'cl jwt_lib \<Rightarrow> ('x, 'pk, 'ec, 'ctx) crypto_api \<Rightarrow> 'k token_lib \<Rightarrow> (jwt_value, 'c) lru_api \<Rightarrow>
     (('cl, 'pk, 'ec) jwt_validator, 'c) auth_env" where
  "jwt_auth_env lib crypto g lru =
     \<lparr>ae_lru = lru, ae_Create = (\<lambda>jwt. Some (JwtValidatorImpl jwt)), ae_Parse = Parse lib,
      ae_VerifySignature = VerifySignature lib crypto, ae_GetExpirationTime = (\<lambda>v. Check_Auth.seconds (v_exp v)),
      ae_parse_json = json_parse lib, ae_WriteUserInfoToJson = WriteUserInfoToJson lib g,
      ae_base64_encode = esp_base64_encode g\<rparr>"

text \<open>The claims of a payload and the audiences they name.\<close>

definition payload_claims :: "'cl jwt_lib \<Rightarrow> string \<Rightarrow> 'cl \<Rightarrow> string set \<Rightarrow> bool" where
  "payload_claims lib payload cl auds \<longleftrightarrow> (\<exists>json children.
     json_parse lib (base64_decode lib payload) = Some json \<and>
     audience_children (jchildren json) = Some (auds, children) \<and>
     claims_from_json lib (Json (jtype json) (jkey json) (jvalue json) children) = Some cl)"

text \<open>
  A token of three parts whose first two are signed, by its third, under a key document served
  for the issuer of the user information, with claims that passed the check of their times.
\<close>

definition signed_token ::
    "'cl jwt_lib \<Rightarrow> ('x, 'pk, 'ec, 'ctx) crypto_api \<Rightarrow> (string \<Rightarrow> string set) \<Rightarrow> string \<Rightarrow> user_info \<Rightarrow> bool" where
  "signed_token lib crypto K tok ui \<longleftrightarrow> (\<exists>header payload sig hjson hd key now cl.
    tok = header @ ''.'' @ payload @ ''.'' @ sig \<and> CHR ''.'' \<notin> set header \<and> CHR ''.'' \<notin> set payload \<and>
    json_parse lib (base64_decode lib header) = Some hjson \<and>
    GetStringValue (Some hjson) (Some ''alg'') = Some (Some (alg hd)) \<and> supported_alg (alg hd) \<and>
    key \<in> K (ui_issuer ui) \<and>
    signature_valid lib crypto hd key (header @ ''.'' @ payload) (base64_decode lib sig) \<and>
    payload_claims lib payload cl (ui_audiences ui) \<and>
    claims_issuer lib cl = Some (ui_issuer ui) \<and> claims_check lib now cl = None)"

lemma verified_signed_token:
  assumes "verified (jwt_auth_env lib crypto g lru) K tok ui expiry"
  shows "signed_token lib crypto K tok ui"
proof -
  obtain now st1 v key st2 v' where p: "Parse lib now new_UserInfo (JwtValidatorImpl tok) = Some (st1, ui, v)" "ok st1"
      and k: "key \<in> K (ui_issuer ui)" and q: "VerifySignature lib crypto key v = Some (st2, v')" "ok st2"
    using assms by (auto simp: verified_def parsed_def jwt_auth_env_def)
  obtain header payload sig hjson cjson auds children cl hd where t:
      "tok = header @ ''.'' @ payload @ ''.'' @ sig" "CHR ''.'' \<notin> set header" "CHR ''.'' \<notin> set payload"
      "json_parse lib (base64_decode lib header) = Some hjson" "v_header v = Some hd" "supported_alg (alg hd)"
      "GetStringValue (Some hjson) (Some ''alg'') = Some (Some (alg hd))"
      "json_parse lib (base64_decode lib payload) = Some cjson" "audience_children (jchildren cjson) = Some (auds, children)"
      "claims_from_json lib (Json (jtype cjson) (jkey cjson) (jvalue cjson) children) = Some cl"
      "claims_check lib now cl = None" "claims_issuer lib cl = Some (ui_issuer ui)" "ui_audiences ui = auds"
      "v_signed_buffer v = header @ ''.'' @ payload" "v_sig_buffer v = base64_decode lib sig"
    using Parse_ok [OF p] by blast
  have "signature_valid lib crypto hd key (header @ ''.'' @ payload) (base64_decode lib sig)"
    using VerifySignature_sound [OF q t(5)] unfolding t(14,15) .
  moreover have "payload_claims lib payload cl (ui_audiences ui)" using t(8-10,13) by (auto simp: payload_claims_def)
  ultimately show ?thesis
    unfolding signed_token_def using t(1-4,6,7,11,12) k
    by (intro exI [of _ header] exI [of _ payload] exI [of _ sig] exI [of _ hjson] exI [of _ hd] exI [of _ key]
        exI [of _ now] exI [of _ cl]) (intro conjI)
qed

text \<open>
  C2: however requests and responses interleave, a request of a method that requires
  authentication is let through only with a token of three parts whose first two are signed,
  by its third, under a key document served for the issuer that its claims name, with an
  algorithm its header names, whose claims passed the check of their times, and whose issuer
  and audience the method allows.
\<close>

theorem authenticated_token_is_signed:
  assumes "auth_reachable (jwt_auth_env lib crypto g lru) K s p" and "lru_laws lru"
    and "p i = Some (AuthDone st, ac)" and "ok st"
    and "RequireAuth s" and "ac_method ac = Some m" and "auth m"
  shows "\<exists>header payload sig hjson hd key now cl.
    ac_auth_token ac = header @ ''.'' @ payload @ ''.'' @ sig \<and> CHR ''.'' \<notin> set header \<and> CHR ''.'' \<notin> set payload \<and>
    json_parse lib (base64_decode lib header) = Some hjson \<and>
    GetStringValue (Some hjson) (Some ''alg'') = Some (Some (alg hd)) \<and> supported_alg (alg hd) \<and>
    key \<in> K (ui_issuer (ac_user_info ac)) \<and>
    signature_valid lib crypto hd key (header @ ''.'' @ payload) (base64_decode lib sig) \<and>
    payload_claims lib payload cl (ui_audiences (ac_user_info ac)) \<and>
    claims_issuer lib cl = Some (ui_issuer (ac_user_info ac)) \<and> claims_check lib now cl = None \<and>
    allowed (service_name_of s) m (ac_user_info ac)"
proof -
  let ?env = "jwt_auth_env lib crypto g lru" and ?ui = "ac_user_info ac"
  have "lru_laws (ae_lru ?env)" using assms(2) by (simp add: jwt_auth_env_def)
  from auth_reachable_ok [OF assms(1) this] assms(3)
  have "request_ok ?env K (service_name_of s) (RequireAuth s) (AuthDone st, ac)" by blast
  then obtain expiry where al: "allowed (service_name_of s) m ?ui" and ver: "verified ?env K (ac_auth_token ac) ?ui expiry"
    using assms(4-7) by (auto simp: request_ok_def)
  show ?thesis using verified_signed_token [OF ver] al unfolding signed_token_def by blast
qed

text \<open>The example of the validator, run through a check and the response with its key.\<close>

definition example_jwt_env :: "((unit, string \<times> string, unit) jwt_validator, (string \<times> jwt_value) list) auth_env" where
  "example_jwt_env = jwt_auth_env example_lib example_crypto example_token_lib list_lru"

theorem authenticated_token_is_signed_witness:
  "\<exists>header payload sig hd. ''H.C.NH.C'' = header @ ''.'' @ payload @ ''.'' @ sig \<and>
     signature_valid example_lib example_crypto hd ''K'' (header @ ''.'' @ payload) (base64_decode example_lib sig)"
proof -
  let ?fh = "\<lambda>h. if h = ''authorization'' then Some ''Bearer H.C.NH.C'' else None"
  have 1: "case CheckAuth example_jwt_env example_ticks ?fh (\<lambda>_. None) (Some example_method) example_state of
      None \<Rightarrow> False
    | Some (out, s, ac, es) \<Rightarrow> out = AwaitPubKey \<and>
        (case PostFetchPubKey example_jwt_env example_ticks Status_OK ''K'' s ac of
           None \<Rightarrow> False
         | Some (out, s, ac, es) \<Rightarrow> (case out of AuthDone st \<Rightarrow> ok st | _ \<Rightarrow> False) \<and> RequireAuth s \<and>
             (case ac_method ac of None \<Rightarrow> False | Some m \<Rightarrow> auth m) \<and> ac_auth_token ac = ''H.C.NH.C'')"
    by code_simp
  obtain s1 ac1 es1 where a: "CheckAuth example_jwt_env example_ticks ?fh (\<lambda>_. None) (Some example_method) example_state =
      Some (AwaitPubKey, s1, ac1, es1)"
    using 1 by (auto split: option.splits)
  obtain s2 st ac2 es2 m where b: "PostFetchPubKey example_jwt_env example_ticks Status_OK ''K'' s1 ac1 =
      Some (AuthDone st, s2, ac2, es2)" "ok st" "RequireAuth s2" "ac_method ac2 = Some m" "auth m" "ac_auth_token ac2 = ''H.C.NH.C''"
    using 1 by (auto simp: a split: option.splits auth_outcome.splits)
  let ?K = "\<lambda>_. {''K''}"
  have "auth_reachable example_jwt_env ?K example_state (\<lambda>_. None)"
    by (rule auth_reachable.start) (simp_all add: example_jwt_env_def jwt_auth_env_def list_lru_def example_state_def)
  then have "auth_reachable example_jwt_env ?K s1 ((\<lambda>_. None)(0 \<mapsto> (AwaitPubKey, ac1)))"
    by (rule auth_reachable.arrive) (use a in simp_all)
  then have "auth_reachable example_jwt_env ?K s2 ((\<lambda>_. None)(0 \<mapsto> (AwaitPubKey, ac1), 0 \<mapsto> (AuthDone st, ac2)))"
    by (rule auth_reachable.pub_key [where ?ac = ac1]) (use b in simp_all)
  from authenticated_token_is_signed [OF this [unfolded example_jwt_env_def] list_lru_laws, of 0 st ac2 m] b
  show ?thesis by auto
qed

section \<open>Requests that are let through\<close>

text \<open>
  C1: however the requests of a service and the responses to them interleave, a check completes
  with success only for a request of a configured method; where authentication is required, with
  a token signed under a key document served for its issuer, for a user that the method allows,
  whose issuer and claims are those handed on; where the rules are enabled, after a test of the
  rules for its token, path and method that succeeded within five minutes; where a service
  control client exists, with an answer of the service to its API key, or without one where the
  method allows that; and for a method with metric costs with an answer that grants the quota or
  says that the quota service is unavailable.
\<close>

theorem completed_request_checked:
  assumes "requests_reachable clib K sh0 sh p L" and "cl_auth clib = jwt_auth_env lib crypto g lru" and "lru_laws lru"
    and "lru_laws (re_lru (cl_rules clib))" and "\<And>c. fb_equals (re_firebase (cl_rules clib)) c c"
    and "\<And>k. fst (lru_find lru k (sh_jwt_cache sh0)) = None" and "sh_certs sh0 = []"
    and "\<And>k. fst (lru_find (re_lru (cl_rules clib)) k (sh_authz_cache sh0)) = None"
    and "p i = Some (rx, Completed st)" and "ok st"
  shows "\<exists>m. rx_method rx = Some m \<and>
    (RequireAuth (auth_view sh0) \<and> auth m \<longrightarrow>
      (\<exists>ui. signed_token lib crypto K (rx_auth_token rx) ui \<and> allowed (service_name_of (auth_view sh0)) m ui \<and>
        rx_auth_issuer rx = ui_issuer ui \<and> rx_auth_claims rx = ui_claims ui)) \<and>
    (IsRulesCheckEnabled (sh_context sh0) \<and> auth m \<longrightarrow>
      (\<exists>rx0 ck r. (i, rx0, ck, r) \<in> set L \<and>
        rules_allowed (cl_rules clib) (sh_context sh0) (rules_exchanges L) (authz_key (cl_rules clib) rx) (ck_now_ns ck))) \<and>
    (sh_service_control sh0 \<noteq> None \<and> \<not> skip_service_control m \<longrightarrow>
      rx_api_key rx = [] \<and> allow_unregistered_calls m \<or>
      (\<exists>rx0 ck status response. (i, rx0, ck, Some (WaitCheck, ClientCheckAnswer status response)) \<in> set L \<and>
        check_allows (client_view sh0) status response)) \<and>
    (metric_cost_vector m \<noteq> [] \<and> \<not> skip_service_control m \<longrightarrow>
      (\<exists>rx0 ck status response. (i, rx0, ck, Some (WaitQuota, ClientQuotaAnswer status response)) \<in> set L \<and>
        quota_allows (client_view sh0) status response))"
proof -
  have lru: "ae_lru (cl_auth clib) = lru" using assms(2) by (simp add: jwt_auth_env_def)
  have c: "auth_passed (cl_auth clib) K (service_name_of (auth_view sh0)) (RequireAuth (auth_view sh0)) rx"
      "rules_passed (cl_rules clib) (sh_context sh0) L i rx"
      "control_passed (client_view sh0) L i rx" "quota_passed (client_view sh0) L i rx"
    using requests_checked [OF assms(1) _ assms(4,5) _ assms(7,8,9,10)] assms(3,6) unfolding lru by blast+
  obtain m where m: "rx_method rx = Some m" using c(3) by (auto simp: control_passed_def)
  have client: "client_view sh0 \<noteq> None \<longleftrightarrow> sh_service_control sh0 \<noteq> None" by (simp add: client_view_def)
  show ?thesis
  proof (intro exI [of _ m] conjI impI)
    assume "RequireAuth (auth_view sh0) \<and> auth m"
    then show "\<exists>ui. signed_token lib crypto K (rx_auth_token rx) ui \<and> allowed (service_name_of (auth_view sh0)) m ui \<and>
        rx_auth_issuer rx = ui_issuer ui \<and> rx_auth_claims rx = ui_claims ui"
      using c(1) m verified_signed_token unfolding auth_passed_def assms(2) by blast
  qed (use m c(2-4) client in \<open>auto simp: rules_passed_def control_passed_def quota_passed_def\<close>)
qed

text \<open>A request with a token and an API key, of a method with metric costs, and the responses to it.\<close>

definition secure_method :: method_info where
  "secure_method = (addAuthProvider ''iss'' ''svc'' [] books_method)\<lparr>auth := True, metric_cost_vector := [(''reads'', 2)]\<rparr>"

definition secure_context :: service_context where
  "secure_context = rules_context\<lparr>sx_config := SetJwksUri ''iss'' ''http://keys'' False
     (books_config\<lparr>method_map := [(''ListBooks'', secure_method)]\<rparr>)\<rparr>"

definition secure_shared :: "((string \<times> jwt_value) list, (string \<times> authz_value) list, rat list) service_shared" where
  "secure_shared = metered_shared\<lparr>sh_context := secure_context\<rparr>"

definition secure_request :: request where
  "secure_request = (books_request ''/shelves/a'')
     \<lparr>FindHeader := (\<lambda>n. if n = ''authorization'' then Some ''Bearer H.C.NH.C'' else None),
      FindQuery := (\<lambda>n. if n = ''key'' then Some ''k1'' else None)\<rparr>"

definition secure_responses :: "check_event list" where
  "secure_responses = [HttpResponse Status_OK ''K'', HttpResponse Status_OK ''r'', HttpResponse Status_OK ''allow'', good_check,
     ClientQuotaAnswer \<lparr>error_code = 0, error_message = []\<rparr> []]"

theorem completed_request_checked_witness:
  "\<exists>sh p L rx st ui. requests_reachable (example_check_lib example_jwt_env) (\<lambda>_. {''K''}) secure_shared sh p L \<and>
     p 0 = Some (rx, Completed st) \<and> ok st \<and> signed_token example_lib example_crypto (\<lambda>_. {''K''}) (rx_auth_token rx) ui"
proof -
  let ?lib = "example_check_lib example_jwt_env"
  have r: "case new_RequestHandler (cl_context ?lib) ''id'' (1, 2, 3) 0 0 (sh_context secure_shared) secure_request of
      None \<Rightarrow> False
    | Some (rx0, sx, es0) \<Rightarrow>
       (case RequestHandler_Check ?lib example_clock (secure_shared\<lparr>sh_context := sx\<rparr>) rx0 of
          None \<Rightarrow> False
        | Some (cs, sh1, rx1, es1) \<Rightarrow>
           (case drive ?lib example_clock [''K''] secure_responses cs sh1 rx1 of
              None \<Rightarrow> False
            | Some (cs', sh, rx) \<Rightarrow> (case cs' of Completed st \<Rightarrow> ok st | _ \<Rightarrow> False) \<and>
                (case rx_method rx of Some m \<Rightarrow> auth m | None \<Rightarrow> False)))"
    by code_simp
  obtain rx0 sx es0 where a: "new_RequestHandler (cl_context ?lib) ''id'' (1, 2, 3) 0 0 (sh_context secure_shared) secure_request =
      Some (rx0, sx, es0)" using r by (auto split: option.splits)
  note r = r [unfolded a option.case prod.case]
  obtain cs sh1 rx1 es1 where b: "RequestHandler_Check ?lib example_clock (secure_shared\<lparr>sh_context := sx\<rparr>) rx0 = Some (cs, sh1, rx1, es1)"
    using r by (auto split: option.splits)
  note r = r [unfolded b option.case prod.case]
  obtain st sh rx m where d: "drive ?lib example_clock [''K''] secure_responses cs sh1 rx1 = Some (Completed st, sh, rx)" "ok st"
      "rx_method rx = Some m" "auth m"
    using r by (auto split: option.splits check_state.splits)
  have K: "(\<lambda>_. {''K''}) = (\<lambda>_. set [''K''])" by simp
  have "requests_reachable ?lib (\<lambda>_. set [''K'']) secure_shared sh1 ((\<lambda>_. None)(0 \<mapsto> (rx1, cs))) ([] @ [(0, rx0, example_clock, None)])"
    by (rule requests_reachable.arrive [OF requests_reachable.start refl a b])
  from drive_reachable [OF this _ d(1), of 0]
  obtain L where reach: "requests_reachable ?lib (\<lambda>_. {''K''}) secure_shared sh ((\<lambda>_. None)(0 \<mapsto> (rx, Completed st))) L" by auto
  have env: "cl_auth ?lib = jwt_auth_env example_lib example_crypto example_token_lib list_lru" "cl_rules ?lib = example_rules_env"
    by (simp_all add: example_check_lib_def example_jwt_env_def)
  have start: "RequireAuth (auth_view secure_shared)" "sh_certs secure_shared = []" "sh_jwt_cache secure_shared = []"
      "sh_authz_cache secure_shared = []" by code_simp+
  have h: "lru_laws (re_lru (cl_rules ?lib))" "\<And>c. fb_equals (re_firebase (cl_rules ?lib)) c c"
      "\<And>k. fst (lru_find list_lru k (sh_jwt_cache secure_shared)) = None"
      "\<And>k. fst (lru_find (re_lru (cl_rules ?lib)) k (sh_authz_cache secure_shared)) = None"
    by (simp_all add: env(2) start example_rules_env_def list_lru_laws example_equals) (simp_all add: list_lru_def)
  have p: "((\<lambda>_. None)(0 \<mapsto> (rx, Completed st))) 0 = Some (rx, Completed st)" by simp
  from completed_request_checked [OF reach env(1) list_lru_laws h(1-3) start(2) h(4) p d(2)]
  have "\<exists>m. rx_method rx = Some m \<and> (RequireAuth (auth_view secure_shared) \<and> auth m \<longrightarrow>
      (\<exists>ui. signed_token example_lib example_crypto (\<lambda>_. {''K''}) (rx_auth_token rx) ui))" by blast
  then show ?thesis using reach d(2-4) start(1) by (metis fun_upd_same option.inject)
qed

end
